(* ===== verification/Rh_Prelude.thy ===== *)
theory Rh_Prelude
  imports Main "HOL-Library.Word" "HOL-Library.Sublist"
begin

text \<open>
  Shared vocabulary of the RustyHand development.

  A Rust \<open>str\<close>/\<open>String\<close> is the list of its UTF-8 bytes (\<open>string\<close>, one \<open>char\<close> per byte), so
  \<open>len()\<close> is \<open>length\<close> and byte indices are list indices. \<open>chars s\<close> cuts a string into the byte
  groups of its code points (the lead byte says how many bytes follow); \<open>utf8_ok\<close> is the shape
  every Rust string has. The library functions of \<open>str\<close> the program calls (\<open>starts_with\<close>,
  \<open>ends_with\<close>, \<open>find\<close>, \<open>split\<close>, \<open>lines\<close>, \<open>trim\<close>, \<open>replace\<close>, \<open>join\<close>, decimal formatting) are
  written out here. Two interfaces that several components share are locales: a keyed store
  (what a lookup returns after an insert or a remove) and a machine whose steps keep an
  invariant.
\<close>

named_theorems store_laws \<open>laws of the keyed stores of the components\<close>
named_theorems repair_simps \<open>how a message transformation changes what a history contains\<close>

section \<open>Searching in lists\<close>

definition starts_with :: "'a list \<Rightarrow> 'a list \<Rightarrow> bool" where
  "starts_with t p \<longleftrightarrow> take (length p) t = p"

definition ends_with :: "'a list \<Rightarrow> 'a list \<Rightarrow> bool" where
  "ends_with t p \<longleftrightarrow> length p \<le> length t \<and> drop (length t - length p) t = p"

lemma starts_with_iff: "starts_with t p \<longleftrightarrow> (\<exists>u. t = p @ u)"
  unfolding starts_with_def by (metis append_eq_conv_conj append_take_drop_id)

lemma ends_with_iff: "ends_with t p \<longleftrightarrow> (\<exists>u. t = u @ p)"
proof
  assume "ends_with t p"
  then have "t = take (length t - length p) t @ p"
    unfolding ends_with_def by (metis append_take_drop_id)
  then show "\<exists>u. t = u @ p" ..
next
  assume "\<exists>u. t = u @ p"
  then show "ends_with t p" by (auto simp: ends_with_def)
qed

lemma starts_with_Nil [simp]: "starts_with t []"
  by (simp add: starts_with_def)

lemma ends_with_Nil [simp]: "ends_with t []"
  by (simp add: ends_with_def)

lemma starts_with_append [simp]: "starts_with (p @ u) p"
  by (simp add: starts_with_def)

lemma ends_with_append [simp]: "ends_with (u @ p) p"
  by (simp add: ends_with_def)

lemma starts_with_Cons: "starts_with (x # xs) (y # ys) \<longleftrightarrow> x = y \<and> starts_with xs ys"
  by (auto simp: starts_with_def)

lemma starts_with_Nil_iff [simp]: "starts_with [] p \<longleftrightarrow> p = []"
  by (auto simp: starts_with_def)

text \<open>\<open>str::find\<close>: the leftmost occurrence.\<close>

fun find_sub :: "'a list \<Rightarrow> 'a list \<Rightarrow> nat option" where
  "find_sub p [] = (if p = [] then Some 0 else None)"
| "find_sub p (x # xs) =
     (if starts_with (x # xs) p then Some 0 else map_option Suc (find_sub p xs))"

definition contains_sub :: "'a list \<Rightarrow> 'a list \<Rightarrow> bool" where
  "contains_sub t p \<longleftrightarrow> find_sub p t \<noteq> None"

lemma find_sub_Some:
  "find_sub p t = Some i \<Longrightarrow> i + length p \<le> length t \<and> starts_with (drop i t) p"
proof (induction t arbitrary: i)
  case Nil
  then show ?case by (simp split: if_splits)
next
  case (Cons x xs)
  show ?case
  proof (cases "starts_with (x # xs) p")
    case True
    then obtain u where "x # xs = p @ u" by (auto simp: starts_with_iff)
    then have "length p \<le> length (x # xs)" by (metis length_append le_add1)
    with True Cons.prems show ?thesis by simp
  next
    case False
    with Cons.prems obtain j where "find_sub p xs = Some j" and "i = Suc j" by auto
    with Cons.IH show ?thesis by force
  qed
qed

lemma find_sub_leftmost:
  "find_sub p t = Some i \<Longrightarrow> starts_with (drop j t) p \<Longrightarrow> j \<le> length t \<Longrightarrow> i \<le> j"
proof (induction t arbitrary: i j)
  case Nil
  then show ?case by (simp split: if_splits)
next
  case (Cons x xs)
  show ?case
  proof (cases "starts_with (x # xs) p")
    case True
    with Cons.prems(1) show ?thesis by simp
  next
    case False
    with Cons.prems(1) obtain k where k: "find_sub p xs = Some k" "i = Suc k" by auto
    from False Cons.prems(2) obtain j' where "j = Suc j'" by (cases j) auto
    with Cons.IH [OF k(1), of j'] Cons.prems k(2) show ?thesis by simp
  qed
qed

lemma find_sub_None: "find_sub p t = None \<Longrightarrow> \<not> (\<exists>u v. t = u @ p @ v)"
proof (induction t)
  case Nil
  then show ?case by (simp split: if_splits)
next
  case (Cons x xs)
  then have *: "\<not> starts_with (x # xs) p" "find_sub p xs = None" by (auto split: if_splits)
  show ?case
  proof
    assume "\<exists>u v. x # xs = u @ p @ v"
    then obtain u v where uv: "x # xs = u @ p @ v" by blast
    show False
    proof (cases u)
      case Nil
      with uv * show False by (auto simp: starts_with_iff)
    next
      case (Cons y ys)
      with uv have "xs = ys @ p @ v" by simp
      with Cons.IH *(2) show False by blast
    qed
  qed
qed

lemma find_sub_append_least:
  "find_sub p (u @ p @ v) = Some i \<Longrightarrow> i \<le> length u"
  using find_sub_leftmost [of p "u @ p @ v" i "length u"] by simp

lemma contains_sub_iff: "contains_sub t p \<longleftrightarrow> (\<exists>u v. t = u @ p @ v)"
proof
  assume "contains_sub t p"
  then obtain i where "find_sub p t = Some i" by (auto simp: contains_sub_def)
  then have "starts_with (drop i t) p" by (simp add: find_sub_Some)
  then obtain v where "drop i t = p @ v" by (auto simp: starts_with_iff)
  then have "t = take i t @ p @ v" by (metis append_take_drop_id)
  then show "\<exists>u v. t = u @ p @ v" by blast
next
  assume "\<exists>u v. t = u @ p @ v"
  then show "contains_sub t p" unfolding contains_sub_def using find_sub_None by fastforce
qed

section \<open>Splitting and joining\<close>

text \<open>\<open>str::split(c)\<close> for a single-byte separator: always at least one part.\<close>

fun split_on :: "'a \<Rightarrow> 'a list \<Rightarrow> 'a list list" where
  "split_on c [] = [[]]"
| "split_on c (x # xs) =
     (if x = c then [] # split_on c xs
      else (case split_on c xs of [] \<Rightarrow> [[x]] | p # ps \<Rightarrow> (x # p) # ps))"

lemma split_on_neq_Nil [simp]: "split_on c xs \<noteq> []"
  by (induction xs) (auto split: list.splits)

fun join :: "'a list \<Rightarrow> 'a list list \<Rightarrow> 'a list" where
  "join sep [] = []"
| "join sep [p] = p"
| "join sep (p # q # ps) = p @ sep @ join sep (q # ps)"

lemma join_Cons: "ps \<noteq> [] \<Longrightarrow> join sep (p # ps) = p @ sep @ join sep ps"
  by (cases ps) auto

lemma join_split_on: "join [c] (split_on c xs) = xs"
proof (induction xs)
  case (Cons x xs)
  then show ?case
    by (cases "split_on c xs"; cases "tl (split_on c xs)") (auto simp: join_Cons)
qed simp

lemma split_on_parts: "p \<in> set (split_on c xs) \<Longrightarrow> c \<notin> set p"
  by (induction xs arbitrary: p) (force split: list.splits if_splits)+

lemma split_on_no_sep: "c \<notin> set xs \<Longrightarrow> split_on c xs = [xs]"
  by (induction xs) auto

lemma split_on_append:
  "c \<notin> set xs \<Longrightarrow> split_on c (xs @ c # ys) = xs # split_on c ys"
  by (induction xs) auto

lemma split_on_join:
  "ps \<noteq> [] \<Longrightarrow> (\<And>p. p \<in> set ps \<Longrightarrow> c \<notin> set p) \<Longrightarrow> split_on c (join [c] ps) = ps"
proof (induction ps)
  case (Cons p ps)
  show ?case
  proof (cases ps)
    case Nil
    with Cons.prems show ?thesis by (simp add: split_on_no_sep)
  next
    case (Cons q qs)
    with Cons.IH Cons.prems show ?thesis by (simp add: split_on_append)
  qed
qed simp

text \<open>
  \<open>str::lines()\<close>: the pieces ended by a line feed, the last one only when it is not empty, and
  a carriage return is dropped only in front of a line feed.
\<close>

definition strip_cr :: "string \<Rightarrow> string" where
  "strip_cr l = (if ends_with l [CHR 0x0D] then butlast l else l)"

definition str_lines :: "string \<Rightarrow> string list" where
  "str_lines s = (let ps = split_on (CHR 0x0A) s in
     map strip_cr (butlast ps) @ (if last ps = [] then [] else [last ps]))"

text \<open>\<open>str::replace\<close>: non-overlapping occurrences of a non-empty pattern, left to right.\<close>

function replace_all :: "'a list \<Rightarrow> 'a list \<Rightarrow> 'a list \<Rightarrow> 'a list" where
  "replace_all p r [] = []"
| "replace_all p r (x # xs) =
     (if p \<noteq> [] \<and> starts_with (x # xs) p then r @ replace_all p r (drop (length p) (x # xs))
      else x # replace_all p r xs)"
  by pat_completeness auto
termination
  by (relation "measure (\<lambda>(p, r, t). length t)") (auto simp: neq_Nil_conv)

section \<open>Decimal formatting\<close>

fun nat_str :: "nat \<Rightarrow> string" where
  "nat_str n = (if n < 10 then [char_of (48 + n)] else nat_str (n div 10) @ [char_of (48 + n mod 10)])"

declare nat_str.simps [simp del]

lemma nat_str_length: "n < 10 ^ Suc k \<Longrightarrow> length (nat_str n) \<le> Suc k"
proof (induction k arbitrary: n)
  case 0
  then show ?case by (simp add: nat_str.simps [of n])
next
  case (Suc k)
  show ?case
  proof (cases "n < 10")
    case True
    then show ?thesis by (simp add: nat_str.simps [of n])
  next
    case False
    have "n div 10 < 10 ^ Suc k" using Suc.prems by (simp add: less_mult_imp_div_less)
    with Suc.IH False show ?thesis by (simp add: nat_str.simps [of n])
  qed
qed

definition int_str :: "int \<Rightarrow> string" where
  "int_str i = (if i < 0 then ''-'' @ nat_str (nat (- i)) else nat_str (nat i))"

text \<open>\<open>str::parse\<close> for an unsigned type of \<open>w\<close> bits: an optional plus sign, then digits.\<close>

definition is_digit :: "char \<Rightarrow> bool" where
  "is_digit c \<longleftrightarrow> (48 :: nat) \<le> of_char c \<and> of_char c \<le> (57 :: nat)"

definition digits_value :: "string \<Rightarrow> nat" where
  "digits_value ds = foldl (\<lambda>n c. n * 10 + (of_char c - 48)) 0 ds"

definition parse_nat :: "nat \<Rightarrow> string \<Rightarrow> nat option" where
  "parse_nat w s = (let ds = (if starts_with s ''+'' then tl s else s) in
     if ds = [] \<or> \<not> list_all is_digit ds then None
     else if digits_value ds < 2 ^ w then Some (digits_value ds) else None)"

lemma is_digit_char: "n < 10 \<Longrightarrow> is_digit (char_of (48 + n :: nat))"
  by (simp add: is_digit_def)

lemma nat_str_digits: "list_all is_digit (nat_str n) \<and> nat_str n \<noteq> []"
proof (induction n rule: nat_str.induct)
  case (1 n)
  have "is_digit (char_of (48 + n mod 10))" by (rule is_digit_char) simp
  with 1 show ?case
    by (cases "n < 10") (simp_all add: nat_str.simps [of n] is_digit_char)
qed

lemma digits_value_nat_str: "digits_value (nat_str n) = n"
proof (induction n rule: nat_str.induct)
  case (1 n)
  show ?case
  proof (cases "n < 10")
    case True
    then show ?thesis by (simp add: nat_str.simps [of n] digits_value_def)
  next
    case False
    have "of_char (char_of (48 + n mod 10) :: char) - 48 = n mod 10"
      by (simp add: mod_less)
    with 1 False show ?thesis by (simp add: nat_str.simps [of n] digits_value_def)
  qed
qed

lemma starts_with_nat_str: "\<not> is_digit c \<Longrightarrow> \<not> starts_with (nat_str n) (c # p)"
  using nat_str_digits [of n] by (cases "nat_str n") (auto simp: starts_with_Cons)

lemma parse_nat_str: "n < 2 ^ w \<Longrightarrow> parse_nat w (nat_str n) = Some n"
  using nat_str_digits [of n] starts_with_nat_str [of "CHR ''+''" n "[]"]
  by (simp add: parse_nat_def digits_value_nat_str is_digit_def)

lemma parse_nat_bound: "parse_nat w s = Some n \<Longrightarrow> n < 2 ^ w"
  by (auto simp: parse_nat_def Let_def split: if_splits)

section \<open>UTF-8 structure of a string\<close>

text \<open>
  \<open>utf8_extra b\<close> is the number of continuation bytes after the lead byte \<open>b\<close>. \<open>utf8_ok\<close> says
  that every lead byte is followed by its continuation bytes: it holds of every Rust \<open>str\<close>.
\<close>

definition is_cont :: "char \<Rightarrow> bool" where
  "is_cont c \<longleftrightarrow> (128 :: nat) \<le> of_char c \<and> of_char c < (192 :: nat)"

definition utf8_extra :: "char \<Rightarrow> nat" where
  "utf8_extra c = (let b = of_char c :: nat in
     if b < 192 then 0 else if b < 224 then 1 else if b < 240 then 2 else 3)"

fun chars :: "string \<Rightarrow> string list" where
  "chars [] = []"
| "chars (c # cs) = (c # take (utf8_extra c) cs) # chars (drop (utf8_extra c) cs)"

fun utf8_ok :: "string \<Rightarrow> bool" where
  "utf8_ok [] \<longleftrightarrow> True"
| "utf8_ok (c # cs) \<longleftrightarrow>
     \<not> is_cont c \<and> utf8_extra c \<le> length cs \<and> list_all is_cont (take (utf8_extra c) cs)
     \<and> utf8_ok (drop (utf8_extra c) cs)"

definition char_count :: "string \<Rightarrow> nat" where
  "char_count s = length (chars s)"

definition is_char_boundary :: "string \<Rightarrow> nat \<Rightarrow> bool" where
  "is_char_boundary s i \<longleftrightarrow> i = 0 \<or> i = length s \<or> (i < length s \<and> \<not> is_cont (s ! i))"

lemma utf8_extra_le: "utf8_extra c \<le> 3"
  by (simp add: utf8_extra_def Let_def)

lemma concat_chars [simp]: "concat (chars s) = s"
  by (induction s rule: chars.induct) auto

lemma chars_nonempty: "c \<in> set (chars s) \<Longrightarrow> c \<noteq> []"
  by (induction s rule: chars.induct) auto

lemma chars_Nil_iff [simp]: "chars s = [] \<longleftrightarrow> s = []"
  by (cases s) auto

lemma char_count_le: "char_count s \<le> length s"
  unfolding char_count_def
proof (induction s rule: chars.induct)
  case (2 c cs)
  then show ?case by simp
qed simp

lemma chars_append:
  "utf8_ok s \<Longrightarrow> chars (s @ t) = chars s @ chars t"
  by (induction s rule: utf8_ok.induct) auto

lemma utf8_ok_append: "utf8_ok s \<Longrightarrow> utf8_ok t \<Longrightarrow> utf8_ok (s @ t)"
  by (induction s rule: utf8_ok.induct) auto

lemma utf8_ok_chunk: "utf8_ok s \<Longrightarrow> c \<in> set (chars s) \<Longrightarrow> utf8_ok c \<and> chars c = [c]"
proof (induction s rule: utf8_ok.induct)
  case (2 c' cs)
  then show ?case by (auto simp: min_def)
qed simp

lemma utf8_ok_concat: "(\<And>c. c \<in> set cs \<Longrightarrow> utf8_ok c) \<Longrightarrow> utf8_ok (concat cs)"
  by (induction cs) (auto intro: utf8_ok_append)

lemma chars_concat:
  "(\<And>c. c \<in> set cs \<Longrightarrow> utf8_ok c \<and> chars c = [c]) \<Longrightarrow> chars (concat cs) = cs"
proof (induction cs)
  case (Cons c cs)
  then show ?case by (simp add: chars_append)
qed simp

lemma chars_concat_sub:
  assumes "utf8_ok s" and "set cs \<subseteq> set (chars s)"
  shows "chars (concat cs) = cs" and "utf8_ok (concat cs)"
proof -
  have *: "utf8_ok c \<and> chars c = [c]" if "c \<in> set cs" for c
    using that assms utf8_ok_chunk [of s c] by blast
  from * show "chars (concat cs) = cs" by (rule chars_concat)
  from * show "utf8_ok (concat cs)" by (intro utf8_ok_concat) blast
qed

lemma chars_concat_take: "utf8_ok s \<Longrightarrow> chars (concat (take n (chars s))) = take n (chars s)"
  by (rule chars_concat_sub(1)) (auto dest: in_set_takeD)

text \<open>Seven-bit text: every byte is a code point.\<close>

definition is_ascii :: "string \<Rightarrow> bool" where
  "is_ascii s \<longleftrightarrow> (\<forall>c \<in> set s. of_char c < (128 :: nat))"

lemma is_ascii_simps [simp]:
  "is_ascii []" "is_ascii (c # s) \<longleftrightarrow> of_char c < (128 :: nat) \<and> is_ascii s"
  "is_ascii (s @ t) \<longleftrightarrow> is_ascii s \<and> is_ascii t"
  by (auto simp: is_ascii_def)

lemma ascii_chars: "is_ascii s \<Longrightarrow> chars s = map (\<lambda>c. [c]) s \<and> utf8_ok s"
  by (induction s) (auto simp: utf8_extra_def is_cont_def)

lemma ascii_char_count: "is_ascii s \<Longrightarrow> char_count s = length s"
  by (simp add: char_count_def ascii_chars)

lemma is_ascii_nat_str: "is_ascii (nat_str n)"
proof (induction n rule: nat_str.induct)
  case (1 n)
  show ?case
  proof (cases "n < 10")
    case True
    then show ?thesis by (simp add: nat_str.simps [of n])
  next
    case False
    have "(48 + n mod 10) mod 256 < 128" by (simp add: mod_less)
    with 1 False show ?thesis by (simp add: nat_str.simps [of n])
  qed
qed

text \<open>\<open>char::is_whitespace\<close> (the Unicode \<open>White_Space\<close> set) and the trims of \<open>str\<close>.\<close>

definition ws_chars :: "string list" where
  "ws_chars =
     [[CHR 0x09], [CHR 0x0A], [CHR 0x0B], [CHR 0x0C], [CHR 0x0D], [CHR 0x20],
      [CHR 0xC2, CHR 0x85], [CHR 0xC2, CHR 0xA0], [CHR 0xE1, CHR 0x9A, CHR 0x80]]
     @ map (\<lambda>b. [CHR 0xE2, CHR 0x80, b])
         [CHR 0x80, CHR 0x81, CHR 0x82, CHR 0x83, CHR 0x84, CHR 0x85, CHR 0x86, CHR 0x87,
          CHR 0x88, CHR 0x89, CHR 0x8A, CHR 0xA8, CHR 0xA9, CHR 0xAF]
     @ [[CHR 0xE2, CHR 0x81, CHR 0x9F], [CHR 0xE3, CHR 0x80, CHR 0x80]]"

definition is_whitespace :: "string \<Rightarrow> bool" where
  "is_whitespace c \<longleftrightarrow> c \<in> set ws_chars"

definition trim_start :: "string \<Rightarrow> string" where
  "trim_start s = concat (dropWhile is_whitespace (chars s))"

definition trim_end :: "string \<Rightarrow> string" where
  "trim_end s = concat (rev (dropWhile is_whitespace (rev (chars s))))"

definition trim :: "string \<Rightarrow> string" where
  "trim s = concat (rev (dropWhile is_whitespace (rev (dropWhile is_whitespace (chars s)))))"

lemma trim_Nil [simp]: "trim [] = []"
  by (simp add: trim_def)

lemma dropWhile_shorter:
  "length (concat (dropWhile P xs)) \<le> length (concat xs)"
  "xs \<noteq> [] \<Longrightarrow> P (hd xs) \<Longrightarrow> hd xs \<noteq> [] \<Longrightarrow> length (concat (dropWhile P xs)) < length (concat xs)"
proof -
  show le: "length (concat (dropWhile P xs)) \<le> length (concat xs)" for xs
    by (induction xs) auto
  assume "xs \<noteq> []" "P (hd xs)" "hd xs \<noteq> []"
  then obtain x ys where x: "xs = x # ys" "P x" "0 < length x" by (cases xs) auto
  with le [of ys] show "length (concat (dropWhile P xs)) < length (concat xs)"
    by (simp only: x(1) dropWhile.simps if_True concat.simps length_append)
qed

lemma length_concat_rev: "length (concat (rev xs)) = length (concat xs)"
  by (induction xs) auto

lemma concat_singletons: "concat (map (\<lambda>c. [c]) xs) = xs"
  by (induction xs) auto

lemma trimmed_ends:
  assumes "trim p = p" and "p \<noteq> []"
  shows "\<not> is_whitespace (hd (chars p))" and "\<not> is_whitespace (last (chars p))"
proof -
  let ?d = "dropWhile is_whitespace (chars p)"
  have ne: "chars p \<noteq> []" using assms(2) by simp
  have "length p \<le> length (concat ?d)"
    using assms(1) dropWhile_shorter(1) [of is_whitespace "rev ?d"] unfolding trim_def
    by (metis length_concat_rev)
  then show hd: "\<not> is_whitespace (hd (chars p))"
    using dropWhile_shorter(2) [OF ne, of is_whitespace] chars_nonempty [of "hd (chars p)" p] ne
    by (metis concat_chars hd_in_set leD)
  then have d: "?d = chars p" using ne by (cases "chars p") auto
  have "length (concat (dropWhile is_whitespace (rev (chars p)))) = length p"
    using assms(1) unfolding trim_def d by (metis length_concat_rev)
  then show "\<not> is_whitespace (last (chars p))"
    using dropWhile_shorter(2) [of "rev (chars p)" is_whitespace] chars_nonempty [of "last (chars p)" p] ne
    by (metis concat_chars hd_rev last_in_set length_concat_rev less_irrefl rev_is_Nil_conv)
qed

lemma chars_ascii_Cons: "of_char c < (128 :: nat) \<Longrightarrow> chars (c # s) = [c] # chars s"
  by (simp add: utf8_extra_def)

lemma trim_space [simp]: "trim (CHR '' '' # s) = trim s"
  by (simp add: trim_def chars_ascii_Cons is_whitespace_def ws_chars_def del: chars.simps)

lemma trim_keeps_ends:
  assumes "is_ascii (c # pre)" and "\<not> is_whitespace [c]" and "p \<noteq> []" and "trim p = p"
  shows "trim (c # pre @ p) = c # pre @ p"
proof -
  have ch: "chars (c # pre @ p) = [c] # map (\<lambda>c. [c]) pre @ chars p"
    using ascii_chars [OF assms(1)] chars_append [of "c # pre" p] by simp
  have "rev (chars p) \<noteq> []" "\<not> is_whitespace (hd (rev (chars p)))"
    using trimmed_ends(2) [OF assms(4,3)] assms(3) by (simp_all add: hd_rev)
  then have "dropWhile is_whitespace (rev (chars p) @ xs) = rev (chars p) @ xs" for xs
    by (cases "rev (chars p)") auto
  with ch assms(2) show ?thesis unfolding trim_def by (simp add: concat_singletons del: chars.simps)
qed

lemma trim_whole:
  assumes "s \<noteq> []" and "\<not> is_whitespace (hd (chars s))" and "\<not> is_whitespace (last (chars s))"
  shows "trim s = s"
proof -
  have "chars s \<noteq> []" using assms(1) by simp
  then have "dropWhile is_whitespace (chars s) = chars s"
    "dropWhile is_whitespace (rev (chars s)) = rev (chars s)"
    using assms(2,3) by (simp_all add: dropWhile_eq_self_iff hd_rev)
  then show ?thesis by (simp add: trim_def)
qed

lemma trim_sandwich:
  assumes "utf8_ok p" and "p \<noteq> []" "trim p = p" and "is_ascii m" and "q \<noteq> []" "trim q = q"
  shows "trim (p @ m @ q) = p @ m @ q"
proof (rule trim_whole)
  have "chars (p @ m @ q) = chars p @ chars m @ chars q"
    using assms(1,4) ascii_chars by (simp add: chars_append)
  with assms trimmed_ends [of p] trimmed_ends [of q]
  show "\<not> is_whitespace (hd (chars (p @ m @ q)))" "\<not> is_whitespace (last (chars (p @ m @ q)))" by simp_all
qed (use assms in simp)

lemma trim_space_after:
  assumes "utf8_ok p" and "p \<noteq> []" "trim p = p"
  shows "trim (p @ '' '') = p"
proof -
  have ch: "chars (p @ '' '') = chars p @ ['' '']" using assms(1) by (simp add: chars_append utf8_extra_def)
  have ne: "chars p \<noteq> []" using assms(2) by simp
  have w: "is_whitespace '' ''" by (simp add: is_whitespace_def ws_chars_def)
  have "dropWhile is_whitespace (chars p @ ['' '']) = chars p @ ['' '']"
    using ne trimmed_ends(1) [OF assms(3,2)] by (simp add: dropWhile_eq_self_iff)
  moreover have "dropWhile is_whitespace (rev (chars p)) = rev (chars p)"
    using ne trimmed_ends(2) [OF assms(3,2)] by (simp add: dropWhile_eq_self_iff hd_rev)
  ultimately show ?thesis using w by (simp add: trim_def ch)
qed

lemma trim_Cons_nonspace:
  assumes "of_char c < (128 :: nat)" and "\<not> is_whitespace [c]"
  shows "\<exists>u. trim (c # s) = c # u"
proof -
  have "dropWhile is_whitespace (chars (c # s)) = [c] # chars s"
    using assms by (simp add: chars_ascii_Cons del: chars.simps)
  moreover have "\<exists>r. dropWhile is_whitespace (rev (chars s) @ [[c]]) = r @ [[c]]"
    using assms(2) by (simp add: dropWhile_append)
  ultimately show ?thesis unfolding trim_def by auto
qed

text \<open>\<open>str::split_whitespace\<close>: the maximal runs of characters that are not white space.\<close>

fun ws_fields :: "string list \<Rightarrow> string \<Rightarrow> string list" where
  "ws_fields [] cur = (if cur = [] then [] else [cur])"
| "ws_fields (c # cs) cur =
     (if is_whitespace c then (if cur = [] then [] else [cur]) @ ws_fields cs []
      else ws_fields cs (cur @ c))"

definition split_whitespace :: "string \<Rightarrow> string list" where
  "split_whitespace s = ws_fields (chars s) []"

text \<open>\<open>u8::to_ascii_lowercase\<close>.\<close>

definition ascii_lower :: "char \<Rightarrow> char" where
  "ascii_lower c = (if (65 :: nat) \<le> of_char c \<and> of_char c \<le> (90 :: nat)
                    then char_of (of_char c + (32 :: nat)) else c)"

section \<open>Lists of bindings\<close>

lemma map_filter_append [simp]:
  "List.map_filter f (xs @ ys) = List.map_filter f xs @ List.map_filter f ys"
  by (induction xs) (auto simp: List.map_filter_simps split: option.split)

lemma map_filter_Nil_Cons [simp]:
  "List.map_filter f [] = []"
  "List.map_filter f (x # xs) =
     (case f x of None \<Rightarrow> List.map_filter f xs | Some y \<Rightarrow> y # List.map_filter f xs)"
  by (simp_all add: List.map_filter_simps)

lemma set_map_filter: "y \<in> set (List.map_filter f xs) \<longleftrightarrow> (\<exists>x \<in> set xs. f x = Some y)"
  by (induction xs) (auto split: option.splits)

text \<open>A hash map filled in scan order keeps, for each key, the last value inserted.\<close>

lemma map_of_rev_latest:
  fixes ps :: "('k \<times> 'v :: linorder) list"
  assumes "sorted (map snd ps)" and "map_of (rev ps) k = Some v"
  shows "(k, v) \<in> set ps" and "(k, v') \<in> set ps \<Longrightarrow> v' \<le> v"
proof -
  have "(k, v) \<in> set ps \<and> (\<forall>v'. (k, v') \<in> set ps \<longrightarrow> v' \<le> v)"
    using assms
  proof (induction ps rule: rev_induct)
    case (snoc p ps)
    show ?case
    proof (cases "fst p = k")
      case True
      with snoc.prems(2) have p: "p = (k, v)" by (cases p) simp
      have "v' \<le> v" if "(k, v') \<in> set ps" for v'
        using snoc.prems(1) p that by (auto simp: sorted_append)
      with p show ?thesis by auto
    next
      case False
      with snoc show ?thesis by (cases p) (auto simp: sorted_append)
    qed
  qed simp
  then show "(k, v) \<in> set ps" and "(k, v') \<in> set ps \<Longrightarrow> v' \<le> v" by auto
qed

lemma map_of_rev_defined: "(k, v) \<in> set ps \<Longrightarrow> map_of (rev ps) k \<noteq> None"
  by (metis map_of_eq_None_iff fst_conv image_eqI set_rev)

lemma filter_by_index:
  "filter P xs = map ((!) xs) (filter (\<lambda>i. P (xs ! i)) [0..<length xs])"
  by (metis (no_types, lifting) comp_def filter_cong filter_map map_nth)

text \<open>Pieces of message texts: a quoted name, and the UTF-8 bytes of the long dash.\<close>

definition quoted :: "string \<Rightarrow> string" where
  "quoted s = [CHR 0x27] @ s @ [CHR 0x27]"

definition dquoted :: "string \<Rightarrow> string" where
  "dquoted s = [CHR 0x22] @ s @ [CHR 0x22]"

definition em_dash :: string where "em_dash = [CHR 0xE2, CHR 0x80, CHR 0x94]"

section \<open>Keyed stores\<close>

text \<open>
  A hash map without iteration is a map \<open>'k \<rightharpoonup> 'v\<close>. A hash map that is iterated is an
  association list: its order stands for the unspecified iteration order of the hash map.
\<close>

type_synonym ('k, 'v) table = "('k \<times> 'v) list"

fun tab_put :: "'k \<Rightarrow> 'v \<Rightarrow> ('k, 'v) table \<Rightarrow> ('k, 'v) table" where
  "tab_put k v [] = [(k, v)]"
| "tab_put k v ((j, w) # t) = (if j = k then (k, v) # t else (j, w) # tab_put k v t)"

definition tab_del :: "'k \<Rightarrow> ('k, 'v) table \<Rightarrow> ('k, 'v) table" where
  "tab_del k t = filter (\<lambda>(j, w). j \<noteq> k) t"

abbreviation tab_ok :: "('k, 'v) table \<Rightarrow> bool" where
  "tab_ok t \<equiv> distinct (map fst t)"

lemma map_of_tab_put [simp]: "map_of (tab_put k v t) = (map_of t)(k \<mapsto> v)"
  by (induction t) auto

lemma map_of_tab_del [simp]: "map_of (tab_del k t) = (map_of t)(k := None)"
  by (induction t) (auto simp: tab_del_def)

lemma keys_tab_put [simp]: "fst ` set (tab_put k v t) = insert k (fst ` set t)"
proof (induction t)
  case (Cons a t)
  then show ?case by (cases a) (simp add: insert_commute)
qed simp

lemma keys_tab_del [simp]: "fst ` set (tab_del k t) = fst ` set t - {k}"
  by (auto simp: tab_del_def rev_image_eqI)

lemma tab_ok_put: "tab_ok t \<Longrightarrow> tab_ok (tab_put k v t)"
proof (induction t)
  case (Cons a t)
  then show ?case using keys_tab_put [of k v t] by (cases a) auto
qed simp

lemma tab_ok_del: "tab_ok t \<Longrightarrow> tab_ok (tab_del k t)"
  unfolding tab_del_def by (induction t) (auto simp: case_prod_beta)

lemma set_tab_put: "tab_ok t \<Longrightarrow> set (tab_put k v t) = insert (k, v) {(j, w). (j, w) \<in> set t \<and> j \<noteq> k}"
proof (induction t)
  case (Cons a t)
  then show ?case by (cases a) (auto simp: rev_image_eqI)
qed simp

lemma set_tab_del: "set (tab_del k t) = {(j, w). (j, w) \<in> set t \<and> j \<noteq> k}"
  by (auto simp: tab_del_def)

lemma tab_del_absent: "map_of t k = None \<Longrightarrow> tab_del k t = t"
  by (induction t) (auto simp: tab_del_def split: if_splits)

lemma tab_put_new: "k \<notin> fst ` set t \<Longrightarrow> tab_put k v t = t @ [(k, v)]"
  by (induction t) auto

text \<open>The interface: what a lookup returns after an insert or a remove.\<close>

locale keyed_store =
  fixes lookup :: "'s \<Rightarrow> 'k \<Rightarrow> 'v option"
    and put :: "'k \<Rightarrow> 'v \<Rightarrow> 's \<Rightarrow> 's"
    and del :: "'k \<Rightarrow> 's \<Rightarrow> 's"
  assumes lookup_put: "lookup (put k v s) j = (if j = k then Some v else lookup s j)"
    and lookup_del: "lookup (del k s) j = (if j = k then None else lookup s j)"
begin

lemma lookup_put_same: "lookup (put k v s) k = Some v"
  by (simp add: lookup_put)

lemma lookup_put_other: "j \<noteq> k \<Longrightarrow> lookup (put k v s) j = lookup s j"
  by (simp add: lookup_put)

lemma lookup_put_put: "lookup (put k v (put k w s)) = lookup (put k v s)"
  by (rule ext) (simp add: lookup_put)

lemma lookup_del_put: "lookup (del k (put k v s)) = lookup (del k s)"
  by (rule ext) (simp add: lookup_put lookup_del)

lemma lookup_put_commute:
  "j \<noteq> k \<Longrightarrow> lookup (put j v (put k w s)) = lookup (put k w (put j v s))"
  by (rule ext) (auto simp: lookup_put)

lemma lookup_del_same: "lookup (del k s) k = None"
  by (simp add: lookup_del)

end

interpretation tab: keyed_store map_of tab_put tab_del
  by unfold_locales auto

section \<open>Machines that keep an invariant\<close>

locale invariant_machine =
  fixes step :: "'s \<Rightarrow> 'e \<Rightarrow> 's"
    and inv :: "'s \<Rightarrow> bool"
  assumes step_inv: "inv s \<Longrightarrow> inv (step s e)"
begin

lemma run_inv: "inv s \<Longrightarrow> inv (foldl step s es)"
  by (induction es arbitrary: s) (auto intro: step_inv)

lemma run_prefix_inv: "inv s \<Longrightarrow> inv (foldl step s (take n es))"
  by (rule run_inv)

end

end
