(* ===== verification/Rust_Text.thy ===== *)
theory Rust_Text
  imports Rh_Prelude
begin

text \<open>
  The UTF-8-safe string utilities of \<open>crates/rusty-hand-types/src/text.rs\<close>: truncation to a
  byte budget at a character boundary, truncation to a number of characters, and redaction of
  the bot token in Telegram URLs. Every other component that shortens text (loop guard, session
  repair, context recovery, triggers) goes through \<open>truncate_bytes\<close>.
\<close>

section \<open>Definitions\<close>

text \<open>The loop \<open>while end > 0 && !s.is_char_boundary(end) { end -= 1 }\<close>.\<close>

fun snap_down :: "string \<Rightarrow> nat \<Rightarrow> nat" where
  "snap_down s 0 = 0"
| "snap_down s (Suc e) = (if is_char_boundary s (Suc e) then Suc e else snap_down s e)"

definition truncate_bytes :: "string \<Rightarrow> nat \<Rightarrow> string" where
  "truncate_bytes s max_bytes =
     (if length s \<le> max_bytes then s else take (snap_down s max_bytes) s)"

definition floor_char_boundary :: "string \<Rightarrow> nat \<Rightarrow> nat" where
  "floor_char_boundary s idx = (if idx \<ge> length s then length s else snap_down s idx)"

definition domain_marker :: string where "domain_marker = ''telegram.org''"
definition bot_marker :: string where "bot_marker = ''/bot''"

text \<open>
  The scan of \<open>redact_telegram_token\<close>: the result is what the loop pushes to \<open>out\<close> from the
  rest of the input on. Every turn of the loop drops at least the domain from \<open>rest\<close>.
\<close>

function redact_telegram_token :: "string \<Rightarrow> string" where
  "redact_telegram_token rest =
     (case find_sub domain_marker rest of
        None \<Rightarrow> rest
      | Some dom_idx \<Rightarrow>
          let after_dom_start = dom_idx + length domain_marker;
              after_dom = drop after_dom_start rest
          in (case find_sub bot_marker after_dom of
                Some bot_rel \<Rightarrow>
                  let token_start = bot_rel + length bot_marker;
                      after_bot = drop token_start after_dom
                  in take (after_dom_start + token_start) rest @ ''<redacted>'' @
                     (case find_sub ''/'' after_bot of
                        Some slash \<Rightarrow> redact_telegram_token (drop slash after_bot)
                      | None \<Rightarrow> [])
              | None \<Rightarrow> take after_dom_start rest @ redact_telegram_token after_dom))"
  by pat_completeness auto
termination
  by (relation "measure length") (auto dest!: find_sub_Some simp: domain_marker_def)

declare redact_telegram_token.simps [simp del]

definition truncate_chars :: "string \<Rightarrow> nat \<Rightarrow> string" where
  "truncate_chars s max_chars =
     (if char_count s \<le> max_chars then s else concat (take max_chars (chars s)))"

definition truncate_with_ellipsis :: "string \<Rightarrow> nat \<Rightarrow> string" where
  "truncate_with_ellipsis s max_chars =
     (if char_count s \<le> max_chars then s
      else concat (take max_chars (chars s)) @ ''...'')"

section \<open>Character boundaries\<close>

lemma snap_down_le: "snap_down s e \<le> e"
  by (induction e) auto

lemma snap_down_boundary: "is_char_boundary s (snap_down s e)"
  by (induction e) (auto simp: is_char_boundary_def)

lemma snap_down_greatest: "is_char_boundary s i \<Longrightarrow> i \<le> e \<Longrightarrow> i \<le> snap_down s e"
proof (induction e)
  case (Suc e)
  then show ?case by (cases "i = Suc e") auto
qed simp

lemma length_truncate_bytes:
  "length (truncate_bytes s m) = (if length s \<le> m then length s else snap_down s m)"
  using snap_down_le [of s m] by (auto simp: truncate_bytes_def)

lemma truncate_bytes_le: "length (truncate_bytes s m) \<le> m"
  using snap_down_le [of s m] by (auto simp: length_truncate_bytes)

lemma truncate_bytes_prefix: "prefix (truncate_bytes s m) s"
  by (auto simp: truncate_bytes_def take_is_prefix)

text \<open>In a string of UTF-8 shape the boundaries are the ends of whole groups of \<open>chars\<close>.\<close>

lemma cont_in_group:
  assumes "utf8_ok (c # cs)" and "0 < i" and "i \<le> utf8_extra c"
  shows "is_cont ((c # cs) ! i)"
proof -
  from assms have "take (utf8_extra c) cs ! (i - 1) = cs ! (i - 1)" by simp
  moreover from assms have "i - 1 < length (take (utf8_extra c) cs)" by auto
  ultimately have "is_cont (cs ! (i - 1))"
    using assms(1) by (simp add: list_all_length)
  with assms(2) show ?thesis by (cases i) auto
qed

lemma boundary_prefix_ok:
  "utf8_ok s \<Longrightarrow> is_char_boundary s i \<Longrightarrow> utf8_ok (take i s) \<and> utf8_ok (drop i s)"
proof (induction s arbitrary: i rule: utf8_ok.induct)
  case (2 c cs)
  let ?n = "utf8_extra c"
  show ?case
  proof (cases i)
    case (Suc j)
    have "\<not> j < ?n"
    proof
      assume "j < ?n"
      with 2 Suc have "is_cont ((c # cs) ! i)" by (intro cont_in_group) auto
      with 2 Suc \<open>j < ?n\<close> show False by (auto simp: is_char_boundary_def)
    qed
    then have n: "?n \<le> j" by simp
    with 2 Suc have "is_char_boundary (drop ?n cs) (j - ?n)"
      by (auto simp: is_char_boundary_def)
    with 2 have IH: "utf8_ok (take (j - ?n) (drop ?n cs)) \<and> utf8_ok (drop (j - ?n) (drop ?n cs))"
      by auto
    have t: "take (j - ?n) (drop ?n cs) = drop ?n (take j cs)"
      using n by (simp add: drop_take)
    have d: "drop (j - ?n) (drop ?n cs) = drop j cs" using n by simp
    show ?thesis using IH 2(2) n Suc unfolding t d by (auto simp: min_def)
  qed (use 2 in simp)
qed (simp add: is_char_boundary_def)

lemma utf8_ok_truncate_bytes: "utf8_ok s \<Longrightarrow> utf8_ok (truncate_bytes s m)"
  using boundary_prefix_ok [of s "snap_down s m"] snap_down_boundary [of s m]
  by (simp add: truncate_bytes_def)

text \<open>At most three bytes are given up below the budget.\<close>

lemma boundary_near:
  "utf8_ok s \<Longrightarrow> m \<le> length s \<Longrightarrow> \<exists>i. is_char_boundary s i \<and> i \<le> m \<and> m \<le> i + 3"
proof (induction s arbitrary: m rule: utf8_ok.induct)
  case (2 c cs)
  let ?n = "utf8_extra c"
  have n3: "?n \<le> 3" by (rule utf8_extra_le)
  show ?case
  proof (cases "m \<le> ?n")
    case True
    with n3 show ?thesis by (intro exI [of _ 0]) (simp add: is_char_boundary_def)
  next
    case False
    then obtain k where m: "m = Suc ?n + k" using less_iff_Suc_add [of ?n m] by auto
    with 2 have "k \<le> length (drop ?n cs)" by auto
    with 2 obtain i where i: "is_char_boundary (drop ?n cs) i" "i \<le> k" "k \<le> i + 3" by auto
    have "is_char_boundary (c # cs) (Suc ?n + i)"
    proof (cases "i = 0")
      case True
      show ?thesis
      proof (cases "drop ?n cs")
        case Nil
        with True 2 show ?thesis by (auto simp: is_char_boundary_def)
      next
        case (Cons d ds)
        moreover have "cs ! ?n = d"
          using Cons by (metis hd_drop_conv_nth list.sel(1) drop_eq_Nil linorder_not_le list.distinct(1))
        moreover have "?n < length cs" using Cons by (metis drop_eq_Nil linorder_not_le list.distinct(1))
        ultimately show ?thesis using True 2(2) by (auto simp: is_char_boundary_def)
      qed
    next
      case False
      with i(1) 2 show ?thesis by (auto simp: is_char_boundary_def)
    qed
    with i m show ?thesis by (intro exI [of _ "Suc ?n + i"]) simp
  qed
qed (simp add: is_char_boundary_def)

lemma truncate_bytes_near:
  assumes "utf8_ok s" and "m \<le> length s"
  shows "m \<le> length (truncate_bytes s m) + 3"
proof -
  obtain i where "is_char_boundary s i" "i \<le> m" "m \<le> i + 3"
    using boundary_near [OF assms] by blast
  with snap_down_greatest [of s i m] assms show ?thesis
    by (auto simp: length_truncate_bytes)
qed

lemma char_count_truncate_chars:
  assumes "utf8_ok s"
  shows "char_count (truncate_chars s m) = min m (char_count s)"
  using assms chars_concat_take [of s m]
  by (auto simp: truncate_chars_def char_count_def)

section \<open>Properties\<close>

text \<open>
  truncating a string to a byte budget never splits a character: for every Rust string the
  result is a prefix that is itself well formed, is at most the budget long, and is the longest
  such prefix (any character boundary within the budget is within the result; at most three
  bytes of the budget are unused).
\<close>

theorem truncate_bytes_correct:
  assumes "utf8_ok s"
  shows "prefix (truncate_bytes s m) s \<and> utf8_ok (truncate_bytes s m)
    \<and> length (truncate_bytes s m) \<le> m
    \<and> (\<forall>i. is_char_boundary s i \<and> i \<le> m \<longrightarrow> i \<le> length (truncate_bytes s m))
    \<and> min m (length s) \<le> length (truncate_bytes s m) + 3"
proof (intro conjI allI impI)
  fix i
  assume i: "is_char_boundary s i \<and> i \<le> m"
  show "i \<le> length (truncate_bytes s m)"
  proof (cases "length s \<le> m")
    case True
    with i show ?thesis by (auto simp: length_truncate_bytes is_char_boundary_def)
  next
    case False
    with i show ?thesis by (simp add: length_truncate_bytes snap_down_greatest)
  qed
next
  show "min m (length s) \<le> length (truncate_bytes s m) + 3"
    using truncate_bytes_near [OF assms, of m] by (cases "m \<le> length s") (auto simp: truncate_bytes_def)
qed (auto simp: truncate_bytes_prefix truncate_bytes_le utf8_ok_truncate_bytes assms)

text \<open>The witness cuts a two-byte letter after its first byte's budget.\<close>

theorem truncate_bytes_correct_witness:
  "let s = ''ab'' @ [CHR 0xD0, CHR 0x96] @ ''c'' in
     utf8_ok s \<and> truncate_bytes s 3 = ''ab'' \<and> length (truncate_bytes s 3) \<le> 3
     \<and> prefix (truncate_bytes s 3) s"
proof -
  have ok: "utf8_ok (''ab'' @ [CHR 0xD0, CHR 0x96] @ ''c'')"
    by (simp add: utf8_extra_def is_cont_def)
  have "truncate_bytes (''ab'' @ [CHR 0xD0, CHR 0x96] @ ''c'') 3 = ''ab''"
    by (simp add: truncate_bytes_def is_char_boundary_def is_cont_def numeral_3_eq_3)
  with ok truncate_bytes_correct [OF ok, of 3] show ?thesis by (simp add: Let_def)
qed

text \<open>
  redaction hides the bot token: with the first Telegram host in the text followed, up to its
  first \<open>/bot\<close>, by anything, the token up to the next slash is replaced whatever it is, and the
  rest of the text is scanned in turn.
\<close>

theorem redact_telegram_token_hides:
  assumes "find_sub domain_marker (pre @ domain_marker @ mid @ bot_marker @ tok @ ''/'' @ post)
             = Some (length pre)"
    and "find_sub bot_marker (mid @ bot_marker @ tok @ ''/'' @ post) = Some (length mid)"
    and "CHR ''/'' \<notin> set tok"
  shows "redact_telegram_token (pre @ domain_marker @ mid @ bot_marker @ tok @ ''/'' @ post)
    = pre @ domain_marker @ mid @ bot_marker @ ''<redacted>'' @ redact_telegram_token (''/'' @ post)"
proof -
  have slash: "find_sub ''/'' (tok @ CHR ''/'' # post) = Some (length tok)"
    using assms(3) by (induction tok) (auto simp: starts_with_Cons)
  show ?thesis
    using assms(1,2) slash
    by (subst redact_telegram_token.simps) (simp add: Let_def)
qed

theorem redact_telegram_token_hides_witness:
  "redact_telegram_token ''https://api.telegram.org/file/bot12:AB/f''
     = ''https://api.telegram.org/file/bot<redacted>/f''"
proof -
  have 1: "find_sub domain_marker
      (''https://api.'' @ domain_marker @ ''/file'' @ bot_marker @ ''12:AB'' @ ''/'' @ ''f'')
      = Some (length ''https://api.'')"
    by (simp add: domain_marker_def bot_marker_def starts_with_Cons)
  have 2: "find_sub bot_marker (''/file'' @ bot_marker @ ''12:AB'' @ ''/'' @ ''f'')
      = Some (length ''/file'')"
    by (simp add: bot_marker_def starts_with_Cons)
  have 3: "redact_telegram_token ''/f'' = ''/f''"
    by (simp add: redact_telegram_token.simps domain_marker_def starts_with_Cons)
  show ?thesis
    using redact_telegram_token_hides [OF 1 2] 3
    by (simp add: domain_marker_def bot_marker_def)
qed

end
