(* ===== verification/Message.thy ===== *)
theory Message
  imports Rust_Text
begin

text \<open>
  LLM conversation messages, \<open>crates/rusty-hand-types/src/message.rs\<close>. A JSON value
  (\<open>serde_json::Value\<close>) is kept with its documented constructors; a number is its decimal text.
  Serialisation of JSON is never defined here: a component that uses it takes it as a parameter.
\<close>

datatype json =
    JNull | JBool bool | JNum string | JStr string | JArr "json list"
  | JObj "(string \<times> json) list"

datatype role = System | User | Assistant

datatype content_block =
    TextBlock string
  | Image string string
  | ToolUse string string json
  | ToolResult string string bool
  | Thinking string
  | Unknown

datatype message_content = Text string | Blocks "content_block list"

record message =
  msg_role :: role
  msg_content :: message_content

text \<open>\<open>MessageContent::text_length\<close> and \<open>text_content\<close>.\<close>

fun block_text_length :: "content_block \<Rightarrow> nat" where
  "block_text_length (TextBlock t) = length t"
| "block_text_length (ToolResult _ c _) = length c"
| "block_text_length (Thinking t) = length t"
| "block_text_length (ToolUse _ _ _) = 0"
| "block_text_length (Image _ _) = 0"
| "block_text_length Unknown = 0"

fun text_length :: "message_content \<Rightarrow> nat" where
  "text_length (Text s) = length s"
| "text_length (Blocks bs) = sum_list (map block_text_length bs)"

fun text_content :: "message_content \<Rightarrow> string" where
  "text_content (Text s) = s"
| "text_content (Blocks bs) =
     concat (List.map_filter (\<lambda>b. case b of TextBlock t \<Rightarrow> Some t | _ \<Rightarrow> None) bs)"

definition system_message :: "string \<Rightarrow> message" where
  "system_message c = \<lparr>msg_role = System, msg_content = Text c\<rparr>"

definition user_message :: "string \<Rightarrow> message" where
  "user_message c = \<lparr>msg_role = User, msg_content = Text c\<rparr>"

definition assistant_message :: "string \<Rightarrow> message" where
  "assistant_message c = \<lparr>msg_role = Assistant, msg_content = Text c\<rparr>"

datatype stop_reason = EndTurn | StopToolUse | MaxTokens | StopSequence

record token_usage =
  input_tokens :: "64 word"
  output_tokens :: "64 word"

definition token_total :: "token_usage \<Rightarrow> 64 word" where
  "token_total u = input_tokens u + output_tokens u"

text \<open>The text of a message never exceeds its counted length.\<close>

lemma text_content_length: "length (text_content c) \<le> text_length c"
proof (cases c)
  case (Blocks bs)
  have "length (concat (List.map_filter (\<lambda>b. case b of TextBlock t \<Rightarrow> Some t | _ \<Rightarrow> None) bs))
      \<le> sum_list (map block_text_length bs)"
    by (induction bs) (auto simp: List.map_filter_simps split: content_block.split)
  with Blocks show ?thesis by simp
qed simp

end
