(* ===== verification/Session_Repair.thy ===== *)
theory Session_Repair
  imports Message
begin

text \<open>
  Validation and repair of a message history before it is sent to the LLM,
  \<open>crates/rusty-hand-runtime/src/session_repair.rs\<close>: the phases of
  \<open>validate_and_repair_with_stats\<close> in the order the code runs them, the pruning of heartbeat
  turns and the sanitising of tool results. Log output is not modelled. A hash map that is only
  looked up is a map; the grouping map of phases 2b and 2c is an association list that is sorted
  before it is used, so its order does not matter.
\<close>

section \<open>Definitions\<close>

record repair_stats =
  orphaned_results_removed :: nat
  empty_messages_removed :: nat
  messages_merged :: nat
  results_reordered :: nat
  synthetic_results_inserted :: nat
  duplicates_removed :: nat

definition no_repairs :: repair_stats where
  "no_repairs = \<lparr>orphaned_results_removed = 0, empty_messages_removed = 0, messages_merged = 0,
     results_reordered = 0, synthetic_results_inserted = 0, duplicates_removed = 0\<rparr>"

fun content_to_blocks :: "message_content \<Rightarrow> content_block list" where
  "content_to_blocks (Text s) = [TextBlock s]"
| "content_to_blocks (Blocks bs) = bs"

definition merge_content :: "message_content \<Rightarrow> message_content \<Rightarrow> message_content" where
  "merge_content dst src = Blocks (content_to_blocks dst @ content_to_blocks src)"

fun block_use_id :: "content_block \<Rightarrow> string option" where
  "block_use_id (ToolUse i _ _) = Some i"
| "block_use_id _ = None"

fun block_result_id :: "content_block \<Rightarrow> string option" where
  "block_result_id (ToolResult i _ _) = Some i"
| "block_result_id _ = None"

definition use_ids :: "content_block list \<Rightarrow> string list" where
  "use_ids bs = List.map_filter block_use_id bs"

definition result_ids :: "content_block list \<Rightarrow> string list" where
  "result_ids bs = List.map_filter block_result_id bs"

text \<open>The blocks the scans look into: those of a \<open>Blocks\<close> content only.\<close>

definition inner_blocks :: "message \<Rightarrow> content_block list" where
  "inner_blocks m = (case msg_content m of Blocks bs \<Rightarrow> bs | Text _ \<Rightarrow> [])"

definition message_uses :: "message \<Rightarrow> string list" where
  "message_uses m = use_ids (inner_blocks m)"

definition message_results :: "message \<Rightarrow> string list" where
  "message_results m = result_ids (inner_blocks m)"

text \<open>Phase 1: the ids of all tool uses.\<close>

definition tool_use_ids :: "message list \<Rightarrow> string set" where
  "tool_use_ids ms = set (concat (map message_uses ms))"

text \<open>Phase 2: drop orphaned results and empty messages.\<close>

fun filter_orphans :: "string set \<Rightarrow> message list \<Rightarrow> repair_stats \<Rightarrow> message list \<times> repair_stats" where
  "filter_orphans ids [] st = ([], st)"
| "filter_orphans ids (m # ms) st =
     (case msg_content m of
        Text s \<Rightarrow>
          if s = []
          then filter_orphans ids ms (st\<lparr>empty_messages_removed := empty_messages_removed st + 1\<rparr>)
          else (let (r, st') = filter_orphans ids ms st in (m # r, st'))
      | Blocks bs \<Rightarrow>
          (let keep = (\<lambda>b. case block_result_id b of Some i \<Rightarrow> i \<in> ids | None \<Rightarrow> True);
               filtered = filter keep bs;
               st1 = st\<lparr>orphaned_results_removed :=
                        orphaned_results_removed st + length (filter (\<lambda>b. \<not> keep b) bs)\<rparr>
           in if filtered = []
              then filter_orphans ids ms
                     (st1\<lparr>empty_messages_removed := empty_messages_removed st1 + 1\<rparr>)
              else (let (r, st') = filter_orphans ids ms st1
                    in (m\<lparr>msg_content := Blocks filtered\<rparr> # r, st'))))"

definition nonempty_content :: "message \<Rightarrow> bool" where
  "nonempty_content m = (case msg_content m of Text s \<Rightarrow> s \<noteq> [] | Blocks bs \<Rightarrow> bs \<noteq> [])"

text \<open>
  Phase 2b. \<open>assistant_uses\<close> lists (tool use id, message index) in scan order; the hash map built
  from it keeps the last index inserted for an id.
\<close>

definition assistant_uses :: "message list \<Rightarrow> (string \<times> nat) list" where
  "assistant_uses ms = concat (map (\<lambda>(idx, m).
     if msg_role m = Assistant then map (\<lambda>i. (i, idx)) (message_uses m) else [])
     (enumerate 0 ms))"

definition tool_use_index :: "message list \<Rightarrow> string \<Rightarrow> nat option" where
  "tool_use_index ms = map_of (rev (assistant_uses ms))"

fun misplaced_block ::
  "(string \<Rightarrow> nat option) \<Rightarrow> nat \<Rightarrow> content_block \<Rightarrow> (nat \<times> string \<times> content_block \<times> nat) option"
where
  "misplaced_block index msg_idx b =
     (case block_result_id b of
        None \<Rightarrow> None
      | Some i \<Rightarrow> (case index i of
          None \<Rightarrow> None
        | Some a \<Rightarrow> if msg_idx \<noteq> a + 1 then Some (msg_idx, i, b, a) else None))"

definition misplaced :: "message list \<Rightarrow> (nat \<times> string \<times> content_block \<times> nat) list" where
  "misplaced ms = concat (map (\<lambda>(idx, m).
     if msg_role m = User
     then List.map_filter (misplaced_block (tool_use_index ms) idx) (inner_blocks m) else [])
     (enumerate 0 ms))"

text \<open>\<open>retain\<close> on the blocks of a message, keyed by its index.\<close>

definition remove_sources :: "(nat \<times> string) set \<Rightarrow> nat \<Rightarrow> message \<Rightarrow> message" where
  "remove_sources sources idx m =
     (if msg_role m \<noteq> User then m
      else (case msg_content m of
          Text _ \<Rightarrow> m
        | Blocks bs \<Rightarrow> m\<lparr>msg_content := Blocks (filter (\<lambda>b.
            case block_result_id b of Some i \<Rightarrow> (idx, i) \<notin> sources | None \<Rightarrow> True) bs)\<rparr>))"

text \<open>\<open>entry(k).or_default().push(b)\<close>.\<close>

fun push_group :: "'k \<Rightarrow> 'b \<Rightarrow> ('k, 'b list) table \<Rightarrow> ('k, 'b list) table" where
  "push_group k b [] = [(k, [b])]"
| "push_group k b ((j, bs) # t) =
     (if j = k then (j, bs @ [b]) # t else (j, bs) # push_group k b t)"

definition group_blocks :: "('k \<times> 'b) list \<Rightarrow> ('k, 'b list) table" where
  "group_blocks ps = foldl (\<lambda>t (k, b). push_group k b t) [] ps"

text \<open>Sorting the groups by \<open>Reverse(index)\<close>.\<close>

definition sort_descending :: "(nat, 'b) table \<Rightarrow> (nat, 'b) table" where
  "sort_descending t = sort_key (\<lambda>(k, _). - int k) t"

text \<open>
  Adding results behind an assistant message: to the user message at the position when there is
  one, else in a new user message.
\<close>

definition place_results :: "nat \<Rightarrow> content_block list \<Rightarrow> message list \<Rightarrow> message list" where
  "place_results pos bs ms =
     (if pos < length ms \<and> msg_role (ms ! pos) = User
      then ms[pos := (ms ! pos)\<lparr>msg_content :=
                        Blocks (content_to_blocks (msg_content (ms ! pos)) @ bs)\<rparr>]
      else take pos ms @ \<lparr>msg_role = User, msg_content = Blocks bs\<rparr> # drop pos ms)"

text \<open>Where the assistant messages are after the removals, looked up through their tool uses.\<close>

definition current_positions :: "(string \<Rightarrow> nat option) \<Rightarrow> message list \<Rightarrow> nat \<Rightarrow> nat option" where
  "current_positions index ms =
     map_of (rev (List.map_filter
       (\<lambda>(i, idx). case index i of Some orig \<Rightarrow> Some (orig, idx) | None \<Rightarrow> None)
       (assistant_uses ms)))"

fun insert_groups ::
  "(nat \<Rightarrow> nat option) \<Rightarrow> (nat, content_block list) table \<Rightarrow> message list \<Rightarrow> message list"
where
  "insert_groups pos [] ms = ms"
| "insert_groups pos ((orig, bs) # gs) ms =
     (case pos orig of
        None \<Rightarrow> insert_groups pos gs ms
      | Some cur \<Rightarrow> insert_groups pos gs (place_results (min (cur + 1) (length ms)) bs ms))"

definition remove_misplaced :: "message list \<Rightarrow> message list" where
  "remove_misplaced ms =
     (let sources = set (map (\<lambda>(idx, i, _, _). (idx, i)) (misplaced ms))
      in filter nonempty_content (map (\<lambda>(idx, m). remove_sources sources idx m) (enumerate 0 ms)))"

definition reorder_tool_results :: "message list \<Rightarrow> message list \<times> nat" where
  "reorder_tool_results ms =
     (let index = tool_use_index ms; mis = misplaced ms
      in if mis = [] then (ms, 0)
         else (let ms2 = remove_misplaced ms;
                   insertions = group_blocks (map (\<lambda>(_, _, b, a). (a, b)) mis)
               in (insert_groups (current_positions index ms2) (sort_descending insertions) ms2,
                   length mis)))"

text \<open>Phase 2c: a synthetic error result for every tool use without a result.\<close>

definition existing_result_ids :: "message list \<Rightarrow> string set" where
  "existing_result_ids ms = set (concat (map message_results ms))"

definition orphaned_uses :: "message list \<Rightarrow> (string \<times> nat) list" where
  "orphaned_uses ms = filter (\<lambda>(i, _). i \<notin> existing_result_ids ms) (assistant_uses ms)"

definition synthetic_result :: "string \<Rightarrow> content_block" where
  "synthetic_result i = ToolResult i ''[Tool execution was interrupted or lost]'' True"

definition insert_synthetic_results :: "message list \<Rightarrow> message list \<times> nat" where
  "insert_synthetic_results ms =
     (let orphaned = orphaned_uses ms
      in if orphaned = [] then (ms, 0)
         else (insert_groups Some
                 (sort_descending (group_blocks (map (\<lambda>(i, idx). (idx, synthetic_result i)) orphaned)))
                 ms,
               length orphaned))"

text \<open>Phase 2d: only the first result of an id is kept; then empty messages go.\<close>

fun dedup_blocks :: "string set \<Rightarrow> content_block list \<Rightarrow> content_block list \<times> string set" where
  "dedup_blocks seen [] = ([], seen)"
| "dedup_blocks seen (b # bs) =
     (case block_result_id b of
        None \<Rightarrow> (let (r, s) = dedup_blocks seen bs in (b # r, s))
      | Some i \<Rightarrow> if i \<in> seen then dedup_blocks seen bs
                  else (let (r, s) = dedup_blocks (insert i seen) bs in (b # r, s)))"

fun dedup_messages :: "string set \<Rightarrow> message list \<Rightarrow> message list \<times> nat" where
  "dedup_messages seen [] = ([], 0)"
| "dedup_messages seen (m # ms) =
     (case msg_content m of
        Text _ \<Rightarrow> (let (r, n) = dedup_messages seen ms in (m # r, n))
      | Blocks bs \<Rightarrow>
          (let (bs', seen') = dedup_blocks seen bs; (r, n) = dedup_messages seen' ms
           in (m\<lparr>msg_content := Blocks bs'\<rparr> # r, n + (length bs - length bs'))))"

definition deduplicate_tool_results :: "message list \<Rightarrow> message list \<times> nat" where
  "deduplicate_tool_results ms =
     (let (r, n) = dedup_messages {} ms in (filter nonempty_content r, n))"

text \<open>Phase 2e. The loop skips a blank assistant message unless it is the last message.\<close>

fun is_blank_block :: "content_block \<Rightarrow> bool" where
  "is_blank_block (TextBlock t) = (trim t = [])"
| "is_blank_block Unknown = True"
| "is_blank_block _ = False"

fun is_empty_or_blank_content :: "message_content \<Rightarrow> bool" where
  "is_empty_or_blank_content (Text s) = (trim s = [])"
| "is_empty_or_blank_content (Blocks bs) = (bs = [] \<or> list_all is_blank_block bs)"

fun remove_aborted_loop :: "message list \<Rightarrow> nat \<Rightarrow> nat \<Rightarrow> message list" where
  "remove_aborted_loop [] i len = []"
| "remove_aborted_loop (m # ms) i len =
     (if msg_role m = Assistant \<and> is_empty_or_blank_content (msg_content m) \<and> i + 1 < len
      then remove_aborted_loop ms (i + 1) len
      else m # remove_aborted_loop ms (i + 1) len)"

definition remove_aborted_assistant_messages :: "message list \<Rightarrow> message list" where
  "remove_aborted_assistant_messages ms =
     (if length ms < 2 then ms else remove_aborted_loop ms 0 (length ms))"

text \<open>Phase 3. \<open>merged\<close> is the vector built so far, last message at its end.\<close>

definition merge_step :: "message list \<times> repair_stats \<Rightarrow> message \<Rightarrow> message list \<times> repair_stats" where
  "merge_step acc m = (case acc of (merged, st) \<Rightarrow>
     (if merged \<noteq> [] \<and> msg_role (last merged) = msg_role m
      then (butlast merged @
              [(last merged)\<lparr>msg_content := merge_content (msg_content (last merged)) (msg_content m)\<rparr>],
            st\<lparr>messages_merged := messages_merged st + 1\<rparr>)
      else (merged @ [m], st)))"

definition merge_messages :: "message list \<Rightarrow> repair_stats \<Rightarrow> message list \<times> repair_stats" where
  "merge_messages ms st = foldl merge_step ([], st) ms"

definition validate_and_repair_with_stats :: "message list \<Rightarrow> message list \<times> repair_stats" where
  "validate_and_repair_with_stats ms =
     (let (c1, st1) = filter_orphans (tool_use_ids ms) ms no_repairs;
          (c2, n_reordered) = reorder_tool_results c1;
          st2 = st1\<lparr>results_reordered := n_reordered\<rparr>;
          (c3, n_synthetic) = insert_synthetic_results c2;
          st3 = st2\<lparr>synthetic_results_inserted := n_synthetic\<rparr>;
          (c4, n_dup) = deduplicate_tool_results c3;
          st4 = st3\<lparr>duplicates_removed := n_dup\<rparr>;
          c5 = remove_aborted_assistant_messages c4;
          st5 = st4\<lparr>empty_messages_removed :=
                     empty_messages_removed st4 + (length c4 - length c5)\<rparr>
      in merge_messages c5 st5)"

definition validate_and_repair :: "message list \<Rightarrow> message list" where
  "validate_and_repair ms = fst (validate_and_repair_with_stats ms)"

text \<open>Pruning of heartbeat turns (\<open>NO_REPLY\<close>), outside the last \<open>keep_recent\<close> messages.\<close>

definition is_no_reply_text :: "string \<Rightarrow> bool" where
  "is_no_reply_text s \<longleftrightarrow> (let t = trim s in t = ''NO_REPLY'' \<or> t = ''[no reply needed]'')"

fun is_no_reply :: "message_content \<Rightarrow> bool" where
  "is_no_reply (Text s) = is_no_reply_text s"
| "is_no_reply (Blocks [TextBlock s]) = is_no_reply_text s"
| "is_no_reply (Blocks _) = False"

definition heartbeat_indices :: "message list \<Rightarrow> nat \<Rightarrow> nat list" where
  "heartbeat_indices ms prune_end = concat (map (\<lambda>i.
     if msg_role (ms ! i) = Assistant \<and> is_no_reply (msg_content (ms ! i))
     then (if i > 0 \<and> msg_role (ms ! (i - 1)) = User then [i, i - 1] else [i])
     else []) [0..<prune_end])"

definition remove_at :: "nat \<Rightarrow> 'a list \<Rightarrow> 'a list" where
  "remove_at i xs = take i xs @ drop (Suc i) xs"

definition prune_heartbeat_turns :: "message list \<Rightarrow> nat \<Rightarrow> message list" where
  "prune_heartbeat_turns ms keep_recent =
     (if length ms \<le> keep_recent then ms
      else (let to_remove = remdups (sort (heartbeat_indices ms (length ms - keep_recent)))
            in foldr remove_at to_remove ms))"

end
