(* ===== verification/Repair_Correct.thy ===== *)
theory Repair_Correct
  imports Session_Repair "HOL-Library.Multiset"
begin

text \<open>
  What the repair of \<open>session_repair.rs\<close> guarantees. Each phase is described by what it does to
  the tool uses of the history, to its results and to the pairing of results with uses; the
  theorems about the whole pipeline chain these facts.
\<close>

section \<open>What a history contains\<close>

definition all_use_ids :: "message list \<Rightarrow> string list" where
  "all_use_ids ms = concat (map message_uses ms)"

definition asst_ids :: "message list \<Rightarrow> string list" where
  "asst_ids ms = concat (map message_uses (filter (\<lambda>m. msg_role m = Assistant) ms))"

definition all_result_ids :: "message list \<Rightarrow> string list" where
  "all_result_ids ms = concat (map message_results ms)"

lemma contents_simps [simp]:
  "all_use_ids [] = []" "all_use_ids (m # ms) = message_uses m @ all_use_ids ms"
  "all_use_ids (ms @ ns) = all_use_ids ms @ all_use_ids ns"
  "asst_ids [] = []"
  "asst_ids (m # ms) = (if msg_role m = Assistant then message_uses m else []) @ asst_ids ms"
  "asst_ids (ms @ ns) = asst_ids ms @ asst_ids ns"
  "all_result_ids [] = []" "all_result_ids (m # ms) = message_results m @ all_result_ids ms"
  "all_result_ids (ms @ ns) = all_result_ids ms @ all_result_ids ns"
  by (simp_all add: all_use_ids_def asst_ids_def all_result_ids_def)

lemma ids_simps [simp]:
  "use_ids [] = []" "result_ids [] = []"
  "use_ids (bs @ cs) = use_ids bs @ use_ids cs"
  "result_ids (bs @ cs) = result_ids bs @ result_ids cs"
  "use_ids (b # bs) = (case block_use_id b of None \<Rightarrow> use_ids bs | Some i \<Rightarrow> i # use_ids bs)"
  "result_ids (b # bs) =
     (case block_result_id b of None \<Rightarrow> result_ids bs | Some i \<Rightarrow> i # result_ids bs)"
  by (simp_all add: use_ids_def result_ids_def split: option.split)

lemma tool_use_ids_eq: "tool_use_ids ms = set (all_use_ids ms)"
  by (simp add: tool_use_ids_def all_use_ids_def)

lemma existing_result_ids_eq: "existing_result_ids ms = set (all_result_ids ms)"
  by (simp add: existing_result_ids_def all_result_ids_def)

lemma message_ids_content:
  "message_uses m = use_ids (content_to_blocks (msg_content m))"
  "message_results m = result_ids (content_to_blocks (msg_content m))"
  by (cases "msg_content m"; simp add: message_uses_def message_results_def inner_blocks_def)+

lemma empty_content_ids:
  "\<not> nonempty_content m \<Longrightarrow> message_uses m = []"
  "\<not> nonempty_content m \<Longrightarrow> message_results m = []"
  by (cases "msg_content m"; simp add: nonempty_content_def message_ids_content)+

lemma blank_content_ids:
  assumes "is_empty_or_blank_content c"
  shows "use_ids (content_to_blocks c) = []" and "result_ids (content_to_blocks c) = []"
proof -
  have "use_ids bs = [] \<and> result_ids bs = []" if "list_all is_blank_block bs" for bs
    using that
  proof (induction bs)
    case (Cons b bs)
    then show ?case by (cases b) auto
  qed simp
  with assms show "use_ids (content_to_blocks c) = []" and "result_ids (content_to_blocks c) = []"
    by (cases c; auto)+
qed

section \<open>Phase 2\<close>

definition clean_message :: "string set \<Rightarrow> message \<Rightarrow> message option" where
  "clean_message ids m =
     (case msg_content m of
        Text s \<Rightarrow> if s = [] then None else Some m
      | Blocks bs \<Rightarrow>
          (let f = filter (\<lambda>b. case block_result_id b of Some i \<Rightarrow> i \<in> ids | None \<Rightarrow> True) bs
           in if f = [] then None else Some (m\<lparr>msg_content := Blocks f\<rparr>)))"

lemma fst_filter_orphans:
  "fst (filter_orphans ids ms st) = List.map_filter (clean_message ids) ms"
  by (induction ms arbitrary: st)
    (auto simp: clean_message_def Let_def case_prod_beta split: message_content.split)

lemma use_ids_filter_results:
  "use_ids (filter (\<lambda>b. case block_result_id b of Some i \<Rightarrow> Q i | None \<Rightarrow> True) bs) = use_ids bs"
proof (induction bs)
  case (Cons b bs)
  then show ?case by (cases b) auto
qed simp

lemma result_ids_filter_results:
  "result_ids (filter (\<lambda>b. case block_result_id b of Some i \<Rightarrow> Q i | None \<Rightarrow> True) bs)
     = filter Q (result_ids bs)"
proof (induction bs)
  case (Cons b bs)
  then show ?case by (cases b) auto
qed simp

lemma clean_message_None: "clean_message ids m = None \<Longrightarrow> message_uses m = []"
  using use_ids_filter_results [of "\<lambda>i. i \<in> ids"]
  by (auto simp: clean_message_def message_ids_content Let_def split: message_content.splits if_splits)
     (metis ids_simps(1))

lemma clean_message_Some:
  assumes "clean_message ids m = Some m'"
  shows "msg_role m' = msg_role m" and "message_uses m' = message_uses m"
    and "set (message_results m') \<subseteq> ids" and "nonempty_content m'"
  using assms
  by (auto simp: clean_message_def message_ids_content Let_def use_ids_filter_results
      result_ids_filter_results nonempty_content_def split: message_content.splits if_splits)

lemma phase2_facts:
  defines "r \<equiv> \<lambda>ids ms. List.map_filter (clean_message ids) ms"
  shows "all_use_ids (r ids ms) = all_use_ids ms" and "asst_ids (r ids ms) = asst_ids ms"
    and "set (all_result_ids (r ids ms)) \<subseteq> ids"
    and "\<forall>m \<in> set (r ids ms). nonempty_content m"
proof -
  show "all_use_ids (r ids ms) = all_use_ids ms"
    unfolding r_def by (induction ms)
      (auto split: option.split simp: clean_message_None dest: clean_message_Some(2))
  show "asst_ids (r ids ms) = asst_ids ms"
    unfolding r_def by (induction ms)
      (auto split: option.split simp: clean_message_None dest: clean_message_Some(1,2))
  show "set (all_result_ids (r ids ms)) \<subseteq> ids"
    unfolding r_def by (induction ms)
      (auto split: option.split dest!: clean_message_Some(3))
  show "\<forall>m \<in> set (r ids ms). nonempty_content m"
    unfolding r_def by (auto simp: set_map_filter dest: clean_message_Some(4))
qed

section \<open>Placing results\<close>

lemma list_split_nth: "i < length xs \<Longrightarrow> xs = take i xs @ xs ! i # drop (Suc i) xs"
  by (rule id_take_nth_drop)

lemma place_results_contents:
  assumes "use_ids bs = []"
  shows "all_use_ids (place_results pos bs ms) = all_use_ids ms"
    and "asst_ids (place_results pos bs ms) = asst_ids ms"
    and "mset (all_result_ids (place_results pos bs ms)) = mset (all_result_ids ms) + mset (result_ids bs)"
proof -
  consider (user) "pos < length ms" "msg_role (ms ! pos) = User"
    | (new) "\<not> (pos < length ms \<and> msg_role (ms ! pos) = User)" by blast
  then have "all_use_ids (place_results pos bs ms) = all_use_ids ms \<and>
    asst_ids (place_results pos bs ms) = asst_ids ms \<and>
    mset (all_result_ids (place_results pos bs ms)) = mset (all_result_ids ms) + mset (result_ids bs)"
  proof cases
    case user
    let ?m = "ms ! pos" and ?a = "take pos ms" and ?b = "drop (Suc pos) ms"
    have ms: "ms = ?a @ ?m # ?b" using user(1) by (rule list_split_nth)
    have pl: "place_results pos bs ms = ?a @ ?m\<lparr>msg_content :=
        Blocks (content_to_blocks (msg_content ?m) @ bs)\<rparr> # ?b"
      using user by (simp add: place_results_def upd_conv_take_nth_drop)
    have "all_use_ids ms = all_use_ids (?a @ ?m # ?b)" "asst_ids ms = asst_ids (?a @ ?m # ?b)"
      "all_result_ids ms = all_result_ids (?a @ ?m # ?b)" using ms by simp_all
    then show ?thesis unfolding pl using assms user(2) by (simp add: message_ids_content)
  next
    case new
    have "all_use_ids ms = all_use_ids (take pos ms @ drop pos ms)"
      "asst_ids ms = asst_ids (take pos ms @ drop pos ms)"
      "all_result_ids ms = all_result_ids (take pos ms @ drop pos ms)" by simp_all
    with new assms show ?thesis
      by (simp only: place_results_def if_False contents_simps) (simp add: message_ids_content)
  qed
  then show "all_use_ids (place_results pos bs ms) = all_use_ids ms"
    and "asst_ids (place_results pos bs ms) = asst_ids ms"
    and "mset (all_result_ids (place_results pos bs ms)) = mset (all_result_ids ms) + mset (result_ids bs)"
    by auto
qed

lemma place_results_nonempty:
  assumes "\<forall>m \<in> set ms. nonempty_content m" and "bs \<noteq> []"
  shows "\<forall>m \<in> set (place_results pos bs ms). nonempty_content m"
  using assms
  by (auto simp: place_results_def nonempty_content_def dest: in_set_takeD in_set_dropD
      dest!: set_update_subset_insert [THEN subsetD])

lemma insert_groups_contents:
  assumes "\<forall>(k, bs) \<in> set gs. use_ids bs = [] \<and> pos k \<noteq> None"
  shows "all_use_ids (insert_groups pos gs ms) = all_use_ids ms"
    and "asst_ids (insert_groups pos gs ms) = asst_ids ms"
    and "mset (all_result_ids (insert_groups pos gs ms))
           = mset (all_result_ids ms) + mset (concat (map (\<lambda>(_, bs). result_ids bs) gs))"
proof -
  have "all_use_ids (insert_groups pos gs ms) = all_use_ids ms \<and>
    asst_ids (insert_groups pos gs ms) = asst_ids ms \<and>
    mset (all_result_ids (insert_groups pos gs ms))
      = mset (all_result_ids ms) + mset (concat (map (\<lambda>(_, bs). result_ids bs) gs))"
    using assms
  proof (induction pos gs ms rule: insert_groups.induct)
    case (2 pos orig bs gs ms)
    then obtain cur where cur: "pos orig = Some cur" by auto
    with 2 show ?case by (simp add: place_results_contents)
  qed simp
  then show "all_use_ids (insert_groups pos gs ms) = all_use_ids ms"
    and "asst_ids (insert_groups pos gs ms) = asst_ids ms"
    and "mset (all_result_ids (insert_groups pos gs ms))
           = mset (all_result_ids ms) + mset (concat (map (\<lambda>(_, bs). result_ids bs) gs))"
    by auto
qed

lemma insert_groups_nonempty:
  assumes "\<forall>m \<in> set ms. nonempty_content m" and "\<forall>(k, bs) \<in> set gs. bs \<noteq> []"
  shows "\<forall>m \<in> set (insert_groups pos gs ms). nonempty_content m"
  using assms
proof (induction pos gs ms rule: insert_groups.induct)
  case (2 pos orig bs gs ms)
  then show ?case
    using place_results_nonempty [of ms bs] by (auto split: option.split)
qed simp

section \<open>Grouping\<close>

lemma push_group_facts:
  "map_of (push_group k b t) = (map_of t)(k \<mapsto> (case map_of t k of None \<Rightarrow> [b] | Some bs \<Rightarrow> bs @ [b]))"
  "mset (concat (map snd (push_group k b t))) = mset (concat (map snd t)) + {#b#}"
  "distinct (map fst t) \<Longrightarrow> distinct (map fst (push_group k b t))"
  "fst ` set (push_group k b t) = insert k (fst ` set t)"
proof -
  show "map_of (push_group k b t) = (map_of t)(k \<mapsto> (case map_of t k of None \<Rightarrow> [b] | Some bs \<Rightarrow> bs @ [b]))"
    by (induction k b t rule: push_group.induct) (auto simp: fun_eq_iff)
  show "mset (concat (map snd (push_group k b t))) = mset (concat (map snd t)) + {#b#}"
    by (induction k b t rule: push_group.induct) auto
  show keys: "fst ` set (push_group k b t) = insert k (fst ` set t)" for t
    by (induction k b t rule: push_group.induct) (auto simp: insert_commute)
  show "distinct (map fst t) \<Longrightarrow> distinct (map fst (push_group k b t))"
  proof (induction t)
    case (Cons a t)
    then show ?case using keys [of t] by (cases a) auto
  qed simp
qed

lemma group_blocks_snoc: "group_blocks (ps @ [(k, b)]) = push_group k b (group_blocks ps)"
  by (simp add: group_blocks_def)

lemma group_blocks_facts:
  "mset (concat (map snd (group_blocks ps))) = mset (map snd ps)"
  "distinct (map fst (group_blocks ps))"
  "map_of (group_blocks ps) k = (let bs = map snd (filter (\<lambda>p. fst p = k) ps) in
     if bs = [] then None else Some bs)"
proof -
  have "mset (concat (map snd (group_blocks ps))) = mset (map snd ps) \<and>
    distinct (map fst (group_blocks ps)) \<and>
    (\<forall>k. map_of (group_blocks ps) k = (let bs = map snd (filter (\<lambda>p. fst p = k) ps) in
      if bs = [] then None else Some bs))"
  proof (induction ps rule: rev_induct)
    case Nil
    then show ?case by (simp add: group_blocks_def)
  next
    case (snoc p ps)
    then show ?case
      by (cases p) (auto simp: group_blocks_snoc push_group_facts Let_def)
  qed
  then show "mset (concat (map snd (group_blocks ps))) = mset (map snd ps)"
    and "distinct (map fst (group_blocks ps))"
    and "map_of (group_blocks ps) k = (let bs = map snd (filter (\<lambda>p. fst p = k) ps) in
      if bs = [] then None else Some bs)" by auto
qed

lemma group_blocks_member:
  "(k, bs) \<in> set (group_blocks ps) \<Longrightarrow> bs = map snd (filter (\<lambda>p. fst p = k) ps) \<and> bs \<noteq> []"
  using group_blocks_facts(2,3) [of ps] map_of_is_SomeI [of "group_blocks ps" k bs]
  by (auto simp: Let_def split: if_splits)

lemma set_sort_descending [simp]: "set (sort_descending t) = set t"
  by (simp add: sort_descending_def)

lemma mset_sort_descending [simp]: "mset (sort_descending t) = mset t"
  by (simp add: sort_descending_def)

lemma mset_concat_map_cong:
  "mset xs = mset ys \<Longrightarrow> mset (concat (map f xs)) = mset (concat (map f ys))"
  by (metis mset_concat mset_map sum_mset_sum_list image_mset_cong)

lemma sorted_descending:
  assumes "distinct (map fst t)"
  shows "sorted_wrt (\<lambda>p q. fst q < fst p) (sort_descending t)"
proof -
  have "sorted (map (\<lambda>(k, _). - int k) (sort_descending t))"
    by (simp add: sort_descending_def)
  moreover have "distinct (map fst (sort_descending t))"
    using assms by (metis mset_sort_descending mset_map mset_eq_imp_distinct_iff)
  moreover have "sorted_wrt (\<lambda>p q. fst q < fst p) xs"
    if "sorted (map (\<lambda>(k, _). - int k) xs)" "distinct (map fst xs)" for xs :: "(nat \<times> 'a) list"
    using that by (induction xs) (force simp: case_prod_beta image_iff)+
  ultimately show ?thesis by blast
qed

section \<open>Pairing of results with uses\<close>

text \<open>
  \<open>prev_uses p ms i\<close> are the tool uses of the assistant message right before message \<open>i\<close> (\<open>p\<close>
  for the first). A history is paired for the ids \<open>U\<close> when every result in a user message whose
  id is in \<open>U\<close> answers a use of the message right before it.
\<close>

definition turn_uses :: "message \<Rightarrow> string set" where
  "turn_uses m = (if msg_role m = Assistant then set (message_uses m) else {})"

fun paired :: "string set \<Rightarrow> string set \<Rightarrow> message list \<Rightarrow> bool" where
  "paired U p [] \<longleftrightarrow> True"
| "paired U p (m # ms) \<longleftrightarrow>
     (msg_role m = User \<longrightarrow> set (message_results m) \<inter> U \<subseteq> p) \<and> paired U (turn_uses m) ms"

definition prev_uses :: "string set \<Rightarrow> message list \<Rightarrow> nat \<Rightarrow> string set" where
  "prev_uses p ms i = (if i = 0 then p else turn_uses (ms ! (i - 1)))"

lemma paired_index:
  "paired U p ms \<longleftrightarrow>
     (\<forall>i < length ms. msg_role (ms ! i) = User \<longrightarrow>
        set (message_results (ms ! i)) \<inter> U \<subseteq> prev_uses p ms i)"
proof (induction ms arbitrary: p)
  case (Cons m ms)
  have step: "prev_uses p (m # ms) (Suc i) = prev_uses (turn_uses m) ms i" if "i < length ms" for i
    using that by (cases i) (auto simp: prev_uses_def)
  show ?case
    unfolding paired.simps Cons.IH
    using step by (simp add: All_less_Suc2 prev_uses_def [of p _ 0])
qed simp

lemma paired_mono: "paired U p ms \<Longrightarrow> p \<subseteq> p' \<Longrightarrow> paired U p' ms"
  by (cases ms) auto

lemma paired_filter:
  assumes "\<And>m. m \<in> set ms \<Longrightarrow> \<not> P m \<Longrightarrow> message_uses m = []" and "paired U p ms"
  shows "paired U p (filter P ms)"
  using assms
proof (induction ms arbitrary: p)
  case (Cons m ms)
  show ?case
  proof (cases "P m")
    case True
    with Cons show ?thesis by auto
  next
    case False
    with Cons.prems(1) [of m] have "turn_uses m = {}" by (simp add: turn_uses_def)
    with Cons.prems have "paired U p ms" using paired_mono [of U "{}" ms p] by simp
    with Cons False show ?thesis by auto
  qed
qed simp

lemma paired_append:
  "paired U p (ms @ ns) \<longleftrightarrow>
     paired U p ms \<and> paired U (if ms = [] then p else turn_uses (last ms)) ns"
  by (induction ms arbitrary: p) auto

lemma place_results_prefix:
  "i < pos \<Longrightarrow> i < length ms \<Longrightarrow> place_results pos bs ms ! i = ms ! i"
  by (auto simp: place_results_def nth_append)

lemma place_results_length: "length ms \<le> length (place_results pos bs ms)"
  by (auto simp: place_results_def)

lemma paired_place:
  assumes "paired U p ms" and "cur < length ms" and "set (result_ids bs) \<inter> U \<subseteq> turn_uses (ms ! cur)"
    and "use_ids bs = []"
  shows "paired U p (place_results (cur + 1) bs ms)"
proof (cases "cur + 1 < length ms \<and> msg_role (ms ! (cur + 1)) = User")
  case True
  let ?a = "take cur ms" and ?m = "ms ! cur" and ?u = "ms ! (cur + 1)" and ?b = "drop (cur + 2) ms"
  have ms: "ms = ?a @ ?m # ?u # ?b"
    using True assms(2) by (metis Suc_1 Suc_eq_plus1 add.assoc id_take_nth_drop Cons_nth_drop_Suc plus_1_eq_Suc)
  have "place_results (cur + 1) bs ms =
      ?a @ ?m # ?u\<lparr>msg_content := Blocks (content_to_blocks (msg_content ?u) @ bs)\<rparr> # ?b"
    using True assms(2)
    by (simp add: place_results_def upd_conv_take_nth_drop take_Suc_conv_app_nth)
  moreover from assms(1) have "paired U p (?a @ ?m # ?u # ?b)" using ms by simp
  ultimately show ?thesis
    using assms(3) True by (auto simp: paired_append message_ids_content turn_uses_def)
next
  case False
  let ?a = "take cur ms" and ?m = "ms ! cur" and ?b = "drop (cur + 1) ms"
  have ms: "ms = ?a @ ?m # ?b" using assms(2) by (simp add: id_take_nth_drop)
  have "place_results (cur + 1) bs ms = ?a @ ?m # \<lparr>msg_role = User, msg_content = Blocks bs\<rparr> # ?b"
    using False assms(2) by (auto simp: place_results_def take_Suc_conv_app_nth)
  moreover from assms(1) have "paired U p (?a @ ?m # ?b)" using ms by simp
  moreover have "paired U q ?b \<longleftrightarrow> paired U {} ?b" for q
  proof (cases ?b)
    case (Cons b bs')
    then have "cur + 1 < length ms" and "b = ms ! (cur + 1)"
      by (metis drop_eq_Nil leI list.distinct(1), metis Cons nth_via_drop)
    with False Cons show ?thesis by simp
  qed simp
  ultimately show ?thesis
    using assms(3) by (auto simp: paired_append message_ids_content)
qed

text \<open>
  Insertion at decreasing positions: each group goes behind a message that uses its ids, and the
  messages before it are not moved.
\<close>

definition groups_fit :: "string set \<Rightarrow> (nat \<Rightarrow> nat option) \<Rightarrow> (nat, content_block list) table \<Rightarrow> message list \<Rightarrow> bool"
where
  "groups_fit U pos gs ms \<longleftrightarrow> (\<forall>(k, bs) \<in> set gs. use_ids bs = [] \<and> (\<exists>cur. pos k = Some cur \<and>
     cur < length ms \<and> set (result_ids bs) \<inter> U \<subseteq> turn_uses (ms ! cur)))"

lemma paired_insert_groups:
  assumes "groups_fit U pos gs ms" and "paired U p ms"
    and "sorted_wrt (\<lambda>g h. the (pos (fst h)) < the (pos (fst g))) gs"
  shows "paired U p (insert_groups pos gs ms)"
  using assms
proof (induction pos gs ms rule: insert_groups.induct)
  case (2 pos orig bs gs ms)
  from "2.prems"(1) obtain cur where cur: "pos orig = Some cur" "cur < length ms"
    "set (result_ids bs) \<inter> U \<subseteq> turn_uses (ms ! cur)" "use_ids bs = []"
    by (auto simp: groups_fit_def)
  let ?ms = "place_results (min (cur + 1) (length ms)) bs ms"
  have min: "min (cur + 1) (length ms) = cur + 1" using cur(2) by simp
  have "paired U p ?ms" unfolding min using "2.prems"(2) cur(2,3,4) by (rule paired_place)
  moreover have "groups_fit U pos gs ?ms"
    unfolding groups_fit_def
  proof (clarify)
    fix k bs' assume g: "(k, bs') \<in> set gs"
    with "2.prems"(1) obtain c where c: "use_ids bs' = []" "pos k = Some c" "c < length ms"
      "set (result_ids bs') \<inter> U \<subseteq> turn_uses (ms ! c)" by (force simp: groups_fit_def)
    from "2.prems"(3) g cur(1) c(2) have "c < cur" by force
    then have "?ms ! c = ms ! c" unfolding min using c(3) by (intro place_results_prefix) auto
    moreover have "c < length ?ms" using c(3) place_results_length less_le_trans by blast
    ultimately show "use_ids bs' = [] \<and> (\<exists>cur. pos k = Some cur \<and> cur < length ?ms \<and>
        set (result_ids bs') \<inter> U \<subseteq> turn_uses (?ms ! cur))" using c by auto
  qed
  moreover have "sorted_wrt (\<lambda>g h. the (pos (fst h)) < the (pos (fst g))) gs"
    using "2.prems"(3) by simp
  ultimately show ?case using "2.IH"(2) [OF cur(1)] cur(1) by simp
qed simp

section \<open>Phase 2b\<close>

lemma set_assistant_uses:
  "(i, idx) \<in> set (assistant_uses ms) \<longleftrightarrow> idx < length ms \<and> i \<in> turn_uses (ms ! idx)"
proof -
  have "(i, idx) \<in> set (assistant_uses ms) \<longleftrightarrow>
      (\<exists>m. (idx, m) \<in> set (enumerate 0 ms) \<and> i \<in> turn_uses m)"
    by (auto simp: assistant_uses_def turn_uses_def split: if_splits)
  then show ?thesis by (auto simp: in_set_enumerate_eq)
qed

lemma sorted_assistant_uses: "sorted (map snd (assistant_uses ms))"
proof -
  let ?f = "\<lambda>(idx, m). if msg_role m = Assistant then map (\<lambda>i. (i, idx)) (message_uses m) else []"
  have lower: "n \<le> snd q" if "q \<in> set (concat (map ?f (enumerate n ms)))" for n q and ms :: "message list"
    using that by (force simp: in_set_enumerate_eq split: if_splits)
  have const: "sorted (map (\<lambda>i. n) xs)" for n :: nat and xs :: "string list"
    by (induction xs) auto
  have "sorted (map snd (concat (map ?f (enumerate n ms))))" for n
  proof (induction ms arbitrary: n)
    case (Cons m ms)
    define L where "L = concat (map ?f (enumerate (Suc n) ms))"
    have "\<forall>v \<in> set (map snd L). n \<le> v"
      using lower [of _ "Suc n" ms] unfolding L_def [symmetric] by fastforce
    moreover have "sorted (map snd L)" using Cons [of "Suc n"] by (simp add: L_def)
    ultimately have "sorted (map (\<lambda>i. n) us @ map snd L)" for us :: "string list"
      using const by (auto simp: sorted_append)
    then have "sorted (map snd (?f (n, m) @ L))"
      by (cases "msg_role m = Assistant") (auto simp: comp_def \<open>sorted (map snd L)\<close>)
    then show ?case by (simp add: L_def)
  qed simp
  then show ?thesis by (simp add: assistant_uses_def)
qed

lemma tool_use_index_Some:
  assumes "tool_use_index ms i = Some a"
  shows "a < length ms" and "i \<in> turn_uses (ms ! a)"
    and "j < length ms \<Longrightarrow> i \<in> turn_uses (ms ! j) \<Longrightarrow> j \<le> a"
  using map_of_rev_latest [OF sorted_assistant_uses assms [unfolded tool_use_index_def]]
  by (auto simp: set_assistant_uses)

lemma tool_use_index_defined:
  "j < length ms \<Longrightarrow> i \<in> turn_uses (ms ! j) \<Longrightarrow> tool_use_index ms i \<noteq> None"
  unfolding tool_use_index_def by (rule map_of_rev_defined) (simp add: set_assistant_uses)

lemma asst_ids_turn: "i \<in> set (asst_ids ms) \<longleftrightarrow> (\<exists>j < length ms. i \<in> turn_uses (ms ! j))"
  by (auto simp: asst_ids_def turn_uses_def in_set_conv_nth)

lemma set_misplaced:
  "(idx, i, b, a) \<in> set (misplaced ms) \<longleftrightarrow>
     idx < length ms \<and> msg_role (ms ! idx) = User \<and> b \<in> set (inner_blocks (ms ! idx)) \<and>
     block_result_id b = Some i \<and> tool_use_index ms i = Some a \<and> idx \<noteq> a + 1"
proof -
  have mb: "misplaced_block f j b' = Some (idx, i, b, a) \<longleftrightarrow>
      j = idx \<and> b' = b \<and> block_result_id b = Some i \<and> f i = Some a \<and> idx \<noteq> a + 1" for f j b'
    by (auto split: option.splits)
  have "(idx, i, b, a) \<in> set (misplaced ms) \<longleftrightarrow>
      (\<exists>j m. (j, m) \<in> set (enumerate 0 ms) \<and> msg_role m = User \<and>
        (\<exists>b' \<in> set (inner_blocks m). misplaced_block (tool_use_index ms) j b' = Some (idx, i, b, a)))"
    by (auto simp: misplaced_def set_map_filter simp del: misplaced_block.simps split: if_splits)
  also have "\<dots> \<longleftrightarrow> (\<exists>m. (idx, m) \<in> set (enumerate 0 ms) \<and> msg_role m = User \<and>
      b \<in> set (inner_blocks m) \<and> block_result_id b = Some i \<and> tool_use_index ms i = Some a \<and> idx \<noteq> a + 1)"
    unfolding mb by auto
  finally show ?thesis by (auto simp: in_set_enumerate_eq)
qed

definition sources :: "message list \<Rightarrow> (nat \<times> string) set" where
  "sources ms = set (map (\<lambda>(idx, i, _, _). (idx, i)) (misplaced ms))"

lemma in_sources:
  "(idx, i) \<in> sources ms \<longleftrightarrow> idx < length ms \<and> msg_role (ms ! idx) = User \<and>
     i \<in> set (message_results (ms ! idx)) \<and> (\<exists>a. tool_use_index ms i = Some a \<and> idx \<noteq> a + 1)"
proof -
  have "(idx, i) \<in> sources ms \<longleftrightarrow> (\<exists>b a. (idx, i, b, a) \<in> set (misplaced ms))"
    by (force simp: sources_def)
  then show ?thesis
    by (auto simp: set_misplaced message_results_def result_ids_def set_map_filter)
qed

definition stripped :: "message list \<Rightarrow> message list" where
  "stripped ms = map (\<lambda>(idx, m). remove_sources (sources ms) idx m) (enumerate 0 ms)"

lemma remove_misplaced_eq: "remove_misplaced ms = filter nonempty_content (stripped ms)"
  by (simp add: remove_misplaced_def stripped_def sources_def Let_def)

lemma remove_sources_facts:
  "msg_role (remove_sources S idx m) = msg_role m"
  "message_uses (remove_sources S idx m) = message_uses m"
  "message_results (remove_sources S idx m) =
     (if msg_role m = User then filter (\<lambda>i. (idx, i) \<notin> S) (message_results m) else message_results m)"
  by (cases "msg_content m"; auto simp: remove_sources_def message_ids_content use_ids_filter_results
      result_ids_filter_results)+

lemma stripped_nth:
  "length (stripped ms) = length ms"
  "i < length ms \<Longrightarrow> stripped ms ! i = remove_sources (sources ms) i (ms ! i)"
  by (simp_all add: stripped_def nth_enumerate_eq)

lemma turn_uses_stripped: "i < length ms \<Longrightarrow> turn_uses (stripped ms ! i) = turn_uses (ms ! i)"
  by (simp add: turn_uses_def stripped_nth remove_sources_facts)

lemma use_lists_cong:
  assumes "map (\<lambda>m. (msg_role m, message_uses m)) ms = map (\<lambda>m. (msg_role m, message_uses m)) ns"
  shows "all_use_ids ms = all_use_ids ns" and "asst_ids ms = asst_ids ns"
proof -
  have 1: "all_use_ids xs = concat (map snd (map (\<lambda>m. (msg_role m, message_uses m)) xs))" for xs
    by (induction xs) auto
  show "all_use_ids ms = all_use_ids ns" unfolding 1 assms by (rule refl)
  have 2: "asst_ids xs = concat (map (\<lambda>(r, u). if r = Assistant then u else [])
      (map (\<lambda>m. (msg_role m, message_uses m)) xs))" for xs
    by (induction xs) auto
  show "asst_ids ms = asst_ids ns" unfolding 2 assms by (rule refl)
qed

lemma stripped_uses:
  "all_use_ids (stripped ms) = all_use_ids ms" "asst_ids (stripped ms) = asst_ids ms"
  by (rule use_lists_cong, rule nth_equalityI; simp add: stripped_nth remove_sources_facts)+

lemma filter_nonempty_ids:
  "all_use_ids (filter nonempty_content ms) = all_use_ids ms"
  "asst_ids (filter nonempty_content ms) = asst_ids ms"
  "all_result_ids (filter nonempty_content ms) = all_result_ids ms"
  by (induction ms) (auto simp: empty_content_ids)

text \<open>A user result that is not misplaced directly follows its use.\<close>

lemma placed_result:
  assumes "idx < length ms" and "i \<in> set (asst_ids ms)" and "i \<in> set (message_results (ms ! idx))"
    and "msg_role (ms ! idx) = User" and "(idx, i) \<notin> sources ms"
  shows "i \<in> prev_uses {} ms idx"
proof -
  from assms(2) obtain a where a: "tool_use_index ms i = Some a"
    using tool_use_index_defined by (fastforce simp: asst_ids_turn)
  with assms have "idx = a + 1" by (auto simp: in_sources)
  with tool_use_index_Some(2) [OF a] show ?thesis by (simp add: prev_uses_def)
qed

lemma paired_stripped: "paired (set (asst_ids ms)) {} (stripped ms)"
  unfolding paired_index
proof (intro allI impI subsetI)
  fix idx i
  assume idx: "idx < length (stripped ms)" "msg_role (stripped ms ! idx) = User"
    and i: "i \<in> set (message_results (stripped ms ! idx)) \<inter> set (asst_ids ms)"
  then have "i \<in> prev_uses {} ms idx"
    by (intro placed_result) (auto simp: stripped_nth remove_sources_facts)
  with idx show "i \<in> prev_uses {} (stripped ms) idx"
    by (auto simp: prev_uses_def turn_uses_stripped stripped_nth(1) split: if_splits)
qed

lemma paired_removed: "paired (set (asst_ids ms)) {} (remove_misplaced ms)"
  unfolding remove_misplaced_eq
  by (rule paired_filter) (auto simp: paired_stripped empty_content_ids)

text \<open>The indices that survive the removals, in order.\<close>

definition kept :: "message list \<Rightarrow> nat list" where
  "kept ms = filter (\<lambda>i. nonempty_content (stripped ms ! i)) [0..<length ms]"

lemma removed_nth:
  "length (remove_misplaced ms) = length (kept ms)"
  "c < length (kept ms) \<Longrightarrow> remove_misplaced ms ! c = stripped ms ! (kept ms ! c)"
  unfolding remove_misplaced_eq kept_def
  by (subst filter_by_index; simp add: stripped_nth(1))+

lemma kept_nth_less: "c < length (kept ms) \<Longrightarrow> kept ms ! c < length ms"
  using nth_mem [of c "kept ms"] by (auto simp: kept_def)

lemma kept_strict: "c < d \<Longrightarrow> d < length (kept ms) \<Longrightarrow> kept ms ! c < kept ms ! d"
proof -
  have "sorted_wrt (<) (kept ms)" unfolding kept_def by (rule sorted_wrt_filter) simp
  then show "c < d \<Longrightarrow> d < length (kept ms) \<Longrightarrow> kept ms ! c < kept ms ! d"
    by (rule sorted_wrt_nth_less)
qed

lemma turn_uses_removed:
  "c < length (kept ms) \<Longrightarrow> turn_uses (remove_misplaced ms ! c) = turn_uses (ms ! (kept ms ! c))"
  using kept_nth_less [of c ms] by (simp add: removed_nth turn_uses_stripped)

lemma kept_user_of: 
  assumes "i \<in> turn_uses (ms ! k)" and "k < length ms"
  shows "\<exists>c < length (kept ms). kept ms ! c = k"
proof -
  have "nonempty_content (stripped ms ! k)"
  proof (rule ccontr)
    assume "\<not> nonempty_content (stripped ms ! k)"
    then have "turn_uses (stripped ms ! k) = {}" by (simp add: turn_uses_def empty_content_ids)
    with assms show False by (simp add: turn_uses_stripped)
  qed
  with assms(2) have "k \<in> set (kept ms)" by (simp add: kept_def)
  then show ?thesis by (auto simp: in_set_conv_nth)
qed

lemma current_positions_facts:
  fixes ms
  defines "pos \<equiv> current_positions (tool_use_index ms) (remove_misplaced ms)"
  assumes "tool_use_index ms i = Some k"
  shows "\<exists>cur. pos k = Some cur \<and> cur < length (remove_misplaced ms) \<and> kept ms ! cur = k"
proof -
  let ?ps = "List.map_filter
       (\<lambda>(i, idx). case tool_use_index ms i of Some orig \<Rightarrow> Some (orig, idx) | None \<Rightarrow> None)
       (assistant_uses (remove_misplaced ms))"
  have in_ps: "(orig, idx) \<in> set ?ps \<longleftrightarrow> (\<exists>j. tool_use_index ms j = Some orig \<and>
      idx < length (kept ms) \<and> j \<in> turn_uses (ms ! (kept ms ! idx)))" for orig idx
    by (auto simp: set_map_filter set_assistant_uses removed_nth(1) turn_uses_removed
        split: option.splits)
       (metis option.simps(5) case_prod_conv set_assistant_uses removed_nth(1) turn_uses_removed)
  have "sorted (map snd ?ps)"
  proof -
    have "sorted (map snd (List.map_filter
       (\<lambda>(i, idx). case f i of Some orig \<Rightarrow> Some (orig, idx) | None \<Rightarrow> None) xs))"
      if "sorted (map snd xs)" for f :: "string \<Rightarrow> nat option" and xs :: "(string \<times> nat) list"
      using that
    proof (induction xs)
      case (Cons x xs)
      have "\<forall>q \<in> set (List.map_filter
          (\<lambda>(i, idx). case f i of Some orig \<Rightarrow> Some (orig, idx) | None \<Rightarrow> None) xs). snd x \<le> snd q"
        using Cons.prems by (fastforce simp: set_map_filter split: option.splits)
      with Cons show ?case by (cases x) (auto split: option.split)
    qed simp
    then show ?thesis using sorted_assistant_uses by blast
  qed
  note latest = map_of_rev_latest [OF this]
  note k = tool_use_index_Some [OF assms(2)]
  obtain c where c: "c < length (kept ms)" "kept ms ! c = k" using kept_user_of [OF k(2,1)] by blast
  with k assms(2) have kc: "(k, c) \<in> set ?ps" by (auto simp: in_ps)
  then obtain cur where cur: "map_of (rev ?ps) k = Some cur" using map_of_rev_defined by fastforce
  from latest(1) [OF cur] obtain j where j: "tool_use_index ms j = Some k" "cur < length (kept ms)"
    "j \<in> turn_uses (ms ! (kept ms ! cur))" by (auto simp: in_ps)
  from tool_use_index_Some(3) [OF j(1) kept_nth_less [OF j(2)] j(3)] have "kept ms ! cur \<le> k" .
  moreover from latest(2) [OF cur kc] have "c \<le> cur" .
  ultimately have "cur = c" using kept_strict [of c cur ms] c j(2) by (cases "c = cur") auto
  with cur c show ?thesis by (auto simp: pos_def current_positions_def removed_nth(1))
qed

text \<open>The results taken out are those that were misplaced.\<close>

lemma mset_concat_split:
  assumes "\<And>x. x \<in> set L \<Longrightarrow> mset (f x) = mset (g x) + mset (h x)"
  shows "mset (concat (map f L)) = mset (concat (map g L)) + mset (concat (map h L))"
  using assms by (induction L) auto

lemma stripped_results:
  "mset (all_result_ids ms) = mset (all_result_ids (stripped ms)) + mset (map (\<lambda>(_, i, _, _). i) (misplaced ms))"
proof -
  let ?f = "\<lambda>(idx, m). message_results m"
  let ?g = "\<lambda>(idx, m). message_results (remove_sources (sources ms) idx m)"
  let ?t = "\<lambda>(idx, m). if msg_role m = User
     then List.map_filter (misplaced_block (tool_use_index ms) idx) (inner_blocks m) else []"
  let ?h = "\<lambda>p. map (\<lambda>(_, i, _, _). i) (?t p)"
  have "mset (concat (map ?f (enumerate 0 ms))) =
      mset (concat (map ?g (enumerate 0 ms))) + mset (concat (map ?h (enumerate 0 ms)))"
  proof (rule mset_concat_split)
    fix p assume "p \<in> set (enumerate 0 ms)"
    then have "p = (fst p, ms ! fst p)" and "fst p < length ms"
      by (simp_all add: in_set_enumerate_eq)
    then obtain idx where p: "p = (idx, ms ! idx)" "idx < length ms" by blast
    show "mset (?f p) = mset (?g p) + mset (?h p)"
    proof (cases "msg_role (ms ! idx) = User")
      case True
      have "map (\<lambda>(_, i, _, _). i) (List.map_filter (misplaced_block (tool_use_index ms) idx) bs)
          = filter (\<lambda>i. \<exists>a. tool_use_index ms i = Some a \<and> idx \<noteq> a + 1) (result_ids bs)" for bs
        by (induction bs) (auto split: option.split)
      then have "?h p = filter (\<lambda>i. \<exists>a. tool_use_index ms i = Some a \<and> idx \<noteq> a + 1)
          (message_results (ms ! idx))"
        using True p by (simp add: message_results_def)
      also have "\<dots> = filter (\<lambda>i. (idx, i) \<in> sources ms) (message_results (ms ! idx))"
        using True p(2) by (intro filter_cong) (auto simp: in_sources)
      finally have "?h p = filter (\<lambda>i. (idx, i) \<in> sources ms) (message_results (ms ! idx))" .
      moreover have "?g p = filter (\<lambda>i. (idx, i) \<notin> sources ms) (message_results (ms ! idx))"
        using True p by (simp add: remove_sources_facts)
      ultimately show ?thesis using p(1) by (simp add: union_filter_mset_complement)
    qed (use p in \<open>simp add: remove_sources_facts\<close>)
  qed
  moreover have "concat (map ?f (enumerate 0 ms)) = all_result_ids ms"
  proof -
    have "map ?f (enumerate n ms) = map message_results ms" for n by (induction ms arbitrary: n) auto
    then show ?thesis by (simp add: all_result_ids_def)
  qed
  moreover have "concat (map ?g (enumerate 0 ms)) = all_result_ids (stripped ms)"
    by (simp add: all_result_ids_def stripped_def comp_def case_prod_unfold)
  moreover have "concat (map ?h (enumerate 0 ms)) = map (\<lambda>(_, i, _, _). i) (misplaced ms)"
    unfolding misplaced_def map_concat map_map comp_def by (rule refl)
  ultimately show ?thesis by simp
qed

lemma result_ids_mset_cong: "mset bs = mset cs \<Longrightarrow> mset (result_ids bs) = mset (result_ids cs)"
  unfolding result_ids_def List.map_filter_def by (metis mset_filter mset_map)

lemma grouped_results:
  "mset (concat (map (\<lambda>(_, bs). result_ids bs) (sort_descending (group_blocks ps))))
     = mset (result_ids (map snd ps))"
proof -
  have c: "concat (map (\<lambda>(_, bs). result_ids bs) gs) = result_ids (concat (map snd gs))"
    for gs :: "(nat, content_block list) table"
    by (induction gs) auto
  have "mset (concat (map snd (sort_descending (group_blocks ps)))) = mset (map snd ps)"
    using mset_concat_map_cong [OF mset_sort_descending, of snd "group_blocks ps"]
    by (simp add: group_blocks_facts(1))
  then show ?thesis unfolding c by (rule result_ids_mset_cong)
qed

definition moves :: "message list \<Rightarrow> (nat \<times> content_block) list" where
  "moves ms = map (\<lambda>(_, _, b, a). (a, b)) (misplaced ms)"

lemma in_moves:
  "(k, b) \<in> set (moves ms) \<Longrightarrow> \<exists>i. block_result_id b = Some i \<and> tool_use_index ms i = Some k"
  by (auto simp: moves_def set_misplaced)

lemma result_block_use: "block_result_id b = Some i \<Longrightarrow> block_use_id b = None"
  by (cases b) auto

lemma use_ids_of_results: "(\<And>b. b \<in> set bs \<Longrightarrow> block_result_id b \<noteq> None) \<Longrightarrow> use_ids bs = []"
proof (induction bs)
  case (Cons b bs)
  then have "block_result_id b \<noteq> None" by simp
  with Cons show ?case by (cases b) auto
qed simp

lemma groups_of_moves:
  assumes "(k, bs) \<in> set (group_blocks (moves ms))"
  shows "use_ids bs = []" and "bs \<noteq> []"
    and "\<exists>cur. current_positions (tool_use_index ms) (remove_misplaced ms) k = Some cur \<and>
      cur < length (remove_misplaced ms) \<and> kept ms ! cur = k \<and>
      set (result_ids bs) \<subseteq> turn_uses (remove_misplaced ms ! cur)"
proof -
  note g = group_blocks_member [OF assms]
  have b: "\<exists>i. block_result_id b = Some i \<and> tool_use_index ms i = Some k" if "b \<in> set bs" for b
    using that g in_moves [of k b ms] by auto
  show "bs \<noteq> []" using g by (rule conjunct2)
  show "use_ids bs = []" using b by (intro use_ids_of_results) force
  obtain b0 where "b0 \<in> set bs" using \<open>bs \<noteq> []\<close> list.set_sel(1) by blast
  with b obtain i0 where "tool_use_index ms i0 = Some k" by blast
  from current_positions_facts [OF this] obtain cur where
    cur: "current_positions (tool_use_index ms) (remove_misplaced ms) k = Some cur"
      "cur < length (remove_misplaced ms)" "kept ms ! cur = k" by blast
  have "set (result_ids bs) \<subseteq> turn_uses (ms ! k)"
    using b tool_use_index_Some(2) by (force simp: result_ids_def set_map_filter)
  then have "set (result_ids bs) \<subseteq> turn_uses (remove_misplaced ms ! cur)"
    using cur turn_uses_removed [of cur ms] by (simp add: removed_nth(1))
  with cur show "\<exists>cur. current_positions (tool_use_index ms) (remove_misplaced ms) k = Some cur \<and>
      cur < length (remove_misplaced ms) \<and> kept ms ! cur = k \<and>
      set (result_ids bs) \<subseteq> turn_uses (remove_misplaced ms ! cur)" by blast
qed

lemma fst_reorder:
  "fst (reorder_tool_results ms) =
     (if misplaced ms = [] then ms
      else insert_groups (current_positions (tool_use_index ms) (remove_misplaced ms))
             (sort_descending (group_blocks (moves ms))) (remove_misplaced ms))"
  by (simp add: reorder_tool_results_def moves_def Let_def)

lemma paired_unmoved: "misplaced ms = [] \<Longrightarrow> paired (set (asst_ids ms)) {} ms"
  unfolding paired_index
  by (intro allI impI subsetI placed_result) (auto simp: sources_def)

lemma reorder_paired: "paired (set (asst_ids ms)) {} (fst (reorder_tool_results ms))"
proof (cases "misplaced ms = []")
  case True
  then show ?thesis by (simp add: fst_reorder paired_unmoved)
next
  case False
  let ?pos = "current_positions (tool_use_index ms) (remove_misplaced ms)"
  let ?gs = "sort_descending (group_blocks (moves ms))"
  have "groups_fit (set (asst_ids ms)) ?pos ?gs (remove_misplaced ms)"
    unfolding groups_fit_def set_sort_descending
    using groups_of_moves(1,3) by fastforce
  moreover have "sorted_wrt (\<lambda>g h. the (?pos (fst h)) < the (?pos (fst g))) ?gs"
  proof (rule sorted_wrt_mono_rel [OF _ sorted_descending [OF group_blocks_facts(2)]])
    fix g h assume gh: "g \<in> set ?gs" "h \<in> set ?gs" and less: "fst h < fst g"
    obtain k bs where g: "g = (k, bs)" by (cases g)
    obtain k' bs' where h: "h = (k', bs')" by (cases h)
    from gh g groups_of_moves(3) [of k bs ms] obtain c where
      c: "?pos k = Some c" "c < length (kept ms)" "kept ms ! c = k" by (auto simp: removed_nth(1))
    from gh h groups_of_moves(3) [of k' bs' ms] obtain c' where
      c': "?pos k' = Some c'" "c' < length (kept ms)" "kept ms ! c' = k'" by (auto simp: removed_nth(1))
    have "c' < c"
    proof (rule ccontr)
      assume "\<not> c' < c"
      then have "kept ms ! c \<le> kept ms ! c'"
        using kept_strict [of c c' ms] c'(2) by (cases "c = c'") auto
      with c c' g h less show False by simp
    qed
    with c c' g h show "the (?pos (fst h)) < the (?pos (fst g))" by simp
  qed
  ultimately show ?thesis
    using False paired_removed paired_insert_groups by (simp add: fst_reorder)
qed

lemma reorder_contents:
  "all_use_ids (fst (reorder_tool_results ms)) = all_use_ids ms"
  "asst_ids (fst (reorder_tool_results ms)) = asst_ids ms"
  "mset (all_result_ids (fst (reorder_tool_results ms))) = mset (all_result_ids ms)"
proof -
  let ?pos = "current_positions (tool_use_index ms) (remove_misplaced ms)"
  let ?gs = "sort_descending (group_blocks (moves ms))"
  have gs: "\<forall>(k, bs) \<in> set ?gs. use_ids bs = [] \<and> ?pos k \<noteq> None"
    using groups_of_moves(1,3) by fastforce
  have ids: "map (\<lambda>(_, i, _, _). i) mis = result_ids (map (\<lambda>(_, _, b, _). b) mis)"
    if "\<And>idx i b a. (idx, i, b, a) \<in> set mis \<Longrightarrow> block_result_id b = Some i"
    for mis :: "(nat \<times> string \<times> content_block \<times> nat) list"
    using that by (induction mis) force+
  have "map (\<lambda>(_, i, _, _). i) (misplaced ms)
      = result_ids (map (\<lambda>(_, _, b, _). b) (misplaced ms))"
    by (rule ids) (simp add: set_misplaced)
  also have "map (\<lambda>(_, _, b, _). b) (misplaced ms) = map snd (moves ms)"
    by (auto simp: moves_def)
  finally have "map (\<lambda>(_, i, _, _). i) (misplaced ms) = result_ids (map snd (moves ms))" .
  moreover have r: "all_result_ids (remove_misplaced ms) = all_result_ids (stripped ms)"
    "all_use_ids (remove_misplaced ms) = all_use_ids ms" "asst_ids (remove_misplaced ms) = asst_ids ms"
    by (simp_all add: remove_misplaced_eq filter_nonempty_ids stripped_uses)
  ultimately show "mset (all_result_ids (fst (reorder_tool_results ms))) = mset (all_result_ids ms)"
    using stripped_results [of ms]
    by (simp add: fst_reorder insert_groups_contents(3) [OF gs] grouped_results)
  show "all_use_ids (fst (reorder_tool_results ms)) = all_use_ids ms"
    and "asst_ids (fst (reorder_tool_results ms)) = asst_ids ms"
    by (simp_all add: fst_reorder insert_groups_contents(1,2) [OF gs] r)
qed

lemma reorder_nonempty:
  assumes "\<forall>m \<in> set ms. nonempty_content m"
  shows "\<forall>m \<in> set (fst (reorder_tool_results ms)). nonempty_content m"
proof -
  have gs: "\<forall>(k, bs) \<in> set (sort_descending (group_blocks (moves ms))). bs \<noteq> []"
    using groups_of_moves(2) by fastforce
  have "\<forall>m \<in> set (remove_misplaced ms). nonempty_content m" by (simp add: remove_misplaced_eq)
  from insert_groups_nonempty [OF this gs] assms show ?thesis unfolding fst_reorder by simp
qed

section \<open>Phase 2c\<close>

definition orphan_pairs :: "message list \<Rightarrow> (nat \<times> content_block) list" where
  "orphan_pairs ms = map (\<lambda>(i, idx). (idx, synthetic_result i)) (orphaned_uses ms)"

lemma fst_insert_synthetic:
  "fst (insert_synthetic_results ms) =
     (if orphaned_uses ms = [] then ms
      else insert_groups Some (sort_descending (group_blocks (orphan_pairs ms))) ms)"
  by (simp add: insert_synthetic_results_def orphan_pairs_def Let_def)

lemma in_orphan_pairs:
  "(k, b) \<in> set (orphan_pairs ms) \<Longrightarrow>
     \<exists>i. b = synthetic_result i \<and> k < length ms \<and> i \<in> turn_uses (ms ! k)"
  by (auto simp: orphan_pairs_def orphaned_uses_def set_assistant_uses)

lemma groups_of_orphans:
  assumes "(k, bs) \<in> set (group_blocks (orphan_pairs ms))"
  shows "use_ids bs = []" and "bs \<noteq> []" and "k < length ms"
    and "set (result_ids bs) \<subseteq> turn_uses (ms ! k)"
proof -
  note g = group_blocks_member [OF assms]
  have b: "\<exists>i. b = synthetic_result i \<and> k < length ms \<and> i \<in> turn_uses (ms ! k)" if "b \<in> set bs" for b
    using that g in_orphan_pairs [of k b ms] by auto
  show "bs \<noteq> []" using g by (rule conjunct2)
  then show "k < length ms" using b list.set_sel(1) by blast
  show "use_ids bs = []" using b by (intro use_ids_of_results) (force simp: synthetic_result_def)
  show "set (result_ids bs) \<subseteq> turn_uses (ms ! k)"
    using b by (force simp: result_ids_def set_map_filter synthetic_result_def)
qed

lemma synthetic_paired:
  assumes "paired U p ms"
  shows "paired U p (fst (insert_synthetic_results ms))"
proof -
  let ?gs = "sort_descending (group_blocks (orphan_pairs ms))"
  have "groups_fit U Some ?gs ms"
    unfolding groups_fit_def set_sort_descending using groups_of_orphans by fastforce
  moreover have "sorted_wrt (\<lambda>g h. the (Some (fst h)) < the (Some (fst g))) ?gs"
    using sorted_descending [OF group_blocks_facts(2)] by simp
  ultimately have "paired U p (insert_groups Some ?gs ms)"
    using assms paired_insert_groups by blast
  with assms show ?thesis by (simp add: fst_insert_synthetic)
qed

lemma synthetic_contents:
  "all_use_ids (fst (insert_synthetic_results ms)) = all_use_ids ms"
  "asst_ids (fst (insert_synthetic_results ms)) = asst_ids ms"
  "mset (all_result_ids (fst (insert_synthetic_results ms)))
     = mset (all_result_ids ms) + mset (map fst (orphaned_uses ms))"
proof -
  let ?gs = "sort_descending (group_blocks (orphan_pairs ms))"
  have gs: "\<forall>(k, bs) \<in> set ?gs. use_ids bs = [] \<and> Some k \<noteq> None"
    using groups_of_orphans(1) by fastforce
  have "result_ids (map snd (map (\<lambda>(i, idx). (idx, synthetic_result i)) ps)) = map fst ps"
    for ps :: "(string \<times> nat) list"
    by (induction ps) (auto simp: synthetic_result_def)
  then have "result_ids (map snd (orphan_pairs ms)) = map fst (orphaned_uses ms)"
    unfolding orphan_pairs_def by blast
  then show "mset (all_result_ids (fst (insert_synthetic_results ms)))
     = mset (all_result_ids ms) + mset (map fst (orphaned_uses ms))"
    by (simp add: fst_insert_synthetic insert_groups_contents(3) [OF gs] grouped_results)
  show "all_use_ids (fst (insert_synthetic_results ms)) = all_use_ids ms"
    and "asst_ids (fst (insert_synthetic_results ms)) = asst_ids ms"
    by (simp_all add: fst_insert_synthetic insert_groups_contents(1,2) [OF gs])
qed

lemma synthetic_nonempty:
  assumes "\<forall>m \<in> set ms. nonempty_content m"
  shows "\<forall>m \<in> set (fst (insert_synthetic_results ms)). nonempty_content m"
proof -
  have gs: "\<forall>(k, bs) \<in> set (sort_descending (group_blocks (orphan_pairs ms))). bs \<noteq> []"
    using groups_of_orphans(2) by fastforce
  from insert_groups_nonempty [OF assms gs] assms show ?thesis
    unfolding fst_insert_synthetic by simp
qed

lemma set_asst_ids: "set (asst_ids ms) = fst ` set (assistant_uses ms)"
proof -
  have "i \<in> set (asst_ids ms) \<longleftrightarrow> i \<in> fst ` set (assistant_uses ms)" for i
    unfolding asst_ids_turn using set_assistant_uses [of i _ ms] by force
  then show ?thesis by blast
qed

lemma synthetic_complete:
  "set (asst_ids ms) \<subseteq> set (all_result_ids (fst (insert_synthetic_results ms)))"
proof
  fix i assume "i \<in> set (asst_ids ms)"
  then obtain idx where "(i, idx) \<in> set (assistant_uses ms)" by (auto simp: set_asst_ids)
  then have "i \<in> set (all_result_ids ms) \<or> i \<in> set (map fst (orphaned_uses ms))"
    by (force simp: orphaned_uses_def existing_result_ids_eq)
  then have "i \<in># mset (all_result_ids ms) + mset (map fst (orphaned_uses ms))" by auto
  then show "i \<in> set (all_result_ids (fst (insert_synthetic_results ms)))"
    by (metis synthetic_contents(3) set_mset_mset)
qed

section \<open>Phase 2d\<close>

lemma dedup_blocks_facts:
  assumes "dedup_blocks seen bs = (r, s)"
  shows "use_ids r = use_ids bs" and "s = seen \<union> set (result_ids bs)"
    and "distinct (result_ids r)" and "set (result_ids r) = set (result_ids bs) - seen"
proof -
  have "use_ids r = use_ids bs \<and> s = seen \<union> set (result_ids bs) \<and> distinct (result_ids r) \<and>
      set (result_ids r) = set (result_ids bs) - seen"
    using assms
  proof (induction seen bs arbitrary: r s rule: dedup_blocks.induct)
    case (2 seen b bs)
    show ?case
    proof (cases "block_result_id b")
      case None
      obtain r' s' where r: "dedup_blocks seen bs = (r', s')" by fastforce
      with "2.prems" None have "r = b # r'" "s = s'" by auto
      moreover have "block_use_id b = Some j \<Longrightarrow> use_ids (b # xs) = j # use_ids xs" for j xs by simp
      ultimately show ?thesis using "2.IH"(1) [OF None r] None
        by (cases "block_use_id b") auto
    next
      case (Some i)
      show ?thesis
      proof (cases "i \<in> seen")
        case True
        with "2.IH"(2) [OF Some True] "2.prems" Some show ?thesis
          by (auto simp: result_block_use)
      next
        case False
        obtain r' s' where r: "dedup_blocks (insert i seen) bs = (r', s')" by fastforce
        with "2.prems" Some False have "r = b # r'" "s = s'" by auto
        with "2.IH"(3) [OF Some False r] Some False show ?thesis
          by (auto simp: result_block_use)
      qed
    qed
  qed simp
  then show "use_ids r = use_ids bs" and "s = seen \<union> set (result_ids bs)"
    and "distinct (result_ids r)" and "set (result_ids r) = set (result_ids bs) - seen" by auto
qed

lemma dedup_messages_facts:
  assumes "fst (dedup_messages seen ms) = r"
  shows "map (\<lambda>m. (msg_role m, message_uses m)) r = map (\<lambda>m. (msg_role m, message_uses m)) ms"
    and "distinct (all_result_ids r)" and "set (all_result_ids r) = set (all_result_ids ms) - seen"
    and "paired U p ms \<Longrightarrow> paired U p r"
proof -
  have "map (\<lambda>m. (msg_role m, message_uses m)) r = map (\<lambda>m. (msg_role m, message_uses m)) ms \<and>
    distinct (all_result_ids r) \<and> set (all_result_ids r) = set (all_result_ids ms) - seen \<and>
    (\<forall>p. paired U p ms \<longrightarrow> paired U p r)"
    using assms
  proof (induction ms arbitrary: seen r)
    case (Cons m ms)
    show ?case
    proof (cases "msg_content m")
      case (Text t)
      with Cons.prems have r: "r = m # fst (dedup_messages seen ms)"
        by (auto simp: case_prod_beta)
      show ?thesis using Cons.IH [OF refl, of seen] Text
        unfolding r by (simp add: message_ids_content)
    next
      case (Blocks bs)
      obtain bs' s where d: "dedup_blocks seen bs = (bs', s)" by fastforce
      note f = dedup_blocks_facts [OF d]
      from Cons.prems Blocks d have r: "r = m\<lparr>msg_content := Blocks bs'\<rparr> # fst (dedup_messages s ms)"
        by (auto simp: case_prod_beta)
      show ?thesis using Cons.IH [OF refl, of s] f Blocks
        unfolding r by (auto simp: message_ids_content turn_uses_def)
    qed
  qed simp
  then show "map (\<lambda>m. (msg_role m, message_uses m)) r = map (\<lambda>m. (msg_role m, message_uses m)) ms"
    and "distinct (all_result_ids r)" and "set (all_result_ids r) = set (all_result_ids ms) - seen"
    and "paired U p ms \<Longrightarrow> paired U p r" by auto
qed

lemma dedup_facts:
  defines "r \<equiv> \<lambda>ms. fst (deduplicate_tool_results ms)"
  shows "all_use_ids (r ms) = all_use_ids ms" and "asst_ids (r ms) = asst_ids ms"
    and "distinct (all_result_ids (r ms))" and "set (all_result_ids (r ms)) = set (all_result_ids ms)"
    and "\<forall>m \<in> set (r ms). nonempty_content m" and "paired U p ms \<Longrightarrow> paired U p (r ms)"
proof -
  let ?d = "fst (dedup_messages {} ms)"
  have r: "r ms = filter nonempty_content ?d"
    by (simp add: r_def deduplicate_tool_results_def case_prod_beta Let_def)
  note d = dedup_messages_facts [OF refl [of ?d]]
  show "all_use_ids (r ms) = all_use_ids ms" and "asst_ids (r ms) = asst_ids ms"
    using use_lists_cong [OF d(1)] by (simp_all add: r filter_nonempty_ids)
  show "distinct (all_result_ids (r ms))" and "set (all_result_ids (r ms)) = set (all_result_ids ms)"
    using d(2,3) by (simp_all add: r filter_nonempty_ids)
  show "\<forall>m \<in> set (r ms). nonempty_content m" by (simp add: r)
  show "paired U p ms \<Longrightarrow> paired U p (r ms)"
    unfolding r by (rule paired_filter) (auto simp: empty_content_ids d(4))
qed

section \<open>Phase 2e\<close>

lemma aborted_loop_facts:
  "all_use_ids (remove_aborted_loop ms i n) = all_use_ids ms"
  "asst_ids (remove_aborted_loop ms i n) = asst_ids ms"
  "all_result_ids (remove_aborted_loop ms i n) = all_result_ids ms"
  "set (remove_aborted_loop ms i n) \<subseteq> set ms"
  "paired U p ms \<Longrightarrow> paired U p (remove_aborted_loop ms i n)"
proof -
  have "all_use_ids (remove_aborted_loop ms i n) = all_use_ids ms \<and>
    asst_ids (remove_aborted_loop ms i n) = asst_ids ms \<and>
    all_result_ids (remove_aborted_loop ms i n) = all_result_ids ms \<and>
    set (remove_aborted_loop ms i n) \<subseteq> set ms"
    by (induction ms i n rule: remove_aborted_loop.induct)
      (auto simp: message_ids_content blank_content_ids)
  then show "all_use_ids (remove_aborted_loop ms i n) = all_use_ids ms"
    and "asst_ids (remove_aborted_loop ms i n) = asst_ids ms"
    and "all_result_ids (remove_aborted_loop ms i n) = all_result_ids ms"
    and "set (remove_aborted_loop ms i n) \<subseteq> set ms" by auto
  show "paired U p ms \<Longrightarrow> paired U p (remove_aborted_loop ms i n)"
  proof (induction ms i n arbitrary: p rule: remove_aborted_loop.induct)
    case (2 m ms i len)
    show ?case
    proof (cases "msg_role m = Assistant \<and> is_empty_or_blank_content (msg_content m) \<and> i + 1 < len")
      case True
      then have "turn_uses m = {}" by (simp add: turn_uses_def message_ids_content blank_content_ids)
      with 2(3) have "paired U p ms" using paired_mono [of U "{}" ms p] by simp
      with 2(1) True show ?thesis by auto
    next
      case False
      with 2(2,3) show ?thesis by auto
    qed
  qed simp
qed

lemma aborted_facts:
  defines "r \<equiv> remove_aborted_assistant_messages"
  shows "all_use_ids (r ms) = all_use_ids ms" and "asst_ids (r ms) = asst_ids ms"
    and "all_result_ids (r ms) = all_result_ids ms" and "set (r ms) \<subseteq> set ms"
    and "paired U p ms \<Longrightarrow> paired U p (r ms)"
  by (simp_all add: r_def remove_aborted_assistant_messages_def aborted_loop_facts)

section \<open>Phase 3\<close>

lemma merge_step_cases:
  obtains (merge) b l where "fst acc = b @ [l]" "msg_role l = msg_role m"
      "fst (merge_step acc m) = b @ [l\<lparr>msg_content := merge_content (msg_content l) (msg_content m)\<rparr>]"
  | (push) "fst acc = [] \<or> msg_role (last (fst acc)) \<noteq> msg_role m"
      "fst (merge_step acc m) = fst acc @ [m]"
proof (cases "fst acc \<noteq> [] \<and> msg_role (last (fst acc)) = msg_role m")
  case True
  then show ?thesis
    by (intro merge [of "butlast (fst acc)" "last (fst acc)"]) (auto simp: merge_step_def case_prod_beta)
next
  case False
  then show ?thesis by (intro push) (auto simp: merge_step_def case_prod_beta)
qed

lemma merged_ids:
  "use_ids (content_to_blocks (merge_content c d)) = use_ids (content_to_blocks c) @ use_ids (content_to_blocks d)"
  "result_ids (content_to_blocks (merge_content c d)) = result_ids (content_to_blocks c) @ result_ids (content_to_blocks d)"
  by (simp_all add: merge_content_def)

lemma merge_step_facts:
  "all_use_ids (fst (merge_step acc m)) = all_use_ids (fst acc) @ message_uses m"
  "asst_ids (fst (merge_step acc m)) = asst_ids (fst acc) @ (if msg_role m = Assistant then message_uses m else [])"
  "all_result_ids (fst (merge_step acc m)) = all_result_ids (fst acc) @ message_results m"
  by (cases acc m rule: merge_step_cases; simp add: message_ids_content merged_ids)+

lemma merge_step_alternates:
  "successively (\<lambda>a b. msg_role a \<noteq> msg_role b) (fst acc) \<Longrightarrow>
   successively (\<lambda>a b. msg_role a \<noteq> msg_role b) (fst (merge_step acc m))"
  by (cases acc m rule: merge_step_cases) (auto simp: successively_append_iff)

lemma merge_step_nonempty:
  assumes "\<forall>x \<in> set (fst acc). nonempty_content x" and "nonempty_content m"
  shows "\<forall>x \<in> set (fst (merge_step acc m)). nonempty_content x"
proof (cases acc m rule: merge_step_cases)
  case (merge b l)
  have "content_to_blocks (msg_content l) \<noteq> []"
    using assms(1) merge(1) by (cases "msg_content l") (auto simp: nonempty_content_def)
  with assms merge show ?thesis by (auto simp: nonempty_content_def merge_content_def)
qed (use assms in auto)

lemma merge_step_paired:
  assumes "paired U p (fst acc @ m # ms)"
  shows "paired U p (fst (merge_step acc m) @ ms)"
proof (cases acc m rule: merge_step_cases)
  case (merge b l)
  let ?lm = "l\<lparr>msg_content := merge_content (msg_content l) (msg_content m)\<rparr>"
  have t: "turn_uses ?lm = turn_uses l \<union> turn_uses m"
    using merge(2) by (simp add: turn_uses_def message_ids_content merged_ids)
  from assms merge(1) have pl: "paired U p (b @ l # m # ms)" by simp
  then have "paired U (turn_uses m) ms" by (simp add: paired_append)
  then have "paired U (turn_uses ?lm) ms" unfolding t by (rule paired_mono) simp
  with pl merge(2) have "paired U p (b @ ?lm # ms)"
    by (auto simp: paired_append message_ids_content merged_ids turn_uses_def)
  with merge(3) show ?thesis by simp
next
  case push
  with assms show ?thesis by simp
qed

lemma merge_messages_facts:
  fixes st
  defines "r \<equiv> \<lambda>ms. fst (merge_messages ms st)"
  shows "all_use_ids (r ms) = all_use_ids ms" and "asst_ids (r ms) = asst_ids ms"
    and "all_result_ids (r ms) = all_result_ids ms"
    and "successively (\<lambda>a b. msg_role a \<noteq> msg_role b) (r ms)"
    and "\<forall>m \<in> set ms. nonempty_content m \<Longrightarrow> \<forall>m \<in> set (r ms). nonempty_content m"
    and "paired U p ms \<Longrightarrow> paired U p (r ms)"
proof -
  have use: "all_use_ids (fst (foldl merge_step acc ms)) = all_use_ids (fst acc) @ all_use_ids ms \<and>
      asst_ids (fst (foldl merge_step acc ms)) = asst_ids (fst acc) @ asst_ids ms \<and>
      all_result_ids (fst (foldl merge_step acc ms)) = all_result_ids (fst acc) @ all_result_ids ms" for acc
    by (induction ms arbitrary: acc) (simp_all add: merge_step_facts)
  show "all_use_ids (r ms) = all_use_ids ms" and "asst_ids (r ms) = asst_ids ms"
    and "all_result_ids (r ms) = all_result_ids ms"
    using use [of "([], st)"] by (simp_all add: r_def merge_messages_def)
  have "successively (\<lambda>a b. msg_role a \<noteq> msg_role b) (fst acc) \<Longrightarrow>
      successively (\<lambda>a b. msg_role a \<noteq> msg_role b) (fst (foldl merge_step acc ms))" for acc
    by (induction ms arbitrary: acc) (simp_all add: merge_step_alternates)
  then show "successively (\<lambda>a b. msg_role a \<noteq> msg_role b) (r ms)"
    by (simp add: r_def merge_messages_def)
  have "list_all nonempty_content (fst acc) \<Longrightarrow> list_all nonempty_content ms \<Longrightarrow>
      list_all nonempty_content (fst (foldl merge_step acc ms))" for acc
  proof (induction ms arbitrary: acc)
    case (Cons m ms)
    have "list_all nonempty_content (fst (merge_step acc m))"
      using merge_step_nonempty [of acc m] Cons.prems unfolding list_all_iff by auto
    from Cons.IH [OF this] Cons.prems(2) show ?case by simp
  qed simp
  from this [of "([], st)"] show "\<forall>m \<in> set ms. nonempty_content m \<Longrightarrow> \<forall>m \<in> set (r ms). nonempty_content m"
    by (simp add: r_def merge_messages_def list_all_iff)
  have "paired U p (fst acc @ ms) \<Longrightarrow> paired U p (fst (foldl merge_step acc ms))" for acc
    by (induction ms arbitrary: acc) (simp_all add: merge_step_paired)
  then show "paired U p ms \<Longrightarrow> paired U p (r ms)"
    by (simp add: r_def merge_messages_def)
qed

section \<open>The pipeline\<close>

definition phase2 :: "message list \<Rightarrow> message list" where
  "phase2 ms = fst (filter_orphans (tool_use_ids ms) ms no_repairs)"

definition phases_2 :: "message list \<Rightarrow> message list" where
  "phases_2 ms = remove_aborted_assistant_messages
     (fst (deduplicate_tool_results (fst (insert_synthetic_results (fst (reorder_tool_results (phase2 ms)))))))"

lemma validate_and_repair_eq: "\<exists>st. validate_and_repair ms = fst (merge_messages (phases_2 ms) st)"
  by (auto simp: validate_and_repair_def validate_and_repair_with_stats_def phases_2_def phase2_def
      case_prod_beta Let_def)

lemma phase2_ids:
  "all_use_ids (phase2 ms) = all_use_ids ms" "asst_ids (phase2 ms) = asst_ids ms"
  "\<forall>m \<in> set (phase2 ms). nonempty_content m"
  "set (all_result_ids (phase2 ms)) = set (all_result_ids ms) \<inter> set (all_use_ids ms)"
proof -
  note f = phase2_facts [of "tool_use_ids ms" ms]
  show "all_use_ids (phase2 ms) = all_use_ids ms" "asst_ids (phase2 ms) = asst_ids ms"
    "\<forall>m \<in> set (phase2 ms). nonempty_content m"
    using f by (simp_all add: phase2_def fst_filter_orphans)
  have "all_result_ids (List.map_filter (clean_message ids) ns) = filter (\<lambda>i. i \<in> ids) (all_result_ids ns)"
    for ids ns
  proof (induction ns)
    case (Cons n ns)
    have "case clean_message ids n of
        None \<Rightarrow> filter (\<lambda>i. i \<in> ids) (message_results n) = []
      | Some n' \<Rightarrow> message_results n' = filter (\<lambda>i. i \<in> ids) (message_results n)"
      using result_ids_filter_results [of "\<lambda>i. i \<in> ids"]
      by (auto simp: clean_message_def message_ids_content Let_def split: message_content.split)
         (metis ids_simps(2))
    with Cons show ?case by (auto split: option.splits)
  qed simp
  then show "set (all_result_ids (phase2 ms)) = set (all_result_ids ms) \<inter> set (all_use_ids ms)"
    by (auto simp: phase2_def fst_filter_orphans tool_use_ids_eq)
qed

lemma phases_2_facts:
  "all_use_ids (phases_2 ms) = all_use_ids ms" "asst_ids (phases_2 ms) = asst_ids ms"
  "\<forall>m \<in> set (phases_2 ms). nonempty_content m"
  "distinct (all_result_ids (phases_2 ms))"
  "paired (set (asst_ids ms)) {} (phases_2 ms)"
  "set (all_result_ids (phases_2 ms))
     = set (all_result_ids ms) \<inter> set (all_use_ids ms) \<union> set (asst_ids ms)"
proof -
  let ?c2 = "fst (reorder_tool_results (phase2 ms))"
  let ?c3 = "fst (insert_synthetic_results ?c2)"
  let ?c4 = "fst (deduplicate_tool_results ?c3)"
  show "all_use_ids (phases_2 ms) = all_use_ids ms" "asst_ids (phases_2 ms) = asst_ids ms"
    by (simp_all add: phases_2_def aborted_facts dedup_facts synthetic_contents reorder_contents phase2_ids)
  show "\<forall>m \<in> set (phases_2 ms). nonempty_content m"
    using aborted_facts(4) [of ?c4] dedup_facts(5) [of ?c3] unfolding phases_2_def by blast
  show "distinct (all_result_ids (phases_2 ms))"
    by (simp add: phases_2_def aborted_facts dedup_facts)
  have "paired (set (asst_ids ms)) {} ?c2"
    using reorder_paired [of "phase2 ms"] by (simp add: phase2_ids)
  then show "paired (set (asst_ids ms)) {} (phases_2 ms)"
    unfolding phases_2_def by (intro aborted_facts(5) dedup_facts(6) synthetic_paired)
  have c2: "set (all_result_ids ?c2) = set (all_result_ids ms) \<inter> set (all_use_ids ms)"
    using reorder_contents(3) [of "phase2 ms"] phase2_ids(4) by (metis set_mset_mset)
  have "set (map fst (orphaned_uses ?c2)) \<subseteq> set (asst_ids ?c2)"
    by (auto simp: orphaned_uses_def set_asst_ids)
  moreover have "set (asst_ids ?c2) \<subseteq> set (all_result_ids ?c3)" by (rule synthetic_complete)
  moreover have "set (all_result_ids ?c3) = set (all_result_ids ?c2) \<union> set (map fst (orphaned_uses ?c2))"
    by (metis synthetic_contents(3) set_mset_mset set_mset_union)
  moreover have "asst_ids ?c2 = asst_ids ms" by (simp add: reorder_contents phase2_ids)
  ultimately have "set (all_result_ids ?c3)
      = set (all_result_ids ms) \<inter> set (all_use_ids ms) \<union> set (asst_ids ms)" using c2 by auto
  then show "set (all_result_ids (phases_2 ms))
     = set (all_result_ids ms) \<inter> set (all_use_ids ms) \<union> set (asst_ids ms)"
    by (simp add: phases_2_def aborted_facts dedup_facts)
qed

lemma asst_subset_uses: "set (asst_ids ms) \<subseteq> set (all_use_ids ms)"
  by (auto simp: asst_ids_def all_use_ids_def)

lemma repaired_facts:
  "all_use_ids (validate_and_repair ms) = all_use_ids ms"
  "asst_ids (validate_and_repair ms) = asst_ids ms"
  "all_result_ids (validate_and_repair ms) = all_result_ids (phases_2 ms)"
  "\<forall>m \<in> set (validate_and_repair ms). nonempty_content m"
  "successively (\<lambda>a b. msg_role a \<noteq> msg_role b) (validate_and_repair ms)"
  "paired (set (asst_ids ms)) {} (validate_and_repair ms)"
proof -
  obtain st where r: "validate_and_repair ms = fst (merge_messages (phases_2 ms) st)"
    using validate_and_repair_eq by blast
  show "all_use_ids (validate_and_repair ms) = all_use_ids ms"
    "asst_ids (validate_and_repair ms) = asst_ids ms"
    "all_result_ids (validate_and_repair ms) = all_result_ids (phases_2 ms)"
    "successively (\<lambda>a b. msg_role a \<noteq> msg_role b) (validate_and_repair ms)"
    by (simp_all add: r merge_messages_facts phases_2_facts)
  show "\<forall>m \<in> set (validate_and_repair ms). nonempty_content m"
    unfolding r using phases_2_facts(3) by (rule merge_messages_facts(5))
  show "paired (set (asst_ids ms)) {} (validate_and_repair ms)"
    unfolding r using phases_2_facts(5) by (rule merge_messages_facts(6))
qed

end
