(* ===== verification/Repair_Theorems.thy ===== *)
theory Repair_Theorems
  imports Repair_Correct
begin

text \<open>
  The guarantees of \<open>validate_and_repair\<close>: what the repaired history looks like, what it keeps of
  the input, and that a valid history is left alone.
\<close>

section \<open>Valid histories are left alone\<close>

definition ok_turn :: "message \<Rightarrow> bool" where
  "ok_turn m \<longleftrightarrow> (msg_role m = Assistant \<longrightarrow> \<not> is_empty_or_blank_content (msg_content m))"

definition valid_history :: "message list \<Rightarrow> bool" where
  "valid_history ms \<longleftrightarrow>
     successively (\<lambda>a b. msg_role a \<noteq> msg_role b) ms \<and> list_all nonempty_content ms \<and>
     set (all_result_ids ms) \<subseteq> set (all_use_ids ms) \<and> set (asst_ids ms) \<subseteq> set (all_result_ids ms) \<and>
     distinct (all_result_ids ms) \<and> distinct (asst_ids ms) \<and>
     paired (set (asst_ids ms)) {} ms \<and> list_all ok_turn (butlast ms)"

lemma filter_orphans_id:
  "list_all nonempty_content ms \<Longrightarrow> set (all_result_ids ms) \<subseteq> ids \<Longrightarrow> filter_orphans ids ms st = (ms, st)"
proof (induction ms arbitrary: st)
  case (Cons m ms)
  show ?case
  proof (cases "msg_content m")
    case (Blocks bs)
    with Cons.prems have "\<forall>b \<in> set bs. case block_result_id b of Some i \<Rightarrow> i \<in> ids | None \<Rightarrow> True"
      by (force simp: message_ids_content result_ids_def set_map_filter split: option.split)
    then have "filter (\<lambda>b. case block_result_id b of Some i \<Rightarrow> i \<in> ids | None \<Rightarrow> True) bs = bs"
      and "filter (\<lambda>b. \<not> (case block_result_id b of Some i \<Rightarrow> i \<in> ids | None \<Rightarrow> True)) bs = []"
      by (simp_all add: filter_id_conv filter_empty_conv)
    moreover have "m\<lparr>msg_content := Blocks bs\<rparr> = m" using Blocks by simp
    ultimately show ?thesis using Cons Blocks by (simp add: nonempty_content_def)
  qed (use Cons in \<open>simp add: nonempty_content_def\<close>)
qed simp

lemma asst_ids_inj:
  "distinct (asst_ids ms) \<Longrightarrow> j < length ms \<Longrightarrow> k < length ms \<Longrightarrow>
   i \<in> turn_uses (ms ! j) \<Longrightarrow> i \<in> turn_uses (ms ! k) \<Longrightarrow> j = k"
proof (induction ms arbitrary: j k)
  case (Cons m ms)
  have "i \<in> set (asst_ids ms)" if "i \<in> turn_uses (ms ! l)" "l < length ms" for l
    using that by (auto simp: asst_ids_turn)
  moreover have "distinct (asst_ids ms)" "turn_uses m \<inter> set (asst_ids ms) = {}"
    using Cons.prems(1) by (auto simp: turn_uses_def split: if_splits)
  ultimately show ?case using Cons.IH Cons.prems(2-) by (cases j; cases k) auto
qed simp

lemma valid_not_misplaced:
  assumes "valid_history ms"
  shows "misplaced ms = []"
proof -
  have "x \<notin> set (misplaced ms)" for x
  proof
    assume x: "x \<in> set (misplaced ms)"
    obtain idx i b a where "x = (idx, i, b, a)" by (cases x) auto
    with x have m: "idx < length ms" "msg_role (ms ! idx) = User" "b \<in> set (inner_blocks (ms ! idx))"
      "block_result_id b = Some i" "tool_use_index ms i = Some a" "idx \<noteq> a + 1"
      by (auto simp: set_misplaced)
    note a = tool_use_index_Some(1,2) [OF m(5)]
    have "i \<in> set (message_results (ms ! idx)) \<inter> set (asst_ids ms)"
      using m a by (auto simp: message_results_def result_ids_def set_map_filter asst_ids_turn)
    with m assms have "i \<in> prev_uses {} ms idx" by (auto simp: valid_history_def paired_index)
    then obtain j where j: "idx = Suc j" "i \<in> turn_uses (ms ! j)"
      by (cases idx) (auto simp: prev_uses_def)
    with asst_ids_inj [of ms j a i] assms a m(1) have "j = a" by (simp add: valid_history_def)
    with j m(6) show False by simp
  qed
  then show ?thesis by (cases "misplaced ms") auto
qed

lemma dedup_blocks_id:
  "distinct (result_ids bs) \<Longrightarrow> set (result_ids bs) \<inter> seen = {} \<Longrightarrow>
   dedup_blocks seen bs = (bs, seen \<union> set (result_ids bs))"
proof (induction bs arbitrary: seen)
  case (Cons b bs)
  then show ?case by (cases "block_result_id b") auto
qed simp

lemma dedup_messages_id:
  "distinct (all_result_ids ms) \<Longrightarrow> set (all_result_ids ms) \<inter> seen = {} \<Longrightarrow>
   dedup_messages seen ms = (ms, 0)"
proof (induction ms arbitrary: seen)
  case (Cons m ms)
  show ?case
  proof (cases "msg_content m")
    case (Text t)
    with Cons show ?thesis by (simp add: message_ids_content)
  next
    case (Blocks bs)
    with Cons.prems have "dedup_blocks seen bs = (bs, seen \<union> set (result_ids bs))"
      by (intro dedup_blocks_id) (auto simp: message_ids_content)
    moreover have "dedup_messages (seen \<union> set (result_ids bs)) ms = (ms, 0)"
      using Cons Blocks by (intro Cons.IH) (auto simp: message_ids_content)
    moreover have "m\<lparr>msg_content := Blocks bs\<rparr> = m" using Blocks by simp
    ultimately show ?thesis using Blocks by simp
  qed
qed simp

lemma aborted_loop_eq:
  "ms \<noteq> [] \<Longrightarrow> n = i + length ms \<Longrightarrow>
   remove_aborted_loop ms i n = filter ok_turn (butlast ms) @ [last ms]"
proof (induction ms i n rule: remove_aborted_loop.induct)
  case (2 m ms i len)
  then show ?case by (cases ms) (auto simp: ok_turn_def)
qed simp

lemma aborted_eq:
  "ms \<noteq> [] \<Longrightarrow> length ms \<ge> 2 \<Longrightarrow>
   remove_aborted_assistant_messages ms = filter ok_turn (butlast ms) @ [last ms]"
  by (simp add: remove_aborted_assistant_messages_def aborted_loop_eq)

lemma merge_id_gen:
  "successively (\<lambda>a b. msg_role a \<noteq> msg_role b) (xs @ ms) \<Longrightarrow>
   foldl merge_step (xs, st) ms = (xs @ ms, st)"
proof (induction ms arbitrary: xs)
  case (Cons m ms)
  then have "xs = [] \<or> msg_role (last xs) \<noteq> msg_role m" by (auto simp: successively_append_iff)
  then have "merge_step (xs, st) m = (xs @ [m], st)" by (auto simp: merge_step_def)
  with Cons show ?case by simp
qed simp

lemma valid_history_unchanged:
  assumes "valid_history ms"
  shows "validate_and_repair_with_stats ms = (ms, no_repairs)"
proof -
  from assms have v: "successively (\<lambda>a b. msg_role a \<noteq> msg_role b) ms" "list_all nonempty_content ms"
    "set (all_result_ids ms) \<subseteq> tool_use_ids ms" "set (asst_ids ms) \<subseteq> set (all_result_ids ms)"
    "distinct (all_result_ids ms)" "list_all ok_turn (butlast ms)"
    by (auto simp: valid_history_def tool_use_ids_eq)
  have 1: "filter_orphans (tool_use_ids ms) ms no_repairs = (ms, no_repairs)"
    using v(2,3) by (rule filter_orphans_id)
  have 2: "reorder_tool_results ms = (ms, 0)"
    by (simp add: reorder_tool_results_def valid_not_misplaced [OF assms])
  have "orphaned_uses ms = []"
    using v(4) by (force simp: orphaned_uses_def filter_empty_conv existing_result_ids_eq set_asst_ids)
  then have 3: "insert_synthetic_results ms = (ms, 0)" by (simp add: insert_synthetic_results_def)
  have 4: "deduplicate_tool_results ms = (ms, 0)"
    using v(2,5) by (simp add: deduplicate_tool_results_def dedup_messages_id filter_id_conv list_all_iff)
  have "filter ok_turn (butlast ms) = butlast ms" using v(6) by (simp add: filter_id_conv list_all_iff)
  then have 5: "remove_aborted_assistant_messages ms = ms"
  proof (cases "length ms < 2")
    case True
    then show ?thesis by (simp add: remove_aborted_assistant_messages_def)
  next
    case False
    then have "ms \<noteq> []" "2 \<le> length ms" by auto
    with \<open>filter ok_turn (butlast ms) = butlast ms\<close> show ?thesis by (simp add: aborted_eq)
  qed
  have 6: "merge_messages ms st = (ms, st)" for st
    using merge_id_gen [of "[]" ms st] v(1) by (simp add: merge_messages_def)
  show ?thesis
    by (simp add: validate_and_repair_with_stats_def 1 2 3 4 5 6 Let_def) (simp add: no_repairs_def)
qed

text \<open>A repaired history is valid when its tool use ids were distinct.\<close>

lemma blank_iff: "is_empty_or_blank_content c \<longleftrightarrow> list_all is_blank_block (content_to_blocks c)"
  by (cases c) auto

lemma merge_step_ok:
  "list_all ok_turn (fst acc) \<Longrightarrow> ok_turn m \<Longrightarrow> list_all ok_turn (fst (merge_step acc m))"
  "list_all ok_turn (fst acc) \<Longrightarrow> list_all ok_turn (butlast (fst (merge_step acc m)))"
  by (cases acc m rule: merge_step_cases; auto simp: ok_turn_def blank_iff merge_content_def)+

lemma foldl_merge_ok:
  "list_all ok_turn (fst acc) \<Longrightarrow> list_all ok_turn ms \<Longrightarrow> list_all ok_turn (fst (foldl merge_step acc ms))"
proof (induction ms arbitrary: acc)
  case (Cons m ms)
  then have "list_all ok_turn (fst (merge_step acc m))" by (simp add: merge_step_ok(1))
  from Cons.IH [OF this] Cons.prems(2) show ?case by simp
qed simp

lemma repaired_ok_turns: "list_all ok_turn (butlast (validate_and_repair ms))"
proof -
  obtain st where r: "validate_and_repair ms = fst (merge_messages (phases_2 ms) st)"
    using validate_and_repair_eq by blast
  obtain c4 where c4: "phases_2 ms = remove_aborted_assistant_messages c4"
    by (auto simp: phases_2_def)
  have ok: "list_all ok_turn (butlast (phases_2 ms))"
  proof (cases "length c4 < 2")
    case True
    then have "butlast c4 = []" by (cases c4) auto
    with True show ?thesis by (simp add: c4 remove_aborted_assistant_messages_def)
  next
    case False
    then have "c4 \<noteq> []" by auto
    with False show ?thesis by (simp add: c4 aborted_eq list_all_iff)
  qed
  show ?thesis
  proof (cases "phases_2 ms" rule: rev_cases)
    case Nil
    then show ?thesis by (simp add: r merge_messages_def)
  next
    case (snoc xs x)
    with ok show ?thesis
      by (simp add: r merge_messages_def foldl_merge_ok merge_step_ok(2))
  qed
qed

lemma repaired_valid:
  assumes "distinct (asst_ids ms)"
  shows "valid_history (validate_and_repair ms)"
  using assms repaired_facts [of ms] phases_2_facts [of ms] repaired_ok_turns [of ms] asst_subset_uses [of ms]
  by (auto simp: valid_history_def list_all_iff)

section \<open>Properties\<close>

text \<open>
  C1: the repaired history has what the LLM providers require of a tool conversation: every tool
  use of an assistant message is answered by some result, every result answers a tool use that is
  in the history, no tool use has two results, no message is empty, and no two neighbouring
  messages have the same role.
\<close>

theorem repair_well_formed:
  "set (asst_ids (validate_and_repair ms)) \<subseteq> set (all_result_ids (validate_and_repair ms))
   \<and> set (all_result_ids (validate_and_repair ms)) \<subseteq> set (all_use_ids (validate_and_repair ms))
   \<and> distinct (all_result_ids (validate_and_repair ms))
   \<and> list_all nonempty_content (validate_and_repair ms)
   \<and> successively (\<lambda>a b. msg_role a \<noteq> msg_role b) (validate_and_repair ms)"
  using repaired_facts [of ms] phases_2_facts [of ms] asst_subset_uses [of ms]
  by (auto simp: list_all_iff)

text \<open>
  C4: in the repaired history a result in a user message whose id is used by an assistant
  message is right behind an assistant message that contains that use.
\<close>

theorem repair_results_follow_uses:
  assumes "i < length (validate_and_repair ms)" and "msg_role (validate_and_repair ms ! i) = User"
    and "tid \<in> set (message_results (validate_and_repair ms ! i))"
    and "tid \<in> set (asst_ids ms)"
  shows "\<exists>j. i = Suc j \<and> msg_role (validate_and_repair ms ! j) = Assistant
     \<and> tid \<in> set (message_uses (validate_and_repair ms ! j))"
proof -
  have "tid \<in> prev_uses {} (validate_and_repair ms) i"
    using repaired_facts(6) [of ms] assms unfolding paired_index by blast
  then show ?thesis by (cases i) (auto simp: prev_uses_def turn_uses_def split: if_splits)
qed

text \<open>
  C7: what repair keeps and adds. The tool uses are those of the input, in their order; the
  results are those of the input that answer a tool use, one per id, and a synthetic one for
  every assistant tool use that had none.
\<close>

theorem repair_contents:
  "all_use_ids (validate_and_repair ms) = all_use_ids ms
   \<and> asst_ids (validate_and_repair ms) = asst_ids ms
   \<and> set (all_result_ids (validate_and_repair ms))
       = set (all_result_ids ms) \<inter> set (all_use_ids ms) \<union> set (asst_ids ms)"
  by (simp add: repaired_facts phases_2_facts)

text \<open>
  C35: repair is idempotent on a history whose assistant messages use every tool use id once: when
  these ids are all distinct, the repaired history passes a second repair unchanged, with no fix
  counted. (When an id is used again a second repair can still change the result.)
\<close>

theorem repair_idempotent:
  assumes "distinct (asst_ids ms)"
  shows "validate_and_repair_with_stats (validate_and_repair ms) = (validate_and_repair ms, no_repairs)"
  using assms by (intro valid_history_unchanged repaired_valid)

text \<open>
  a blank assistant message is dropped whatever follows it, although the documentation of
  this phase asks for a user message with tool results behind it.
\<close>

theorem aborted_ignores_successor:
  assumes "is_empty_or_blank_content c"
  shows "remove_aborted_assistant_messages [\<lparr>msg_role = Assistant, msg_content = c\<rparr>, m] = [m]"
  using assms by (simp add: remove_aborted_assistant_messages_def)

section \<open>Witnesses\<close>

text \<open>A history with a misplaced result, an orphan, a duplicate and an unanswered use.\<close>

definition broken_history :: "message list" where
  "broken_history =
     [\<lparr>msg_role = User, msg_content = Text ''go''\<rparr>,
      \<lparr>msg_role = Assistant, msg_content = Blocks [ToolUse ''a'' ''ls'' JNull, ToolUse ''b'' ''ps'' JNull]\<rparr>,
      \<lparr>msg_role = Assistant, msg_content = Text ''ok''\<rparr>,
      \<lparr>msg_role = User, msg_content = Blocks [ToolResult ''a'' ''x'' False, ToolResult ''z'' ''y'' False,
                                          ToolResult ''a'' ''x'' False]\<rparr>]"

definition repaired_history :: "message list" where
  "repaired_history =
     [\<lparr>msg_role = User, msg_content = Text ''go''\<rparr>,
      \<lparr>msg_role = Assistant, msg_content = Blocks [ToolUse ''a'' ''ls'' JNull, ToolUse ''b'' ''ps'' JNull]\<rparr>,
      \<lparr>msg_role = User, msg_content = Blocks [ToolResult ''a'' ''x'' False, synthetic_result ''b'']\<rparr>,
      \<lparr>msg_role = Assistant, msg_content = Text ''ok''\<rparr>]"

lemma broken_history_repair: "validate_and_repair broken_history = repaired_history"
  by code_simp

lemma broken_history_asst: "asst_ids broken_history = [''a'', ''b'']"
  by code_simp

theorem repair_results_follow_uses_witness:
  "\<exists>j. (2::nat) = Suc j \<and> msg_role (validate_and_repair broken_history ! j) = Assistant
     \<and> ''b'' \<in> set (message_uses (validate_and_repair broken_history ! j))"
  by (rule repair_results_follow_uses)
     (simp_all only: broken_history_repair broken_history_asst, code_simp+)

theorem repair_idempotent_witness:
  "validate_and_repair_with_stats (validate_and_repair broken_history)
     = (validate_and_repair broken_history, no_repairs)"
  by (rule repair_idempotent) (simp add: broken_history_asst)

theorem aborted_ignores_successor_witness:
  "remove_aborted_assistant_messages
     [\<lparr>msg_role = Assistant, msg_content = Text '' ''\<rparr>, \<lparr>msg_role = User, msg_content = Text ''hi''\<rparr>]
   = [\<lparr>msg_role = User, msg_content = Text ''hi''\<rparr>]"
  by (rule aborted_ignores_successor) code_simp

end
