(* ===== verification/Hash_Encoding.thy ===== *)
theory Hash_Encoding
  imports Rh_Prelude
begin

text \<open>
  The byte encoding that is fed to SHA-256 by the audit log and the loop guard: every field is
  preceded by its length as eight little-endian bytes (\<open>write_lp\<close> in both files). SHA-256 itself
  (crate \<open>sha2\<close>) is a parameter of the components; here it is shown that the encoding is
  unambiguous, so that equal digests of different inputs are collisions of the hash function.
\<close>

text \<open>\<open>u64::to_le_bytes\<close>.\<close>

definition le_bytes :: "nat \<Rightarrow> string" where
  "le_bytes n = map (\<lambda>i. char_of (n div 256 ^ i mod 256)) [0..<8]"

definition write_lp :: "string \<Rightarrow> string" where
  "write_lp bytes = le_bytes (length bytes) @ bytes"

definition fits_u64 :: "string \<Rightarrow> bool" where
  "fits_u64 s \<longleftrightarrow> length s < 2 ^ 64"

lemma length_le_bytes [simp]: "length (le_bytes n) = 8"
  by (simp add: le_bytes_def)

lemma byte_digits_eq:
  fixes m n :: nat
  assumes "\<And>i. i < k \<Longrightarrow> m div 256 ^ i mod 256 = n div 256 ^ i mod 256"
  shows "m mod 256 ^ k = n mod 256 ^ k"
  using assms
proof (induction k)
  case (Suc k)
  have "m mod 256 ^ Suc k = 256 ^ k * (m div 256 ^ k mod 256) + m mod 256 ^ k"
    using mod_mult2_eq [of m "256 ^ k" 256] by (simp add: mult.commute)
  moreover have "n mod 256 ^ Suc k = 256 ^ k * (n div 256 ^ k mod 256) + n mod 256 ^ k"
    using mod_mult2_eq [of n "256 ^ k" 256] by (simp add: mult.commute)
  ultimately show ?case using Suc by simp
qed simp

lemma le_bytes_inj:
  assumes "le_bytes m = le_bytes n" and "m < 2 ^ 64" and "n < 2 ^ 64"
  shows "m = n"
proof -
  have "m div 256 ^ i mod 256 = n div 256 ^ i mod 256" if "i < 8" for i
  proof -
    have "le_bytes m ! i = le_bytes n ! i" by (simp add: assms(1))
    with that have "(char_of (m div 256 ^ i mod 256) :: char) = char_of (n div 256 ^ i mod 256)"
      by (simp add: le_bytes_def)
    then have "of_char (char_of (m div 256 ^ i mod 256) :: char) = (of_char (char_of (n div 256 ^ i mod 256) :: char) :: nat)"
      by simp
    then show ?thesis unfolding of_char_of by simp
  qed
  then have "m mod 256 ^ 8 = n mod 256 ^ 8" by (rule byte_digits_eq)
  with assms(2,3) show ?thesis by simp
qed

lemma write_lp_inj:
  assumes "write_lp a @ r = write_lp b @ s" and "fits_u64 a" and "fits_u64 b"
  shows "a = b \<and> r = s"
proof -
  have "le_bytes (length a) = le_bytes (length b) \<and> a @ r = b @ s"
    using assms(1) by (simp add: write_lp_def)
  moreover from this have "length a = length b"
    using le_bytes_inj assms(2,3) by (auto simp: fits_u64_def)
  ultimately show ?thesis by simp
qed

end
