(* ===== verification/Loop_Guard.thy ===== *)
theory Loop_Guard
  imports Message Hash_Encoding
begin

text \<open>
  Tool loop detection, \<open>crates/rusty-hand-runtime/src/loop_guard.rs\<close>. The SHA-256 digest in hex,
  the JSON text of the parameters and Unicode lower-casing come from crates and tables outside
  the repository: they are the fields of a \<open>guard_env\<close>. Counters are natural numbers (the code's
  \<open>u32\<close>; a loop execution is far from 2^32 calls). \<open>call_counts\<close> is a table because
  \<open>stats\<close> iterates over it; the other maps are only looked up.
\<close>

section \<open>Definitions\<close>

record guard_env =
  sha256_hex :: "string \<Rightarrow> string"
  json_text :: "json \<Rightarrow> string"
  lowercase :: "string \<Rightarrow> string"

definition poll_tools :: "string list" where
  "poll_tools = [''shell_exec'']"

definition history_size :: nat where "history_size = 30"

definition backoff_schedule_ms :: "nat list" where
  "backoff_schedule_ms = [5000, 10000, 30000, 60000]"

record loop_guard_config =
  warn_threshold :: nat
  block_threshold :: nat
  global_circuit_breaker :: nat
  poll_multiplier :: nat
  outcome_warn_threshold :: nat
  outcome_block_threshold :: nat
  ping_pong_min_repeats :: nat
  max_warnings_per_call :: nat

definition default_guard_config :: loop_guard_config where
  "default_guard_config = \<lparr>warn_threshold = 3, block_threshold = 5, global_circuit_breaker = 30,
     poll_multiplier = 3, outcome_warn_threshold = 2, outcome_block_threshold = 3,
     ping_pong_min_repeats = 3, max_warnings_per_call = 3\<rparr>"

datatype verdict = Allow | Warn string | Block string | CircuitBreak string

record loop_guard_stats =
  st_total_calls :: nat
  st_unique_calls :: nat
  st_blocked_calls :: nat
  st_ping_pong_detected :: bool
  st_most_repeated_tool :: "string option"
  st_most_repeated_count :: nat

record loop_guard =
  config :: loop_guard_config
  call_counts :: "(string, nat) table"
  total_calls :: nat
  outcome_counts :: "string \<Rightarrow> nat option"
  blocked_outcomes :: "string set"
  recent_calls :: "string list"
  warnings_emitted :: "string \<Rightarrow> nat option"
  poll_counts :: "string \<Rightarrow> nat option"
  blocked_calls :: nat
  hash_to_tool :: "string \<Rightarrow> string option"

definition new_guard :: "loop_guard_config \<Rightarrow> loop_guard" where
  "new_guard c = \<lparr>config = c, call_counts = [], total_calls = 0, outcome_counts = Map.empty,
     blocked_outcomes = {}, recent_calls = [], warnings_emitted = Map.empty,
     poll_counts = Map.empty, blocked_calls = 0, hash_to_tool = Map.empty\<rparr>"

text \<open>The bytes hashed for a call and for an outcome: a version byte, then the fields.\<close>

definition call_preimage :: "guard_env \<Rightarrow> string \<Rightarrow> json \<Rightarrow> string" where
  "call_preimage e tool params = CHR 0x01 # write_lp tool @ write_lp (json_text e params)"

definition compute_hash :: "guard_env \<Rightarrow> string \<Rightarrow> json \<Rightarrow> string" where
  "compute_hash e tool params = sha256_hex e (call_preimage e tool params)"

definition compute_outcome_hash :: "guard_env \<Rightarrow> string \<Rightarrow> json \<Rightarrow> string \<Rightarrow> string" where
  "compute_outcome_hash e tool params result =
     sha256_hex e (CHR 0x01 # write_lp tool @ write_lp (json_text e params)
                   @ write_lp (truncate_bytes result 1000))"

text \<open>\<open>params.get("command").and_then(|v| v.as_str())\<close>.\<close>

fun get_command :: "json \<Rightarrow> string option" where
  "get_command (JObj kvs) =
     (case map_of kvs ''command'' of Some (JStr s) \<Rightarrow> Some s | _ \<Rightarrow> None)"
| "get_command _ = None"

definition is_poll_call :: "guard_env \<Rightarrow> string \<Rightarrow> json \<Rightarrow> bool" where
  "is_poll_call e tool params =
     (let params_str = lowercase e (json_text e params);
          generic = contains_sub params_str ''status'' \<or> contains_sub params_str ''poll'' \<or>
                    contains_sub params_str ''wait''
      in if tool \<in> set poll_tools
         then (case get_command params of
             Some cmd \<Rightarrow>
               let l = lowercase e cmd
               in if length cmd < 50 \<and>
                    (contains_sub l ''status'' \<or> contains_sub l ''poll'' \<or> contains_sub l ''wait'' \<or>
                     contains_sub l ''watch'' \<or> contains_sub l ''tail'' \<or> contains_sub l ''ps '' \<or>
                     contains_sub l ''jobs'' \<or> contains_sub l ''pgrep'' \<or>
                     contains_sub l ''docker ps'' \<or> contains_sub l ''kubectl get'')
                  then True else generic
           | None \<Rightarrow> generic)
         else generic)"

definition tool_of :: "loop_guard \<Rightarrow> string \<Rightarrow> string" where
  "tool_of g h = (case hash_to_tool g h of Some t \<Rightarrow> t | None \<Rightarrow> ''unknown'')"

definition detect_ping_pong2 :: "loop_guard \<Rightarrow> string option" where
  "detect_ping_pong2 g =
     (let rc = recent_calls g; n = length rc
      in if n \<ge> 6
         then (let tail = drop (n - 6) rc; a = tail ! 0; b = tail ! 1
               in if a \<noteq> b \<and> tail ! 2 = a \<and> tail ! 3 = b \<and> tail ! 4 = a \<and> tail ! 5 = b
                  then Some (''Ping-pong detected: tools '' @ quoted (tool_of g a) @ '' and '' @ quoted (tool_of g b) @ '' are alternating repeatedly. Break the cycle by trying a different approach.'')
                  else None)
         else None)"

definition detect_ping_pong3 :: "loop_guard \<Rightarrow> string option" where
  "detect_ping_pong3 g =
     (let rc = recent_calls g; n = length rc
      in if n \<ge> 9
         then (let tail = drop (n - 9) rc; a = tail ! 0; b = tail ! 1; c = tail ! 2
               in if \<not> (a = b \<and> b = c) \<and> tail ! 3 = a \<and> tail ! 4 = b \<and> tail ! 5 = c \<and>
                     tail ! 6 = a \<and> tail ! 7 = b \<and> tail ! 8 = c
                  then Some (''Ping-pong detected: tools '' @ quoted (tool_of g a) @ '', '' @ quoted (tool_of g b) @ '', '' @ quoted (tool_of g c) @ '' are cycling repeatedly. Break the cycle by trying a different approach.'')
                  else None)
         else None)"

definition detect_ping_pong :: "loop_guard \<Rightarrow> string option" where
  "detect_ping_pong g =
     (case detect_ping_pong2 g of Some m \<Rightarrow> Some m | None \<Rightarrow> detect_ping_pong3 g)"

text \<open>The backward loops of \<open>count_ping_pong_repeats\<close>, from index \<open>i\<close> down.\<close>

fun count_back2 :: "string list \<Rightarrow> string \<Rightarrow> string \<Rightarrow> nat \<Rightarrow> nat" where
  "count_back2 rc a b (Suc (Suc i)) =
     (if rc ! i = a \<and> rc ! (i + 1) = b then 1 + count_back2 rc a b i else 0)"
| "count_back2 rc a b _ = 0"

fun count_back3 :: "string list \<Rightarrow> string \<Rightarrow> string \<Rightarrow> string \<Rightarrow> nat \<Rightarrow> nat" where
  "count_back3 rc a b c (Suc (Suc (Suc i))) =
     (if rc ! i = a \<and> rc ! (i + 1) = b \<and> rc ! (i + 2) = c then 1 + count_back3 rc a b c i else 0)"
| "count_back3 rc a b c _ = 0"

definition repeats2 :: "string list \<Rightarrow> nat" where
  "repeats2 rc =
     (let n = length rc in
      if n \<ge> 4 \<and> rc ! (n - 2) \<noteq> rc ! (n - 1)
      then count_back2 rc (rc ! (n - 2)) (rc ! (n - 1)) n else 0)"

definition repeats3 :: "string list \<Rightarrow> nat" where
  "repeats3 rc =
     (let n = length rc; a = rc ! (n - 3); b = rc ! (n - 2); c = rc ! (n - 1) in
      if n \<ge> 6 \<and> \<not> (a = b \<and> b = c) then count_back3 rc a b c n else 0)"

definition count_ping_pong_repeats :: "string list \<Rightarrow> nat" where
  "count_ping_pong_repeats rc =
     (if repeats2 rc \<ge> 2 then repeats2 rc else if repeats3 rc \<ge> 2 then repeats3 rc else 0)"

definition bump :: "('k \<Rightarrow> nat option) \<Rightarrow> 'k \<Rightarrow> ('k \<Rightarrow> nat option) \<times> nat" where
  "bump m k = (let n = (case m k of Some c \<Rightarrow> c | None \<Rightarrow> 0) + 1 in (m(k \<mapsto> n), n))"

definition bump_table :: "('k, nat) table \<Rightarrow> 'k \<Rightarrow> ('k, nat) table \<times> nat" where
  "bump_table t k = (let n = (case map_of t k of Some c \<Rightarrow> c | None \<Rightarrow> 0) + 1 in (tab_put k n t, n))"

definition push_recent :: "string list \<Rightarrow> string \<Rightarrow> string list" where
  "push_recent rc h = (if length rc \<ge> history_size then tl rc else rc) @ [h]"

definition count_block :: "loop_guard \<Rightarrow> loop_guard" where
  "count_block g = g\<lparr>blocked_calls := blocked_calls g + 1\<rparr>"

text \<open>The end of \<open>check\<close>: ping-pong detection.\<close>

definition check_ping_pong :: "loop_guard \<Rightarrow> string \<Rightarrow> loop_guard \<times> verdict" where
  "check_ping_pong g hash =
     (case detect_ping_pong g of
        None \<Rightarrow> (g, Allow)
      | Some msg \<Rightarrow>
          if count_ping_pong_repeats (recent_calls g) \<ge> ping_pong_min_repeats (config g)
          then (count_block g, Block msg)
          else (let (w, n) = bump (warnings_emitted g) (''pingpong_'' @ hash);
                    g' = g\<lparr>warnings_emitted := w\<rparr>
                in if n \<le> max_warnings_per_call (config g) then (g', Warn msg) else (g', Allow)))"

text \<open>The middle of \<open>check\<close>: the thresholds for identical calls.\<close>

definition check_counts :: "guard_env \<Rightarrow> loop_guard \<Rightarrow> string \<Rightarrow> json \<Rightarrow> string \<Rightarrow> loop_guard \<times> verdict" where
  "check_counts e g tool params hash =
     (let (cc, count_val) = bump_table (call_counts g) hash;
          g = g\<lparr>call_counts := cc\<rparr>;
          multiplier = (if is_poll_call e tool params then poll_multiplier (config g) else 1);
          effective_warn = warn_threshold (config g) * multiplier;
          effective_block = block_threshold (config g) * multiplier
      in if count_val \<ge> effective_block
         then (count_block g,
               Block (''Blocked: tool '' @ quoted tool @ '' called '' @ nat_str count_val @
                 '' times with identical parameters. Try a different approach or different parameters.''))
         else if count_val \<ge> effective_warn
         then (let (w, warning_count) = bump (warnings_emitted g) hash;
                   g = g\<lparr>warnings_emitted := w\<rparr>
               in if warning_count > max_warnings_per_call (config g)
                  then (count_block g,
                        Block (''Blocked: tool '' @ quoted tool @ '' called '' @ nat_str count_val @
                          '' times with identical parameters (warnings exhausted). Try a different approach.''))
                  else (g, Warn (''Warning: tool '' @ quoted tool @ '' has been called '' @ nat_str count_val @
                          '' times with identical parameters. Consider a different approach.'')))
         else check_ping_pong g hash)"

definition guard_check :: "guard_env \<Rightarrow> loop_guard \<Rightarrow> string \<Rightarrow> json \<Rightarrow> loop_guard \<times> verdict" where
  "guard_check e g tool params =
     (let g = g\<lparr>total_calls := total_calls g + 1\<rparr>
      in if total_calls g > global_circuit_breaker (config g)
         then (count_block g,
               CircuitBreak (''Circuit breaker: exceeded '' @ nat_str (global_circuit_breaker (config g)) @
                 '' total tool calls in this loop. The agent appears to be stuck.''))
         else (let hash = compute_hash e tool params;
                   g = g\<lparr>hash_to_tool :=
                       (case hash_to_tool g hash of None \<Rightarrow> (hash_to_tool g)(hash \<mapsto> tool)
                        | Some _ \<Rightarrow> hash_to_tool g)\<rparr>;
                   g = g\<lparr>recent_calls := push_recent (recent_calls g) hash\<rparr>
               in if hash \<in> blocked_outcomes g
                  then (count_block g,
                        Block (''Blocked: tool '' @ quoted tool @ '' is returning identical results repeatedly. The current approach is not working '' @
                          em_dash @ '' try something different.''))
                  else check_counts e g tool params hash))"

definition outcome_message :: "string \<Rightarrow> string" where
  "outcome_message tool = ''Tool '' @ quoted tool @ '' is returning identical results '' @ em_dash @
     '' the approach isn't working.''"

definition record_outcome ::
  "guard_env \<Rightarrow> loop_guard \<Rightarrow> string \<Rightarrow> json \<Rightarrow> string \<Rightarrow> loop_guard \<times> string option"
where
  "record_outcome e g tool params result =
     (let outcome_hash = compute_outcome_hash e tool params result;
          call_hash = compute_hash e tool params;
          (oc, count_val) = bump (outcome_counts g) outcome_hash;
          g = g\<lparr>outcome_counts := oc\<rparr>
      in if count_val \<ge> outcome_block_threshold (config g)
         then (g\<lparr>blocked_outcomes := insert call_hash (blocked_outcomes g)\<rparr>, Some (outcome_message tool))
         else if count_val \<ge> outcome_warn_threshold (config g)
         then (g, Some (outcome_message tool))
         else (g, None))"

definition get_poll_backoff ::
  "guard_env \<Rightarrow> loop_guard \<Rightarrow> string \<Rightarrow> json \<Rightarrow> loop_guard \<times> nat option"
where
  "get_poll_backoff e g tool params =
     (if \<not> is_poll_call e tool params then (g, None)
      else (let (pc, count) = bump (poll_counts g) (compute_hash e tool params);
                g = g\<lparr>poll_counts := pc\<rparr>
            in if count \<le> 1 then (g, None)
               else (let idx = count - 2
                     in (g, Some (if idx < length backoff_schedule_ms then backoff_schedule_ms ! idx
                                  else last backoff_schedule_ms)))))"

fun most_repeated ::
  "loop_guard \<Rightarrow> (string \<times> nat) list \<Rightarrow> string option \<Rightarrow> nat \<Rightarrow> string option \<times> nat"
where
  "most_repeated g [] tool n = (tool, n)"
| "most_repeated g ((h, c) # cs) tool n =
     (if c > n then most_repeated g cs (hash_to_tool g h) c else most_repeated g cs tool n)"

definition guard_stats :: "loop_guard \<Rightarrow> loop_guard_stats" where
  "guard_stats g =
     (let (tool, n) = most_repeated g (call_counts g) None 0
      in \<lparr>st_total_calls = total_calls g, st_unique_calls = length (call_counts g),
          st_blocked_calls = blocked_calls g, st_ping_pong_detected = (detect_ping_pong g \<noteq> None),
          st_most_repeated_tool = tool, st_most_repeated_count = n\<rparr>)"

end
