(* ===== verification/Loop_Guard_Theorems.thy ===== *)
theory Loop_Guard_Theorems
  imports Loop_Guard
begin

text \<open>
  What the loop guard guarantees: its counters stay consistent, the circuit breaker ends every
  run, identical calls get the documented sequence of verdicts, a call blocked for repeating its
  outcome stays blocked, and ping-pong detection recognises exactly the repeated patterns.
\<close>

section \<open>The operations as a machine\<close>

datatype guard_op = CheckOp string json | OutcomeOp string json string | BackoffOp string json

fun guard_step :: "guard_env \<Rightarrow> loop_guard \<Rightarrow> guard_op \<Rightarrow> loop_guard" where
  "guard_step e g (CheckOp t p) = fst (guard_check e g t p)"
| "guard_step e g (OutcomeOp t p r) = fst (record_outcome e g t p r)"
| "guard_step e g (BackoffOp t p) = fst (get_poll_backoff e g t p)"

text \<open>How each operation changes the parts of the state the invariants are about.\<close>

lemmas check_unfold = guard_check_def check_counts_def check_ping_pong_def count_block_def

lemma length_push_recent: "length rc \<le> history_size \<Longrightarrow> length (push_recent rc h) \<le> history_size"
  by (auto simp: push_recent_def history_size_def)

lemma config_check [simp]: "config (fst (guard_check e g t p)) = config g"
  by (simp add: check_unfold Let_def case_prod_beta split: option.split)

lemma config_outcome [simp]: "config (fst (record_outcome e g t p r)) = config g"
  by (simp add: record_outcome_def Let_def case_prod_beta)

lemma config_backoff [simp]: "config (fst (get_poll_backoff e g t p)) = config g"
  by (simp add: get_poll_backoff_def Let_def case_prod_beta)

lemma total_check [simp]: "total_calls (fst (guard_check e g t p)) = total_calls g + 1"
  by (simp add: check_unfold Let_def case_prod_beta split: option.split)

lemma blocked_outcomes_check [simp]:
  "blocked_outcomes (fst (guard_check e g t p)) = blocked_outcomes g"
  by (simp add: check_unfold Let_def case_prod_beta split: option.split)

lemma blocked_calls_check:
  "blocked_calls (fst (guard_check e g t p)) = blocked_calls g +
     (case snd (guard_check e g t p) of Block _ \<Rightarrow> 1 | CircuitBreak _ \<Rightarrow> 1 | _ \<Rightarrow> 0)"
  by (simp add: check_unfold Let_def case_prod_beta split: option.split)

lemma recent_check:
  "recent_calls (fst (guard_check e g t p)) =
     (if total_calls g + 1 > global_circuit_breaker (config g) then recent_calls g
      else push_recent (recent_calls g) (compute_hash e t p))"
  by (simp add: check_unfold Let_def case_prod_beta split: option.split)

lemma outcome_frame [simp]:
  "total_calls (fst (record_outcome e g t p r)) = total_calls g"
  "blocked_calls (fst (record_outcome e g t p r)) = blocked_calls g"
  "recent_calls (fst (record_outcome e g t p r)) = recent_calls g"
  "blocked_outcomes g \<subseteq> blocked_outcomes (fst (record_outcome e g t p r))"
  by (auto simp: record_outcome_def Let_def case_prod_beta)

lemma backoff_frame [simp]:
  "total_calls (fst (get_poll_backoff e g t p)) = total_calls g"
  "blocked_calls (fst (get_poll_backoff e g t p)) = blocked_calls g"
  "recent_calls (fst (get_poll_backoff e g t p)) = recent_calls g"
  "blocked_outcomes (fst (get_poll_backoff e g t p)) = blocked_outcomes g"
  by (simp_all add: get_poll_backoff_def Let_def case_prod_beta)

definition guard_inv :: "loop_guard \<Rightarrow> bool" where
  "guard_inv g \<longleftrightarrow> blocked_calls g \<le> total_calls g \<and> length (recent_calls g) \<le> history_size"

lemma guard_step_inv: "guard_inv g \<Longrightarrow> guard_inv (guard_step e g a)"
proof (cases a)
  case (CheckOp t p)
  assume "guard_inv g"
  then show ?thesis
    using CheckOp length_push_recent
    by (auto simp: guard_inv_def blocked_calls_check recent_check split: verdict.split)
qed (auto simp: guard_inv_def)

interpretation guard: invariant_machine "guard_step e" guard_inv
  by unfold_locales (rule guard_step_inv)

interpretation breaker: invariant_machine "guard_step e" "\<lambda>g. config g = c \<and> n \<le> total_calls g"
  by unfold_locales (rename_tac s a, case_tac a, auto)

interpretation outcome_block: invariant_machine "guard_step e" "\<lambda>g. h \<in> blocked_outcomes g"
  by unfold_locales (rename_tac s a, case_tac a, auto dest: subsetD [OF outcome_frame(4)])

fun is_stop :: "verdict \<Rightarrow> bool" where
  "is_stop (Block _) = True"
| "is_stop (CircuitBreak _) = True"
| "is_stop _ = False"

fun is_circuit_break :: "verdict \<Rightarrow> bool" where
  "is_circuit_break (CircuitBreak _) = True"
| "is_circuit_break _ = False"

section \<open>The circuit breaker\<close>

lemma check_breaker:
  "is_circuit_break (snd (guard_check e g t p)) \<longleftrightarrow> global_circuit_breaker (config g) \<le> total_calls g"
  by (auto simp: check_unfold Let_def case_prod_beta split: option.split)

lemma total_after_checks:
  "total_calls (foldl (guard_step e) g (map (\<lambda>(t, p). CheckOp t p) cs)) = total_calls g + length cs"
  by (induction cs arbitrary: g) auto

lemma total_run:
  "total_calls (foldl (guard_step e) g ops) =
     total_calls g + length (filter (\<lambda>a. \<exists>t p. a = CheckOp t p) ops)"
proof (induction ops arbitrary: g)
  case (Cons a ops)
  then show ?case by (cases a) simp_all
qed simp

lemma config_run: "config (foldl (guard_step e) g ops) = config g"
proof -
  have "config (guard_step e g a) = config g" for g a by (cases a) auto
  then show ?thesis by (induction ops arbitrary: g) auto
qed

section \<open>Blocked outcomes\<close>

lemma check_blocked_outcome:
  "compute_hash e t p \<in> blocked_outcomes g \<Longrightarrow> is_stop (snd (guard_check e g t p))"
  by (simp add: guard_check_def Let_def)

text \<open>Outcome counts never go down, so \<open>n\<close> identical outcomes are counted \<open>n\<close> times.\<close>

definition outcome_seen :: "loop_guard \<Rightarrow> string \<Rightarrow> nat" where
  "outcome_seen g h = (case outcome_counts g h of Some n \<Rightarrow> n | None \<Rightarrow> 0)"

lemma outcome_seen_record:
  "outcome_seen (fst (record_outcome e g t p r)) h =
     outcome_seen g h + (if h = compute_outcome_hash e t p r then 1 else 0)"
  by (auto simp: outcome_seen_def record_outcome_def bump_def Let_def split: option.split)

lemma outcome_counts_check [simp]: "outcome_counts (fst (guard_check e g t p)) = outcome_counts g"
  by (simp add: check_unfold Let_def case_prod_beta split: option.split)

lemma outcome_counts_backoff [simp]:
  "outcome_counts (fst (get_poll_backoff e g t p)) = outcome_counts g"
  by (simp add: get_poll_backoff_def Let_def case_prod_beta)

lemma outcome_seen_step:
  "outcome_seen (guard_step e g a) h =
     outcome_seen g h + (case a of OutcomeOp t p r \<Rightarrow> if h = compute_outcome_hash e t p r then 1 else 0 | _ \<Rightarrow> 0)"
proof (cases a)
  case (OutcomeOp t p r)
  then show ?thesis by (simp add: outcome_seen_record)
qed (simp_all add: outcome_seen_def)

lemma outcome_seen_run:
  "outcome_seen g h + length (filter (\<lambda>a. a = OutcomeOp t p r) ops)
     \<le> outcome_seen (foldl (guard_step e) g ops) h"
  if "h = compute_outcome_hash e t p r" for h
  using that
proof (induction ops arbitrary: g)
  case (Cons a ops)
  have "outcome_seen g h + (if a = OutcomeOp t p r then 1 else 0) \<le> outcome_seen (guard_step e g a) h"
    using Cons.prems by (auto simp: outcome_seen_step split: guard_op.split)
  with Cons.IH [OF Cons.prems, of "guard_step e g a"] show ?case by (auto split: if_splits)
qed simp

lemma record_blocks:
  "outcome_block_threshold (config g) \<le> outcome_seen g (compute_outcome_hash e t p r) + 1 \<Longrightarrow>
   compute_hash e t p \<in> blocked_outcomes (fst (record_outcome e g t p r))"
  by (auto simp: outcome_seen_def record_outcome_def bump_def Let_def split: option.splits)

lemma repeated_outcome_blocked:
  assumes "OutcomeOp t p r \<in> set ops"
    and "outcome_block_threshold (config g) \<le> length (filter (\<lambda>a. a = OutcomeOp t p r) ops)"
  shows "compute_hash e t p \<in> blocked_outcomes (foldl (guard_step e) g ops)"
proof -
  obtain pre post where ops: "ops = pre @ OutcomeOp t p r # post" "OutcomeOp t p r \<notin> set post"
    using split_list_last [OF assms(1)] by blast
  let ?g = "foldl (guard_step e) g pre"
  have "filter (\<lambda>a. a = OutcomeOp t p r) post = []" using ops(2) by (auto simp: filter_empty_conv)
  with assms(2) ops(1) have "outcome_block_threshold (config g)
      \<le> length (filter (\<lambda>a. a = OutcomeOp t p r) pre) + 1" by simp
  with outcome_seen_run [OF refl, of g e t p r pre]
  have "outcome_block_threshold (config ?g) \<le> outcome_seen ?g (compute_outcome_hash e t p r) + 1"
    by (simp add: config_run)
  then have "compute_hash e t p \<in> blocked_outcomes (guard_step e ?g (OutcomeOp t p r))"
    by (simp add: record_blocks)
  then show ?thesis unfolding ops(1) by (simp add: outcome_block.run_inv)
qed

section \<open>Identical calls\<close>

datatype verdict_kind = KAllow | KWarn | KBlock | KBreak

fun kind_of :: "verdict \<Rightarrow> verdict_kind" where
  "kind_of Allow = KAllow"
| "kind_of (Warn _) = KWarn"
| "kind_of (Block _) = KBlock"
| "kind_of (CircuitBreak _) = KBreak"

definition effective :: "guard_env \<Rightarrow> loop_guard_config \<Rightarrow> string \<Rightarrow> json \<Rightarrow> nat \<Rightarrow> nat" where
  "effective e c t p n = n * (if is_poll_call e t p then poll_multiplier c else 1)"

definition warnings_after :: "nat \<Rightarrow> nat \<Rightarrow> nat \<Rightarrow> nat" where
  "warnings_after warn block n = min n (block - 1) + 1 - max 1 warn"

definition same_calls :: "guard_env \<Rightarrow> loop_guard_config \<Rightarrow> string \<Rightarrow> json \<Rightarrow> nat \<Rightarrow> loop_guard \<Rightarrow> bool" where
  "same_calls e c t p n g \<longleftrightarrow>
     config g = c \<and> total_calls g = n \<and> blocked_outcomes g = {} \<and>
     set (recent_calls g) \<subseteq> {compute_hash e t p} \<and>
     (case map_of (call_counts g) (compute_hash e t p) of Some k \<Rightarrow> k | None \<Rightarrow> 0) = n \<and>
     (case warnings_emitted g (compute_hash e t p) of Some k \<Rightarrow> k | None \<Rightarrow> 0)
       = warnings_after (effective e c t p (warn_threshold c)) (effective e c t p (block_threshold c)) n"

lemma one_hash_no_ping_pong:
  assumes "set (recent_calls g) \<subseteq> {h}"
  shows "detect_ping_pong g = None"
proof -
  have nth: "recent_calls g ! i = h" if "i < length (recent_calls g)" for i
    using assms that nth_mem by blast
  show ?thesis
    by (auto simp: detect_ping_pong_def detect_ping_pong2_def detect_ping_pong3_def Let_def nth
        split: option.split)
qed

lemma set_push_recent: "set (push_recent rc h) \<subseteq> insert h (set rc)"
  by (cases rc) (auto simp: push_recent_def)

lemma warnings_after_step:
  "warnings_after warn block (Suc n) =
     (if block \<le> Suc n \<or> \<not> warn \<le> Suc n then warnings_after warn block n
      else Suc (warnings_after warn block n))"
  by (auto simp: warnings_after_def)

lemma same_calls_step:
  assumes g: "same_calls e c t p n g" and n: "n < global_circuit_breaker c"
  defines "warn \<equiv> effective e c t p (warn_threshold c)" and "block \<equiv> effective e c t p (block_threshold c)"
  shows "same_calls e c t p (Suc n) (fst (guard_check e g t p))"
    and "kind_of (snd (guard_check e g t p)) =
      (if block \<le> Suc n then KBlock
       else if warn \<le> Suc n
         then (if max_warnings_per_call c < Suc (warnings_after warn block n) then KBlock else KWarn)
       else KAllow)"
proof -
  let ?h = "compute_hash e t p"
  define g0 where "g0 = g\<lparr>total_calls := total_calls g + 1,
    hash_to_tool := (case hash_to_tool g ?h of None \<Rightarrow> (hash_to_tool g)(?h \<mapsto> t) | Some _ \<Rightarrow> hash_to_tool g),
    recent_calls := push_recent (recent_calls g) ?h\<rparr>"
  have chk: "guard_check e g t p = check_counts e g0 t p ?h"
    using g n by (simp add: guard_check_def g0_def same_calls_def Let_def split: option.split)
  have r: "set (recent_calls g0) \<subseteq> {?h}"
    using g set_push_recent [of "recent_calls g" ?h] by (auto simp: g0_def same_calls_def)
  have f: "config g0 = c" "total_calls g0 = Suc n" "blocked_outcomes g0 = {}"
    "(case map_of (call_counts g0) ?h of Some k \<Rightarrow> k | None \<Rightarrow> 0) = n"
    "(case warnings_emitted g0 ?h of Some k \<Rightarrow> k | None \<Rightarrow> 0) = warnings_after warn block n"
    using g by (simp_all add: g0_def same_calls_def warn_def block_def)
  have eff: "warn_threshold c * (if is_poll_call e t p then poll_multiplier c else 1) = warn"
    "block_threshold c * (if is_poll_call e t p then poll_multiplier c else 1) = block"
    by (simp_all add: warn_def block_def effective_def)
  have pp: "detect_ping_pong (g0\<lparr>call_counts := cc\<rparr>) = None" for cc
    by (rule one_hash_no_ping_pong) (use r in simp)
  show "same_calls e c t p (Suc n) (fst (guard_check e g t p))"
    unfolding chk same_calls_def warn_def [symmetric] block_def [symmetric]
    using r eff by (cases "is_poll_call e t p") (simp_all add: f pp warnings_after_step
        check_counts_def check_ping_pong_def count_block_def bump_table_def bump_def Let_def)
  show "kind_of (snd (guard_check e g t p)) =
      (if block \<le> Suc n then KBlock
       else if warn \<le> Suc n
         then (if max_warnings_per_call c < Suc (warnings_after warn block n) then KBlock else KWarn)
       else KAllow)"
    unfolding chk using eff by (cases "is_poll_call e t p") (simp_all add: f pp
        check_counts_def check_ping_pong_def count_block_def bump_table_def bump_def Let_def)
qed

lemma same_calls_run:
  "n \<le> global_circuit_breaker c \<Longrightarrow>
   same_calls e c t p n (foldl (guard_step e) (new_guard c) (replicate n (CheckOp t p)))"
proof (induction n)
  case 0
  show ?case by (simp add: same_calls_def new_guard_def warnings_after_def)
next
  case (Suc n)
  have r: "replicate (Suc n) (CheckOp t p) = replicate n (CheckOp t p) @ [CheckOp t p]"
    by (simp add: replicate_append_same)
  show ?case
    unfolding r using Suc same_calls_step(1) [of e c t p n] by simp
qed

section \<open>Ping-pong\<close>

text \<open>The end of a list, element by element.\<close>

lemma split_tail: "n \<le> length xs \<Longrightarrow> \<exists>pre post. xs = pre @ post \<and> length post = n"
  by (rule exI [of _ "take (length xs - n) xs"], rule exI [of _ "drop (length xs - n) xs"]) simp

lemma detect2_iff:
  "detect_ping_pong2 g \<noteq> None \<longleftrightarrow>
     (\<exists>pre a b. a \<noteq> b \<and> recent_calls g = pre @ [a, b, a, b, a, b])"
proof
  assume d: "detect_ping_pong2 g \<noteq> None"
  then have "6 \<le> length (recent_calls g)" by (auto simp: detect_ping_pong2_def Let_def split: if_splits)
  from split_tail [OF this] obtain pre post where pp: "recent_calls g = pre @ post" "length post = 6" by blast
  then obtain a b c x y z where "post = [a, b, c, x, y, z]"
    by (auto simp: numeral_eq_Suc length_Suc_conv)
  with d pp show "\<exists>pre a b. a \<noteq> b \<and> recent_calls g = pre @ [a, b, a, b, a, b]"
    by (auto simp: detect_ping_pong2_def Let_def split: if_splits)
next
  assume "\<exists>pre a b. a \<noteq> b \<and> recent_calls g = pre @ [a, b, a, b, a, b]"
  then show "detect_ping_pong2 g \<noteq> None" by (elim exE conjE) (simp add: detect_ping_pong2_def Let_def)
qed

lemma detect3_iff:
  "detect_ping_pong3 g \<noteq> None \<longleftrightarrow>
     (\<exists>pre a b c. \<not> (a = b \<and> b = c) \<and> recent_calls g = pre @ [a, b, c, a, b, c, a, b, c])"
proof
  assume d: "detect_ping_pong3 g \<noteq> None"
  then have "9 \<le> length (recent_calls g)" by (auto simp: detect_ping_pong3_def Let_def split: if_splits)
  from split_tail [OF this] obtain pre post where pp: "recent_calls g = pre @ post" "length post = 9" by blast
  then obtain a b c x y z u v w where "post = [a, b, c, x, y, z, u, v, w]"
    by (auto simp: numeral_eq_Suc length_Suc_conv)
  with d pp show "\<exists>pre a b c. \<not> (a = b \<and> b = c) \<and> recent_calls g = pre @ [a, b, c, a, b, c, a, b, c]"
    by (auto simp: detect_ping_pong3_def Let_def split: if_splits)
next
  assume "\<exists>pre a b c. \<not> (a = b \<and> b = c) \<and> recent_calls g = pre @ [a, b, c, a, b, c, a, b, c]"
  then show "detect_ping_pong3 g \<noteq> None" by (elim exE conjE) (simp add: detect_ping_pong3_def Let_def)
qed

lemma detect_iff: "detect_ping_pong g \<noteq> None \<longleftrightarrow> detect_ping_pong2 g \<noteq> None \<or> detect_ping_pong3 g \<noteq> None"
  by (auto simp: detect_ping_pong_def split: option.split)

lemma nth_tail: "(pre @ post) ! (length pre + i) = post ! i"
  by simp

lemma count_back2_step:
  "i \<le> length pre \<Longrightarrow> count_back2 (pre @ post) a b i = count_back2 pre a b i"
  by (induction pre a b i rule: count_back2.induct) (auto simp: nth_append)

lemma count_back2_snoc:
  "count_back2 (pre @ a' # b' # post) a b (Suc (Suc (length pre))) =
     (if a' = a \<and> b' = b then 1 + count_back2 pre a b (length pre) else 0)"
  by (simp add: nth_append count_back2_step)

lemma count_back3_step:
  "i \<le> length pre \<Longrightarrow> count_back3 (pre @ post) a b c i = count_back3 pre a b c i"
  by (induction pre a b c i rule: count_back3.induct) (auto simp: nth_append)

lemma count_back3_snoc:
  "count_back3 (pre @ a' # b' # c' # post) a b c (Suc (Suc (Suc (length pre)))) =
     (if a' = a \<and> b' = b \<and> c' = c then 1 + count_back3 pre a b c (length pre) else 0)"
  by (simp add: nth_append count_back3_step)

text \<open>The counts by whole repetitions from the end.\<close>

definition back2 :: "string list \<Rightarrow> string \<Rightarrow> string \<Rightarrow> nat" where
  "back2 rc a b = count_back2 rc a b (length rc)"

definition back3 :: "string list \<Rightarrow> string \<Rightarrow> string \<Rightarrow> string \<Rightarrow> nat" where
  "back3 rc a b c = count_back3 rc a b c (length rc)"

lemma back2_app: "back2 (pre @ [a', b']) a b = (if a' = a \<and> b' = b then 1 + back2 pre a b else 0)"
  using count_back2_snoc [of pre a' b' "[]" a b] by (simp add: back2_def)

lemma back3_app:
  "back3 (pre @ [a', b', c']) a b c = (if a' = a \<and> b' = b \<and> c' = c then 1 + back3 pre a b c else 0)"
  using count_back3_snoc [of pre a' b' c' "[]" a b c] by (simp add: back3_def)

lemma repeats2_back:
  "repeats2 (pre @ [a, b]) = (if 2 \<le> length pre \<and> a \<noteq> b then back2 (pre @ [a, b]) a b else 0)"
  by (simp add: repeats2_def back2_def Let_def nth_append)

lemma repeats3_back:
  "repeats3 (pre @ [a, b, c]) =
     (if 3 \<le> length pre \<and> \<not> (a = b \<and> b = c) then back3 (pre @ [a, b, c]) a b c else 0)"
  by (simp add: repeats3_def back3_def Let_def nth_append)

lemma repeats2_ping_pong:
  assumes "a \<noteq> b"
  shows "3 \<le> repeats2 (pre @ [a, b, a, b, a, b])"
  using assms repeats2_back [of "pre @ [a, b, a, b]" a b] back2_app [of "pre @ [a, b, a, b]" a b a b]
    back2_app [of "pre @ [a, b]" a b a b] back2_app [of pre a b a b] by simp

lemma repeats3_ping_pong:
  assumes "\<not> (a = b \<and> b = c)"
  shows "3 \<le> repeats3 (pre @ [a, b, c, a, b, c, a, b, c])"
    and "repeats2 (pre @ [a, b, c, a, b, c, a, b, c]) < 2"
  using assms repeats3_back [of "pre @ [a, b, c, a, b, c]" a b c]
    back3_app [of "pre @ [a, b, c, a, b, c]" a b c a b c]
    back3_app [of "pre @ [a, b, c]" a b c a b c] back3_app [of pre a b c a b c]
    repeats2_back [of "pre @ [a, b, c, a, b, c, a]" b c]
    back2_app [of "pre @ [a, b, c, a, b, c, a]" b c b c]
    back2_app [of "pre @ [a, b, c, a, b]" c a b c] by auto

lemma detected_repeats: "detect_ping_pong g \<noteq> None \<Longrightarrow> 3 \<le> count_ping_pong_repeats (recent_calls g)"
  unfolding detect_iff detect2_iff detect3_iff
proof (elim disjE exE conjE)
  fix pre a b
  assume "a \<noteq> b" "recent_calls g = pre @ [a, b, a, b, a, b]"
  with repeats2_ping_pong [of a b pre] show ?thesis by (simp add: count_ping_pong_repeats_def)
next
  fix pre a b c
  assume "\<not> (a = b \<and> b = c)" "recent_calls g = pre @ [a, b, c, a, b, c, a, b, c]"
  with repeats3_ping_pong [of a b c pre] show ?thesis by (simp add: count_ping_pong_repeats_def)
qed

section \<open>Properties\<close>

text \<open>
  C13: identical calls. After \<open>n\<close> calls of a tool with the same parameters on a new guard, the
  next identical call is answered by the circuit breaker beyond the global limit, blocked from
  the block threshold on, warned from the warn threshold on (blocked once the warnings of the
  call are used up), and allowed below; thresholds are multiplied for polling calls.
\<close>

theorem identical_calls_schedule:
  "kind_of (snd (guard_check e (foldl (guard_step e) (new_guard c) (replicate n (CheckOp t p))) t p)) =
     (let warn = effective e c t p (warn_threshold c); block = effective e c t p (block_threshold c) in
      if global_circuit_breaker c \<le> n then KBreak
      else if block \<le> n + 1 then KBlock
      else if warn \<le> n + 1
        then (if max_warnings_per_call c < n + 2 - max 1 warn then KBlock else KWarn)
      else KAllow)"
proof (cases "global_circuit_breaker c \<le> n")
  case True
  let ?g = "foldl (guard_step e) (new_guard c) (replicate n (CheckOp t p))"
  have "total_calls ?g = n"
    using total_after_checks [of e "new_guard c" "replicate n (t, p)"] by (simp add: new_guard_def)
  moreover have "config ?g = c" by (simp add: config_run) (simp add: new_guard_def)
  ultimately have "is_circuit_break (snd (guard_check e ?g t p))" using True by (simp add: check_breaker)
  then have "kind_of (snd (guard_check e ?g t p)) = KBreak"
    by (cases "snd (guard_check e ?g t p)") auto
  with True show ?thesis by simp
next
  case False
  then have "same_calls e c t p n (foldl (guard_step e) (new_guard c) (replicate n (CheckOp t p)))"
    by (intro same_calls_run) simp
  from same_calls_step(2) [OF this] False show ?thesis
    by (auto simp: Let_def warnings_after_def)
qed

text \<open>
  the circuit breaker ends every loop: whatever operations run on the guard, once as many
  checks as the global limit were made, every further check is a circuit break.
\<close>

theorem breaker_trips_forever:
  assumes "global_circuit_breaker (config g) \<le> length (filter (\<lambda>a. \<exists>t p. a = CheckOp t p) ops)"
  shows "is_circuit_break (snd (guard_check e (foldl (guard_step e) g ops) tool params))"
  using assms by (simp add: check_breaker config_run total_run)

text \<open>
  a call that produced the same outcome as often as the outcome threshold is stopped from
  then on, whatever other operations are interleaved.
\<close>

theorem repeated_outcome_stops:
  assumes "OutcomeOp t p r \<in> set ops"
    and "outcome_block_threshold (config g) \<le> length (filter (\<lambda>a. a = OutcomeOp t p r) ops)"
  shows "is_stop (snd (guard_check e (foldl (guard_step e) g ops) t p))"
  using repeated_outcome_blocked [OF assms] by (rule check_blocked_outcome)

text \<open>
  ping-pong detection fires exactly when the last six calls alternate between two different
  calls or the last nine repeat three calls that are not all the same.
\<close>

theorem ping_pong_detection_exact:
  "detect_ping_pong g \<noteq> None \<longleftrightarrow>
     (\<exists>pre a b. a \<noteq> b \<and> recent_calls g = pre @ [a, b, a, b, a, b]) \<or>
     (\<exists>pre a b c. \<not> (a = b \<and> b = c) \<and> recent_calls g = pre @ [a, b, c, a, b, c, a, b, c])"
  unfolding detect_iff detect2_iff detect3_iff by (rule refl)

text \<open>
  a detected ping-pong always counts at least three repeats, so with a minimum of at most
  three (the default) it is blocked at once: the branch that only warns below the minimum
  cannot be reached.
\<close>

theorem ping_pong_blocks_at_once:
  assumes "detect_ping_pong g = Some msg" and "ping_pong_min_repeats (config g) \<le> 3"
  shows "check_ping_pong g hash = (count_block g, Block msg)"
  using detected_repeats [of g] assms by (simp add: check_ping_pong_def)

text \<open>
  in every run of the guard from a new one at most all calls are counted as blocked and the
  call history never holds more than thirty hashes.
\<close>

theorem guard_counters_consistent:
  "let g = foldl (guard_step e) (new_guard c) ops in
     blocked_calls g \<le> total_calls g \<and> length (recent_calls g) \<le> 30"
  using guard.run_inv [of "new_guard c" e ops]
  by (simp add: guard_inv_def new_guard_def history_size_def Let_def)

section \<open>Witnesses\<close>

definition plain_env :: guard_env where
  "plain_env = \<lparr>sha256_hex = (\<lambda>s. s), json_text = (\<lambda>_. ''{}''), lowercase = map ascii_lower\<rparr>"

theorem breaker_trips_forever_witness:
  "is_circuit_break (snd (guard_check plain_env
     (foldl (guard_step plain_env) (new_guard (default_guard_config\<lparr>global_circuit_breaker := 2\<rparr>))
        [CheckOp ''a'' JNull, OutcomeOp ''a'' JNull ''x'', CheckOp ''b'' JNull]) ''c'' JNull))"
  by (rule breaker_trips_forever) (simp add: new_guard_def)

theorem repeated_outcome_stops_witness:
  "is_stop (snd (guard_check plain_env
     (foldl (guard_step plain_env) (new_guard default_guard_config)
        [OutcomeOp ''a'' JNull ''x'', CheckOp ''b'' JNull, OutcomeOp ''a'' JNull ''x'',
         OutcomeOp ''a'' JNull ''x'']) ''a'' JNull))"
  by (rule repeated_outcome_stops [where r = "''x''"]) (simp_all add: new_guard_def default_guard_config_def)

definition ping_pong_guard :: loop_guard where
  "ping_pong_guard = (new_guard default_guard_config)\<lparr>recent_calls := [''1'', ''2'', ''1'', ''2'', ''1'', ''2'']\<rparr>"

theorem ping_pong_blocks_at_once_witness:
  "\<exists>msg. detect_ping_pong ping_pong_guard = Some msg \<and>
     check_ping_pong ping_pong_guard ''2'' = (count_block ping_pong_guard, Block msg)"
proof -
  have "detect_ping_pong2 ping_pong_guard \<noteq> None"
    unfolding detect2_iff by (rule exI [of _ "[]"]) (auto simp: ping_pong_guard_def)
  then have "detect_ping_pong ping_pong_guard \<noteq> None"
    unfolding detect_iff by (rule disjI1)
  then obtain msg where m: "detect_ping_pong ping_pong_guard = Some msg" by (simp only: not_None_eq) blast
  moreover have "ping_pong_min_repeats (config ping_pong_guard) \<le> 3"
    by (simp add: ping_pong_guard_def new_guard_def default_guard_config_def)
  ultimately show ?thesis using ping_pong_blocks_at_once [OF m] by blast
qed

end
