(* ===== verification/Circuit_Breaker.thy ===== *)
theory Circuit_Breaker
  imports Complex_Main Rh_Prelude
begin

text \<open>
  The provider circuit breaker, \<open>crates/rusty-hand-runtime/src/auth_cooldown.rs\<close>. Instants and
  durations are nanoseconds as natural numbers; an operation reads the clock once and gets that
  reading as its argument \<open>now\<close>, and \<open>elapsed\<close> saturates at zero as \<open>Instant::elapsed\<close> does.
  The multipliers are the exact rationals of the code's \<open>f64\<close>: \<open>powi\<close> and the product are exact
  for the default configuration, where every value is an integer below 2^53. The error counters
  saturate at the maximum of a \<open>u32\<close>. The map of states is a table because \<open>snapshot\<close> and
  \<open>clear_expired\<close> iterate over it.
\<close>

section \<open>Definitions\<close>

record cooldown_config =
  base_cooldown_secs :: nat
  max_cooldown_secs :: nat
  backoff_multiplier :: rat
  max_exponent :: nat
  billing_base_cooldown_secs :: nat
  billing_max_cooldown_secs :: nat
  billing_multiplier :: rat
  failure_window_secs :: nat
  probe_enabled :: bool
  probe_interval_secs :: nat

definition default_cooldown_config :: cooldown_config where
  "default_cooldown_config = \<lparr>base_cooldown_secs = 60, max_cooldown_secs = 3600,
     backoff_multiplier = 5, max_exponent = 3, billing_base_cooldown_secs = 18000,
     billing_max_cooldown_secs = 86400, billing_multiplier = 2, failure_window_secs = 86400,
     probe_enabled = True, probe_interval_secs = 30\<rparr>"

datatype circuit_state = Closed | Open | HalfOpen

record provider_state =
  error_count :: nat
  is_billing :: bool
  cooldown_start :: "nat option"
  cooldown_duration :: nat
  last_probe :: "nat option"
  total_errors_in_window :: nat
  window_start :: "nat option"

definition new_provider_state :: provider_state where
  "new_provider_state = \<lparr>error_count = 0, is_billing = False, cooldown_start = None,
     cooldown_duration = 0, last_probe = None, total_errors_in_window = 0, window_start = None\<rparr>"

datatype cooldown_verdict = AllowRequest | AllowProbe | Reject string nat

record provider_snapshot =
  sn_provider :: string
  sn_state :: circuit_state
  sn_error_count :: nat
  sn_is_billing :: bool
  sn_cooldown_remaining_secs :: "nat option"

record auth_profile =
  profile_name :: string
  api_key_env :: string
  priority :: nat

definition nanos :: "nat \<Rightarrow> nat" where "nanos secs = secs * 10 ^ 9"

definition as_secs :: "nat \<Rightarrow> nat" where "as_secs d = d div 10 ^ 9"

definition elapsed :: "nat \<Rightarrow> nat \<Rightarrow> nat" where "elapsed now start = now - start"

definition sat_inc :: "nat \<Rightarrow> nat" where "sat_inc n = min (n + 1) (2 ^ 32 - 1)"

text \<open>The cast from \<open>f64\<close> to \<open>u64\<close> truncates and saturates.\<close>

definition as_u64 :: "rat \<Rightarrow> nat" where "as_u64 x = min (nat \<lfloor>x\<rfloor>) (2 ^ 64 - 1)"

definition calculate_cooldown :: "cooldown_config \<Rightarrow> nat \<Rightarrow> bool \<Rightarrow> nat" where
  "calculate_cooldown c errors billing =
     (if billing
      then (let exponent = min (errors - 1) 10;
                secs = as_u64 (of_nat (billing_base_cooldown_secs c) * billing_multiplier c ^ exponent)
            in nanos (min secs (billing_max_cooldown_secs c)))
      else (let exponent = min (errors - 1) (max_exponent c);
                secs = as_u64 (of_nat (base_cooldown_secs c) * backoff_multiplier c ^ exponent)
            in nanos (min secs (max_cooldown_secs c))))"

record provider_cooldown =
  cb_config :: cooldown_config
  states :: "(string, provider_state) table"

definition new_cooldown :: "cooldown_config \<Rightarrow> provider_cooldown" where
  "new_cooldown c = \<lparr>cb_config = c, states = []\<rparr>"

definition shared_breaker :: provider_cooldown where
  "shared_breaker = new_cooldown default_cooldown_config"

definition cb_check :: "provider_cooldown \<Rightarrow> string \<Rightarrow> nat \<Rightarrow> cooldown_verdict" where
  "cb_check cb provider now =
     (case map_of (states cb) provider of
        None \<Rightarrow> AllowRequest
      | Some st \<Rightarrow>
          (case cooldown_start st of
             None \<Rightarrow> AllowRequest
           | Some start \<Rightarrow>
               (let el = elapsed now start
                in if el < cooldown_duration st
                   then (let remaining = cooldown_duration st - el;
                             probe_ok = (case last_probe st of
                               Some l \<Rightarrow> elapsed now l \<ge> nanos (probe_interval_secs (cb_config cb))
                             | None \<Rightarrow> True)
                         in if probe_enabled (cb_config cb) \<and> probe_ok then AllowProbe
                            else Reject ((if is_billing st then ''billing cooldown ('' else ''error cooldown ('')
                                   @ nat_str (error_count st) @ '' errors)'') (as_secs remaining))
                   else AllowProbe)))"

definition update_state :: "string \<Rightarrow> (provider_state \<Rightarrow> provider_state) \<Rightarrow> provider_cooldown \<Rightarrow> provider_cooldown" where
  "update_state provider f cb =
     (case map_of (states cb) provider of
        None \<Rightarrow> cb
      | Some st \<Rightarrow> cb\<lparr>states := tab_put provider (f st) (states cb)\<rparr>)"

definition record_success :: "provider_cooldown \<Rightarrow> string \<Rightarrow> provider_cooldown" where
  "record_success cb provider =
     update_state provider (\<lambda>st. st\<lparr>error_count := 0, is_billing := False, cooldown_start := None,
       cooldown_duration := 0, last_probe := None\<rparr>) cb"

definition or_new :: "provider_cooldown \<Rightarrow> string \<Rightarrow> provider_state" where
  "or_new cb provider = (case map_of (states cb) provider of Some st \<Rightarrow> st | None \<Rightarrow> new_provider_state)"

definition manage_window :: "cooldown_config \<Rightarrow> nat \<Rightarrow> provider_state \<Rightarrow> provider_state" where
  "manage_window c now st =
     (case window_start st of
        Some ws \<Rightarrow> if elapsed now ws \<ge> nanos (failure_window_secs c)
                  then st\<lparr>total_errors_in_window := 0, window_start := Some now\<rparr> else st
      | None \<Rightarrow> st\<lparr>window_start := Some now\<rparr>)"

definition record_failure :: "provider_cooldown \<Rightarrow> string \<Rightarrow> bool \<Rightarrow> nat \<Rightarrow> provider_cooldown" where
  "record_failure cb provider billing now =
     (let st = manage_window (cb_config cb) now (or_new cb provider);
          st = st\<lparr>error_count := sat_inc (error_count st),
                  total_errors_in_window := sat_inc (total_errors_in_window st),
                  is_billing := billing\<rparr>;
          st = st\<lparr>cooldown_start := Some now,
                  cooldown_duration := calculate_cooldown (cb_config cb) (error_count st) billing,
                  last_probe := Some now\<rparr>
      in cb\<lparr>states := tab_put provider st (states cb)\<rparr>)"

definition record_probe_result :: "provider_cooldown \<Rightarrow> string \<Rightarrow> bool \<Rightarrow> nat \<Rightarrow> provider_cooldown" where
  "record_probe_result cb provider success now =
     (if success then record_success cb provider
      else update_state provider (\<lambda>st.
        (let st = st\<lparr>last_probe := Some now, error_count := sat_inc (error_count st)\<rparr>
         in st\<lparr>cooldown_start := Some now,
               cooldown_duration := calculate_cooldown (cb_config cb) (error_count st) (is_billing st)\<rparr>)) cb)"

definition circuit_of :: "provider_state \<Rightarrow> nat \<Rightarrow> circuit_state" where
  "circuit_of st now =
     (case cooldown_start st of
        None \<Rightarrow> Closed
      | Some start \<Rightarrow>
          if elapsed now start < cooldown_duration st then Open
          else if error_count st > 0 then HalfOpen else Closed)"

definition get_state :: "provider_cooldown \<Rightarrow> string \<Rightarrow> nat \<Rightarrow> circuit_state" where
  "get_state cb provider now =
     (case map_of (states cb) provider of None \<Rightarrow> Closed | Some st \<Rightarrow> circuit_of st now)"

definition snapshot_entry :: "nat \<Rightarrow> string \<times> provider_state \<Rightarrow> provider_snapshot" where
  "snapshot_entry now entry =
     (let st = snd entry in
      \<lparr>sn_provider = fst entry, sn_state = circuit_of st now, sn_error_count = error_count st,
       sn_is_billing = is_billing st,
       sn_cooldown_remaining_secs =
         (case cooldown_start st of
            None \<Rightarrow> None
          | Some start \<Rightarrow>
              if elapsed now start < cooldown_duration st
              then Some (as_secs (cooldown_duration st - elapsed now start)) else None)\<rparr>)"

definition snapshot :: "provider_cooldown \<Rightarrow> nat \<Rightarrow> provider_snapshot list" where
  "snapshot cb now = map (snapshot_entry now) (states cb)"

definition expired :: "nat \<Rightarrow> provider_state \<Rightarrow> bool" where
  "expired now st =
     (case cooldown_start st of
        Some start \<Rightarrow> elapsed now start \<ge> cooldown_duration st \<and> error_count st = 0
      | None \<Rightarrow> False)"

definition clear_expired :: "provider_cooldown \<Rightarrow> nat \<Rightarrow> provider_cooldown" where
  "clear_expired cb now =
     (let to_remove = map fst (filter (\<lambda>(k, st). expired now st) (states cb))
      in cb\<lparr>states := foldl (\<lambda>t k. tab_del k t) (states cb) to_remove\<rparr>)"

definition force_reset :: "provider_cooldown \<Rightarrow> string \<Rightarrow> provider_cooldown" where
  "force_reset cb provider = cb\<lparr>states := tab_del provider (states cb)\<rparr>"

definition profile_key :: "string \<Rightarrow> string \<Rightarrow> string" where
  "profile_key provider name = provider @ ''::'' @ name"

definition in_cooldown :: "provider_cooldown \<Rightarrow> string \<Rightarrow> auth_profile \<Rightarrow> nat \<Rightarrow> bool" where
  "in_cooldown cb provider p now =
     (case map_of (states cb) (profile_key provider (profile_name p)) of
        None \<Rightarrow> False
      | Some st \<Rightarrow>
          (case cooldown_start st of
             None \<Rightarrow> False
           | Some start \<Rightarrow> elapsed now start < cooldown_duration st))"

fun first_available ::
  "provider_cooldown \<Rightarrow> string \<Rightarrow> nat \<Rightarrow> auth_profile list \<Rightarrow> auth_profile option"
where
  "first_available cb provider now [] = None"
| "first_available cb provider now (p # ps) =
     (if in_cooldown cb provider p now then first_available cb provider now ps else Some p)"

definition select_profile ::
  "provider_cooldown \<Rightarrow> string \<Rightarrow> auth_profile list \<Rightarrow> nat \<Rightarrow> (string \<times> string) option"
where
  "select_profile cb provider profiles now =
     (case profiles of
        [] \<Rightarrow> None
      | first # _ \<Rightarrow>
          (case first_available cb provider now (sort_key priority profiles) of
             Some p \<Rightarrow> Some (profile_name p, api_key_env p)
           | None \<Rightarrow> Some (profile_name first, api_key_env first)))"

definition advance_profile ::
  "provider_cooldown \<Rightarrow> string \<Rightarrow> string \<Rightarrow> bool \<Rightarrow> nat \<Rightarrow> provider_cooldown"
where
  "advance_profile cb provider failed billing now =
     (let key = profile_key provider failed;
          st = or_new cb key;
          st = st\<lparr>error_count := sat_inc (error_count st), is_billing := billing\<rparr>;
          st = st\<lparr>cooldown_start := Some now,
                  cooldown_duration := calculate_cooldown (cb_config cb) (error_count st) billing\<rparr>
      in cb\<lparr>states := tab_put key st (states cb)\<rparr>)"

end
