(* ===== verification/Circuit_Breaker_Theorems.thy ===== *)
theory Circuit_Breaker_Theorems
  imports Circuit_Breaker
begin

text \<open>
  What the provider circuit breaker guarantees: cooldowns escalate up to their cap, the answers
  after a failure follow a fixed timeline, \<open>check\<close> and \<open>get_state\<close> agree in every reachable
  state, and profile selection takes the preferred profile that is not in cooldown.
\<close>

section \<open>Cooldown lengths\<close>

lemma as_u64_mono: "x \<le> y \<Longrightarrow> as_u64 x \<le> as_u64 y"
  unfolding as_u64_def by (intro min.mono nat_mono floor_mono) auto

lemma escalation_mono:
  fixes q :: rat
  assumes "1 \<le> q" and "i \<le> j"
  shows "as_u64 (of_nat b * q ^ i) \<le> as_u64 (of_nat b * q ^ j)"
  by (rule as_u64_mono) (simp add: assms mult_left_mono power_increasing)

lemma nanos_mono: "a \<le> b \<Longrightarrow> nanos a \<le> nanos b"
  by (simp add: nanos_def)

definition cooldown_cap :: "cooldown_config \<Rightarrow> bool \<Rightarrow> nat" where
  "cooldown_cap c billing = nanos (if billing then billing_max_cooldown_secs c else max_cooldown_secs c)"

lemma calculate_cooldown_cap: "calculate_cooldown c n billing \<le> cooldown_cap c billing"
  by (simp add: calculate_cooldown_def cooldown_cap_def Let_def nanos_def)

lemma calculate_cooldown_mono:
  assumes "1 \<le> (if billing then billing_multiplier c else backoff_multiplier c)" and "m \<le> n"
  shows "calculate_cooldown c m billing \<le> calculate_cooldown c n billing"
proof (cases billing)
  case True
  have "min (m - 1) 10 \<le> min (n - 1) 10" using assms(2) by simp
  from escalation_mono [OF _ this] assms True show ?thesis
    unfolding calculate_cooldown_def Let_def by (simp only: if_True) (intro nanos_mono min.mono, auto)
next
  case False
  have "min (m - 1) (max_exponent c) \<le> min (n - 1) (max_exponent c)" using assms(2) by simp
  from escalation_mono [OF _ this] assms False show ?thesis
    unfolding calculate_cooldown_def Let_def by (simp only: if_False) (intro nanos_mono min.mono, auto)
qed

section \<open>The states an operation touches\<close>

lemma map_of_update_state:
  "map_of (states (update_state p f cb)) k =
     (if k = p then map_option f (map_of (states cb) p) else map_of (states cb) k)"
  by (auto simp: update_state_def split: option.split)

lemma config_update_state [simp]: "cb_config (update_state p f cb) = cb_config cb"
  by (simp add: update_state_def split: option.split)

lemma config_ops [simp]:
  "cb_config (record_success cb p) = cb_config cb"
  "cb_config (record_failure cb p b t) = cb_config cb"
  "cb_config (record_probe_result cb p s t) = cb_config cb"
  "cb_config (clear_expired cb t) = cb_config cb"
  "cb_config (force_reset cb p) = cb_config cb"
  "cb_config (advance_profile cb p f b t) = cb_config cb"
  by (simp_all add: record_success_def record_failure_def record_probe_result_def clear_expired_def
      force_reset_def advance_profile_def Let_def)

text \<open>The operations that change the breaker, as events.\<close>

datatype breaker_op =
  SuccessOp string | FailureOp string bool nat | ProbeOp string bool nat
| ClearOp nat | ResetOp string | AdvanceOp string string bool nat

fun breaker_step :: "provider_cooldown \<Rightarrow> breaker_op \<Rightarrow> provider_cooldown" where
  "breaker_step cb (SuccessOp p) = record_success cb p"
| "breaker_step cb (FailureOp p b t) = record_failure cb p b t"
| "breaker_step cb (ProbeOp p s t) = record_probe_result cb p s t"
| "breaker_step cb (ClearOp t) = clear_expired cb t"
| "breaker_step cb (ResetOp p) = force_reset cb p"
| "breaker_step cb (AdvanceOp p f b t) = advance_profile cb p f b t"

text \<open>In a reachable state a cooldown only runs after an error and is within its cap.\<close>

definition provider_ok :: "cooldown_config \<Rightarrow> provider_state \<Rightarrow> bool" where
  "provider_ok c st \<longleftrightarrow>
     (cooldown_start st \<noteq> None \<longrightarrow> 0 < error_count st) \<and> error_count st < 2 ^ 32 \<and>
     cooldown_duration st \<le> cooldown_cap c (is_billing st)"

definition breaker_ok :: "cooldown_config \<Rightarrow> provider_cooldown \<Rightarrow> bool" where
  "breaker_ok c cb \<longleftrightarrow> cb_config cb = c \<and> tab_ok (states cb) \<and>
     (\<forall>k st. map_of (states cb) k = Some st \<longrightarrow> provider_ok c st)"

lemma breaker_ok_new: "breaker_ok c (new_cooldown c)"
  by (simp add: breaker_ok_def new_cooldown_def)

lemma breaker_okD: "breaker_ok c cb \<Longrightarrow> map_of (states cb) k = Some st \<Longrightarrow> provider_ok c st"
  by (auto simp: breaker_ok_def)

lemma breaker_ok_put:
  "breaker_ok c cb \<Longrightarrow> provider_ok c st \<Longrightarrow> breaker_ok c (cb\<lparr>states := tab_put k st (states cb)\<rparr>)"
  by (auto simp: breaker_ok_def tab_ok_put)

lemma breaker_ok_del: "breaker_ok c cb \<Longrightarrow> breaker_ok c (cb\<lparr>states := tab_del k (states cb)\<rparr>)"
  by (auto simp: breaker_ok_def tab_ok_del split: if_splits)

lemma breaker_ok_update:
  assumes "breaker_ok c cb" and "\<And>st. provider_ok c st \<Longrightarrow> provider_ok c (f st)"
  shows "breaker_ok c (update_state p f cb)"
proof (cases "map_of (states cb) p")
  case None
  with assms(1) show ?thesis by (simp add: update_state_def)
next
  case (Some st)
  from breaker_ok_put [OF assms(1) assms(2) [OF breaker_okD [OF assms(1) Some]]] Some
  show ?thesis by (simp add: update_state_def)
qed

lemma provider_ok_new: "provider_ok c new_provider_state"
  by (simp add: provider_ok_def new_provider_state_def)

lemma provider_ok_or_new: "breaker_ok c cb \<Longrightarrow> provider_ok c (or_new cb p)"
  by (auto simp: or_new_def provider_ok_new dest: breaker_okD split: option.split)

lemma sat_inc_pos: "0 < sat_inc n" and sat_inc_u32: "sat_inc n < 4294967296"
  by (simp_all add: sat_inc_def)

lemma breaker_config: "breaker_ok c cb \<Longrightarrow> cb_config cb = c"
  by (simp add: breaker_ok_def)

lemma clear_keeps:
  "breaker_ok c cb \<Longrightarrow> breaker_ok c (cb\<lparr>states := foldl (\<lambda>t k. tab_del k t) (states cb) ks\<rparr>)"
proof (induction ks arbitrary: cb)
  case (Cons k ks)
  from Cons.IH [OF breaker_ok_del [OF Cons.prems]] show ?case by simp
qed simp

lemma breaker_step_ok: "breaker_ok c cb \<Longrightarrow> breaker_ok c (breaker_step cb a)"
proof (cases a)
  case (SuccessOp p)
  assume "breaker_ok c cb"
  then show ?thesis unfolding SuccessOp breaker_step.simps record_success_def
    by (rule breaker_ok_update) (simp add: provider_ok_def cooldown_cap_def)
next
  case (FailureOp p b t)
  assume "breaker_ok c cb"
  then show ?thesis unfolding FailureOp breaker_step.simps record_failure_def Let_def
    by (intro breaker_ok_put)
      (simp_all add: provider_ok_def sat_inc_pos sat_inc_u32 calculate_cooldown_cap breaker_config)
next
  case (ProbeOp p s t)
  assume ok: "breaker_ok c cb"
  show ?thesis
  proof (cases s)
    case True
    with ok show ?thesis unfolding ProbeOp breaker_step.simps record_probe_result_def record_success_def
      by (simp only: if_True) (rule breaker_ok_update, simp_all add: provider_ok_def cooldown_cap_def)
  next
    case False
    with ok show ?thesis unfolding ProbeOp breaker_step.simps record_probe_result_def Let_def
      by (simp only: if_False) (rule breaker_ok_update,
        simp_all add: provider_ok_def sat_inc_pos sat_inc_u32 calculate_cooldown_cap breaker_config)
  qed
next
  case (ClearOp t)
  assume "breaker_ok c cb"
  then show ?thesis by (simp add: ClearOp clear_expired_def clear_keeps Let_def)
next
  case (ResetOp p)
  assume "breaker_ok c cb"
  then show ?thesis by (simp add: ResetOp force_reset_def breaker_ok_del)
next
  case (AdvanceOp p f b t)
  assume "breaker_ok c cb"
  then show ?thesis unfolding AdvanceOp breaker_step.simps advance_profile_def Let_def
    by (intro breaker_ok_put)
      (simp_all add: provider_ok_def sat_inc_pos sat_inc_u32 calculate_cooldown_cap breaker_config)
qed

interpretation circuit: invariant_machine breaker_step "breaker_ok c"
  by unfold_locales (rule breaker_step_ok)

lemma reachable_ok: "breaker_ok c (foldl breaker_step (new_cooldown c) ops)"
  by (rule circuit.run_inv) (rule breaker_ok_new)

section \<open>Profiles\<close>

lemma first_available_None:
  "first_available cb p now ps = None \<longleftrightarrow> (\<forall>q \<in> set ps. in_cooldown cb p q now)"
  by (induction ps) auto

lemma first_available_Some:
  "first_available cb p now ps = Some q \<Longrightarrow>
     \<exists>pre post. ps = pre @ q # post \<and> \<not> in_cooldown cb p q now \<and> (\<forall>r \<in> set pre. in_cooldown cb p r now)"
proof (induction ps)
  case (Cons r ps)
  show ?case
  proof (cases "in_cooldown cb p r now")
    case True
    with Cons obtain pre post where "ps = pre @ q # post" "\<not> in_cooldown cb p q now"
      "\<forall>r \<in> set pre. in_cooldown cb p r now" by auto
    with True show ?thesis by (intro exI [of _ "r # pre"] exI [of _ post]) simp
  next
    case False
    with Cons.prems show ?thesis by (intro exI [of _ "[]"] exI [of _ ps]) simp
  qed
qed simp

lemma first_available_least:
  assumes "first_available cb p now (sort_key f ps) = Some q"
  shows "q \<in> set ps" and "\<not> in_cooldown cb p q now"
    and "r \<in> set ps \<Longrightarrow> \<not> in_cooldown cb p r now \<Longrightarrow> f q \<le> f r"
proof -
  obtain pre post where s: "sort_key f ps = pre @ q # post" "\<not> in_cooldown cb p q now"
    "\<forall>r \<in> set pre. in_cooldown cb p r now"
    using first_available_Some [OF assms] by blast
  have set: "set ps = set (pre @ q # post)" by (metis s(1) set_sort)
  show "q \<in> set ps" using set by simp
  show "\<not> in_cooldown cb p q now" by (rule s(2))
  assume r: "r \<in> set ps" "\<not> in_cooldown cb p r now"
  then have "r = q \<or> r \<in> set post" using set s(3) by auto
  moreover have "sorted (map f (pre @ q # post))" by (metis s(1) sorted_sort_key)
  ultimately show "f q \<le> f r" by (auto simp: sorted_append)
qed

section \<open>Properties\<close>

text \<open>
  cooldowns never exceed the configured maximum of their kind, and with a multiplier of at
  least one they never get shorter as errors accumulate.
\<close>

theorem cooldown_escalates:
  assumes "1 \<le> backoff_multiplier c" and "1 \<le> billing_multiplier c" and "m \<le> n"
  shows "calculate_cooldown c m billing \<le> calculate_cooldown c n billing \<and>
    calculate_cooldown c n billing
      \<le> nanos (if billing then billing_max_cooldown_secs c else max_cooldown_secs c)"
  using calculate_cooldown_mono [of billing c m n] calculate_cooldown_cap [of c n billing] assms
  by (simp add: cooldown_cap_def split: if_splits)

text \<open>
  the timeline after a failure recorded at time \<open>t\<close>. As long as nothing else is recorded
  the provider is never plainly allowed: within the cooldown it is rejected until the probe
  interval has passed (and always when probes are off), later every request is a probe. In
  particular nothing limits the number of probes after the interval or after the cooldown.
\<close>

theorem failure_timeline:
  fixes cb :: provider_cooldown and p :: string and billing :: bool
  assumes "t \<le> now"
  defines "d \<equiv> calculate_cooldown (cb_config cb)
      (sat_inc (error_count (or_new cb p))) billing"
  shows "cb_check (record_failure cb p billing t) p now =
    (if now < t + d \<and> (probe_enabled (cb_config cb) \<longrightarrow> now < t + nanos (probe_interval_secs (cb_config cb)))
     then Reject ((if billing then ''billing cooldown ('' else ''error cooldown ('')
             @ nat_str (sat_inc (error_count (or_new cb p))) @ '' errors)'') (as_secs (t + d - now))
     else AllowProbe)"
proof -
  have m: "error_count (manage_window c t st) = error_count st" for c st
    by (simp add: manage_window_def split: option.split)
  have e: "elapsed now t < x \<longleftrightarrow> now < t + x" "x \<le> elapsed now t \<longleftrightarrow> t + x \<le> now" for x
    using assms(1) by (auto simp: elapsed_def)
  have r: "d - elapsed now t = t + d - now" using assms(1) by (simp add: elapsed_def)
  show ?thesis
    unfolding cb_check_def record_failure_def Let_def
    by (simp add: m d_def [symmetric] e r not_le)
qed

text \<open>
  in every reachable state the verdict of \<open>check\<close> and the reported state agree: plain
  admission exactly when the circuit is closed, a probe whenever it is half open, and a rejection
  only when it is open; and the reported remaining time of a rejection is within the maximum.
\<close>

theorem check_agrees_with_state:
  "let cb = foldl breaker_step (new_cooldown c) ops in
     (cb_check cb p now = AllowRequest \<longleftrightarrow> get_state cb p now = Closed) \<and>
     (get_state cb p now = HalfOpen \<longrightarrow> cb_check cb p now = AllowProbe) \<and>
     (\<forall>reason secs. cb_check cb p now = Reject reason secs \<longrightarrow>
        get_state cb p now = Open \<and> secs \<le> max (max_cooldown_secs c) (billing_max_cooldown_secs c))"
proof -
  define cb where "cb = foldl breaker_step (new_cooldown c) ops"
  have ok: "breaker_ok c cb" unfolding cb_def by (rule reachable_ok)
  have cap: "as_secs (cooldown_duration st - e) \<le> max (max_cooldown_secs c) (billing_max_cooldown_secs c)"
    if "map_of (states cb) p = Some st" for st e
  proof -
    have "cooldown_duration st - e \<le> nanos (max (max_cooldown_secs c) (billing_max_cooldown_secs c))"
      using breaker_okD [OF ok that] by (auto simp: provider_ok_def cooldown_cap_def nanos_def split: if_splits)
    then have "as_secs (cooldown_duration st - e)
        \<le> as_secs (nanos (max (max_cooldown_secs c) (billing_max_cooldown_secs c)))"
      unfolding as_secs_def by (rule div_le_mono)
    then show ?thesis by (simp add: as_secs_def nanos_def)
  qed
  have "(cb_check cb p now = AllowRequest \<longleftrightarrow> get_state cb p now = Closed) \<and>
     (get_state cb p now = HalfOpen \<longrightarrow> cb_check cb p now = AllowProbe) \<and>
     (\<forall>reason secs. cb_check cb p now = Reject reason secs \<longrightarrow>
        get_state cb p now = Open \<and> secs \<le> max (max_cooldown_secs c) (billing_max_cooldown_secs c))"
  proof (cases "map_of (states cb) p")
    case None
    then show ?thesis by (simp add: cb_check_def get_state_def)
  next
    case (Some st)
    show ?thesis using breaker_okD [OF ok Some] cap [OF Some]
      by (auto simp: cb_check_def get_state_def Some circuit_of_def provider_ok_def Let_def
          split: option.split)
  qed
  then show ?thesis unfolding cb_def Let_def .
qed

text \<open>
  the periodic cleanup removes nothing: in every reachable state the condition of
  \<open>clear_expired\<close>, an expired cooldown with no errors counted, is false for every provider.
\<close>

theorem clear_expired_inert:
  "clear_expired (foldl breaker_step (new_cooldown c) ops) now = foldl breaker_step (new_cooldown c) ops"
proof -
  define cb where "cb = foldl breaker_step (new_cooldown c) ops"
  have ok: "breaker_ok c cb" unfolding cb_def by (rule reachable_ok)
  have "\<not> expired now st" if "(k, st) \<in> set (states cb)" for k st
  proof -
    have "map_of (states cb) k = Some st" using that ok by (simp add: breaker_ok_def)
    from breaker_okD [OF ok this] show ?thesis by (auto simp: expired_def provider_ok_def split: option.splits)
  qed
  then have "filter (\<lambda>(k, st). expired now st) (states cb) = []" by (auto simp: filter_empty_conv)
  then show ?thesis unfolding cb_def [symmetric] by (simp add: clear_expired_def)
qed

text \<open>
  profile selection returns a profile exactly when one is configured; when some profile is
  not in cooldown it returns one that is not, with the smallest priority among those, and
  otherwise the first configured one.
\<close>

theorem select_profile_best:
  "case select_profile cb provider ps now of
     None \<Rightarrow> ps = []
   | Some r \<Rightarrow> \<exists>q \<in> set ps. r = (profile_name q, api_key_env q) \<and>
       (if \<forall>s \<in> set ps. in_cooldown cb provider s now then q = hd ps
        else \<not> in_cooldown cb provider q now \<and>
          (\<forall>s \<in> set ps. \<not> in_cooldown cb provider s now \<longrightarrow> priority q \<le> priority s))"
proof (cases ps)
  case Nil
  then show ?thesis by (simp add: select_profile_def)
next
  case (Cons p qs)
  show ?thesis
  proof (cases "first_available cb provider now (sort_key priority ps)")
    case None
    then have "\<forall>s \<in> set ps. in_cooldown cb provider s now" by (simp add: first_available_None)
    then show ?thesis using None Cons by (simp add: select_profile_def)
  next
    case (Some q)
    note least = first_available_least [OF Some]
    have "select_profile cb provider ps now = Some (profile_name q, api_key_env q)"
      using Some Cons by (simp add: select_profile_def)
    then show ?thesis using least by (auto intro!: bexI [of _ q])
  qed
qed

section \<open>Witnesses\<close>

theorem cooldown_escalates_witness:
  "calculate_cooldown default_cooldown_config 1 False \<le> calculate_cooldown default_cooldown_config 4 False \<and>
   calculate_cooldown default_cooldown_config 4 False \<le> nanos 3600"
  using cooldown_escalates [of default_cooldown_config 1 4 False] by (simp add: default_cooldown_config_def)

lemma nat_str_one: "nat_str (Suc 0) = ''1''"
  by code_simp

theorem failure_timeline_witness:
  "cb_check (record_failure shared_breaker ''x'' False 5) ''x'' 5
     = Reject ''error cooldown (1 errors)'' 60"
  using failure_timeline [of 5 5 shared_breaker "''x''" False]
  by (simp add: shared_breaker_def new_cooldown_def default_cooldown_config_def or_new_def
      new_provider_state_def calculate_cooldown_def sat_inc_def as_u64_def nanos_def as_secs_def nat_str_one)

theorem check_agrees_with_state_witness:
  "get_state (foldl breaker_step (new_cooldown default_cooldown_config) []) ''x'' 7 = Closed"
  using check_agrees_with_state [of default_cooldown_config "[]" "''x''" 7]
  by (simp add: new_cooldown_def cb_check_def Let_def)

definition test_profile :: auth_profile where
  "test_profile = \<lparr>profile_name = ''main'', api_key_env = ''KEY'', priority = 1\<rparr>"

theorem select_profile_best_witness:
  "\<exists>r. select_profile shared_breaker ''x'' [test_profile] 0 = Some r \<and> fst r = ''main''"
proof (cases "select_profile shared_breaker ''x'' [test_profile] 0")
  case None
  with select_profile_best [where cb = shared_breaker and provider = "''x''" and ps = "[test_profile]" and now = 0] show ?thesis by simp
next
  case (Some r)
  with select_profile_best [where cb = shared_breaker and provider = "''x''" and ps = "[test_profile]" and now = 0] show ?thesis
    by (auto simp: test_profile_def)
qed

end
