(* ===== verification/Audit_Log.thy ===== *)
theory Audit_Log
  imports Hash_Encoding
begin

text \<open>
  The audit log, \<open>crates/rusty-hand-runtime/src/audit.rs\<close>: a hash chain of entries, kept in memory
  and appended to a JSONL file. SHA-256 in hex, the JSON text of an entry, its parser and the
  UTF-8 check of a line come from crates or the platform and are the fields of an \<open>audit_env\<close>.
  The file is its bytes; the sink is the bytes its \<open>BufWriter\<close> (of 8 KiB) still holds, and every
  time the writer turns to the file it is told how many bytes the file accepts. Locks make each operation atomic; \<open>entries.len()\<close> stays below
  2^64. I/O errors of \<open>open\<close> itself are returned to the caller and not modelled.
\<close>

section \<open>Definitions\<close>

datatype audit_action =
  ToolInvoke | CapabilityCheck | AgentSpawn | AgentKill | AgentMessage | MemoryAccess | FileAccess
| NetworkAccess | ShellExec | AuthAttempt | WireConnect | ConfigChange

fun action_str :: "audit_action \<Rightarrow> string" where
  "action_str ToolInvoke = ''ToolInvoke''"
| "action_str CapabilityCheck = ''CapabilityCheck''"
| "action_str AgentSpawn = ''AgentSpawn''"
| "action_str AgentKill = ''AgentKill''"
| "action_str AgentMessage = ''AgentMessage''"
| "action_str MemoryAccess = ''MemoryAccess''"
| "action_str FileAccess = ''FileAccess''"
| "action_str NetworkAccess = ''NetworkAccess''"
| "action_str ShellExec = ''ShellExec''"
| "action_str AuthAttempt = ''AuthAttempt''"
| "action_str WireConnect = ''WireConnect''"
| "action_str ConfigChange = ''ConfigChange''"

record audit_entry =
  seq :: nat
  timestamp :: string
  agent_id :: string
  action :: audit_action
  detail :: string
  outcome :: string
  prev_hash :: string
  hash :: string

record audit_env =
  digest :: "string \<Rightarrow> string"
  entry_json :: "audit_entry \<Rightarrow> string"
  parse_entry :: "string \<Rightarrow> audit_entry option"
  valid_utf8 :: "string \<Rightarrow> bool"

definition entry_preimage :: "nat \<Rightarrow> string \<Rightarrow> string \<Rightarrow> audit_action \<Rightarrow> string \<Rightarrow> string \<Rightarrow> string \<Rightarrow> string" where
  "entry_preimage s ts agent act det out prev =
     [CHR 0x01] @ le_bytes s @ write_lp ts @ write_lp agent @ write_lp (action_str act) @
     write_lp det @ write_lp out @ write_lp prev"

definition compute_entry_hash ::
  "audit_env \<Rightarrow> nat \<Rightarrow> string \<Rightarrow> string \<Rightarrow> audit_action \<Rightarrow> string \<Rightarrow> string \<Rightarrow> string \<Rightarrow> string"
where
  "compute_entry_hash e s ts agent act det out prev =
     digest e (entry_preimage s ts agent act det out prev)"

definition recompute :: "audit_env \<Rightarrow> audit_entry \<Rightarrow> string" where
  "recompute e en = compute_entry_hash e (seq en) (timestamp en) (agent_id en) (action en)
     (detail en) (outcome en) (prev_hash en)"

definition genesis :: string where "genesis = replicate 64 (CHR ''0'')"

record audit_log =
  entries :: "audit_entry list"
  tip :: string
  sink :: "string option"

definition new_log :: audit_log where
  "new_log = \<lparr>entries = [], tip = genesis, sink = None\<rparr>"

text \<open>The replay loop of \<open>open\<close>: unreadable, blank and unparsable lines are skipped, a chain break
  or a wrong hash ends it.\<close>

definition read_entry :: "audit_env \<Rightarrow> string \<Rightarrow> audit_entry option" where
  "read_entry e line =
     (if \<not> valid_utf8 e line \<or> trim line = [] then None else parse_entry e line)"

fun replay :: "audit_env \<Rightarrow> string list \<Rightarrow> audit_entry list \<Rightarrow> string \<Rightarrow> audit_entry list \<times> string" where
  "replay e [] es tp = (es, tp)"
| "replay e (line # lines) es tp =
     (case read_entry e line of
        None \<Rightarrow> replay e lines es tp
      | Some en \<Rightarrow>
          if prev_hash en \<noteq> tp then (es, tp)
          else if recompute e en \<noteq> hash en then (es, tp)
          else replay e lines (es @ [en]) (hash en))"

definition open_log :: "audit_env \<Rightarrow> string option \<Rightarrow> audit_log \<times> string" where
  "open_log e file =
     (let (es, tp) = (case file of Some bytes \<Rightarrow> replay e (str_lines bytes) [] genesis
                                 | None \<Rightarrow> ([], genesis))
      in (\<lparr>entries = es, tip = tp, sink = Some []\<rparr>, case file of Some bytes \<Rightarrow> bytes | None \<Rightarrow> []))"

text \<open>
  The \<open>BufWriter\<close> of the standard library. Its \<open>write_all\<close> appends what is shorter than the room
  that is left; otherwise it first flushes what does not fit beside the old bytes, gives up when
  that fails, and sends what fills a whole buffer straight to the file. \<open>n\<close> and \<open>m\<close> are the bytes
  the file accepts in the flush and in the direct write. The result says whether it succeeded.
\<close>

definition sink_capacity :: nat where "sink_capacity = 8192"

definition buf_flush :: "nat \<Rightarrow> string \<Rightarrow> string \<Rightarrow> bool \<times> string \<times> string" where
  "buf_flush n buf file = (length buf \<le> n, drop n buf, file @ take n buf)"

definition buf_write :: "nat \<Rightarrow> nat \<Rightarrow> string \<Rightarrow> string \<Rightarrow> string \<Rightarrow> bool \<times> string \<times> string" where
  "buf_write n m s buf file =
     (if length s < sink_capacity - length buf then (True, buf @ s, file)
      else
        (case (if sink_capacity - length buf < length s then buf_flush n buf file else (True, buf, file)) of
           (False, buf, file) \<Rightarrow> (False, buf, file)
         | (True, buf, file) \<Rightarrow>
             if sink_capacity \<le> length s then (length s \<le> m, buf, file @ take m s)
             else (True, buf @ s, file)))"

text \<open>\<open>writeln!\<close> writes the line and then the line break; the break is not tried after an error.\<close>

definition write_line :: "audit_env \<Rightarrow> audit_entry \<Rightarrow> (nat \<Rightarrow> nat) \<Rightarrow> string \<Rightarrow> string \<Rightarrow> bool \<times> string \<times> string" where
  "write_line e en accepted buf file =
     (case buf_write (accepted 0) (accepted 1) (entry_json e en) buf file of
        (False, buf, file) \<Rightarrow> (False, buf, file)
      | (True, buf, file) \<Rightarrow> buf_write (accepted 2) 0 [CHR 0x0A] buf file)"

text \<open>A line that was written is flushed; the errors of either are only logged.\<close>

definition persist :: "audit_env \<Rightarrow> audit_entry \<Rightarrow> (nat \<Rightarrow> nat) \<Rightarrow> string option \<Rightarrow> string \<Rightarrow> string option \<times> string" where
  "persist e en accepted sk file =
     (case sk of
        None \<Rightarrow> (None, file)
      | Some buf \<Rightarrow>
          (case write_line e en accepted buf file of
             (False, buf, file) \<Rightarrow> (Some buf, file)
           | (True, buf, file) \<Rightarrow>
               let (ok, buf, file) = buf_flush (accepted 3) buf file in (Some buf, file)))"

definition record_entry ::
  "audit_env \<Rightarrow> audit_log \<times> string \<Rightarrow> string \<Rightarrow> string \<Rightarrow> audit_action \<Rightarrow> string \<Rightarrow> string \<Rightarrow> (nat \<Rightarrow> nat)
     \<Rightarrow> (audit_log \<times> string) \<times> string"
where
  "record_entry e lf ts agent act det out accepted =
     (let (l, file) = lf;
          s = length (entries l);
          prev = tip l;
          h = compute_entry_hash e s ts agent act det out prev;
          en = \<lparr>seq = s, timestamp = ts, agent_id = agent, action = act, detail = det,
                outcome = out, prev_hash = prev, hash = h\<rparr>;
          (sk, file) = persist e en accepted (sink l) file
      in ((\<lparr>entries = entries l @ [en], tip = h, sink = sk\<rparr>, file), h))"

fun verify_from :: "audit_env \<Rightarrow> string \<Rightarrow> audit_entry list \<Rightarrow> string + unit" where
  "verify_from e expected [] = Inr ()"
| "verify_from e expected (en # es) =
     (if prev_hash en \<noteq> expected
      then Inl (''chain break at seq '' @ nat_str (seq en) @ '': expected prev_hash '' @ expected @
                '' but found '' @ prev_hash en)
      else if recompute e en \<noteq> hash en
      then Inl (''hash mismatch at seq '' @ nat_str (seq en) @ '': expected '' @ recompute e en @
                '' but found '' @ hash en)
      else verify_from e (hash en) es)"

definition verify_integrity :: "audit_env \<Rightarrow> audit_log \<Rightarrow> string + unit" where
  "verify_integrity e l = verify_from e genesis (entries l)"

definition tip_hash :: "audit_log \<Rightarrow> string" where "tip_hash l = tip l"

definition log_len :: "audit_log \<Rightarrow> nat" where "log_len l = length (entries l)"

definition log_is_empty :: "audit_log \<Rightarrow> bool" where "log_is_empty l \<longleftrightarrow> entries l = []"

definition recent :: "audit_log \<Rightarrow> nat \<Rightarrow> audit_entry list" where
  "recent l n = drop (length (entries l) - n) (entries l)"

definition since_seq :: "audit_log \<Rightarrow> nat \<Rightarrow> audit_entry list" where
  "since_seq l after = dropWhile (\<lambda>en. seq en \<le> after) (entries l)"

end
