(* ===== verification/Audit_Theorems.thy ===== *)
theory Audit_Theorems
  imports Audit_Log
begin

text \<open>
  What the audit log guarantees: every log the code can build verifies, a flushed log is read
  back from its file, two verifying logs with the same tip are equal unless their own entries
  exhibit a collision of the hash function, and tailing by sequence number leaves no gap.
\<close>

section \<open>Chains\<close>

definition chain_tip :: "string \<Rightarrow> audit_entry list \<Rightarrow> string" where
  "chain_tip start es = (if es = [] then start else hash (last es))"

lemma chain_tip_simps [simp]:
  "chain_tip start [] = start" "chain_tip start (en # es) = chain_tip (hash en) es"
  "chain_tip start (es @ [en]) = hash en"
  by (simp_all add: chain_tip_def)

lemma verify_from_append:
  "verify_from e x es = Inr () \<Longrightarrow> verify_from e x (es @ fs) = verify_from e (chain_tip x es) fs"
  by (induction es arbitrary: x) (auto split: if_splits)

lemma verify_from_Cons_Inr:
  "verify_from e x (en # es) = Inr () \<longleftrightarrow>
     prev_hash en = x \<and> recompute e en = hash en \<and> verify_from e (hash en) es = Inr ()"
  by auto

definition chain_ok :: "audit_env \<Rightarrow> audit_log \<Rightarrow> bool" where
  "chain_ok e l \<longleftrightarrow> verify_integrity e l = Inr () \<and> tip l = chain_tip genesis (entries l)"

lemma replay_chain:
  "verify_from e genesis es = Inr () \<Longrightarrow> tp = chain_tip genesis es \<Longrightarrow> replay e lines es tp = (fs, t) \<Longrightarrow>
   verify_from e genesis fs = Inr () \<and> t = chain_tip genesis fs"
proof (induction lines arbitrary: es tp)
  case (Cons line lines)
  show ?case
  proof (cases "read_entry e line")
    case None
    then have "replay e (line # lines) es tp = replay e lines es tp" by simp
    with Cons show ?thesis by metis
  next
    case (Some en)
    show ?thesis
    proof (cases "prev_hash en = tp \<and> recompute e en = hash en")
      case True
      then have r: "replay e (line # lines) es tp = replay e lines (es @ [en]) (hash en)" using Some by simp
      have "verify_from e genesis (es @ [en]) = Inr ()"
        using True Cons.prems(1,2) by (simp add: verify_from_append)
      then show ?thesis by (rule Cons.IH) (use r Cons.prems(3) in simp_all)
    next
      case False
      with Some have "replay e (line # lines) es tp = (es, tp)" by simp
      with Cons.prems show ?thesis by simp
    qed
  qed
qed simp

lemma open_chain_ok: "chain_ok e (fst (open_log e f))"
proof (cases f)
  case None
  then show ?thesis by (simp add: open_log_def chain_ok_def verify_integrity_def)
next
  case (Some bytes)
  obtain es tp where r: "replay e (str_lines bytes) [] genesis = (es, tp)" by fastforce
  from replay_chain [OF _ _ r] show ?thesis
    by (simp add: Some open_log_def r chain_ok_def verify_integrity_def)
qed

lemma new_chain_ok: "chain_ok e new_log"
  by (simp add: new_log_def chain_ok_def verify_integrity_def)

text \<open>A run of the log: the arguments of the successive calls of \<open>record\<close>.\<close>

type_synonym record_args = "string \<times> string \<times> audit_action \<times> string \<times> string \<times> (nat \<Rightarrow> nat)"

fun record_step :: "audit_env \<Rightarrow> audit_log \<times> string \<Rightarrow> record_args \<Rightarrow> audit_log \<times> string" where
  "record_step e lf (ts, agent, act, det, out, accepted) =
     fst (record_entry e lf ts agent act det out accepted)"

lemma record_entries:
  "record_step e lf a = lf' \<Longrightarrow>
   \<exists>en. entries (fst lf') = entries (fst lf) @ [en] \<and> seq en = length (entries (fst lf)) \<and>
     prev_hash en = tip (fst lf) \<and> recompute e en = hash en \<and> tip (fst lf') = hash en \<and>
     (sink (fst lf'), snd lf') = persist e en (snd (snd (snd (snd (snd a))))) (sink (fst lf)) (snd lf)"
  by (cases a; cases lf)
    (auto simp: record_entry_def Let_def recompute_def split: prod.split)

lemma record_chain_ok:
  assumes "chain_ok e (fst lf)"
  shows "chain_ok e (fst (record_step e lf a))"
proof -
  obtain en where "entries (fst (record_step e lf a)) = entries (fst lf) @ [en]"
    "prev_hash en = tip (fst lf)" "recompute e en = hash en" "tip (fst (record_step e lf a)) = hash en"
    using record_entries [of e lf a, OF refl] by blast
  with assms show ?thesis by (simp add: chain_ok_def verify_integrity_def verify_from_append)
qed

interpretation chain: invariant_machine "record_step e" "\<lambda>lf. chain_ok e (fst lf)"
  by unfold_locales (rule record_chain_ok)

lemma run_entries_length:
  "length (entries (fst (foldl (record_step e) lf ops))) = length (entries (fst lf)) + length ops"
proof (induction ops arbitrary: lf)
  case (Cons a ops)
  have "length (entries (fst (record_step e lf a))) = Suc (length (entries (fst lf)))"
    using record_entries [of e lf a, OF refl] by auto
  with Cons show ?case by simp
qed simp

text \<open>The sequence numbers of a log that started empty are its indices.\<close>

definition seqs_ok :: "audit_log \<Rightarrow> bool" where
  "seqs_ok l \<longleftrightarrow> map seq (entries l) = [0..<length (entries l)]"

lemma record_seqs_ok: "seqs_ok (fst lf) \<Longrightarrow> seqs_ok (fst (record_step e lf a))"
  using record_entries [of e lf a, OF refl] by (auto simp: seqs_ok_def)

interpretation seqs: invariant_machine "record_step e" "\<lambda>lf. seqs_ok (fst lf)"
  by unfold_locales (rule record_seqs_ok)

section \<open>The file\<close>

text \<open>What the file of a flushed log holds: one line for each entry.\<close>

definition jsonl :: "audit_env \<Rightarrow> audit_entry list \<Rightarrow> string" where
  "jsonl e es = concat (map (\<lambda>en. entry_json e en @ [CHR 0x0A]) es)"

text \<open>What is relied on for \<open>serde_json\<close>: an entry is printed on one line that parses back.\<close>

definition json_line_ok :: "audit_env \<Rightarrow> audit_entry \<Rightarrow> bool" where
  "json_line_ok e en \<longleftrightarrow>
     parse_entry e (entry_json e en) = Some en \<and> CHR 0x0A \<notin> set (entry_json e en) \<and>
     valid_utf8 e (entry_json e en) \<and> trim (entry_json e en) \<noteq> [] \<and>
     \<not> ends_with (entry_json e en) [CHR 0x0D]"

definition persisted :: "audit_env \<Rightarrow> audit_log \<times> string \<Rightarrow> bool" where
  "persisted e lf \<longleftrightarrow> (case sink (fst lf) of None \<Rightarrow> False | Some buf \<Rightarrow> snd lf @ buf = jsonl e (entries (fst lf)))"

text \<open>Whether the writer took the whole line of every record, into its buffer or into the file.\<close>

fun lines_taken :: "audit_env \<Rightarrow> audit_log \<times> string \<Rightarrow> record_args list \<Rightarrow> bool" where
  "lines_taken e lf [] = True"
| "lines_taken e lf (a # ops) =
     ((case sink (fst lf) of
         None \<Rightarrow> True
       | Some buf \<Rightarrow> fst (write_line e (last (entries (fst (record_step e lf a)))) (snd (snd (snd (snd (snd a))))) buf (snd lf)))
      \<and> lines_taken e (record_step e lf a) ops)"

lemma buf_flush_appends: "buf_flush n buf f = (ok, buf', f') \<Longrightarrow> f' @ buf' = f @ buf \<and> (\<exists>g. f' = f @ g)"
  by (auto simp: buf_flush_def)

lemma buf_write_appends:
  assumes "buf_write n m s buf f = (ok, buf', f')"
  shows "\<exists>g. f' = f @ g" and "ok \<Longrightarrow> f' @ buf' = f @ buf @ s"
proof -
  have empty: "b = []" if "8192 \<le> 8192 - length b" for b :: string
    using that by (cases b) simp_all
  have "(\<exists>g. f' = f @ g) \<and> (ok \<longrightarrow> f' @ buf' = f @ buf @ s)"
    using assms by (auto simp: buf_write_def buf_flush_def sink_capacity_def dest: empty split: if_splits bool.splits prod.splits)
  then show "\<exists>g. f' = f @ g" and "ok \<Longrightarrow> f' @ buf' = f @ buf @ s" by blast+
qed

lemma write_line_appends:
  assumes "write_line e en acc buf f = (ok, buf', f')"
  shows "\<exists>g. f' = f @ g" and "ok \<Longrightarrow> f' @ buf' = f @ buf @ entry_json e en @ [CHR 0x0A]"
proof -
  obtain ok1 b1 f1 where w: "buf_write (acc 0) (acc 1) (entry_json e en) buf f = (ok1, b1, f1)" by (metis surj_pair)
  note w1 = buf_write_appends [OF w]
  have "ok1 \<Longrightarrow> buf_write (acc 2) 0 [CHR 0x0A] b1 f1 = (ok, buf', f')"
    and no: "\<not> ok1 \<Longrightarrow> \<not> ok \<and> f' = f1" using assms by (auto simp: write_line_def w simp del: One_nat_def)
  note w2 = buf_write_appends [OF this(1)]
  show "\<exists>g. f' = f @ g" using w1(1) w2(1) no by (cases ok1) auto
  show "f' @ buf' = f @ buf @ entry_json e en @ [CHR 0x0A]" if ok
  proof -
    have ok1 using no that by blast
    then show ?thesis using w1(2) w2(2) that by simp
  qed
qed

lemma persist_appends:
  "\<exists>buf' g. persist e en acc (Some buf) f = (Some buf', f @ g) \<and>
     (fst (write_line e en acc buf f) \<longrightarrow> f @ g @ buf' = f @ buf @ entry_json e en @ [CHR 0x0A])"
proof -
  obtain ok b1 f1 where w: "write_line e en acc buf f = (ok, b1, f1)" by (metis surj_pair)
  obtain g where g: "f1 = f @ g" using write_line_appends(1) [OF w] by blast
  show ?thesis
  proof (cases ok)
    case True
    then have "f1 @ b1 = f @ buf @ entry_json e en @ [CHR 0x0A]" using write_line_appends(2) [OF w] by blast
    then show ?thesis using True g by (simp add: persist_def w buf_flush_def)
  qed (use w g in \<open>simp add: persist_def\<close>)
qed

text \<open>A line is taken whole when it fits beside what the writer holds, however the file fares.\<close>

lemma short_line_taken:
  "length buf + length (entry_json e en) + 1 < sink_capacity \<Longrightarrow> fst (write_line e en acc buf f)"
  by (simp add: write_line_def buf_write_def less_diff_conv)

lemma record_persisted:
  assumes "persisted e lf" and "lines_taken e lf [a]"
  shows "persisted e (record_step e lf a)"
proof -
  obtain en where en: "entries (fst (record_step e lf a)) = entries (fst lf) @ [en]"
    "(sink (fst (record_step e lf a)), snd (record_step e lf a))
       = persist e en (snd (snd (snd (snd (snd a))))) (sink (fst lf)) (snd lf)"
    using record_entries [of e lf a, OF refl] by blast
  from assms(1) obtain buf where buf: "sink (fst lf) = Some buf" "snd lf @ buf = jsonl e (entries (fst lf))"
    by (auto simp: persisted_def split: option.splits)
  obtain buf' g where g: "persist e en (snd (snd (snd (snd (snd a))))) (Some buf) (snd lf) = (Some buf', snd lf @ g)"
    and "fst (write_line e en (snd (snd (snd (snd (snd a))))) buf (snd lf)) \<longrightarrow>
      snd lf @ g @ buf' = snd lf @ buf @ entry_json e en @ [CHR 0x0A]"
    using persist_appends by blast
  then have "snd lf @ g @ buf' = snd lf @ buf @ entry_json e en @ [CHR 0x0A]"
    using assms(2) by (simp add: en(1) buf(1))
  then have "snd lf @ g @ buf' = (snd lf @ buf) @ entry_json e en @ [CHR 0x0A]" by simp
  then show ?thesis using en g buf by (simp add: persisted_def jsonl_def)
qed

lemma run_persisted: "persisted e lf \<Longrightarrow> lines_taken e lf ops \<Longrightarrow> persisted e (foldl (record_step e) lf ops)"
proof (induction ops arbitrary: lf)
  case (Cons a ops)
  have "persisted e (record_step e lf a)" by (rule record_persisted [OF Cons.prems(1)]) (use Cons.prems(2) in simp)
  with Cons show ?case by simp
qed simp

lemma str_lines_append:
  "CHR 0x0A \<notin> set l \<Longrightarrow> str_lines (l @ CHR 0x0A # s) = strip_cr l # str_lines s"
  by (simp add: str_lines_def split_on_append Let_def)

lemma str_lines_jsonl:
  "(\<And>en. en \<in> set es \<Longrightarrow> json_line_ok e en) \<Longrightarrow> str_lines (jsonl e es) = map (entry_json e) es"
proof (induction es)
  case Nil
  show ?case by (simp add: jsonl_def str_lines_def)
next
  case (Cons en es)
  have "json_line_ok e en" using Cons.prems by simp
  then have "CHR 0x0A \<notin> set (entry_json e en)" "strip_cr (entry_json e en) = entry_json e en"
    by (auto simp: json_line_ok_def strip_cr_def)
  moreover have "jsonl e (en # es) = entry_json e en @ CHR 0x0A # jsonl e es" by (simp add: jsonl_def)
  moreover have "str_lines (jsonl e es) = map (entry_json e) es" using Cons by simp
  ultimately show ?case by (simp add: str_lines_append)
qed

lemma replay_jsonl:
  "(\<And>en. en \<in> set fs \<Longrightarrow> json_line_ok e en) \<Longrightarrow> verify_from e tp fs = Inr () \<Longrightarrow>
   replay e (map (entry_json e) fs) es tp = (es @ fs, chain_tip tp fs)"
proof (induction fs arbitrary: es tp)
  case (Cons en fs)
  have "read_entry e (entry_json e en) = Some en"
    using Cons.prems(1) [of en] by (simp add: read_entry_def json_line_ok_def)
  with Cons show ?case by (simp only: verify_from_Cons_Inr) simp
qed simp

section \<open>Replay after a break\<close>

fun replay_breaks :: "audit_env \<Rightarrow> string list \<Rightarrow> string \<Rightarrow> bool" where
  "replay_breaks e [] tp = False"
| "replay_breaks e (line # lines) tp =
     (case read_entry e line of
        None \<Rightarrow> replay_breaks e lines tp
      | Some en \<Rightarrow> prev_hash en \<noteq> tp \<or> recompute e en \<noteq> hash en \<or> replay_breaks e lines (hash en))"

lemma replay_append_break:
  "replay_breaks e lines tp \<Longrightarrow> replay e (lines @ ls) es tp = replay e lines es tp"
  by (induction lines arbitrary: es tp) (auto split: option.splits)

lemma str_lines_full_append:
  "f = [] \<or> last f = CHR 0x0A \<Longrightarrow> str_lines (f @ g) = str_lines f @ str_lines g"
proof (induction "length f" arbitrary: f rule: less_induct)
  case less
  show ?case
  proof (cases "f = []")
    case True
    then show ?thesis by (simp add: str_lines_def)
  next
    case False
    with less.prems have "CHR 0x0A \<in> set f" by (metis last_in_set)
    then obtain l r where f: "f = l @ CHR 0x0A # r" "CHR 0x0A \<notin> set l" by (metis split_list_first)
    have "r = [] \<or> last r = CHR 0x0A" using less.prems f(1) by (auto split: if_splits)
    with less.hyps [of r] f(1) have "str_lines (r @ g) = str_lines r @ str_lines g" by simp
    with f show ?thesis by (simp add: str_lines_append)
  qed
qed

lemma record_file_grows: "\<exists>g. snd (foldl (record_step e) lf ops) = snd lf @ g"
proof (induction ops arbitrary: lf)
  case (Cons a ops)
  have "\<exists>g. snd (record_step e lf a) = snd lf @ g"
  proof (cases "sink (fst lf)")
    case None
    then show ?thesis using record_entries [of e lf a, OF refl] by (auto simp: persist_def)
  next
    case (Some buf)
    then obtain en where "(sink (fst (record_step e lf a)), snd (record_step e lf a))
        = persist e en (snd (snd (snd (snd (snd a))))) (Some buf) (snd lf)"
      using record_entries [of e lf a, OF refl] by auto
    then show ?thesis using persist_appends [of e en _ buf "snd lf"] by (metis prod.inject)
  qed
  with Cons [of "record_step e lf a"] show ?case by auto
qed simp

section \<open>Tampering\<close>

definition preimage :: "audit_entry \<Rightarrow> string" where
  "preimage en = entry_preimage (seq en) (timestamp en) (agent_id en) (action en) (detail en)
     (outcome en) (prev_hash en)"

definition entry_sized :: "audit_entry \<Rightarrow> bool" where
  "entry_sized en \<longleftrightarrow> seq en < 2 ^ 64 \<and> fits_u64 (timestamp en) \<and> fits_u64 (agent_id en) \<and>
     fits_u64 (detail en) \<and> fits_u64 (outcome en) \<and> fits_u64 (prev_hash en)"

lemma recompute_preimage: "recompute e en = digest e (preimage en)"
  by (simp add: recompute_def compute_entry_hash_def preimage_def)

lemma action_str_inj: "action_str a = action_str b \<Longrightarrow> a = b"
  by (cases a; cases b) simp_all

lemma fits_action: "fits_u64 (action_str a)"
  by (cases a) (simp_all add: fits_u64_def)

lemma lp_cases:
  assumes "write_lp a @ r = write_lp b @ s" and "fits_u64 a" and "fits_u64 b"
  obtains "a = b" and "r = s"
  using write_lp_inj [OF assms] by blast

lemma preimage_inj:
  assumes "preimage a = preimage b" and "hash a = hash b" and "entry_sized a" and "entry_sized b"
  shows "a = b"
proof -
  note sized = assms(3,4) [unfolded entry_sized_def]
  let ?r1 = "\<lambda>en. write_lp (agent_id en) @ write_lp (action_str (action en)) @
     write_lp (detail en) @ write_lp (outcome en) @ write_lp (prev_hash en)"
  have "le_bytes (seq a) = le_bytes (seq b)"
    and e0: "write_lp (timestamp a) @ ?r1 a = write_lp (timestamp b) @ ?r1 b"
    using assms(1) unfolding preimage_def entry_preimage_def by simp_all
  from this(1) have "seq a = seq b" by (rule le_bytes_inj) (use sized in blast)+
  moreover from e0 obtain "timestamp a = timestamp b" and e1: "?r1 a = ?r1 b"
    by (rule lp_cases) (use sized in blast)+
  moreover from e1 obtain "agent_id a = agent_id b"
    and e2: "write_lp (action_str (action a)) @ write_lp (detail a) @ write_lp (outcome a) @ write_lp (prev_hash a)
      = write_lp (action_str (action b)) @ write_lp (detail b) @ write_lp (outcome b) @ write_lp (prev_hash b)"
    by (rule lp_cases) (use sized in blast)+
  moreover from e2 obtain act: "action_str (action a) = action_str (action b)"
    and e3: "write_lp (detail a) @ write_lp (outcome a) @ write_lp (prev_hash a)
      = write_lp (detail b) @ write_lp (outcome b) @ write_lp (prev_hash b)"
    by (rule lp_cases) (rule fits_action)+
  moreover from e3 obtain "detail a = detail b"
    and e4: "write_lp (outcome a) @ write_lp (prev_hash a) = write_lp (outcome b) @ write_lp (prev_hash b)"
    by (rule lp_cases) (use sized in blast)+
  moreover from e4 obtain "outcome a = outcome b" and e5: "write_lp (prev_hash a) = write_lp (prev_hash b)"
    by (rule lp_cases) (use sized in blast)+
  moreover have "prev_hash a = prev_hash b"
    using write_lp_inj [of "prev_hash a" "[]" "prev_hash b" "[]"] e5 sized by simp
  ultimately show ?thesis using assms(2) action_str_inj [OF act] by simp
qed

text \<open>Walking two chains back from a common tip.\<close>

definition evidence :: "audit_env \<Rightarrow> audit_entry list \<Rightarrow> audit_entry list \<Rightarrow> bool" where
  "evidence e es fs \<longleftrightarrow>
     (\<exists>a \<in> set es. \<exists>b \<in> set fs. preimage a \<noteq> preimage b \<and> digest e (preimage a) = digest e (preimage b)) \<or>
     (\<exists>a \<in> set es \<union> set fs. digest e (preimage a) = genesis)"

lemma verify_snoc:
  "verify_from e x (es @ [en]) = Inr () \<Longrightarrow>
     verify_from e x es = Inr () \<and> prev_hash en = chain_tip x es \<and> recompute e en = hash en"
proof (induction es arbitrary: x)
  case Nil
  then show ?case by (simp only: append_Nil verify_from_Cons_Inr) simp
next
  case (Cons f es)
  then have "verify_from e (hash f) (es @ [en]) = Inr ()" and f: "prev_hash f = x \<and> recompute e f = hash f"
    by (simp_all only: append_Cons verify_from_Cons_Inr)
  from Cons.IH [OF this(1)] f show ?case by (simp only: verify_from_Cons_Inr chain_tip_simps)
qed

lemma same_tip_same_entries:
  assumes "verify_from e genesis es = Inr ()" and "verify_from e genesis fs = Inr ()"
    and "chain_tip genesis es = chain_tip genesis fs"
    and "\<forall>en \<in> set es \<union> set fs. entry_sized en"
  shows "es = fs \<or> evidence e es fs"
  using assms
proof (induction es arbitrary: fs rule: rev_induct)
  case Nil
  show ?case
  proof (cases fs rule: rev_cases)
    case (snoc gs g)
    with Nil have "digest e (preimage g) = genesis"
      using verify_snoc [of e genesis gs g] by (simp add: recompute_preimage)
    with snoc show ?thesis by (auto simp: evidence_def)
  qed simp
next
  case (snoc a es)
  note va = verify_snoc [OF snoc.prems(1)]
  show ?case
  proof (cases fs rule: rev_cases)
    case Nil
    with snoc.prems va have "digest e (preimage a) = genesis" by (simp add: recompute_preimage)
    then show ?thesis by (auto simp: evidence_def)
  next
    case (snoc gs g)
    have vg: "verify_from e genesis gs = Inr () \<and> prev_hash g = chain_tip genesis gs \<and> recompute e g = hash g"
      using snoc.prems(2) unfolding snoc by (rule verify_snoc)
    have h: "hash a = hash g" using snoc.prems(3) snoc by simp
    show ?thesis
    proof (cases "preimage a = preimage g")
      case False
      have "digest e (preimage a) = digest e (preimage g)" using va vg h by (simp add: recompute_preimage)
      with False snoc show ?thesis by (auto simp: evidence_def)
    next
      case True
      with h snoc.prems(4) snoc have "a = g" by (intro preimage_inj) auto
      with va vg snoc.IH [of gs] snoc.prems(4) snoc show ?thesis by (auto simp: evidence_def)
    qed
  qed
qed

section \<open>Properties\<close>

text \<open>
  C15: whatever bytes the file holds when the log is opened, the log verifies after opening and
  after every sequence of records, its tip is the hash of its last entry, and it holds one more
  entry for every record.
\<close>

theorem every_log_verifies:
  "let lf = foldl (record_step e) (open_log e bs) ops in
     verify_integrity e (fst lf) = Inr () \<and>
     tip_hash (fst lf) = (if entries (fst lf) = [] then genesis else hash (last (entries (fst lf)))) \<and>
     log_len (fst lf) = log_len (fst (open_log e bs)) + length ops"
  using chain.run_inv [of e "open_log e bs" ops] open_chain_ok [of e bs] run_entries_length [of e _ ops]
  by (simp add: chain_ok_def chain_tip_def tip_hash_def log_len_def Let_def)

text \<open>
  C20: restart. When the buffered writer took the whole line of every record of a log that
  started with no file, and all of it has reached the file by now (the writer holds nothing
  back), and the entries print to single lines that parse back, opening the file again gives the
  same entries and the same tip, and leaves the file as it is. (Writes to the file may fail in
  between; a line the writer could not take is lost, and nothing is said of such a log.)
\<close>

theorem reopen_restores_log:
  assumes "foldl (record_step e) (open_log e None) ops = (l, bs)" and "lines_taken e (open_log e None) ops"
    and "sink l = Some []" and "\<forall>en \<in> set (entries l). json_line_ok e en"
  shows "open_log e (Some bs) = (l, bs)"
proof -
  have "persisted e (open_log e None)" by (simp add: persisted_def open_log_def jsonl_def)
  then have "persisted e (l, bs)" using run_persisted [of e "open_log e None" ops] assms(1,2) by simp
  with assms(3) have bs: "bs = jsonl e (entries l)" by (simp add: persisted_def)
  have "chain_ok e (fst (l, bs))"
    using chain.run_inv [of e "open_log e None" ops] open_chain_ok [of e None] assms(1) by simp
  then have ok: "verify_from e genesis (entries l) = Inr ()" "tip l = chain_tip genesis (entries l)"
    by (simp_all add: chain_ok_def verify_integrity_def)
  have "replay e (str_lines bs) [] genesis = (entries l, tip l)"
    using replay_jsonl [OF _ ok(1), of "[]"] str_lines_jsonl assms(4) ok(2) by (simp add: bs)
  with assms(3) show ?thesis by (simp add: open_log_def)
qed

text \<open>
  C11: tampering is detected. Two logs of entries that fit the encoding, which both verify and
  have the same last hash, hold the same entries, unless two of their own entries are different
  inputs with the same digest or one of them hashes to the sentinel of the empty log.
\<close>

theorem tamper_evident:
  assumes "verify_integrity e l = Inr ()" and "verify_integrity e m = Inr ()"
    and "chain_tip genesis (entries l) = chain_tip genesis (entries m)"
    and "\<forall>en \<in> set (entries l) \<union> set (entries m). entry_sized en"
  shows "entries l = entries m \<or>
    (\<exists>a \<in> set (entries l). \<exists>b \<in> set (entries m).
       preimage a \<noteq> preimage b \<and> digest e (preimage a) = digest e (preimage b)) \<or>
    (\<exists>a \<in> set (entries l) \<union> set (entries m). digest e (preimage a) = genesis)"
  using same_tip_same_entries [of e "entries l" "entries m"] assms
  unfolding verify_integrity_def evidence_def by blast

text \<open>
  tailing leaves no gap. On a log that started empty \<open>since_seq\<close> returns exactly the
  entries with a greater sequence number, and these are all entries from that position on.
\<close>

theorem since_seq_complete:
  "let l = fst (foldl (record_step e) (new_log, bs) ops) in
     since_seq l after = filter (\<lambda>en. after < seq en) (entries l) \<and>
     since_seq l after = drop (after + 1) (entries l)"
proof -
  define l where "l = fst (foldl (record_step e) (new_log, bs) ops)"
  have "seqs_ok l" unfolding l_def by (rule seqs.run_inv) (simp add: seqs_ok_def new_log_def)
  then have nth: "seq (entries l ! i) = i" if "i < length (entries l)" for i
    using that by (metis nth_map nth_upt seqs_ok_def add_0 length_map)
  have split: "entries l = take (after + 1) (entries l) @ drop (after + 1) (entries l)" by simp
  have low: "seq en \<le> after" if "en \<in> set (take (after + 1) (entries l))" for en
    using that nth by (auto simp: in_set_conv_nth)
  have high: "after < seq en" if "en \<in> set (drop (after + 1) (entries l))" for en
    using that nth by (auto simp: in_set_conv_nth)
  have "since_seq l after = drop (after + 1) (entries l)"
    unfolding since_seq_def
    by (subst split, subst dropWhile_append2)
      (use low high in \<open>auto simp: dropWhile_eq_self_iff not_le dest: hd_in_set\<close>)
  moreover have "filter (\<lambda>en. after < seq en) (entries l) = drop (after + 1) (entries l)"
    by (subst split, subst filter_append)
      (use low high in \<open>auto simp: filter_empty_conv filter_id_conv dest: leD\<close>)
  ultimately show ?thesis unfolding l_def [symmetric] by (simp add: l_def)
qed

text \<open>
  a break in the file is never left behind: once opening a file stops at a broken entry,
  everything that is recorded afterwards is appended behind it and is not read back by the next
  start, although the running log verifies.
\<close>

theorem records_after_break_lost:
  assumes "replay_breaks e (str_lines bs) genesis" and "last bs = CHR 0x0A"
    and "foldl (record_step e) (open_log e (Some bs)) ops = (l, bs2)"
  shows "entries (fst (open_log e (Some bs2))) = entries (fst (open_log e (Some bs))) \<and>
    length (entries l) = length (entries (fst (open_log e (Some bs)))) + length ops"
proof -
  have f: "snd (open_log e (Some bs)) = bs" by (simp add: open_log_def case_prod_beta)
  obtain g where "bs2 = bs @ g"
    using record_file_grows [of e "open_log e (Some bs)" ops] assms(3) f by auto
  then have "str_lines bs2 = str_lines bs @ str_lines g"
    using str_lines_full_append [of bs g] assms(2) by simp
  with replay_append_break [OF assms(1)] show ?thesis
    using run_entries_length [of e "open_log e (Some bs)" ops] assms(3)
    by (simp add: open_log_def case_prod_beta)
qed

section \<open>Witnesses\<close>

definition first_entry :: audit_entry where
  "first_entry = \<lparr>seq = 0, timestamp = ''t'', agent_id = ''a'', action = ShellExec, detail = ''ls'',
     outcome = ''ok'', prev_hash = genesis, hash = ''h''\<rparr>"

definition bad_entry :: audit_entry where
  "bad_entry = first_entry\<lparr>prev_hash := ''x''\<rparr>"

text \<open>A stand-in for the crates: constant digests, and two one-line texts for two entries.\<close>

definition sample_env :: audit_env where
  "sample_env = \<lparr>digest = (\<lambda>_. ''h''), entry_json = (\<lambda>en. if prev_hash en = ''x'' then ''[]'' else ''{}''),
     parse_entry = (\<lambda>s. if s = ''{}'' then Some first_entry else if s = ''[]'' then Some bad_entry else None),
     valid_utf8 = (\<lambda>_. True)\<rparr>"

lemma genesis_not_x [simp]: "genesis \<noteq> ''x''" "''x'' \<noteq> genesis"
proof -
  have "length genesis \<noteq> length ''x''" by (simp add: genesis_def)
  then show "genesis \<noteq> ''x''" "''x'' \<noteq> genesis" by metis+
qed

lemma sample_run:
  "foldl (record_step sample_env) (open_log sample_env None) [(''t'', ''a'', ShellExec, ''ls'', ''ok'', \<lambda>k. 3)]
     = (\<lparr>entries = [first_entry], tip = ''h'', sink = Some []\<rparr>, [CHR ''{'', CHR ''}'', CHR 0x0A])"
  by (simp add: open_log_def record_entry_def persist_def write_line_def buf_write_def buf_flush_def sink_capacity_def Let_def sample_env_def first_entry_def
      compute_entry_hash_def)

theorem reopen_restores_log_witness:
  "open_log sample_env (Some [CHR ''{'', CHR ''}'', CHR 0x0A]) =
     (\<lparr>entries = [first_entry], tip = ''h'', sink = Some []\<rparr>, [CHR ''{'', CHR ''}'', CHR 0x0A])"
proof (rule reopen_restores_log [OF sample_run])
  have "trim ''{}'' \<noteq> []" by code_simp
  then have "json_line_ok sample_env first_entry"
    by (simp add: json_line_ok_def sample_env_def first_entry_def ends_with_def)
  then show "\<forall>en \<in> set (entries \<lparr>entries = [first_entry], tip = ''h'', sink = Some []\<rparr>). json_line_ok sample_env en"
    by simp
qed (simp_all add: open_log_def record_entry_def write_line_def buf_write_def sink_capacity_def sample_env_def Let_def
    split: prod.split)

definition sample_log :: audit_log where
  "sample_log = \<lparr>entries = [first_entry], tip = ''h'', sink = None\<rparr>"

theorem tamper_evident_witness:
  "entries sample_log = entries sample_log \<or>
    (\<exists>a \<in> set (entries sample_log). \<exists>b \<in> set (entries sample_log).
       preimage a \<noteq> preimage b \<and> digest sample_env (preimage a) = digest sample_env (preimage b)) \<or>
    (\<exists>a \<in> set (entries sample_log) \<union> set (entries sample_log). digest sample_env (preimage a) = genesis)"
proof (rule tamper_evident)
  show "verify_integrity sample_env sample_log = Inr ()"
    by (simp add: verify_integrity_def sample_log_def sample_env_def first_entry_def recompute_def
        compute_entry_hash_def)
  then show "verify_integrity sample_env sample_log = Inr ()" .
  show "\<forall>en \<in> set (entries sample_log) \<union> set (entries sample_log). entry_sized en"
    by (simp add: sample_log_def first_entry_def entry_sized_def fits_u64_def genesis_def)
qed (rule refl)

theorem records_after_break_lost_witness:
  "\<exists>l bs2. foldl (record_step sample_env) (open_log sample_env (Some [CHR ''['', CHR '']'', CHR 0x0A]))
       [(''t'', ''a'', ShellExec, ''ls'', ''ok'', \<lambda>k. 3)] = (l, bs2) \<and>
     entries (fst (open_log sample_env (Some bs2)))
       = entries (fst (open_log sample_env (Some [CHR ''['', CHR '']'', CHR 0x0A]))) \<and> length (entries l) \<ge> 1"
proof -
  let ?f = "[CHR ''['', CHR '']'', CHR 0x0A]" and ?ops = "[(''t'', ''a'', ShellExec, ''ls'', ''ok'', \<lambda>k :: nat. 3 :: nat)]"
  have lines: "str_lines ?f = [''[]'']" by (simp add: str_lines_def Let_def strip_cr_def ends_with_def)
  have t: "trim ''[]'' \<noteq> []" by code_simp
  have b: "replay_breaks sample_env (str_lines ?f) genesis"
    unfolding lines using t
    by (simp add: read_entry_def sample_env_def bad_entry_def first_entry_def)
  obtain l bs2 where r: "foldl (record_step sample_env) (open_log sample_env (Some ?f)) ?ops = (l, bs2)"
    by fastforce
  from records_after_break_lost [OF b _ r] r show ?thesis by auto
qed

end
