(* ===== verification/Glob.thy ===== *)
theory Glob
  imports Rh_Prelude
begin

text \<open>
  What a glob pattern means: \<open>*\<close> stands for any text, every other byte for itself. The reference
  matcher and the interface of a matcher that agrees with it on a class of patterns; the tool
  policy and the capabilities each have their own matcher in the code.
\<close>

abbreviation star :: char where "star \<equiv> CHR ''*''"

fun glob_ref :: "string \<Rightarrow> string \<Rightarrow> bool" where
  "glob_ref [] t \<longleftrightarrow> t = []"
| "glob_ref (c # p) [] \<longleftrightarrow> c = star \<and> glob_ref p []"
| "glob_ref (c # p) (x # t) \<longleftrightarrow>
     (if c = star then glob_ref p (x # t) \<or> glob_ref (c # p) t else x = c \<and> glob_ref p t)"

lemma glob_ref_star: "glob_ref (star # p) t \<longleftrightarrow> (\<exists>g u. t = g @ u \<and> glob_ref p u)"
proof (induction t)
  case (Cons x t)
  have "(\<exists>g u. x # t = g @ u \<and> glob_ref p u) \<longleftrightarrow> glob_ref p (x # t) \<or> (\<exists>g u. t = g @ u \<and> glob_ref p u)"
    by (auto simp: Cons_eq_append_conv)
  with Cons show ?case by simp
qed simp

lemma glob_ref_literal:
  "star \<notin> set q \<Longrightarrow> glob_ref (q @ p) t \<longleftrightarrow> (\<exists>u. t = q @ u \<and> glob_ref p u)"
proof (induction q arbitrary: t)
  case (Cons c q)
  then show ?case by (cases t) auto
qed simp

lemma glob_ref_exact: "star \<notin> set q \<Longrightarrow> glob_ref q t \<longleftrightarrow> t = q"
  using glob_ref_literal [of q "[]" t] by simp

lemma glob_ref_all: "glob_ref [star] t"
  by (simp add: glob_ref_star)

lemma glob_ref_refl: "glob_ref p p"
proof (induction p)
  case (Cons c p)
  then show ?case using glob_ref_star [of p "c # p"] by (cases "c = star") (auto intro: exI [of _ "[c]"])
qed simp

text \<open>A pattern that matches another pattern matches everything that one matches.\<close>

lemma glob_ref_skip: "glob_ref (star # p) u \<Longrightarrow> glob_ref (star # p) (g @ u)"
  unfolding glob_ref_star by (metis append.assoc)

lemma glob_ref_trans: "glob_ref p q \<Longrightarrow> glob_ref q t \<Longrightarrow> glob_ref p t"
proof (induction p q arbitrary: t rule: glob_ref.induct)
  case (2 c p)
  then show ?case by simp
next
  case (3 c p x q)
  show ?case
  proof (cases "c = star")
    case True
    with 3(4) consider (here) "glob_ref p (x # q)" | (later) "glob_ref (c # p) q" by auto
    then show ?thesis
    proof cases
      case here
      then have "glob_ref p t" using 3(1) True 3(5) by blast
      with True show ?thesis by (auto simp: glob_ref_star intro: exI [of _ "[]"])
    next
      case later
      obtain g u where "t = g @ u" "glob_ref q u"
      proof (cases "x = star")
        case True
        then show thesis using 3(5) that by (auto simp: glob_ref_star)
      next
        case False
        with 3(5) obtain u where "t = [x] @ u" "glob_ref q u" by (cases t) auto
        then show thesis by (rule that)
      qed
      moreover from this(2) have "glob_ref (c # p) u" using 3(2) True later by blast
      ultimately show ?thesis using True glob_ref_skip by simp
    qed
  next
    case False
    with 3(4) have x: "x = c" "glob_ref p q" by auto
    with False 3(5) obtain u where "t = c # u" "glob_ref q u" by (cases t) auto
    with False x 3(3) show ?thesis by simp
  qed
qed simp

section \<open>Matchers\<close>

locale glob_matcher =
  fixes matches :: "string \<Rightarrow> string \<Rightarrow> bool"
    and ok :: "string \<Rightarrow> bool"
  assumes matches_ref: "ok p \<Longrightarrow> matches p t \<longleftrightarrow> glob_ref p t"
begin

lemma matches_self: "ok p \<Longrightarrow> matches p p"
  by (simp add: matches_ref glob_ref_refl)

lemma matches_trans: "ok p \<Longrightarrow> ok q \<Longrightarrow> matches p q \<Longrightarrow> matches q t \<Longrightarrow> matches p t"
  by (simp add: matches_ref) (rule glob_ref_trans)

lemma matches_exact: "ok p \<Longrightarrow> star \<notin> set p \<Longrightarrow> matches p t \<longleftrightarrow> t = p"
  by (simp add: matches_ref glob_ref_exact)

lemma matches_prefix: "ok (q @ [star]) \<Longrightarrow> star \<notin> set q \<Longrightarrow> matches (q @ [star]) t \<longleftrightarrow> starts_with t q"
  by (auto simp: matches_ref glob_ref_literal glob_ref_all starts_with_iff)

end

end
