(* ===== verification/Tool_Policy.thy ===== *)
theory Tool_Policy
  imports Glob
begin

text \<open>
  Tool policy resolution, \<open>crates/rusty-hand-runtime/src/tool_policy.rs\<close>: the glob matcher, group
  expansion, the deny-wins resolution and the tool list of subagents by depth, with the
  theorems that the matcher implements glob patterns and what a resolution means.
\<close>

section \<open>Definitions\<close>

datatype policy_effect = AllowEffect | DenyEffect

record tool_policy_rule =
  pattern :: string
  effect :: policy_effect

record tool_group =
  group_name :: string
  group_tools :: "string list"

record tool_policy =
  agent_rules :: "tool_policy_rule list"
  global_rules :: "tool_policy_rule list"
  groups :: "tool_group list"
  subagent_max_depth :: nat
  subagent_max_concurrent :: nat

text \<open>The derived \<open>Default\<close>, which serde also uses for missing fields.\<close>

definition default_policy :: tool_policy where
  "default_policy = \<lparr>agent_rules = [], global_rules = [], groups = [], subagent_max_depth = 0,
     subagent_max_concurrent = 0\<rparr>"

definition policy_is_empty :: "tool_policy \<Rightarrow> bool" where
  "policy_is_empty p \<longleftrightarrow> agent_rules p = [] \<and> global_rules p = []"

datatype tool_access_result = Allowed | ToolDenied string string | DepthExceeded nat nat

text \<open>The loop of \<open>glob_match\<close> over the parts after the first, \<open>pos\<close> as in the code.\<close>

fun glob_rest :: "string \<Rightarrow> nat \<Rightarrow> string list \<Rightarrow> bool" where
  "glob_rest text pos [] = True"
| "glob_rest text pos [part] = (if part = [] then True else ends_with (drop pos text) part)"
| "glob_rest text pos (part # nxt # parts) =
     (if part = [] then glob_rest text pos (nxt # parts)
      else (case find_sub part (drop pos text) of
          Some found \<Rightarrow> glob_rest text (pos + found + length part) (nxt # parts)
        | None \<Rightarrow> False))"

definition glob_match :: "string \<Rightarrow> string \<Rightarrow> bool" where
  "glob_match pat text =
     (if pat = ''*'' then True
      else if star \<notin> set pat then pat = text
      else (let parts = split_on star pat in
        if length parts = 2
        then (let prefix = parts ! 0; suffix = parts ! 1
              in starts_with text prefix \<and> ends_with text suffix \<and>
                 length prefix + length suffix \<le> length text)
        else (let first = hd parts
              in if first = [] then glob_rest text 0 (tl parts)
                 else if \<not> starts_with text first then False
                 else glob_rest text (length first) (tl parts))))"

definition is_subagent_tool :: "string \<Rightarrow> bool" where
  "is_subagent_tool name \<longleftrightarrow> name = ''agent_spawn'' \<or> name = ''agent_call'' \<or> name = ''spawn_agent''"

definition expand_groups :: "string \<Rightarrow> tool_group list \<Rightarrow> string list" where
  "expand_groups tool gs =
     tool # concat (map (\<lambda>g. map (\<lambda>_. CHR ''@'' # group_name g)
       (filter (\<lambda>pat. glob_match pat tool) (group_tools g))) gs)"

definition matches_pattern :: "string \<Rightarrow> string \<Rightarrow> string list \<Rightarrow> bool" where
  "matches_pattern pat tool expanded =
     (if glob_match pat tool then True
      else if starts_with pat ''@'' then pat \<in> set expanded else False)"

fun first_deny :: "tool_policy_rule list \<Rightarrow> string \<Rightarrow> string list \<Rightarrow> string option" where
  "first_deny [] tool expanded = None"
| "first_deny (r # rs) tool expanded =
     (if effect r = DenyEffect \<and> matches_pattern (pattern r) tool expanded then Some (pattern r)
      else first_deny rs tool expanded)"

definition resolve_tool_access :: "string \<Rightarrow> tool_policy \<Rightarrow> nat \<Rightarrow> tool_access_result" where
  "resolve_tool_access tool policy depth =
     (if is_subagent_tool tool \<and> depth > subagent_max_depth policy
      then DepthExceeded depth (subagent_max_depth policy)
      else (let expanded = expand_groups tool (groups policy) in
        case first_deny (agent_rules policy) tool expanded of
          Some pat \<Rightarrow> ToolDenied pat ''agent''
        | None \<Rightarrow>
        (case first_deny (global_rules policy) tool expanded of
          Some pat \<Rightarrow> ToolDenied pat ''global''
        | None \<Rightarrow>
          (let has_allow_rules =
             list_ex (\<lambda>r. effect r = AllowEffect) (agent_rules policy) \<or>
             list_ex (\<lambda>r. effect r = AllowEffect) (global_rules policy)
           in if has_allow_rules
              then (let allows = list_ex (\<lambda>r. effect r = AllowEffect \<and> matches_pattern (pattern r) tool expanded)
                    in if allows (agent_rules policy) \<or> allows (global_rules policy) then Allowed
                       else ToolDenied ''(not in any allow list)'' ''implicit_deny'')
              else Allowed))))"

definition subagent_deny_always :: "string list" where
  "subagent_deny_always =
     [''cron_create'', ''cron_cancel'', ''schedule_create'', ''schedule_delete'', ''process_start'']"

definition subagent_deny_leaf :: "string list" where
  "subagent_deny_leaf = [''agent_spawn'', ''agent_kill'']"

definition filter_tools_by_depth :: "string list \<Rightarrow> nat \<Rightarrow> nat \<Rightarrow> string list" where
  "filter_tools_by_depth tools depth max_depth =
     (if depth = 0 then tools
      else (let is_leaf = max_depth > 0 \<and> depth \<ge> max_depth - 1
            in filter (\<lambda>n. if n \<in> set subagent_deny_always then False
                           else if is_leaf \<and> n \<in> set subagent_deny_leaf then False
                           else True) tools))"

section \<open>The matcher\<close>

text \<open>The parts of a pattern between its stars: the middle ones may float, the last one ends.\<close>

fun parts_sem :: "string list \<Rightarrow> string \<Rightarrow> bool" where
  "parts_sem [] u = False"
| "parts_sem [s] u = ends_with u s"
| "parts_sem (m # n # ms) u = (\<exists>g v. u = g @ m @ v \<and> parts_sem (n # ms) v)"

lemma parts_sem_mono: "parts_sem ms v \<Longrightarrow> parts_sem ms (w @ v)"
proof (induction ms v rule: parts_sem.induct)
  case (2 s u)
  then show ?case by (auto simp: ends_with_iff)
next
  case (3 m n ms u)
  then show ?case by (metis append.assoc parts_sem.simps(3))
qed simp

lemma glob_ref_parts:
  "star \<notin> set (concat ms) \<Longrightarrow> ms \<noteq> [] \<Longrightarrow> glob_ref (star # join [star] ms) u \<longleftrightarrow> parts_sem ms u"
proof (induction ms u rule: parts_sem.induct)
  case (2 s u)
  then show ?case by (auto simp: glob_ref_star glob_ref_exact ends_with_iff)
next
  case (3 m n ms u)
  have IH: "glob_ref (star # join [star] (n # ms)) v \<longleftrightarrow> parts_sem (n # ms) v" for v
    using 3 by simp
  have "glob_ref (star # join [star] (m # n # ms)) u \<longleftrightarrow>
      (\<exists>g w. u = g @ w \<and> glob_ref (m @ star # join [star] (n # ms)) w)"
    by (simp add: glob_ref_star)
  also have "\<dots> \<longleftrightarrow> (\<exists>g v. u = g @ m @ v \<and> parts_sem (n # ms) v)"
    using 3(2) by (auto simp: glob_ref_literal IH)
  finally show ?case by simp
qed simp

lemma glob_ref_split:
  assumes "star \<in> set pat"
  shows "glob_ref pat text \<longleftrightarrow>
    (\<exists>u. text = hd (split_on star pat) @ u \<and> parts_sem (tl (split_on star pat)) u)"
proof -
  obtain q ms where s: "split_on star pat = q # ms" by (cases "split_on star pat") simp_all
  have no: "star \<notin> set (concat (q # ms))" using split_on_parts [of _ star pat] s by auto
  have j: "join [star] (q # ms) = pat" using join_split_on [of star pat] s by simp
  have ms: "ms \<noteq> []" using j assms no by auto
  have pat: "pat = q @ star # join [star] ms" using j join_Cons [OF ms, of "[star]" q] by simp
  have "glob_ref pat text \<longleftrightarrow> (\<exists>u. text = q @ u \<and> glob_ref (star # join [star] ms) u)"
    unfolding pat using no by (intro glob_ref_literal) simp
  with glob_ref_parts [OF _ ms] no s show ?thesis by simp
qed

text \<open>The greedy loop finds a placement of the parts whenever there is one.\<close>

lemma greedy_step:
  assumes "parts_sem (n # ms) v" and "u = g @ m @ v"
  shows "\<exists>f. find_sub m u = Some f \<and> parts_sem (n # ms) (drop (f + length m) u)"
proof -
  obtain f where f: "find_sub m u = Some f"
    using find_sub_None [of m u] assms(2) by (cases "find_sub m u") auto
  have le: "f \<le> length g" using find_sub_append_least [of m g v f] f assms(2) by simp
  then have "drop (f + length m) u = drop (f + length m) (g @ m) @ v"
    using assms(2) by (simp del: append_assoc add: append_assoc [symmetric])
  with f parts_sem_mono [OF assms(1), of "drop (f + length m) (g @ m)"] show ?thesis by simp
qed

lemma found_split: "find_sub m u = Some f \<Longrightarrow> \<exists>g. u = g @ m @ drop (f + length m) u"
  using find_sub_Some [of m u f]
  by (metis append_take_drop_id drop_drop starts_with_def add.commute)

lemma glob_rest_sem:
  "ms \<noteq> [] \<Longrightarrow> glob_rest t pos ms \<longleftrightarrow> parts_sem ms (drop pos t)"
proof (induction t pos ms rule: glob_rest.induct)
  case (3 t pos m n ms)
  show ?case
  proof (cases "m = []")
    case True
    have "parts_sem (m # n # ms) (drop pos t) \<longleftrightarrow> parts_sem (n # ms) (drop pos t)"
      using True parts_sem_mono [of "n # ms"] by auto
    with 3 True show ?thesis by simp
  next
    case False
    show ?thesis
    proof (cases "find_sub m (drop pos t)")
      case None
      then have "\<not> parts_sem (m # n # ms) (drop pos t)"
        unfolding parts_sem.simps using greedy_step [of n ms _ "drop pos t" _ m] by (metis option.distinct(1))
      with None False show ?thesis by simp
    next
      case (Some f)
      have d: "drop (pos + f + length m) t = drop (f + length m) (drop pos t)" by (simp add: add_ac)
      have "parts_sem (m # n # ms) (drop pos t) \<longleftrightarrow> parts_sem (n # ms) (drop (f + length m) (drop pos t))"
        unfolding parts_sem.simps
        using greedy_step [of n ms _ "drop pos t" _ m] found_split [OF Some] Some by (metis option.inject)
      with 3(2) [OF False Some] Some False d show ?thesis by simp
    qed
  qed
qed simp_all

lemma glob_match_ref: "glob_match pat t \<longleftrightarrow> glob_ref pat t"
proof -
  consider (all) "pat = ''*''" | (lit) "star \<notin> set pat" | (gen) "pat \<noteq> ''*''" "star \<in> set pat" by blast
  then show ?thesis
  proof cases
    case all
    then show ?thesis by (simp add: glob_match_def glob_ref_all)
  next
    case lit
    then have "pat \<noteq> ''*''" by auto
    with lit show ?thesis by (auto simp: glob_match_def glob_ref_exact)
  next
    case gen
    obtain q ms where s: "split_on star pat = q # ms" by (cases "split_on star pat") simp_all
    have ms: "ms \<noteq> []"
    proof
      assume "ms = []"
      then have "pat = q" using join_split_on [of star pat] s by simp
      with gen s split_on_parts [of q star pat] show False by simp
    qed
    note sem = glob_ref_split [OF gen(2), of t, unfolded s list.sel]
    show ?thesis
    proof (cases "length ms = 1")
      case True
      then obtain x where x: "ms = [x]" by (cases ms) auto
      have "starts_with t q \<and> ends_with t x \<and> length q + length x \<le> length t
          \<longleftrightarrow> (\<exists>u. t = q @ u \<and> ends_with u x)"
        by (auto simp: starts_with_iff ends_with_def)
      with x s gen sem show ?thesis by (simp add: glob_match_def)
    next
      case False
      have "glob_match pat t \<longleftrightarrow>
          (if q = [] then glob_rest t 0 ms else starts_with t q \<and> glob_rest t (length q) ms)"
        using s gen False ms by (simp add: glob_match_def Let_def)
      also have "\<dots> \<longleftrightarrow> (\<exists>u. t = q @ u \<and> parts_sem ms u)"
        using glob_rest_sem [OF ms] by (auto simp: starts_with_iff)
      finally show ?thesis using sem by simp
    qed
  qed
qed

interpretation tool_glob: glob_matcher glob_match "\<lambda>_. True"
  by unfold_locales (rule glob_match_ref)

section \<open>Properties\<close>

text \<open>A pattern covers a tool directly or by naming a group one of whose patterns matches it.\<close>

definition covers :: "tool_policy \<Rightarrow> string \<Rightarrow> string \<Rightarrow> bool" where
  "covers p tool pat \<longleftrightarrow> glob_ref pat tool \<or>
     (\<exists>g \<in> set (groups p). pat = CHR ''@'' # group_name g \<and> (\<exists>q \<in> set (group_tools g). glob_ref q tool))"

lemma matches_covers: "matches_pattern pat tool (expand_groups tool (groups p)) \<longleftrightarrow> covers p tool pat"
  by (auto simp: matches_pattern_def expand_groups_def covers_def glob_match_ref glob_ref_refl starts_with_Cons)

lemma first_deny_None:
  "first_deny rs tool ex = None \<longleftrightarrow> (\<forall>r \<in> set rs. effect r = DenyEffect \<longrightarrow> \<not> matches_pattern (pattern r) tool ex)"
  by (induction rs) auto

lemma first_deny_Some:
  "first_deny rs tool ex = Some pat \<Longrightarrow>
     \<exists>r \<in> set rs. effect r = DenyEffect \<and> pattern r = pat \<and> matches_pattern pat tool ex"
  by (induction rs) (auto split: if_splits)

text \<open>
  C39: the glob matcher of tool policies decides the glob language: a pattern matches a text
  exactly when its stars can be replaced by some texts to give it.
\<close>

theorem glob_match_decides: "glob_match pat t \<longleftrightarrow> glob_ref pat t"
  by (rule glob_match_ref)

text \<open>
  a tool is allowed exactly when the nesting depth permits it, no deny rule of the agent or
  of the global list covers it, and, if there is any allow rule, one of them covers it. In
  particular a matching deny rule wins over every allow rule, whatever their order.
\<close>

theorem allowed_iff:
  "resolve_tool_access tool p depth = Allowed \<longleftrightarrow>
     \<not> (is_subagent_tool tool \<and> subagent_max_depth p < depth) \<and>
     (let rules = set (agent_rules p) \<union> set (global_rules p) in
        (\<forall>r \<in> rules. effect r = DenyEffect \<longrightarrow> \<not> covers p tool (pattern r)) \<and>
        ((\<exists>r \<in> rules. effect r = AllowEffect) \<longrightarrow>
         (\<exists>r \<in> rules. effect r = AllowEffect \<and> covers p tool (pattern r))))"
proof (cases "is_subagent_tool tool \<and> subagent_max_depth p < depth")
  case True
  then show ?thesis by (simp add: resolve_tool_access_def)
next
  case depth: False
  let ?ex = "expand_groups tool (groups p)"
  consider (a) pat where "first_deny (agent_rules p) tool ?ex = Some pat"
    | (g) pat where "first_deny (agent_rules p) tool ?ex = None" "first_deny (global_rules p) tool ?ex = Some pat"
    | (none) "first_deny (agent_rules p) tool ?ex = None" "first_deny (global_rules p) tool ?ex = None"
    by (metis option.exhaust)
  then show ?thesis
  proof cases
    case a
    then have "resolve_tool_access tool p depth \<noteq> Allowed" using depth by (auto simp: resolve_tool_access_def Let_def)
    with first_deny_Some [OF a] show ?thesis by (auto simp: matches_covers Let_def)
  next
    case g
    then have "resolve_tool_access tool p depth \<noteq> Allowed" using depth by (auto simp: resolve_tool_access_def Let_def)
    with first_deny_Some [OF g(2)] show ?thesis by (auto simp: matches_covers Let_def)
  next
    case none
    have r: "resolve_tool_access tool p depth = Allowed \<longleftrightarrow>
      ((\<exists>r \<in> set (agent_rules p) \<union> set (global_rules p). effect r = AllowEffect) \<longrightarrow>
       (\<exists>r \<in> set (agent_rules p) \<union> set (global_rules p). effect r = AllowEffect \<and> covers p tool (pattern r)))"
      using none depth
      by (simp add: resolve_tool_access_def Let_def list_ex_iff matches_covers bex_Un) blast
    have d: "\<forall>r \<in> set (agent_rules p) \<union> set (global_rules p). effect r = DenyEffect \<longrightarrow> \<not> covers p tool (pattern r)"
      using none by (auto simp: first_deny_None matches_covers)
    from r d depth show ?thesis unfolding Let_def by blast
  qed
qed

text \<open>
  a spawn chain never regains a tool: filtering the tools of an agent again for a deeper
  subagent is filtering the original list at the deeper level, so deeper levels only lose tools.
\<close>

theorem filter_tools_chain:
  assumes "depth \<le> depth'"
  shows "filter_tools_by_depth (filter_tools_by_depth tools depth m) depth' m = filter_tools_by_depth tools depth' m"
  using assms by (auto simp: filter_tools_by_depth_def Let_def intro!: filter_cong)

text \<open>
  With the default policy every subagent tool is out of depth below the top level: the
  derived default sets the maximum depth to zero.
\<close>

theorem default_policy_depth:
  "resolve_tool_access ''agent_spawn'' default_policy depth =
     (if depth = 0 then Allowed else DepthExceeded depth 0)"
  by (simp add: resolve_tool_access_def is_subagent_tool_def default_policy_def)

section \<open>Witnesses\<close>

definition sample_policy :: tool_policy where
  "sample_policy = default_policy\<lparr>agent_rules := [\<lparr>pattern = ''@web'', effect = DenyEffect\<rparr>],
     groups := [\<lparr>group_name = ''web'', group_tools = [''web_*'']\<rparr>]\<rparr>"

theorem allowed_iff_witness: "resolve_tool_access ''web_get'' sample_policy 0 \<noteq> Allowed"
proof -
  have "covers sample_policy ''web_get'' ''@web''"
    by (simp add: covers_def sample_policy_def default_policy_def)
  then show ?thesis
    using allowed_iff [of "''web_get''" sample_policy 0]
    by (auto simp: sample_policy_def default_policy_def Let_def)
qed

theorem filter_tools_chain_witness:
  "filter_tools_by_depth (filter_tools_by_depth [''agent_spawn'', ''cron_create''] 1 3) 2 3 =
   filter_tools_by_depth [''agent_spawn'', ''cron_create''] 2 3"
  by (rule filter_tools_chain) simp

end
