(* ===== verification/Capability.thy ===== *)
theory Capability
  imports Complex_Main Glob
begin

text \<open>
  Capabilities, \<open>crates/rusty-hand-types/src/capability.rs\<close>, and the capability manager,
  \<open>crates/rusty-hand-kernel/src/capabilities.rs\<close>. Amounts of money are \<open>f64\<close>: not a number, an
  infinity or a rational, with the comparison of the floating-point standard. The printed forms
  of agent ids and capabilities in messages are parameters. The manager's map is only looked up.
\<close>

section \<open>Definitions\<close>

datatype amount = NaN | NegInf | Finite rat | PosInf

fun amount_ge :: "amount \<Rightarrow> amount \<Rightarrow> bool" where
  "amount_ge NaN _ = False"
| "amount_ge _ NaN = False"
| "amount_ge PosInf _ = True"
| "amount_ge _ NegInf = True"
| "amount_ge (Finite a) (Finite b) = (b \<le> a)"
| "amount_ge _ _ = False"

datatype capability =
  CFileRead string | CFileWrite string | CNetConnect string | CNetListen nat
| CToolInvoke string | CToolAll | CLlmQuery string | CLlmMaxTokens nat
| CAgentSpawn | CAgentMessage string | CAgentKill string | CMemoryRead string | CMemoryWrite string
| CShellExec string | CEnvRead string | COfpDiscover | COfpConnect string | COfpAdvertise
| CEconSpend amount | CEconEarn | CEconTransfer string

datatype capability_check = Granted | Denied string

definition is_granted :: "capability_check \<Rightarrow> bool" where
  "is_granted c \<longleftrightarrow> (case c of Granted \<Rightarrow> True | Denied _ \<Rightarrow> False)"

definition require_check :: "capability_check \<Rightarrow> string + unit" where
  "require_check c = (case c of Granted \<Rightarrow> Inr () | Denied reason \<Rightarrow> Inl reason)"

definition glob_matches :: "string \<Rightarrow> string \<Rightarrow> bool" where
  "glob_matches pat val =
     (if pat = ''*'' then True
      else if pat = val then True
      else if starts_with pat ''*'' then ends_with val (tl pat)
      else if ends_with pat ''*'' then starts_with val (butlast pat)
      else (case find_sub ''*'' pat of
          Some star_pos \<Rightarrow>
            (let prefix = take star_pos pat; suffix = drop (star_pos + 1) pat
             in starts_with val prefix \<and> ends_with val suffix \<and>
                length prefix + length suffix \<le> length val)
        | None \<Rightarrow> False))"

fun capability_matches :: "capability \<Rightarrow> capability \<Rightarrow> bool" where
  "capability_matches (CFileRead p) r = (case r of CFileRead v \<Rightarrow> glob_matches p v | _ \<Rightarrow> False)"
| "capability_matches (CFileWrite p) r = (case r of CFileWrite v \<Rightarrow> glob_matches p v | _ \<Rightarrow> False)"
| "capability_matches (CNetConnect p) r = (case r of CNetConnect v \<Rightarrow> glob_matches p v | _ \<Rightarrow> False)"
| "capability_matches (CToolInvoke g) r = (case r of CToolInvoke i \<Rightarrow> g = i \<or> g = ''*'' | _ \<Rightarrow> False)"
| "capability_matches (CLlmQuery p) r = (case r of CLlmQuery v \<Rightarrow> glob_matches p v | _ \<Rightarrow> False)"
| "capability_matches (CAgentMessage p) r = (case r of CAgentMessage v \<Rightarrow> glob_matches p v | _ \<Rightarrow> False)"
| "capability_matches (CAgentKill p) r = (case r of CAgentKill v \<Rightarrow> glob_matches p v | _ \<Rightarrow> False)"
| "capability_matches (CMemoryRead p) r = (case r of CMemoryRead v \<Rightarrow> glob_matches p v | _ \<Rightarrow> False)"
| "capability_matches (CMemoryWrite p) r = (case r of CMemoryWrite v \<Rightarrow> glob_matches p v | _ \<Rightarrow> False)"
| "capability_matches (CShellExec p) r = (case r of CShellExec v \<Rightarrow> glob_matches p v | _ \<Rightarrow> False)"
| "capability_matches (CEnvRead p) r = (case r of CEnvRead v \<Rightarrow> glob_matches p v | _ \<Rightarrow> False)"
| "capability_matches (COfpConnect p) r = (case r of COfpConnect v \<Rightarrow> glob_matches p v | _ \<Rightarrow> False)"
| "capability_matches (CEconTransfer p) r = (case r of CEconTransfer v \<Rightarrow> glob_matches p v | _ \<Rightarrow> False)"
| "capability_matches CToolAll r = (case r of CToolInvoke _ \<Rightarrow> True | _ \<Rightarrow> False)"
| "capability_matches CAgentSpawn r = (r = CAgentSpawn)"
| "capability_matches COfpDiscover r = (r = COfpDiscover)"
| "capability_matches COfpAdvertise r = (r = COfpAdvertise)"
| "capability_matches CEconEarn r = (r = CEconEarn)"
| "capability_matches (CNetListen g) r = (case r of CNetListen i \<Rightarrow> g = i | _ \<Rightarrow> False)"
| "capability_matches (CLlmMaxTokens g) r = (case r of CLlmMaxTokens i \<Rightarrow> i \<le> g | _ \<Rightarrow> False)"
| "capability_matches (CEconSpend g) r = (case r of CEconSpend i \<Rightarrow> amount_ge g i | _ \<Rightarrow> False)"

fun validate_capability_inheritance ::
  "(capability \<Rightarrow> string) \<Rightarrow> capability list \<Rightarrow> capability list \<Rightarrow> string + unit"
where
  "validate_capability_inheritance dbg parent [] = Inr ()"
| "validate_capability_inheritance dbg parent (c # cs) =
     (if \<not> list_ex (\<lambda>p. capability_matches p c) parent
      then Inl (''Privilege escalation denied: child requests '' @ dbg c @
                '' but parent does not have a matching grant'')
      else validate_capability_inheritance dbg parent cs)"

type_synonym 'id capability_manager = "'id \<Rightarrow> capability list option"

definition new_manager :: "'id capability_manager" where "new_manager = Map.empty"

definition grant :: "'id \<Rightarrow> capability list \<Rightarrow> 'id capability_manager \<Rightarrow> 'id capability_manager" where
  "grant a caps m = m(a \<mapsto> caps)"

definition check_capability ::
  "('id \<Rightarrow> string) \<Rightarrow> (capability \<Rightarrow> string) \<Rightarrow> 'id capability_manager \<Rightarrow> 'id \<Rightarrow> capability \<Rightarrow> capability_check"
where
  "check_capability show_id dbg m a required =
     (case m a of
        None \<Rightarrow> Denied (''No capabilities registered for agent '' @ show_id a)
      | Some grants \<Rightarrow>
          if list_ex (\<lambda>g. capability_matches g required) grants then Granted
          else Denied (''Agent '' @ show_id a @ '' does not have capability: '' @ dbg required))"

definition list_capabilities :: "'id capability_manager \<Rightarrow> 'id \<Rightarrow> capability list" where
  "list_capabilities m a = (case m a of Some caps \<Rightarrow> caps | None \<Rightarrow> [])"

definition revoke_all :: "'id \<Rightarrow> 'id capability_manager \<Rightarrow> 'id capability_manager" where
  "revoke_all a m = m(a := None)"

interpretation grants: keyed_store "\<lambda>m. m" grant revoke_all
  by unfold_locales (simp_all add: grant_def revoke_all_def)

section \<open>The matcher\<close>

text \<open>The patterns the matcher handles: at most one star.\<close>

definition one_star :: "string \<Rightarrow> bool" where
  "one_star p \<longleftrightarrow> star \<notin> set p \<or> (\<exists>a b. p = a @ star # b \<and> star \<notin> set a \<and> star \<notin> set b)"

lemma one_star_ref:
  assumes "star \<notin> set a" and "star \<notin> set b"
  shows "glob_ref (a @ star # b) t \<longleftrightarrow>
    starts_with t a \<and> ends_with t b \<and> length a + length b \<le> length t"
proof -
  have "glob_ref (a @ star # b) t \<longleftrightarrow> (\<exists>u. t = a @ u \<and> ends_with u b)"
    by (simp add: glob_ref_literal [OF assms(1)] glob_ref_star glob_ref_exact [OF assms(2)] ends_with_iff)
  then show ?thesis by (auto simp: starts_with_iff ends_with_def)
qed

lemma find_star: "star \<notin> set a \<Longrightarrow> find_sub ''*'' (a @ star # b) = Some (length a)"
  by (induction a) (auto simp: starts_with_def)

lemma find_no_star: "star \<notin> set p \<Longrightarrow> find_sub ''*'' p = None"
  by (induction p) (auto simp: starts_with_def)

lemma glob_matches_literal:
  assumes "star \<notin> set p"
  shows "glob_matches p t \<longleftrightarrow> t = p"
proof -
  have "p \<noteq> ''*''" "\<not> starts_with p ''*''" "\<not> ends_with p ''*''"
    using assms by (auto simp: starts_with_iff ends_with_iff)
  then show ?thesis by (auto simp: glob_matches_def find_no_star assms)
qed

lemma glob_matches_one_star:
  assumes "star \<notin> set a" and "star \<notin> set b"
  shows "glob_matches (a @ star # b) t \<longleftrightarrow>
    starts_with t a \<and> ends_with t b \<and> length a + length b \<le> length t"
proof (cases "t = a @ star # b")
  case True
  then show ?thesis by (simp add: glob_matches_def ends_with_def)
next
  case ne: False
  show ?thesis
  proof (cases a)
    case Nil
    with ne show ?thesis by (auto simp: glob_matches_def ends_with_def starts_with_def)
  next
    case (Cons x xs)
    then have s: "a @ star # b \<noteq> ''*''" "\<not> starts_with (a @ star # b) ''*''"
      using assms(1) by (auto simp: starts_with_def)
    show ?thesis
    proof (cases "b = []")
      case True
      then have "ends_with (a @ star # b) ''*''" by simp
      with s ne True show ?thesis
        by (auto simp: glob_matches_def butlast_append starts_with_iff)
    next
      case False
      then have "last b \<noteq> star" using assms(2) last_in_set by metis
      then have "\<not> ends_with (a @ star # b) ''*''"
        using False by (metis ends_with_iff last_appendR last_snoc list.distinct(1) last_ConsR)
      with s ne show ?thesis by (simp add: glob_matches_def find_star [OF assms(1)] Let_def)
    qed
  qed
qed

lemma glob_matches_ref: "one_star p \<Longrightarrow> glob_matches p t \<longleftrightarrow> glob_ref p t"
  unfolding one_star_def
proof (elim disjE exE conjE)
  assume "star \<notin> set p"
  then show ?thesis by (simp add: glob_matches_literal glob_ref_exact)
next
  fix a b
  assume "p = a @ star # b" and no: "star \<notin> set a" "star \<notin> set b"
  with glob_matches_one_star [OF no] one_star_ref [OF no] show ?thesis by simp
qed

interpretation cap_glob: glob_matcher glob_matches one_star
  by unfold_locales (rule glob_matches_ref)

section \<open>Inheritance\<close>

text \<open>The pattern a capability carries, when it is matched by the glob matcher.\<close>

fun cap_pattern :: "capability \<Rightarrow> string option" where
  "cap_pattern (CFileRead p) = Some p"
| "cap_pattern (CFileWrite p) = Some p"
| "cap_pattern (CNetConnect p) = Some p"
| "cap_pattern (CLlmQuery p) = Some p"
| "cap_pattern (CAgentMessage p) = Some p"
| "cap_pattern (CAgentKill p) = Some p"
| "cap_pattern (CMemoryRead p) = Some p"
| "cap_pattern (CMemoryWrite p) = Some p"
| "cap_pattern (CShellExec p) = Some p"
| "cap_pattern (CEnvRead p) = Some p"
| "cap_pattern (COfpConnect p) = Some p"
| "cap_pattern (CEconTransfer p) = Some p"
| "cap_pattern _ = None"

definition cap_ok :: "capability \<Rightarrow> bool" where
  "cap_ok c \<longleftrightarrow> (case cap_pattern c of Some p \<Rightarrow> one_star p | None \<Rightarrow> True)"

lemma amount_ge_trans: "amount_ge a b \<Longrightarrow> amount_ge b c \<Longrightarrow> amount_ge a c"
  by (cases a; cases b; cases c) auto

lemma capability_matches_trans:
  assumes "capability_matches g c" and "capability_matches c r" and "cap_ok g" and "cap_ok c"
  shows "capability_matches g r"
proof -
  have glob: "\<And>p q t. one_star p \<Longrightarrow> one_star q \<Longrightarrow> glob_matches p q \<Longrightarrow> glob_matches q t \<Longrightarrow> glob_matches p t"
    by (rule cap_glob.matches_trans)
  have "cap_ok g \<longrightarrow> cap_ok c \<longrightarrow> capability_matches g c \<longrightarrow> capability_matches c r \<longrightarrow> capability_matches g r"
    by (cases g; cases c; simp add: cap_ok_def; cases r; auto dest: glob amount_ge_trans)
  with assms show ?thesis by blast
qed

lemma validate_Inr:
  "validate_capability_inheritance dbg ps cs = Inr () \<longleftrightarrow>
     (\<forall>c \<in> set cs. \<exists>p \<in> set ps. capability_matches p c)"
  by (induction cs) (auto simp: list_ex_iff)

lemma check_granted:
  "check_capability show_id dbg m a r = Granted \<longleftrightarrow> (\<exists>g \<in> set (list_capabilities m a). capability_matches g r)"
  by (auto simp: check_capability_def list_capabilities_def list_ex_iff split: option.splits)

text \<open>
  C25: no privilege escalation. When a child agent got capabilities that passed the inheritance
  check against its parent's, and no pattern involved has more than one star, everything the
  child is granted is also granted to the parent.
\<close>

theorem inheritance_sound:
  assumes "validate_capability_inheritance dbg (list_capabilities m parent) caps = Inr ()"
    and "parent \<noteq> child"
    and "\<forall>c \<in> set (list_capabilities m parent) \<union> set caps. cap_ok c"
    and "check_capability show_id dbg (grant child caps m) child r = Granted"
  shows "check_capability show_id dbg (grant child caps m) parent r = Granted"
proof -
  have l: "list_capabilities (grant child caps m) child = caps"
    "list_capabilities (grant child caps m) parent = list_capabilities m parent"
    using grants.lookup_put_same [of child caps m] grants.lookup_put_other [OF assms(2), of caps m]
    by (simp_all add: list_capabilities_def)
  from assms(4) obtain c where c: "c \<in> set caps" "capability_matches c r" by (auto simp: check_granted l)
  with assms(1) obtain p where p: "p \<in> set (list_capabilities m parent)" "capability_matches p c"
    by (auto simp: validate_Inr)
  from capability_matches_trans [OF p(2) c(2)] p(1) c(1) assms(3) show ?thesis
    by (auto simp: check_granted l)
qed

text \<open>The capabilities whose argument is matched as a pattern.\<close>

definition pattern_kinds :: "(string \<Rightarrow> capability) list" where
  "pattern_kinds = [CFileRead, CFileWrite, CNetConnect, CLlmQuery, CAgentMessage, CAgentKill, CMemoryRead,
     CMemoryWrite, CShellExec, CEnvRead, COfpConnect]"

lemma prefix_glob:
  assumes "CHR ''*'' \<notin> set s"
  shows "glob_matches (s @ ''*'') (s @ y)"
proof (cases s)
  case (Cons h r)
  then have "\<not> starts_with (s @ ''*'') ''*''" using assms by (auto simp: starts_with_iff)
  moreover have "ends_with (s @ ''*'') ''*''" "starts_with (s @ y) (butlast (s @ ''*''))"
    by (auto simp: ends_with_iff starts_with_iff)
  ultimately show ?thesis by (simp add: glob_matches_def)
qed (simp add: glob_matches_def)

lemma two_star_refuses:
  assumes "CHR ''*'' \<notin> set v"
  shows "\<not> glob_matches (''*'' @ a @ ''*'') v"
proof -
  have "\<not> ends_with v (a @ ''*'')"
  proof
    assume "ends_with v (a @ ''*'')"
    then obtain u where "v = u @ a @ ''*''" unfolding ends_with_iff by blast
    then show False using assms by simp
  qed
  then show ?thesis using assms by (auto simp: glob_matches_def starts_with_def)
qed



text \<open>
  the matcher of capability patterns decides the glob language on every pattern with at most
  one star.
\<close>

theorem glob_matches_decides: "one_star p \<Longrightarrow> glob_matches p t \<longleftrightarrow> glob_ref p t"
  by (rule glob_matches_ref)

theorem glob_matches_decides_witness: "glob_matches ''a*z'' ''abz'' \<longleftrightarrow> glob_ref ''a*z'' ''abz''"
proof (rule glob_matches_decides)
  show "one_star ''a*z''" unfolding one_star_def
    by (rule disjI2, rule exI [of _ "''a''"], rule exI [of _ "''z''"]) simp
qed

definition sample_manager :: "nat capability_manager" where
  "sample_manager = grant 1 [CToolAll] new_manager"

theorem inheritance_sound_witness:
  "check_capability (\<lambda>_. ''id'') (\<lambda>_. ''cap'') (grant 2 [CToolInvoke ''ls''] sample_manager) 1 (CToolInvoke ''ls'') = Granted"
  by (rule inheritance_sound)
    (simp_all add: sample_manager_def list_capabilities_def grant_def new_manager_def cap_ok_def check_capability_def)

end
