(* ===== verification/Approval.thy ===== *)
theory Approval
  imports Rh_Prelude
begin

text \<open>
  Execution approvals: the data and validation of \<open>crates/rusty-hand-types/src/approval.rs\<close> and the
  manager of \<open>crates/rusty-hand-kernel/src/approval.rs\<close> as a machine of interleaved steps. A call of
  \<open>request_approval\<close> is a task that checks the limit, inserts its request with a fresh one-shot
  channel and then waits for the channel or the timeout; \<open>resolve\<close> removes an entry and then
  sends. Each access of the concurrent map, each send and each wake-up is one step, so the
  interleavings of the code are the runs of the step relation. Ids are numbers (only compared),
  their printed form and the Unicode test \<open>is_alphanumeric\<close> are parameters. The notification
  callback and the log lines have no effect on the state.
\<close>

section \<open>Data and validation\<close>

definition max_tool_name_len :: nat where "max_tool_name_len = 64"
definition max_description_len :: nat where "max_description_len = 1024"
definition max_action_summary_len :: nat where "max_action_summary_len = 512"
definition min_timeout_secs :: nat where "min_timeout_secs = 10"
definition max_timeout_secs :: nat where "max_timeout_secs = 300"

datatype risk_level = RiskLow | RiskMedium | RiskHigh | RiskCritical

fun emoji :: "risk_level \<Rightarrow> string" where
  "emoji RiskLow = [CHR 0xE2, CHR 0x84, CHR 0xB9, CHR 0xEF, CHR 0xB8, CHR 0x8F]"
| "emoji RiskMedium = [CHR 0xE2, CHR 0x9A, CHR 0xA0, CHR 0xEF, CHR 0xB8, CHR 0x8F]"
| "emoji RiskHigh = [CHR 0xF0, CHR 0x9F, CHR 0x9A, CHR 0xA8]"
| "emoji RiskCritical = [CHR 0xE2, CHR 0x98, CHR 0xA0, CHR 0xEF, CHR 0xB8, CHR 0x8F]"

datatype approval_decision = Approved | DecisionDenied | TimedOut

type_synonym uuid = nat

record approval_request =
  req_id :: uuid
  req_agent_id :: string
  req_tool_name :: string
  req_description :: string
  req_action_summary :: string
  req_risk_level :: risk_level
  req_requested_at :: nat
  req_timeout_secs :: nat

definition name_chars_ok :: "(string \<Rightarrow> bool) \<Rightarrow> string \<Rightarrow> bool" where
  "name_chars_ok alnum name \<longleftrightarrow> list_all (\<lambda>c. alnum c \<or> c = ''_'') (chars name)"

definition validate_timeout :: "nat \<Rightarrow> string + unit" where
  "validate_timeout t =
     (if t < min_timeout_secs
      then Inl (''timeout_secs too small ('' @ nat_str t @ '', min '' @ nat_str min_timeout_secs @ '')'')
      else if t > max_timeout_secs
      then Inl (''timeout_secs too large ('' @ nat_str t @ '', max '' @ nat_str max_timeout_secs @ '')'')
      else Inr ())"

definition too_long :: "string \<Rightarrow> nat \<Rightarrow> nat \<Rightarrow> string" where
  "too_long field n m = field @ '' too long ('' @ nat_str n @ '' chars, max '' @ nat_str m @ '')''"

definition validate_request :: "(string \<Rightarrow> bool) \<Rightarrow> approval_request \<Rightarrow> string + unit" where
  "validate_request alnum r =
     (if req_tool_name r = [] then Inl ''tool_name must not be empty''
      else if length (req_tool_name r) > max_tool_name_len
      then Inl (too_long ''tool_name'' (length (req_tool_name r)) max_tool_name_len)
      else if \<not> name_chars_ok alnum (req_tool_name r)
      then Inl ''tool_name may only contain alphanumeric characters and underscores''
      else if length (req_description r) > max_description_len
      then Inl (too_long ''description'' (length (req_description r)) max_description_len)
      else if length (req_action_summary r) > max_action_summary_len
      then Inl (too_long ''action_summary'' (length (req_action_summary r)) max_action_summary_len)
      else validate_timeout (req_timeout_secs r))"

record approval_response =
  resp_request_id :: uuid
  resp_decision :: approval_decision
  resp_decided_at :: nat
  resp_decided_by :: "string option"

record approval_policy =
  require_approval :: "string list"
  policy_timeout_secs :: nat
  auto_approve_autonomous :: bool

definition default_approval_policy :: approval_policy where
  "default_approval_policy =
     \<lparr>require_approval = [], policy_timeout_secs = 300, auto_approve_autonomous = True\<rparr>"

fun validate_names :: "(string \<Rightarrow> bool) \<Rightarrow> nat \<Rightarrow> string list \<Rightarrow> string + unit" where
  "validate_names alnum i [] = Inr ()"
| "validate_names alnum i (name # names) =
     (let field = ''require_approval['' @ nat_str i @ '']'' in
      if name = [] then Inl (field @ '' must not be empty'')
      else if length name > max_tool_name_len then Inl (too_long field (length name) max_tool_name_len)
      else if \<not> name_chars_ok alnum name
      then Inl (field @ '' may only contain alphanumeric characters and underscores: '' @
                [CHR 0x22] @ name @ [CHR 0x22])
      else validate_names alnum (i + 1) names)"

definition validate_policy :: "(string \<Rightarrow> bool) \<Rightarrow> approval_policy \<Rightarrow> string + unit" where
  "validate_policy alnum p =
     (case validate_timeout (policy_timeout_secs p) of
        Inl msg \<Rightarrow> Inl msg
      | Inr _ \<Rightarrow> validate_names alnum 0 (require_approval p))"

section \<open>The manager\<close>

definition max_pending_per_agent :: nat where "max_pending_per_agent = 5"

type_synonym task = nat

record pending_request =
  request :: approval_request
  sender :: task

text \<open>The receiving end of a task's channel: open, a decision sent, or the sender dropped.\<close>

datatype channel = ChanOpen | ChanSent approval_decision | ChanClosed

datatype task_state =
  Started approval_request
| Admitted approval_request
| Waiting uuid channel
| Finished approval_decision

record approval_manager =
  pending :: "(uuid, pending_request) table"
  approval_policy :: approval_policy
  tasks :: "task \<Rightarrow> task_state option"
  sending :: "(task \<times> approval_decision) list"

definition new_approval_manager :: "approval_policy \<Rightarrow> approval_manager" where
  "new_approval_manager p = \<lparr>pending = [], approval_policy = p, tasks = Map.empty, sending = []\<rparr>"

definition requires_approval :: "approval_manager \<Rightarrow> string \<Rightarrow> bool" where
  "requires_approval m tool \<longleftrightarrow> tool \<in> set (require_approval (approval_policy m))"

definition list_pending :: "approval_manager \<Rightarrow> approval_request list" where
  "list_pending m = map (request \<circ> snd) (pending m)"

definition pending_count :: "approval_manager \<Rightarrow> nat" where
  "pending_count m = length (pending m)"

definition agent_pending :: "approval_manager \<Rightarrow> string \<Rightarrow> nat" where
  "agent_pending m agent = length (filter (\<lambda>(_, p). req_agent_id (request p) = agent) (pending m))"

definition update_policy :: "approval_policy \<Rightarrow> approval_manager \<Rightarrow> approval_manager" where
  "update_policy p m = m\<lparr>approval_policy := p\<rparr>"

definition classify_risk :: "string \<Rightarrow> risk_level" where
  "classify_risk tool =
     (if tool = ''shell_exec'' then RiskCritical
      else if tool = ''file_write'' \<or> tool = ''file_delete'' then RiskHigh
      else if tool = ''web_fetch'' \<or> tool = ''browser_navigate'' then RiskMedium
      else RiskLow)"

definition set_task :: "task \<Rightarrow> task_state \<Rightarrow> approval_manager \<Rightarrow> approval_manager" where
  "set_task t s m = m\<lparr>tasks := (tasks m)(t \<mapsto> s)\<rparr>"

text \<open>The first half of \<open>request_approval\<close>: trust mode and the limit per agent.\<close>

definition admit :: "task \<Rightarrow> approval_request \<Rightarrow> approval_manager \<Rightarrow> approval_manager" where
  "admit t r m =
     (if auto_approve_autonomous (approval_policy m) then set_task t (Finished Approved) m
      else if agent_pending m (req_agent_id r) \<ge> max_pending_per_agent
      then set_task t (Finished DecisionDenied) m
      else set_task t (Admitted r) m)"

text \<open>Dropping the sender of an overwritten or removed entry closes its channel.\<close>

definition drop_sender :: "task \<Rightarrow> approval_manager \<Rightarrow> approval_manager" where
  "drop_sender t m =
     (case tasks m t of Some (Waiting u ChanOpen) \<Rightarrow> set_task t (Waiting u ChanClosed) m | _ \<Rightarrow> m)"

definition remove_pending :: "uuid \<Rightarrow> approval_manager \<Rightarrow> approval_manager" where
  "remove_pending u m =
     (case map_of (pending m) u of
        None \<Rightarrow> m
      | Some p \<Rightarrow> drop_sender (sender p) (m\<lparr>pending := tab_del u (pending m)\<rparr>))"

text \<open>The second half: \<open>pending.insert\<close> with the sender of a new channel.\<close>

definition insert_pending :: "task \<Rightarrow> approval_request \<Rightarrow> approval_manager \<Rightarrow> approval_manager" where
  "insert_pending t r m =
     (let m' = remove_pending (req_id r) m
      in set_task t (Waiting (req_id r) ChanOpen)
           (m'\<lparr>pending := tab_put (req_id r) \<lparr>request = r, sender = t\<rparr> (pending m')\<rparr>))"

text \<open>Waking up: a sent decision is returned; a closed channel or the timeout removes the entry.\<close>

definition receive_decision :: "task \<Rightarrow> approval_decision \<Rightarrow> approval_manager \<Rightarrow> approval_manager" where
  "receive_decision t d m = set_task t (Finished d) m"

definition time_out :: "task \<Rightarrow> uuid \<Rightarrow> approval_manager \<Rightarrow> approval_manager" where
  "time_out t u m = set_task t (Finished TimedOut) (remove_pending u m)"

text \<open>\<open>resolve\<close>: remove the entry, then send the decision to the task that waits.\<close>

definition resolve_remove ::
  "(uuid \<Rightarrow> string) \<Rightarrow> uuid \<Rightarrow> approval_decision \<Rightarrow> nat \<Rightarrow> string option \<Rightarrow> approval_manager
     \<Rightarrow> approval_manager \<times> (string + approval_response)"
where
  "resolve_remove show_id u d now by m =
     (case map_of (pending m) u of
        Some p \<Rightarrow>
          (m\<lparr>pending := tab_del u (pending m), sending := (sender p, d) # sending m\<rparr>,
           Inr \<lparr>resp_request_id = u, resp_decision = d, resp_decided_at = now, resp_decided_by = by\<rparr>)
      | None \<Rightarrow> (m, Inl (''No pending approval request with id '' @ show_id u)))"

definition send_decision :: "task \<Rightarrow> approval_decision \<Rightarrow> approval_manager \<Rightarrow> approval_manager" where
  "send_decision t d m =
     (let m = m\<lparr>sending := remove1 (t, d) (sending m)\<rparr>
      in case tasks m t of Some (Waiting u ChanOpen) \<Rightarrow> set_task t (Waiting u (ChanSent d)) m | _ \<Rightarrow> m)"

section \<open>Interleavings\<close>

datatype approval_event =
  EvStart task approval_request
| EvAdmit task
| EvInsert task
| EvReceive task
| EvTimeout task
| EvResolve uuid approval_decision
| EvSend task approval_decision
| EvPolicy approval_policy

inductive approval_step :: "approval_manager \<Rightarrow> approval_event \<Rightarrow> approval_manager \<Rightarrow> bool" where
  start: "tasks m t = None \<Longrightarrow> approval_step m (EvStart t r) (set_task t (Started r) m)"
| admit: "tasks m t = Some (Started r) \<Longrightarrow> approval_step m (EvAdmit t) (admit t r m)"
| insert: "tasks m t = Some (Admitted r) \<Longrightarrow> approval_step m (EvInsert t) (insert_pending t r m)"
| receive: "tasks m t = Some (Waiting u (ChanSent d)) \<Longrightarrow>
    approval_step m (EvReceive t) (receive_decision t d m)"
| timeout: "tasks m t = Some (Waiting u c) \<Longrightarrow> c = ChanOpen \<or> c = ChanClosed \<Longrightarrow>
    approval_step m (EvTimeout t) (time_out t u m)"
| resolve: "approval_step m (EvResolve u d) (fst (resolve_remove show_id u d now by m))"
| send: "(t, d) \<in> set (sending m) \<Longrightarrow> approval_step m (EvSend t d) (send_decision t d m)"
| policy: "approval_step m (EvPolicy p) (update_policy p m)"

inductive approval_run :: "approval_manager \<Rightarrow> approval_event list \<Rightarrow> approval_manager \<Rightarrow> bool" where
  finish: "approval_run m [] m"
| extend: "approval_run m es m' \<Longrightarrow> approval_step m' e m'' \<Longrightarrow> approval_run m (es @ [e]) m''"

inductive_cases approval_runE: "approval_run m es m'"

end
