(* ===== verification/Approval_Theorems.thy ===== *)
theory Approval_Theorems
  imports Approval
begin

text \<open>
  What the approval manager guarantees in every interleaving: each pending entry belongs to a
  task that waits for it, a request is approved only by the operator (or in trust mode), and
  the limit per agent holds when submissions are atomic but not when they interleave.
\<close>

lemmas approval_frame = set_task_def drop_sender_def

section \<open>Tasks and the pending table\<close>

lemma pending_simps [simp]:
  "pending (set_task t s m) = pending m" "sending (set_task t s m) = sending m"
  "tasks (set_task t s m) = (tasks m)(t \<mapsto> s)" "approval_policy (set_task t s m) = approval_policy m"
  by (simp_all add: set_task_def)

lemma drop_sender_simps [simp]:
  "pending (drop_sender t m) = pending m" "sending (drop_sender t m) = sending m"
  "approval_policy (drop_sender t m) = approval_policy m"
  by (auto simp: drop_sender_def split: option.split task_state.split channel.split)

lemma tasks_drop_sender:
  "tasks (drop_sender t m) j =
     (case tasks m j of Some (Waiting u ChanOpen) \<Rightarrow> Some (Waiting u (if j = t then ChanClosed else ChanOpen))
      | s \<Rightarrow> s)"
  by (auto simp: drop_sender_def split: option.split task_state.split channel.split)

lemma pending_remove [simp]: "map_of (pending (remove_pending u m)) = (map_of (pending m))(u := None)"
  by (auto simp: remove_pending_def split: option.split)

lemma remove_pending_frame [simp]:
  "sending (remove_pending u m) = sending m" "approval_policy (remove_pending u m) = approval_policy m"
  by (simp_all add: remove_pending_def split: option.split)

text \<open>A task that has inserted its request.\<close>

definition inserted :: "approval_manager \<Rightarrow> task \<Rightarrow> bool" where
  "inserted m t \<longleftrightarrow> (\<exists>u c. tasks m t = Some (Waiting u c)) \<or> (\<exists>d. tasks m t = Some (Finished d))"

definition entry_ok :: "approval_manager \<Rightarrow> uuid \<Rightarrow> pending_request \<Rightarrow> bool" where
  "entry_ok m u p \<longleftrightarrow> req_id (request p) = u \<and> tasks m (sender p) = Some (Waiting u ChanOpen) \<and>
     sender p \<notin> fst ` set (sending m)"

definition approval_ok :: "approval_manager \<Rightarrow> bool" where
  "approval_ok m \<longleftrightarrow> tab_ok (pending m) \<and>
     (\<forall>u p. map_of (pending m) u = Some p \<longrightarrow> entry_ok m u p) \<and>
     (\<forall>t \<in> fst ` set (sending m). inserted m t)"

lemma approval_okI:
  assumes "tab_ok (pending m)" and "\<And>u p. map_of (pending m) u = Some p \<Longrightarrow> entry_ok m u p"
    and "\<And>t. t \<in> fst ` set (sending m) \<Longrightarrow> inserted m t"
  shows "approval_ok m"
  unfolding approval_ok_def using assms by blast

lemma approval_okD:
  assumes "approval_ok m"
  shows "tab_ok (pending m)" and "map_of (pending m) u = Some p \<Longrightarrow> entry_ok m u p"
    and "t \<in> fst ` set (sending m) \<Longrightarrow> inserted m t"
  using assms unfolding approval_ok_def by blast+

lemma approval_ok_new: "approval_ok (new_approval_manager p)"
  by (simp add: approval_ok_def new_approval_manager_def)

text \<open>A task that owns no entry may change its state.\<close>

lemma approval_ok_set_task:
  assumes ok: "approval_ok m" and own: "\<And>u p. map_of (pending m) u = Some p \<Longrightarrow> sender p \<noteq> t"
    and ins: "inserted m t \<Longrightarrow> inserted (set_task t s m) t"
  shows "approval_ok (set_task t s m)"
proof (rule approval_okI)
  show "tab_ok (pending (set_task t s m))" using approval_okD(1) [OF ok] by simp
  show "entry_ok (set_task t s m) u p" if "map_of (pending (set_task t s m)) u = Some p" for u p
    using approval_okD(2) [OF ok, of u p] own [of u p] that by (simp add: entry_ok_def)
  show "inserted (set_task t s m) j" if "j \<in> fst ` set (sending (set_task t s m))" for j
  proof (cases "j = t")
    case True
    then show ?thesis using approval_okD(3) [OF ok] ins that by simp
  next
    case False
    then show ?thesis using approval_okD(3) [OF ok, of j] that by (simp add: inserted_def)
  qed
qed

lemma not_sender:
  assumes "approval_ok m" and "map_of (pending m) u = Some p" and "tasks m t \<noteq> Some (Waiting u ChanOpen)"
  shows "sender p \<noteq> t"
  using approval_okD(2) [OF assms(1,2)] assms(3) by (auto simp: entry_ok_def)

lemma inserted_drop_sender [simp]: "inserted (drop_sender t m) j = inserted m j"
  by (auto simp: inserted_def tasks_drop_sender split: option.split task_state.split channel.split)

lemma inserted_remove [simp]: "inserted (remove_pending u m) j = inserted m j"
  by (simp add: remove_pending_def split: option.split) (simp add: inserted_def)

lemma approval_ok_remove:
  assumes ok: "approval_ok m"
  shows "approval_ok (remove_pending u m)"
proof (cases "map_of (pending m) u")
  case None
  with ok show ?thesis by (simp add: remove_pending_def)
next
  case (Some p)
  note p = approval_okD(2) [OF ok Some]
  show ?thesis
  proof (rule approval_okI)
    show "tab_ok (pending (remove_pending u m))"
      using approval_okD(1) [OF ok] by (simp add: remove_pending_def Some tab_ok_del)
    show "entry_ok (remove_pending u m) v q" if "map_of (pending (remove_pending u m)) v = Some q" for v q
    proof -
      have v: "v \<noteq> u" "map_of (pending m) v = Some q" using that by (auto split: if_splits)
      note q = approval_okD(2) [OF ok v(2)]
      have "sender q \<noteq> sender p" using p q v(1) by (auto simp: entry_ok_def)
      with q show ?thesis by (simp add: entry_ok_def remove_pending_def Some tasks_drop_sender)
    qed
    show "inserted (remove_pending u m) t" if "t \<in> fst ` set (sending (remove_pending u m))" for t
      using approval_okD(3) [OF ok, of t] that by simp
  qed
qed

lemma removed_not_sender:
  assumes "approval_ok m" and "tasks m t = Some (Waiting u c)" and "map_of (pending (remove_pending u m)) v = Some q"
  shows "sender q \<noteq> t"
proof -
  have "v \<noteq> u" "map_of (pending m) v = Some q" using assms(3) by (auto split: if_splits)
  with approval_okD(2) [OF assms(1), of v q] assms(2) show ?thesis by (auto simp: entry_ok_def)
qed

lemma start_ok: "approval_ok m \<Longrightarrow> tasks m t = None \<Longrightarrow> approval_ok (set_task t (Started r) m)"
  by (rule approval_ok_set_task) (use not_sender in \<open>force simp: inserted_def\<close>)+

lemma admit_ok:
  assumes "approval_ok m" and "tasks m t = Some (Started r)"
  shows "approval_ok (admit t r m)"
proof -
  have "approval_ok (set_task t s m)" for s
    by (rule approval_ok_set_task [OF assms(1)])
      (use not_sender [OF assms(1)] assms(2) in \<open>auto simp: inserted_def\<close>)
  then show ?thesis by (simp add: admit_def)
qed

lemma insert_ok:
  assumes ok: "approval_ok m" and st: "tasks m t = Some (Admitted r)"
  shows "approval_ok (insert_pending t r m)"
proof -
  let ?m = "remove_pending (req_id r) m"
  have ok': "approval_ok ?m" by (rule approval_ok_remove [OF ok])
  have t: "tasks ?m t = Some (Admitted r)"
    using st by (simp add: remove_pending_def tasks_drop_sender split: option.split)
  have new: "t \<notin> fst ` set (sending m)"
    using approval_okD(3) [OF ok, of t] st by (auto simp: inserted_def)
  show ?thesis
  proof (rule approval_okI)
    show "tab_ok (pending (insert_pending t r m))"
      using approval_okD(1) [OF ok'] by (simp add: insert_pending_def Let_def tab_ok_put)
    show "entry_ok (insert_pending t r m) v q" if "map_of (pending (insert_pending t r m)) v = Some q" for v q
    proof (cases "v = req_id r")
      case True
      with that have "q = \<lparr>request = r, sender = t\<rparr>" by (simp add: insert_pending_def Let_def)
      with True new show ?thesis by (simp add: insert_pending_def Let_def entry_ok_def)
    next
      case False
      with that have "map_of (pending ?m) v = Some q" by (simp add: insert_pending_def Let_def)
      from approval_okD(2) [OF ok' this] t show ?thesis
        by (auto simp: insert_pending_def Let_def entry_ok_def)
    qed
    show "inserted (insert_pending t r m) j" if "j \<in> fst ` set (sending (insert_pending t r m))" for j
    proof -
      have "inserted ?m j" using approval_okD(3) [OF ok', of j] that by (simp add: insert_pending_def Let_def)
      then show ?thesis by (auto simp: insert_pending_def Let_def inserted_def)
    qed
  qed
qed

lemma wake_ok:
  assumes ok: "approval_ok m" and st: "tasks m t = Some (Waiting u c)"
    and own: "\<And>v q. map_of (pending m) v = Some q \<Longrightarrow> sender q \<noteq> t"
  shows "approval_ok (set_task t (Finished d) m)"
  by (rule approval_ok_set_task [OF ok own]) (simp_all add: inserted_def)

lemma time_out_ok:
  assumes "approval_ok m" and "tasks m t = Some (Waiting u c)"
  shows "approval_ok (time_out t u m)"
  unfolding time_out_def
  by (rule approval_ok_set_task [OF approval_ok_remove [OF assms(1)] removed_not_sender [OF assms]])
    (simp_all add: inserted_def)

lemma resolve_ok:
  assumes ok: "approval_ok m"
  shows "approval_ok (fst (resolve_remove show_id u d now by m))"
proof (cases "map_of (pending m) u")
  case None
  with ok show ?thesis by (simp add: resolve_remove_def)
next
  case (Some p)
  note p = approval_okD(2) [OF ok Some]
  let ?m = "m\<lparr>pending := tab_del u (pending m), sending := (sender p, d) # sending m\<rparr>"
  have "approval_ok ?m"
  proof (rule approval_okI)
    show "tab_ok (pending ?m)" using approval_okD(1) [OF ok] by (simp add: tab_ok_del)
    show "entry_ok ?m v q" if "map_of (pending ?m) v = Some q" for v q
    proof -
      have v: "v \<noteq> u" "map_of (pending m) v = Some q" using that by (auto split: if_splits)
      note q = approval_okD(2) [OF ok v(2)]
      have "sender q \<noteq> sender p" using p q v(1) by (auto simp: entry_ok_def)
      with q show ?thesis by (simp add: entry_ok_def)
    qed
    show "inserted ?m t" if "t \<in> fst ` set (sending ?m)" for t
      using approval_okD(3) [OF ok, of t] p that by (auto simp: entry_ok_def inserted_def)
  qed
  then show ?thesis by (simp add: resolve_remove_def Some)
qed

lemma send_ok:
  assumes ok: "approval_ok m" and s: "(t, d) \<in> set (sending m)"
  shows "approval_ok (send_decision t d m)"
proof -
  let ?m = "m\<lparr>sending := remove1 (t, d) (sending m)\<rparr>"
  have sub: "set (remove1 (t, d) (sending m)) \<subseteq> set (sending m)" by (rule set_remove1_subset)
  have ok': "approval_ok ?m"
  proof (rule approval_okI)
    show "entry_ok ?m u p" if "map_of (pending ?m) u = Some p" for u p
      using approval_okD(2) [OF ok, of u p] that sub by (auto simp: entry_ok_def)
    show "inserted ?m j" if "j \<in> fst ` set (sending ?m)" for j
      using approval_okD(3) [OF ok, of j] that sub by (auto simp: inserted_def)
  qed (use approval_okD(1) [OF ok] in simp)
  have own: "sender q \<noteq> t" if "map_of (pending ?m) v = Some q" for v q
    using approval_okD(2) [OF ok, of v q] that s by (auto simp: entry_ok_def rev_image_eqI)
  have "approval_ok (set_task t (Waiting u c) ?m)" for u c
    by (rule approval_ok_set_task [OF ok' own]) (simp_all add: inserted_def)
  with ok' show ?thesis
    by (simp add: send_decision_def Let_def split: option.split task_state.split channel.split)
qed

lemma policy_ok: "approval_ok m \<Longrightarrow> approval_ok (update_policy p m)"
  by (simp add: approval_ok_def update_policy_def entry_ok_def inserted_def)

lemma approval_step_ok: "approval_step m e m' \<Longrightarrow> approval_ok m \<Longrightarrow> approval_ok m'"
proof (induction rule: approval_step.induct)
  case (receive m t u d)
  then show ?case unfolding receive_decision_def using not_sender [OF receive(2)] by (intro wake_ok) auto
qed (auto intro: start_ok admit_ok insert_ok time_out_ok resolve_ok send_ok policy_ok)

lemma approval_run_ok: "approval_run m es m' \<Longrightarrow> approval_ok m \<Longrightarrow> approval_ok m'"
  by (induction rule: approval_run.induct) (auto intro: approval_step_ok)

section \<open>Where an approval comes from\<close>

definition authorised :: "approval_event list \<Rightarrow> task \<Rightarrow> approval_decision \<Rightarrow> bool" where
  "authorised es t d \<longleftrightarrow> (\<exists>r. EvStart t r \<in> set es \<and> EvResolve (req_id r) d \<in> set es)"

fun task_ok :: "approval_event list \<Rightarrow> task \<Rightarrow> task_state \<Rightarrow> bool" where
  "task_ok es t (Started r) \<longleftrightarrow> EvStart t r \<in> set es"
| "task_ok es t (Admitted r) \<longleftrightarrow> EvStart t r \<in> set es"
| "task_ok es t (Waiting u c) \<longleftrightarrow> (\<exists>r. EvStart t r \<in> set es \<and> req_id r = u) \<and>
     (\<forall>d. c = ChanSent d \<longrightarrow> authorised es t d)"
| "task_ok es t (Finished d) \<longleftrightarrow> (d = Approved \<longrightarrow> authorised es t d)"

definition origin_ok :: "approval_event list \<Rightarrow> approval_manager \<Rightarrow> bool" where
  "origin_ok es m \<longleftrightarrow> \<not> auto_approve_autonomous (approval_policy m) \<and>
     (\<forall>t s. tasks m t = Some s \<longrightarrow> task_ok es t s) \<and>
     (\<forall>td \<in> set (sending m). authorised es (fst td) (snd td))"

lemma authorised_mono: "authorised es t d \<Longrightarrow> authorised (es @ fs) t d"
  by (auto simp: authorised_def)

lemma task_ok_mono: "task_ok es t s \<Longrightarrow> task_ok (es @ fs) t s"
  by (cases s) (auto intro: authorised_mono)

lemma origin_mono: "origin_ok es m \<Longrightarrow> origin_ok (es @ fs) m"
  unfolding origin_ok_def using task_ok_mono authorised_mono by blast

lemma origin_set_task: "origin_ok es m \<Longrightarrow> task_ok es t s \<Longrightarrow> origin_ok es (set_task t s m)"
  by (simp add: origin_ok_def)

lemma origin_task: "origin_ok es m \<Longrightarrow> tasks m t = Some s \<Longrightarrow> task_ok es t s"
  by (simp add: origin_ok_def)

lemma origin_pending: "origin_ok es m \<Longrightarrow> origin_ok es (m\<lparr>pending := p\<rparr>)"
  by (simp add: origin_ok_def)

lemma origin_drop_sender: "origin_ok es m \<Longrightarrow> origin_ok es (drop_sender t m)"
  using origin_task [of es m t]
  by (auto simp: drop_sender_def intro: origin_set_task split: option.split task_state.split channel.split)

lemma origin_remove: "origin_ok es m \<Longrightarrow> origin_ok es (remove_pending u m)"
  by (auto simp: remove_pending_def intro: origin_drop_sender origin_pending split: option.split)

lemma origin_resolve:
  assumes "approval_ok m" and "origin_ok es m"
  shows "origin_ok (es @ [EvResolve u d]) (fst (resolve_remove show_id u d now by m))"
proof (cases "map_of (pending m) u")
  case None
  with origin_mono [OF assms(2)] show ?thesis by (simp add: resolve_remove_def)
next
  case (Some p)
  have "tasks m (sender p) = Some (Waiting u ChanOpen)"
    using approval_okD(2) [OF assms(1) Some] by (simp add: entry_ok_def)
  from origin_task [OF assms(2) this] have "authorised (es @ [EvResolve u d]) (sender p) d"
    by (auto simp: authorised_def)
  with origin_mono [OF assms(2), of "[EvResolve u d]"] show ?thesis
    by (simp add: resolve_remove_def Some origin_ok_def)
qed

lemma origin_send:
  assumes "origin_ok es m" and "(t, d) \<in> set (sending m)"
  shows "origin_ok es (send_decision t d m)"
proof -
  let ?m = "m\<lparr>sending := remove1 (t, d) (sending m)\<rparr>"
  have a: "authorised es t d" using assms by (auto simp: origin_ok_def)
  have m: "origin_ok es ?m"
    using assms(1) set_remove1_subset [of "(t, d)" "sending m"] by (auto simp: origin_ok_def)
  have "task_ok es t (Waiting u (ChanSent d))" if "tasks m t = Some (Waiting u c)" for u c
    using origin_task [OF assms(1) that] a by simp
  with m origin_set_task [OF m] show ?thesis
    by (auto simp: send_decision_def Let_def split: option.split task_state.split channel.split)
qed

lemma origin_step:
  assumes "approval_step m e m'" and "approval_ok m" and "origin_ok es m"
    and "\<And>p. e = EvPolicy p \<Longrightarrow> \<not> auto_approve_autonomous p"
  shows "origin_ok (es @ [e]) m'"
  using assms
proof (induction rule: approval_step.induct)
  case (start m t r)
  show ?case by (rule origin_set_task [OF origin_mono [OF start(3)]]) simp
next
  case (admit m t r)
  have off: "\<not> auto_approve_autonomous (approval_policy m)" using admit(3) by (simp add: origin_ok_def)
  have "task_ok (es @ [EvAdmit t]) t (Admitted r)" "task_ok (es @ [EvAdmit t]) t (Finished DecisionDenied)"
    using origin_task [OF admit(3,1)] by simp_all
  note s = this [THEN origin_set_task [OF origin_mono [OF admit(3)]]]
  show ?case using s off by (simp add: admit_def)
next
  case (insert m t r)
  have o: "origin_ok (es @ [EvInsert t]) m" by (rule origin_mono [OF insert(3)])
  have "task_ok (es @ [EvInsert t]) t (Waiting (req_id r) ChanOpen)"
    using origin_task [OF insert(3,1)] by auto
  then show ?case unfolding insert_pending_def Let_def
    by (intro origin_set_task origin_pending origin_remove o)
next
  case (receive m t u d)
  have "task_ok (es @ [EvReceive t]) t (Finished d)"
    using task_ok_mono [OF origin_task [OF receive(3,1)], of "[EvReceive t]"] by auto
  then show ?case unfolding receive_decision_def by (rule origin_set_task [OF origin_mono [OF receive(3)]])
next
  case (timeout m t u c)
  show ?case unfolding time_out_def
    by (rule origin_set_task [OF origin_remove [OF origin_mono [OF timeout(4)]]]) simp
next
  case (resolve m u d show_id now "by")
  show ?case by (rule origin_resolve [OF resolve(1,2)])
next
  case (send t d m)
  show ?case by (rule origin_send [OF origin_mono [OF send(3)] send(1)])
next
  case (policy m p)
  then show ?case using origin_mono [OF policy(2)] by (simp add: origin_ok_def update_policy_def)
qed

lemma origin_run:
  assumes "approval_run m es m'" and "m = new_approval_manager p" and "\<not> auto_approve_autonomous p"
    and "\<forall>q. EvPolicy q \<in> set es \<longrightarrow> \<not> auto_approve_autonomous q"
  shows "origin_ok es m'"
  using assms
proof (induction rule: approval_run.induct)
  case (finish m)
  then show ?case by (simp add: origin_ok_def new_approval_manager_def)
next
  case (extend m es m' e m'')
  have "approval_ok m'" using approval_run_ok [OF extend(1)] approval_ok_new extend(4) by simp
  then show ?case using origin_step [OF extend(2)] extend by simp
qed

section \<open>Atomic submissions\<close>

text \<open>A submission whose limit check and insertion are not interleaved with other steps.\<close>

definition submit :: "task \<Rightarrow> approval_request \<Rightarrow> approval_manager \<Rightarrow> approval_manager" where
  "submit t r m =
     (let m1 = admit t r m
      in case tasks m1 t of Some (Admitted q) \<Rightarrow> insert_pending t q m1 | _ \<Rightarrow> m1)"

lemma agent_pending_simps [simp]:
  "agent_pending (set_task t s m) a = agent_pending m a"
  "agent_pending (drop_sender t m) a = agent_pending m a"
  by (simp_all add: agent_pending_def)

definition of_agent :: "string \<Rightarrow> uuid \<times> pending_request \<Rightarrow> bool" where
  "of_agent a up \<longleftrightarrow> req_agent_id (request (snd up)) = a"

lemma agent_pending_of: "agent_pending m a = length (filter (of_agent a) (pending m))"
  unfolding agent_pending_def of_agent_def by (simp add: case_prod_unfold)

lemma length_filter_tab_del: "length (filter P (tab_del u t)) \<le> length (filter P t)"
  by (induction t) (auto simp: tab_del_def)

lemma length_filter_tab_put:
  "map_of t u = None \<Longrightarrow> length (filter P (tab_put u v t)) = length (filter P t) + (if P (u, v) then 1 else 0)"
  by (induction t) (auto split: if_splits)

lemma agent_pending_remove: "agent_pending (remove_pending u m) a \<le> agent_pending m a"
  by (auto simp: remove_pending_def agent_pending_of length_filter_tab_del split: option.split)

lemma agent_pending_insert:
  "agent_pending (insert_pending t r m) a \<le> agent_pending m a + (if req_agent_id r = a then 1 else 0)"
  using agent_pending_remove [of "req_id r" m a]
  by (simp add: insert_pending_def Let_def agent_pending_of length_filter_tab_put of_agent_def)

lemma submit_bounded:
  assumes "\<And>a. agent_pending m a \<le> max_pending_per_agent"
  shows "agent_pending (submit t r m) a \<le> max_pending_per_agent"
proof -
  have "agent_pending (insert_pending t r (set_task t (Admitted r) m)) a \<le> max_pending_per_agent"
    if "\<not> max_pending_per_agent \<le> agent_pending m (req_agent_id r)"
    using that agent_pending_insert [of t r "set_task t (Admitted r) m" a] assms [of a] by (auto split: if_splits)
  with assms show ?thesis by (simp add: submit_def admit_def Let_def)
qed

datatype manager_op = SubmitOp task approval_request | ResolveOp uuid approval_decision
  | TimeOutOp task uuid | PolicyOp approval_policy

fun manager_step :: "approval_manager \<Rightarrow> manager_op \<Rightarrow> approval_manager" where
  "manager_step m (SubmitOp t r) = submit t r m"
| "manager_step m (ResolveOp u d) = fst (resolve_remove nat_str u d 0 None m)"
| "manager_step m (TimeOutOp t u) = time_out t u m"
| "manager_step m (PolicyOp p) = update_policy p m"

lemma manager_step_bounded:
  assumes b: "\<And>a. agent_pending m a \<le> max_pending_per_agent"
  shows "agent_pending (manager_step m e) a \<le> max_pending_per_agent"
proof (cases e)
  case (SubmitOp t r)
  with submit_bounded [OF b] show ?thesis by simp
next
  case (ResolveOp u d)
  have "length (filter (of_agent a) (tab_del u (pending m))) \<le> max_pending_per_agent"
    using length_filter_tab_del [of "of_agent a" u "pending m"] b [of a] by (simp add: agent_pending_of)
  with b [of a] ResolveOp show ?thesis by (simp add: resolve_remove_def agent_pending_of split: option.split)
next
  case (TimeOutOp t u)
  with agent_pending_remove [of u m a] b [of a] show ?thesis by (simp add: time_out_def)
next
  case (PolicyOp p)
  with b [of a] show ?thesis by (simp add: update_policy_def agent_pending_def)
qed

interpretation atomic: invariant_machine manager_step "\<lambda>m. \<forall>a. agent_pending m a \<le> max_pending_per_agent"
  by unfold_locales (blast intro: manager_step_bounded)

section \<open>Executing a run\<close>

fun exec_event :: "approval_manager \<Rightarrow> approval_event \<Rightarrow> approval_manager option" where
  "exec_event m (EvStart t r) = (if tasks m t = None then Some (set_task t (Started r) m) else None)"
| "exec_event m (EvAdmit t) = (case tasks m t of Some (Started r) \<Rightarrow> Some (admit t r m) | _ \<Rightarrow> None)"
| "exec_event m (EvInsert t) = (case tasks m t of Some (Admitted r) \<Rightarrow> Some (insert_pending t r m) | _ \<Rightarrow> None)"
| "exec_event m (EvReceive t) =
     (case tasks m t of Some (Waiting u (ChanSent d)) \<Rightarrow> Some (receive_decision t d m) | _ \<Rightarrow> None)"
| "exec_event m (EvTimeout t) =
     (case tasks m t of Some (Waiting u (ChanSent d)) \<Rightarrow> None | Some (Waiting u c) \<Rightarrow> Some (time_out t u m) | _ \<Rightarrow> None)"
| "exec_event m (EvResolve u d) = Some (fst (resolve_remove nat_str u d 0 None m))"
| "exec_event m (EvSend t d) = (if (t, d) \<in> set (sending m) then Some (send_decision t d m) else None)"
| "exec_event m (EvPolicy p) = Some (update_policy p m)"

lemma exec_event_step: "exec_event m e = Some m' \<Longrightarrow> approval_step m e m'"
proof (induction m e rule: exec_event.induct)
  case (6 m u d)
  then show ?case by (auto intro: approval_step.resolve)
qed (auto intro: approval_step.intros split: option.splits task_state.splits channel.splits if_splits)

definition exec_from :: "approval_manager option \<Rightarrow> approval_event list \<Rightarrow> approval_manager option" where
  "exec_from om es = foldl (\<lambda>om e. Option.bind om (\<lambda>m. exec_event m e)) om es"

lemma exec_run: "exec_from (Some m) es = Some m' \<Longrightarrow> approval_run m es m'"
proof (induction es arbitrary: m' rule: rev_induct)
  case (snoc e es)
  then obtain m1 where "exec_from (Some m) es = Some m1" "exec_event m1 e = Some m'"
    by (auto simp: exec_from_def bind_eq_Some_conv)
  with snoc.IH exec_event_step show ?case by (auto intro: approval_run.extend)
qed (auto simp: exec_from_def intro: approval_run.finish)

section \<open>Properties\<close>

text \<open>
  in every interleaving, while trust mode is off, a request that ends as approved was
  resolved as approved under its own id: no task is approved by a decision for another request.
\<close>

theorem approved_by_operator:
  assumes "approval_run (new_approval_manager p) es m" and "\<not> auto_approve_autonomous p"
    and "\<forall>q. EvPolicy q \<in> set es \<longrightarrow> \<not> auto_approve_autonomous q"
    and "tasks m t = Some (Finished Approved)"
  shows "\<exists>r. EvStart t r \<in> set es \<and> EvResolve (req_id r) Approved \<in> set es"
  using origin_task [OF origin_run [OF assms(1) refl assms(2,3)] assms(4)] by (simp add: authorised_def)

text \<open>
  in every interleaving each pending entry is stored under its request's id and its sender
  is a task that still waits for exactly that id, so nothing stays pending once no task waits,
  and different entries have different senders.
\<close>

theorem pending_entries_owned:
  assumes "approval_run (new_approval_manager p) es m"
  shows "(\<forall>u q. map_of (pending m) u = Some q \<longrightarrow>
       req_id (request q) = u \<and> tasks m (sender q) = Some (Waiting u ChanOpen)) \<and>
     (\<forall>u v q w. map_of (pending m) u = Some q \<longrightarrow> map_of (pending m) v = Some w \<longrightarrow>
       sender q = sender w \<longrightarrow> u = v)"
proof -
  have "approval_ok m" by (rule approval_run_ok [OF assms approval_ok_new])
  note entry = approval_okD(2) [OF this, unfolded entry_ok_def]
  show ?thesis
  proof (intro conjI allI impI)
    fix u v q w
    assume "map_of (pending m) u = Some q" "map_of (pending m) v = Some w" "sender q = sender w"
    with entry [of u q] entry [of v w] show "u = v" by simp
  qed (use entry in simp_all)
qed

text \<open>
  with atomic submissions no agent ever has more than five pending requests, whatever
  submissions, resolutions, timeouts and policy changes happen.
\<close>

theorem atomic_limit:
  "agent_pending (foldl manager_step (new_approval_manager p) ops) agent \<le> 5"
  using atomic.run_inv [of "new_approval_manager p" ops]
  by (simp add: new_approval_manager_def agent_pending_def max_pending_per_agent_def)

definition sample_request :: "uuid \<Rightarrow> approval_request" where
  "sample_request u = \<lparr>req_id = u, req_agent_id = ''a'', req_tool_name = ''shell_exec'', req_description = [],
     req_action_summary = [], req_risk_level = RiskHigh, req_requested_at = 0, req_timeout_secs = 60\<rparr>"

definition strict_policy :: approval_policy where
  "strict_policy = default_approval_policy\<lparr>auto_approve_autonomous := False\<rparr>"

definition racing :: "nat list \<Rightarrow> approval_event list" where
  "racing ts = map (\<lambda>t. EvStart t (sample_request t)) ts @ map EvAdmit ts @ map EvInsert ts"

text \<open>
  the limit is not enforced across interleaved submissions: six tasks of one agent can all
  pass the check before any of them inserts its request, and then six requests are pending.
\<close>

theorem limit_race:
  "\<exists>es m. approval_run (new_approval_manager strict_policy) es m \<and> agent_pending m ''a'' = 6"
proof -
  let ?r = "exec_from (Some (new_approval_manager strict_policy)) (racing [1, 2, 3, 4, 5, 6])"
  have "map_option (\<lambda>m. agent_pending m ''a'') ?r = Some 6" by code_simp
  then obtain m where "?r = Some m" "agent_pending m ''a'' = 6" by auto
  with exec_run show ?thesis by blast
qed

text \<open>
  an operator can be told that the approval was recorded although the task timed out: the
  entry is removed before the decision is sent, and the timeout may fire in between.
\<close>

theorem approval_lost_to_timeout:
  "\<exists>es m1 m2. approval_run (new_approval_manager strict_policy) es m1 \<and>
     (\<exists>resp. snd (resolve_remove nat_str 1 Approved 0 None m1) = Inr resp) \<and>
     approval_run (new_approval_manager strict_policy) (es @ [EvResolve 1 Approved, EvTimeout 1, EvSend 1 Approved]) m2 \<and>
     tasks m2 1 = Some (Finished TimedOut)"
proof -
  let ?s = "Some (new_approval_manager strict_policy)" and ?es = "racing [1]"
  let ?fs = "racing [1] @ [EvResolve 1 Approved, EvTimeout 1, EvSend 1 Approved]"
  have "map_option (\<lambda>m. snd (resolve_remove nat_str 1 Approved 0 None m)) (exec_from ?s ?es)
      = Some (Inr \<lparr>resp_request_id = 1, resp_decision = Approved, resp_decided_at = 0, resp_decided_by = None\<rparr>)"
    by code_simp
  moreover have "map_option (\<lambda>m. tasks m 1) (exec_from ?s ?fs) = Some (Some (Finished TimedOut))"
    by code_simp
  ultimately obtain m1 m2 where "exec_from ?s ?es = Some m1" "exec_from ?s ?fs = Some m2"
    "\<exists>resp. snd (resolve_remove nat_str 1 Approved 0 None m1) = Inr resp"
    "tasks m2 1 = Some (Finished TimedOut)" by auto
  with exec_run show ?thesis by blast
qed

section \<open>Witnesses\<close>

definition approved_run :: "approval_event list" where
  "approved_run = racing [1] @ [EvResolve 1 Approved, EvSend 1 Approved, EvReceive 1]"

theorem approved_by_operator_witness:
  "\<exists>m. approval_run (new_approval_manager strict_policy) approved_run m \<and>
     tasks m 1 = Some (Finished Approved) \<and>
     (\<exists>r. EvStart 1 r \<in> set approved_run \<and> EvResolve (req_id r) Approved \<in> set approved_run)"
proof -
  have "map_option (\<lambda>m. tasks m 1) (exec_from (Some (new_approval_manager strict_policy)) approved_run)
      = Some (Some (Finished Approved))" by code_simp
  then obtain m where m: "exec_from (Some (new_approval_manager strict_policy)) approved_run = Some m"
    "tasks m 1 = Some (Finished Approved)" by auto
  have run: "approval_run (new_approval_manager strict_policy) approved_run m" by (rule exec_run [OF m(1)])
  have off: "\<not> auto_approve_autonomous strict_policy" by (simp add: strict_policy_def)
  have "\<forall>q. EvPolicy q \<in> set approved_run \<longrightarrow> \<not> auto_approve_autonomous q"
    by (simp add: approved_run_def racing_def)
  from approved_by_operator [OF run off this m(2)] run m(2) show ?thesis by blast
qed

theorem pending_entries_owned_witness:
  "\<exists>m q. approval_run (new_approval_manager strict_policy) (racing [1]) m \<and>
     map_of (pending m) 1 = Some q \<and> tasks m (sender q) = Some (Waiting 1 ChanOpen)"
proof -
  have "map_option (\<lambda>m. map_of (pending m) 1 \<noteq> None)
      (exec_from (Some (new_approval_manager strict_policy)) (racing [1])) = Some True" by code_simp
  then obtain m q where m: "exec_from (Some (new_approval_manager strict_policy)) (racing [1]) = Some m"
    "map_of (pending m) 1 = Some q" by auto
  have run: "approval_run (new_approval_manager strict_policy) (racing [1]) m" by (rule exec_run [OF m(1)])
  from pending_entries_owned [OF run] m(2) run show ?thesis by blast
qed

end
