(* ===== verification/Apply_Patch.thy ===== *)
theory Apply_Patch
  imports Rh_Prelude
begin

text \<open>
  Multi-hunk patches, \<open>crates/rusty-hand-runtime/src/apply_patch.rs\<close>: the parser, the application
  of hunks to the lines of a file, and the application of operations to a file system. The
  parser's index into the body is the list of lines that remain. A file system maps resolved
  paths to contents; path resolution, the outcome of each system call and the text of its errors
  belong to the platform and are the fields of a \<open>patch_env\<close>.
\<close>

section \<open>Data\<close>

record hunk =
  context_before :: "string list"
  old_lines :: "string list"
  new_lines :: "string list"
  context_after :: "string list"

datatype patch_op =
  AddFile string string
| UpdateFile string "string option" "hunk list"
| DeleteFile string

record patch_result =
  files_added :: nat
  files_updated :: nat
  files_deleted :: nat
  files_moved :: nat
  errors :: "string list"

definition empty_result :: patch_result where
  "empty_result = \<lparr>files_added = 0, files_updated = 0, files_deleted = 0, files_moved = 0, errors = []\<rparr>"

definition patch_is_ok :: "patch_result \<Rightarrow> bool" where
  "patch_is_ok r \<longleftrightarrow> errors r = []"

definition patch_summary :: "patch_result \<Rightarrow> string" where
  "patch_summary r =
     (let part = (\<lambda>n what. if n > (0 :: nat) then [nat_str n @ what] else []);
          parts = part (files_added r) '' added'' @ part (files_updated r) '' updated'' @
            part (files_deleted r) '' deleted'' @ part (files_moved r) '' moved'' @
            part (length (errors r)) '' errors''
      in if parts = [] then ''No changes applied'' else join '', '' parts)"

section \<open>The parser\<close>

definition strip_prefix :: "string \<Rightarrow> string \<Rightarrow> string option" where
  "strip_prefix p s = (if starts_with s p then Some (drop (length p) s) else None)"

definition is_marker :: "string \<Rightarrow> bool" where
  "is_marker l \<longleftrightarrow> starts_with (trim l) ''***''"

definition is_hunk_header :: "string \<Rightarrow> bool" where
  "is_hunk_header l \<longleftrightarrow> starts_with (trim l) ''@@''"

text \<open>The content lines of an added file.\<close>

fun add_content :: "string list \<Rightarrow> string list \<Rightarrow> string + string list \<times> string list" where
  "add_content acc [] = Inr (acc, [])"
| "add_content acc (l # ls) =
     (if is_marker l then Inr (acc, l # ls)
      else (case strip_prefix ''+'' l of
          Some s \<Rightarrow> add_content (acc @ [s]) ls
        | None \<Rightarrow>
            if trim l \<noteq> [] then Inl (''Expected '' @ quoted ''+'' @ '' prefix in Add File content, got: '' @ l)
            else add_content acc ls))"

text \<open>One line of a hunk body, with the flags \<open>in_change\<close> and \<open>past_change\<close>.\<close>

definition hunk_context :: "string \<Rightarrow> hunk \<times> bool \<times> bool \<Rightarrow> hunk \<times> bool \<times> bool" where
  "hunk_context s = (\<lambda>(h, in_change, past_change).
     if in_change \<or> past_change
     then (h\<lparr>context_after := context_after h @ [s]\<rparr>, False, True)
     else (h\<lparr>context_before := context_before h @ [s]\<rparr>, in_change, past_change))"

definition hunk_line :: "string \<Rightarrow> hunk \<times> bool \<times> bool \<Rightarrow> hunk \<times> bool \<times> bool" where
  "hunk_line l st =
     (let h = fst st in
      case strip_prefix ''-'' l of
        Some s \<Rightarrow> (h\<lparr>old_lines := old_lines h @ [s]\<rparr>, True, False)
      | None \<Rightarrow>
      (case strip_prefix ''+'' l of
        Some s \<Rightarrow> (h\<lparr>new_lines := new_lines h @ [s]\<rparr>, True, False)
      | None \<Rightarrow>
      (case strip_prefix '' '' l of
        Some s \<Rightarrow> hunk_context s st
      | None \<Rightarrow> if trim l = [] then hunk_context [] st else hunk_context l st)))"

fun hunk_body :: "hunk \<times> bool \<times> bool \<Rightarrow> string list \<Rightarrow> hunk \<times> string list" where
  "hunk_body st [] = (fst st, [])"
| "hunk_body st (l # ls) =
     (if is_hunk_header l \<or> is_marker l then (fst st, l # ls) else hunk_body (hunk_line l st) ls)"

definition empty_hunk :: hunk where
  "empty_hunk = \<lparr>context_before = [], old_lines = [], new_lines = [], context_after = []\<rparr>"

lemma hunk_body_length: "length (snd (hunk_body st ls)) \<le> length ls"
  by (induction st ls rule: hunk_body.induct) auto

function parse_hunks :: "string list \<Rightarrow> hunk list \<times> string list" where
  "parse_hunks [] = ([], [])"
| "parse_hunks (l # ls) =
     (if is_marker l then ([], l # ls)
      else if is_hunk_header l
      then (let (h, rest) = hunk_body (empty_hunk, False, False) ls;
                (hs, rest') = parse_hunks rest
            in (h # hs, rest'))
      else parse_hunks ls)"
  by pat_completeness auto
termination
  by (relation "measure length") (auto, metis hunk_body_length le_imp_less_Suc snd_conv)

definition split_arrow :: "string \<Rightarrow> string \<times> string option" where
  "split_arrow rest =
     (case find_sub ''->'' rest of
        Some i \<Rightarrow> (trim (take i rest), Some (trim (drop (i + 2) rest)))
      | None \<Rightarrow> (rest, None))"

lemma add_content_length: "add_content acc ls = Inr (c, rest) \<Longrightarrow> length rest \<le> length ls"
  by (induction acc ls rule: add_content.induct) (auto split: if_splits option.splits)

lemma parse_hunks_length: "length (snd (parse_hunks ls)) \<le> length ls"
proof (induction ls rule: parse_hunks.induct)
  case (2 l ls)
  show ?case
  proof (cases "is_hunk_header l \<and> \<not> is_marker l")
    case True
    obtain h rest where b: "hunk_body (empty_hunk, False, False) ls = (h, rest)" by fastforce
    have "length rest \<le> length ls" using hunk_body_length [of "(empty_hunk, False, False)" ls] b by simp
    moreover have "length (snd (parse_hunks rest)) \<le> length rest"
      using 2(1) True b by (metis prod.collapse)
    ultimately show ?thesis using True b by (simp add: case_prod_beta)
  next
    case False
    then show ?thesis using 2(2) by auto
  qed
qed simp

definition after_prefix :: "string \<Rightarrow> string \<Rightarrow> string" where
  "after_prefix p line = trim (drop (length p) line)"

text \<open>The main loop over the body.\<close>

function parse_body :: "string list \<Rightarrow> patch_op list \<Rightarrow> string + patch_op list" where
  "parse_body [] ops = Inr ops"
| "parse_body (l # ls) ops =
     (let line = trim l in
      if starts_with line ''*** Add File:''
      then (let path = after_prefix ''*** Add File:'' line in
        if path = [] then Inl (''Empty path in '' @ quoted ''*** Add File:'')
        else (case add_content [] ls of
            Inl e \<Rightarrow> Inl e
          | Inr (content, rest) \<Rightarrow> parse_body rest (ops @ [AddFile path (join [CHR 0x0A] content)])))
      else if starts_with line ''*** Update File:''
      then (let (path, move_to) = split_arrow (after_prefix ''*** Update File:'' line) in
        if path = [] then Inl (''Empty path in '' @ quoted ''*** Update File:'')
        else (case parse_hunks ls of (hunks, rest) \<Rightarrow>
          if hunks = [] then Inl (''Update File '' @ quoted path @ '' has no hunks'')
          else parse_body rest (ops @ [UpdateFile path move_to hunks])))
      else if starts_with line ''*** Delete File:''
      then (let path = after_prefix ''*** Delete File:'' line in
        if path = [] then Inl (''Empty path in '' @ quoted ''*** Delete File:'')
        else parse_body ls (ops @ [DeleteFile path]))
      else if line = [] then parse_body ls ops
      else Inl (''Unexpected line in patch: '' @ line))"
  by pat_completeness auto
termination
  by (relation "measure (\<lambda>(ls, _). length ls)")
    (auto dest: add_content_length intro: le_imp_less_Suc,
     metis parse_hunks_length le_imp_less_Suc snd_conv)

text \<open>\<open>position\<close> and \<open>rposition\<close>.\<close>

fun position :: "('a \<Rightarrow> bool) \<Rightarrow> 'a list \<Rightarrow> nat option" where
  "position P [] = None"
| "position P (x # xs) = (if P x then Some 0 else map_option Suc (position P xs))"

definition rposition :: "('a \<Rightarrow> bool) \<Rightarrow> 'a list \<Rightarrow> nat option" where
  "rposition P xs = map_option (\<lambda>i. length xs - 1 - i) (position P (rev xs))"

definition parse_patch :: "string \<Rightarrow> string + patch_op list" where
  "parse_patch input =
     (let ls = str_lines input in
      case position (\<lambda>l. trim l = ''*** Begin Patch'') ls of
        None \<Rightarrow> Inl (''Missing '' @ quoted ''*** Begin Patch'' @ '' marker'')
      | Some begin_at \<Rightarrow>
      (case rposition (\<lambda>l. trim l = ''*** End Patch'') ls of
        None \<Rightarrow> Inl (''Missing '' @ quoted ''*** End Patch'' @ '' marker'')
      | Some end_at \<Rightarrow>
          if end_at \<le> begin_at
          then Inl (quoted ''*** End Patch'' @ '' must come after '' @ quoted ''*** Begin Patch'')
          else (case parse_body (take (end_at - (begin_at + 1)) (drop (begin_at + 1) ls)) [] of
              Inl e \<Rightarrow> Inl e
            | Inr ops \<Rightarrow> if ops = [] then Inl ''Patch contains no operations'' else Inr ops)))"

section \<open>Hunks\<close>

definition find_window :: "(string \<Rightarrow> string \<Rightarrow> bool) \<Rightarrow> string list \<Rightarrow> string list \<Rightarrow> nat option" where
  "find_window eq ls anchor =
     (if anchor = [] then Some (length ls)
      else if length anchor > length ls then None
      else List.find (\<lambda>start. list_all2 eq (take (length anchor) (drop start ls)) anchor)
             [0..<length ls - length anchor + 1])"

definition find_anchor :: "string list \<Rightarrow> string list \<Rightarrow> nat option" where
  "find_anchor = find_window (=)"

definition find_anchor_fuzzy :: "string list \<Rightarrow> string list \<Rightarrow> nat option" where
  "find_anchor_fuzzy = find_window (\<lambda>a b. trim_end a = trim_end b)"

definition or_else :: "'a option \<Rightarrow> 'a option \<Rightarrow> 'a option" where
  "or_else a b = (case a of Some x \<Rightarrow> Some x | None \<Rightarrow> b)"

text \<open>\<open>Vec::splice\<close>.\<close>

definition splice :: "'a list \<Rightarrow> nat \<Rightarrow> nat \<Rightarrow> 'a list \<Rightarrow> 'a list" where
  "splice xs i j ys = take i xs @ ys @ drop j xs"

text \<open>Where a hunk with a core (context before and old lines) applies.\<close>

definition core_position :: "hunk \<Rightarrow> string list \<Rightarrow> nat option" where
  "core_position h ls =
     (let core = context_before h @ old_lines h in
      if context_after h = [] then or_else (find_anchor ls core) (find_anchor_fuzzy ls core)
      else (let full = core @ context_after h
            in or_else (find_anchor ls full) (or_else (find_anchor_fuzzy ls full)
                 (or_else (find_anchor ls core) (find_anchor_fuzzy ls core)))))"

definition apply_hunk :: "nat \<Rightarrow> hunk \<Rightarrow> string list \<Rightarrow> string + string list" where
  "apply_hunk idx h ls =
     (if context_before h = [] \<and> old_lines h = []
      then (if context_after h = [] then Inr (ls @ new_lines h)
            else (case or_else (find_anchor ls (context_after h)) (find_anchor_fuzzy ls (context_after h)) of
                None \<Rightarrow> Inl (''Hunk '' @ nat_str (idx + 1) @ '' failed: could not find insertion context in file'')
              | Some pos \<Rightarrow> Inr (splice ls pos pos (new_lines h))))
      else (case core_position h ls of
          None \<Rightarrow> Inl (''Hunk '' @ nat_str (idx + 1) @ '' failed: could not find context/old lines in file'')
        | Some pos \<Rightarrow>
            (let remove_count = length (context_before h) + length (old_lines h)
             in Inr (splice ls pos (pos + remove_count) (context_before h @ new_lines h)))))"

fun apply_each :: "nat \<Rightarrow> hunk list \<Rightarrow> string list \<Rightarrow> string + string list" where
  "apply_each idx [] ls = Inr ls"
| "apply_each idx (h # hs) ls =
     (case apply_hunk idx h ls of Inl e \<Rightarrow> Inl e | Inr ls' \<Rightarrow> apply_each (idx + 1) hs ls')"

definition apply_hunks :: "string \<Rightarrow> hunk list \<Rightarrow> string + string" where
  "apply_hunks content hs =
     (let newline = (if contains_sub content [CHR 0x0D, CHR 0x0A] then [CHR 0x0D, CHR 0x0A] else [CHR 0x0A]);
          trailing = ends_with content [CHR 0x0A]
      in case apply_each 0 hs (str_lines content) of
          Inl e \<Rightarrow> Inl e
        | Inr ls \<Rightarrow>
            (let result = join newline ls
             in Inr (if trailing \<and> \<not> ends_with result [CHR 0x0A] then result @ newline else result)))"

section \<open>Files\<close>

type_synonym files = "string \<Rightarrow> string option"

text \<open>A call fails with the given text, or not at all; reading a missing file fails as well.\<close>

record patch_env =
  resolve_path :: "string \<Rightarrow> string + string"
  make_parent :: "string \<Rightarrow> string option"
  write_error :: "string \<Rightarrow> (string \<times> string option) option"
  read_error :: "string \<Rightarrow> string option"
  remove_error :: "string \<Rightarrow> string option"
  not_found :: string
  show_parent :: "string \<Rightarrow> string"

definition read_file :: "patch_env \<Rightarrow> files \<Rightarrow> string \<Rightarrow> string + string" where
  "read_file e fs p =
     (case read_error e p of Some msg \<Rightarrow> Inl msg
      | None \<Rightarrow> (case fs p of Some c \<Rightarrow> Inr c | None \<Rightarrow> Inl (not_found e)))"

definition remove_file :: "patch_env \<Rightarrow> files \<Rightarrow> string \<Rightarrow> string + files" where
  "remove_file e fs p =
     (case remove_error e p of Some msg \<Rightarrow> Inl msg
      | None \<Rightarrow> if fs p = None then Inl (not_found e) else Inr (fs(p := None)))"

text \<open>A failed write says what it left behind in the file.\<close>

definition write_file :: "patch_env \<Rightarrow> files \<Rightarrow> string \<Rightarrow> string \<Rightarrow> files \<times> string option" where
  "write_file e fs p c =
     (case write_error e p of Some (msg, left) \<Rightarrow> (fs(p := left), Some msg)
      | None \<Rightarrow> (fs(p \<mapsto> c), None))"

definition add_error :: "string \<Rightarrow> string \<Rightarrow> string \<Rightarrow> patch_result \<Rightarrow> patch_result" where
  "add_error what path msg r = r\<lparr>errors := errors r @ [what @ path @ '': '' @ msg]\<rparr>"

definition apply_add :: "patch_env \<Rightarrow> string \<Rightarrow> string \<Rightarrow> files \<times> patch_result \<Rightarrow> files \<times> patch_result" where
  "apply_add e path content st =
     (let (fs, r) = st in
      case resolve_path e path of
        Inl msg \<Rightarrow> (fs, add_error [] path msg r)
      | Inr resolved \<Rightarrow>
      (case make_parent e resolved of
        Some msg \<Rightarrow> (fs, add_error ''mkdir '' path msg r)
      | None \<Rightarrow>
      (case write_file e fs resolved content of
        (fs', Some msg) \<Rightarrow> (fs', add_error ''write '' path msg r)
      | (fs', None) \<Rightarrow> (fs', r\<lparr>files_added := files_added r + 1\<rparr>))))"

definition finish_move :: "patch_env \<Rightarrow> string \<Rightarrow> files \<times> patch_result \<Rightarrow> files \<times> patch_result" where
  "finish_move e resolved st =
     (let (fs, r) = st in
      case remove_file e fs resolved of
        Inr fs' \<Rightarrow> (fs', r\<lparr>files_moved := files_moved r + 1\<rparr>)
      | Inl msg \<Rightarrow> (fs, add_error ''cleanup-after-move '' resolved msg (r\<lparr>files_updated := files_updated r + 1\<rparr>)))"

definition write_target ::
  "patch_env \<Rightarrow> string \<Rightarrow> bool \<Rightarrow> string \<Rightarrow> string \<Rightarrow> string \<Rightarrow> files \<times> patch_result \<Rightarrow> files \<times> patch_result"
where
  "write_target e path moving resolved target patched st =
     (let (fs, r) = st in
      case make_parent e target of
        Some msg \<Rightarrow> (fs, add_error ''mkdir '' (show_parent e target) msg r)
      | None \<Rightarrow>
      (case write_file e fs target patched of
        (fs', Some msg) \<Rightarrow> (fs', add_error ''write '' path msg r)
      | (fs', None) \<Rightarrow>
          if moving \<and> target \<noteq> resolved then finish_move e resolved (fs', r)
          else (fs', r\<lparr>files_updated := files_updated r + 1\<rparr>)))"

definition apply_update ::
  "patch_env \<Rightarrow> string \<Rightarrow> string option \<Rightarrow> hunk list \<Rightarrow> files \<times> patch_result \<Rightarrow> files \<times> patch_result"
where
  "apply_update e path move_to hunks st =
     (let (fs, r) = st in
      case resolve_path e path of
        Inl msg \<Rightarrow> (fs, add_error [] path msg r)
      | Inr resolved \<Rightarrow>
      (case read_file e fs resolved of
        Inl msg \<Rightarrow> (fs, add_error ''read '' path msg r)
      | Inr original \<Rightarrow>
      (case apply_hunks original hunks of
        Inl msg \<Rightarrow> (fs, add_error ''patch '' path msg r)
      | Inr patched \<Rightarrow>
      (case move_to of
        None \<Rightarrow> write_target e path False resolved resolved patched (fs, r)
      | Some new_path \<Rightarrow>
      (case resolve_path e new_path of
        Inl msg \<Rightarrow> (fs, add_error [] new_path msg r)
      | Inr target \<Rightarrow> write_target e path True resolved target patched (fs, r))))))"

definition apply_delete :: "patch_env \<Rightarrow> string \<Rightarrow> files \<times> patch_result \<Rightarrow> files \<times> patch_result" where
  "apply_delete e path st =
     (let (fs, r) = st in
      case resolve_path e path of
        Inl msg \<Rightarrow> (fs, add_error [] path msg r)
      | Inr resolved \<Rightarrow>
      (case remove_file e fs resolved of
        Inr fs' \<Rightarrow> (fs', r\<lparr>files_deleted := files_deleted r + 1\<rparr>)
      | Inl msg \<Rightarrow> (fs, add_error ''delete '' path msg r)))"

fun apply_op :: "patch_env \<Rightarrow> files \<times> patch_result \<Rightarrow> patch_op \<Rightarrow> files \<times> patch_result" where
  "apply_op e st (AddFile path content) = apply_add e path content st"
| "apply_op e st (UpdateFile path move_to hunks) = apply_update e path move_to hunks st"
| "apply_op e st (DeleteFile path) = apply_delete e path st"

definition apply_patch :: "patch_env \<Rightarrow> files \<Rightarrow> patch_op list \<Rightarrow> files \<times> patch_result" where
  "apply_patch e fs ops = foldl (apply_op e) (fs, empty_result) ops"

end
