(* ===== verification/Patch_Theorems.thy ===== *)
theory Patch_Theorems
  imports Apply_Patch
begin

text \<open>
  What patches guarantee: a hunk replaces exactly one matching window of the file, an exactly
  matching hunk is applied at its first occurrence, patches written in the documented format
  parse to their operations, and only files whose paths resolve are touched.
\<close>

section \<open>Windows\<close>

lemma find_window_Some:
  assumes "find_window eq ls a = Some i" and "a \<noteq> []"
  shows "i + length a \<le> length ls" and "list_all2 eq (take (length a) (drop i ls)) a"
    and "j < i \<Longrightarrow> \<not> list_all2 eq (take (length a) (drop j ls)) a"
proof -
  have le: "\<not> length ls < length a" using assms by (auto simp: find_window_def)
  then obtain k where k: "k < length ls - length a + 1" "[0..<length ls - length a + 1] ! k = i"
    "list_all2 eq (take (length a) (drop i ls)) a"
    "\<forall>j < k. \<not> list_all2 eq (take (length a) (drop ([0..<length ls - length a + 1] ! j) ls)) a"
    using assms by (auto simp: find_window_def find_Some_iff simp del: upt_Suc)
  then have "k = i" by (simp del: upt_Suc)
  with k le show "i + length a \<le> length ls" "list_all2 eq (take (length a) (drop i ls)) a" by auto
  assume "j < i"
  with k \<open>k = i\<close> show "\<not> list_all2 eq (take (length a) (drop j ls)) a" by (simp del: upt_Suc)
qed

lemma find_window_split:
  assumes "find_window eq ls a = Some i" and "a \<noteq> []"
  shows "\<exists>mid post. ls = take i ls @ mid @ post \<and> length mid = length a \<and> list_all2 eq mid a"
proof (intro exI conjI)
  have "drop i ls = take (length a) (drop i ls) @ drop (length a) (drop i ls)"
    by (rule append_take_drop_id [symmetric])
  then show "ls = take i ls @ take (length a) (drop i ls) @ drop (length a) (drop i ls)"
    by (metis append_take_drop_id)
qed (use find_window_Some [OF assms] in simp_all)

lemma find_anchor_first:
  assumes "a \<noteq> []" and "\<forall>j < length pre. take (length a) (drop j (pre @ a @ post)) \<noteq> a"
  shows "find_anchor (pre @ a @ post) a = Some (length pre)"
proof (cases "find_anchor (pre @ a @ post) a")
  case None
  then have "\<forall>x \<in> set [0..<length (pre @ a @ post) - length a + 1].
      \<not> list_all2 (=) (take (length a) (drop x (pre @ a @ post))) a"
    using assms(1) by (simp add: find_anchor_def find_window_def find_None_iff del: upt_Suc split: if_splits)
  then have "\<not> list_all2 (=) (take (length a) (drop (length pre) (pre @ a @ post))) a"
    by (rule bspec) simp
  then show ?thesis by (simp add: list.rel_eq)
next
  case (Some i)
  have w: "take (length a) (drop i (pre @ a @ post)) = a"
    using find_window_Some(2) [OF Some [unfolded find_anchor_def] assms(1)] by (simp add: list.rel_eq)
  have "\<not> length pre < i"
    using find_window_Some(3) [OF Some [unfolded find_anchor_def] assms(1), of "length pre"]
    by (auto simp: list.rel_eq)
  moreover have "\<not> i < length pre" using assms(2) w by blast
  ultimately show ?thesis using Some by simp
qed

lemma or_else_Some: "or_else a b = Some x \<longleftrightarrow> a = Some x \<or> (a = None \<and> b = Some x)"
  by (cases a) (auto simp: or_else_def)

definition fuzzy_eq :: "string \<Rightarrow> string \<Rightarrow> bool" where
  "fuzzy_eq a b \<longleftrightarrow> trim_end a = trim_end b"

lemma list_all2_fuzzy: "list_all2 (=) xs ys \<Longrightarrow> list_all2 fuzzy_eq xs ys"
  by (simp add: list.rel_eq list_all2_refl fuzzy_eq_def)

lemma find_either:
  assumes "find_anchor ls a = Some i \<or> find_anchor_fuzzy ls a = Some i" and "a \<noteq> []"
  shows "\<exists>mid post. ls = take i ls @ mid @ post \<and> length mid = length a \<and> list_all2 fuzzy_eq mid a"
  using assms(1)
proof
  assume "find_anchor ls a = Some i"
  from find_window_split [OF this [unfolded find_anchor_def] assms(2)] list_all2_fuzzy show ?thesis by blast
next
  assume "find_anchor_fuzzy ls a = Some i"
  from find_window_split [OF this [unfolded find_anchor_fuzzy_def] assms(2)]
  show ?thesis unfolding fuzzy_eq_def by simp
qed

text \<open>The core of a hunk heads its full window.\<close>

lemma window_prefix:
  assumes "\<exists>mid post. ls = take i ls @ mid @ post \<and> length mid = length (a @ b) \<and> list_all2 P mid (a @ b)"
  shows "\<exists>mid post. ls = take i ls @ mid @ post \<and> length mid = length a \<and> list_all2 P mid a"
proof -
  from assms obtain mid post where m: "ls = take i ls @ mid @ post" "list_all2 P mid (a @ b)" by blast
  from m(2) obtain u v where "mid = u @ v" "list_all2 P u a" by (auto simp: list_all2_append2)
  with m(1) show ?thesis by (intro exI [of _ u] exI [of _ "v @ post"]) (auto dest: list_all2_lengthD)
qed

lemma hunk_window:
  assumes "apply_hunk idx h ls = Inr ls'" and "context_before h \<noteq> [] \<or> old_lines h \<noteq> []"
  shows "\<exists>i mid post. ls = take i ls @ mid @ post \<and> length mid = length (context_before h @ old_lines h) \<and>
     list_all2 fuzzy_eq mid (context_before h @ old_lines h) \<and>
     ls' = splice ls i (i + length (context_before h @ old_lines h)) (context_before h @ new_lines h)"
proof -
  let ?core = "context_before h @ old_lines h"
  have ne: "?core \<noteq> []" using assms(2) by simp
  have win: "(\<exists>mid post. ls = take i ls @ mid @ post \<and> length mid = length ?core \<and> list_all2 fuzzy_eq mid ?core)"
    if "find_anchor ls (?core @ context_after h) = Some i \<or> find_anchor_fuzzy ls (?core @ context_after h) = Some i
      \<or> find_anchor ls ?core = Some i \<or> find_anchor_fuzzy ls ?core = Some i" for i
  proof -
    have ne': "?core @ context_after h \<noteq> []" using ne by auto
    from that consider (full) "find_anchor ls (?core @ context_after h) = Some i \<or>
        find_anchor_fuzzy ls (?core @ context_after h) = Some i"
      | (core) "find_anchor ls ?core = Some i \<or> find_anchor_fuzzy ls ?core = Some i" by blast
    then show ?thesis
    proof cases
      case full
      show ?thesis by (rule window_prefix [OF find_either [OF full ne']])
    next
      case core
      show ?thesis by (rule find_either [OF core ne])
    qed
  qed
  obtain i where i: "core_position h ls = Some i"
    and "ls' = splice ls i (i + length ?core) (context_before h @ new_lines h)"
    using assms by (cases "core_position h ls") (auto simp: apply_hunk_def Let_def)
  moreover from i have "find_anchor ls (?core @ context_after h) = Some i \<or>
      find_anchor_fuzzy ls (?core @ context_after h) = Some i \<or>
      find_anchor ls ?core = Some i \<or> find_anchor_fuzzy ls ?core = Some i"
    unfolding core_position_def Let_def by (simp only: or_else_Some split: if_splits) blast+
  ultimately show ?thesis using win [of i] by blast
qed

section \<open>Joining lines\<close>

lemma str_lines_no_cr:
  assumes "CHR 0x0D \<notin> set s"
  shows "str_lines s = (let ps = split_on (CHR 0x0A) s in if last ps = [] then butlast ps else ps)"
proof -
  have "strip_cr l = l" if "l \<in> set (split_on (CHR 0x0A) s)" for l
  proof -
    have "CHR 0x0D \<notin> set (join [CHR 0x0A] (split_on (CHR 0x0A) s))" using assms by (simp add: join_split_on)
    moreover have "set l \<subseteq> set (join [CHR 0x0A] ps)" if "l \<in> set ps" for l :: string and ps
      using that by (induction ps rule: join.induct [of _ "[CHR 0x0A]"]) auto
    ultimately have "CHR 0x0D \<notin> set l" using that by blast
    then show ?thesis by (auto simp: strip_cr_def ends_with_iff)
  qed
  then have m: "map strip_cr (butlast (split_on (CHR 0x0A) s)) = butlast (split_on (CHR 0x0A) s)"
    by (intro map_idI) (auto dest: in_set_butlastD)
  show ?thesis unfolding str_lines_def Let_def m
    by (auto simp: append_butlast_last_id)
qed

lemma split_on_snoc: "split_on c (xs @ [c]) = split_on c xs @ [[]]"
  by (induction xs) (auto split: list.split)

lemma last_split_on: "last (split_on c xs) = [] \<longleftrightarrow> xs = [] \<or> last xs = c"
proof (cases xs rule: rev_cases)
  case (snoc ys y)
  show ?thesis
  proof (cases "y = c")
    case True
    with snoc show ?thesis by (simp add: split_on_snoc)
  next
    case False
    have "last (split_on c (ys @ [y])) \<noteq> []" if "y \<noteq> c" for ys
      using that by (induction ys) (auto split: list.split)
    with False snoc show ?thesis by simp
  qed
qed simp

lemma join_str_lines:
  assumes "CHR 0x0D \<notin> set s"
  shows "join [CHR 0x0A] (str_lines s) = (if ends_with s [CHR 0x0A] then butlast s else s)"
proof (cases s rule: rev_cases)
  case (snoc t x)
  show ?thesis
  proof (cases "x = CHR 0x0A")
    case True
    with snoc have "str_lines s = split_on (CHR 0x0A) t"
      using str_lines_no_cr [OF assms] by (simp add: split_on_snoc Let_def)
    with True snoc show ?thesis by (simp add: join_split_on)
  next
    case False
    with snoc have "str_lines s = split_on (CHR 0x0A) s"
      using str_lines_no_cr [OF assms] last_split_on [of "CHR 0x0A" s] by (simp add: Let_def)
    with False snoc show ?thesis by (simp add: join_split_on ends_with_iff)
  qed
qed (simp add: str_lines_def Let_def)

section \<open>The documented format\<close>

definition plain_line :: "string \<Rightarrow> bool" where
  "plain_line s \<longleftrightarrow> CHR 0x0A \<notin> set s \<and> \<not> ends_with s [CHR 0x0D]"

definition context_ok :: "string \<Rightarrow> bool" where
  "context_ok s \<longleftrightarrow> \<not> is_marker s \<and> \<not> is_hunk_header s"

definition hunk_ok :: "hunk \<Rightarrow> bool" where
  "hunk_ok h \<longleftrightarrow> list_all context_ok (context_before h) \<and> list_all context_ok (context_after h) \<and>
     (context_after h = [] \<or> old_lines h \<noteq> [] \<or> new_lines h \<noteq> []) \<and>
     list_all plain_line (context_before h @ old_lines h @ new_lines h @ context_after h)"

definition path_ok :: "string \<Rightarrow> bool" where
  "path_ok p \<longleftrightarrow> p \<noteq> [] \<and> trim p = p \<and> utf8_ok p \<and> plain_line p"

fun op_ok :: "patch_op \<Rightarrow> bool" where
  "op_ok (AddFile p c) \<longleftrightarrow> path_ok p \<and> list_all plain_line (split_on (CHR 0x0A) c)"
| "op_ok (UpdateFile p mv hs) \<longleftrightarrow> path_ok p \<and> \<not> contains_sub p ''->'' \<and>
     (case mv of None \<Rightarrow> True | Some q \<Rightarrow> path_ok q) \<and> hs \<noteq> [] \<and> list_all hunk_ok hs"
| "op_ok (DeleteFile p) \<longleftrightarrow> path_ok p"

definition hunk_text :: "hunk \<Rightarrow> string list" where
  "hunk_text h = ''@@'' # map (Cons (CHR '' '')) (context_before h) @ map (Cons (CHR ''-'')) (old_lines h) @
     map (Cons (CHR ''+'')) (new_lines h) @ map (Cons (CHR '' '')) (context_after h)"

fun op_text :: "patch_op \<Rightarrow> string list" where
  "op_text (AddFile p c) = (''*** Add File: '' @ p) # map (Cons (CHR ''+'')) (split_on (CHR 0x0A) c)"
| "op_text (UpdateFile p mv hs) =
     (''*** Update File: '' @ p @ (case mv of None \<Rightarrow> [] | Some q \<Rightarrow> '' -> '' @ q)) # concat (map hunk_text hs)"
| "op_text (DeleteFile p) = [''*** Delete File: '' @ p]"

definition patch_text :: "patch_op list \<Rightarrow> string" where
  "patch_text ops =
     join [CHR 0x0A] (''*** Begin Patch'' # concat (map op_text ops) @ [''*** End Patch''])"

text \<open>Which lines end a block.\<close>

lemma nonspace [simp]: "\<not> is_whitespace ''-''" "\<not> is_whitespace ''+''" "\<not> is_whitespace ''*''"
  by (simp_all add: is_whitespace_def ws_chars_def)

lemma sign_lines [simp]:
  "\<not> is_marker (CHR ''-'' # s)" "\<not> is_hunk_header (CHR ''-'' # s)"
  "\<not> is_marker (CHR ''+'' # s)" "\<not> is_hunk_header (CHR ''+'' # s)"
proof -
  obtain u v where "trim (CHR ''-'' # s) = CHR ''-'' # u" "trim (CHR ''+'' # s) = CHR ''+'' # v"
    using trim_Cons_nonspace [of "CHR ''-''" s] trim_Cons_nonspace [of "CHR ''+''" s] by auto
  then show "\<not> is_marker (CHR ''-'' # s)" "\<not> is_hunk_header (CHR ''-'' # s)"
    "\<not> is_marker (CHR ''+'' # s)" "\<not> is_hunk_header (CHR ''+'' # s)"
    by (simp_all add: is_marker_def is_hunk_header_def starts_with_Cons)
qed

lemma space_lines [simp]:
  "is_marker (CHR '' '' # s) = is_marker s" "is_hunk_header (CHR '' '' # s) = is_hunk_header s"
  by (simp_all add: is_marker_def is_hunk_header_def)

lemma trim_at: "trim ''@@'' = ''@@''"
  by code_simp

lemma header_line [simp]: "\<not> is_marker ''@@''" "is_hunk_header ''@@''"
  by (simp_all add: is_marker_def is_hunk_header_def trim_at starts_with_Cons)

lemma strip_prefix_Cons: "strip_prefix [c] (x # s) = (if x = c then Some s else None)"
  by (simp add: strip_prefix_def starts_with_Cons)

text \<open>The segments of a hunk body, one after the other.\<close>

lemma body_context_before:
  "list_all context_ok cb \<Longrightarrow> hunk_body (h, False, False) (map (Cons (CHR '' '')) cb @ rest) =
     hunk_body (h\<lparr>context_before := context_before h @ cb\<rparr>, False, False) rest"
  by (induction cb arbitrary: h)
    (simp_all add: hunk_line_def hunk_context_def strip_prefix_Cons context_ok_def Let_def)

lemma body_old:
  "hunk_body (h, i, p) (map (Cons (CHR ''-'')) ol @ rest) =
     hunk_body (h\<lparr>old_lines := old_lines h @ ol\<rparr>, ol \<noteq> [] \<or> i, ol = [] \<and> p) rest"
  by (induction ol arbitrary: h i p) (simp_all add: hunk_line_def strip_prefix_Cons Let_def)

lemma body_new:
  "hunk_body (h, i, p) (map (Cons (CHR ''+'')) nl @ rest) =
     hunk_body (h\<lparr>new_lines := new_lines h @ nl\<rparr>, nl \<noteq> [] \<or> i, nl = [] \<and> p) rest"
  by (induction nl arbitrary: h i p) (simp_all add: hunk_line_def strip_prefix_Cons Let_def)

lemma body_context_after:
  "list_all context_ok ca \<Longrightarrow> i \<or> p \<or> ca = [] \<Longrightarrow> hunk_body (h, i, p) (map (Cons (CHR '' '')) ca @ rest) =
     hunk_body (h\<lparr>context_after := context_after h @ ca\<rparr>, ca = [] \<and> i, ca \<noteq> [] \<or> p) rest"
  by (induction ca arbitrary: h i p)
    (simp_all add: hunk_line_def hunk_context_def strip_prefix_Cons context_ok_def Let_def)

lemma body_end: "rest = [] \<or> is_marker (hd rest) \<or> is_hunk_header (hd rest) \<Longrightarrow> hunk_body st rest = (fst st, rest)"
  by (cases rest) auto

lemma hunk_body_text:
  assumes "hunk_ok h" and "rest = [] \<or> is_marker (hd rest) \<or> is_hunk_header (hd rest)"
  shows "hunk_body (empty_hunk, False, False) (tl (hunk_text h) @ rest) = (h, rest)"
proof (cases "context_after h = []")
  case True
  with assms show ?thesis
    by (simp add: hunk_text_def hunk_ok_def empty_hunk_def body_context_before body_old body_new body_end)
next
  case False
  with assms(1) have ok: "list_all context_ok (context_before h)" "list_all context_ok (context_after h)"
    and "old_lines h \<noteq> [] \<or> new_lines h \<noteq> []" by (auto simp: hunk_ok_def)
  with ok have "hunk_body (empty_hunk, False, False) (tl (hunk_text h) @ rest) = hunk_body (h, False, True) rest"
    using False by (cases h) (auto simp: hunk_text_def empty_hunk_def body_context_before body_old body_new
        body_context_after)
  with body_end [OF assms(2)] show ?thesis by simp
qed

lemma parse_hunks_text:
  assumes "list_all hunk_ok hs" and "rest = [] \<or> is_marker (hd rest)"
  shows "parse_hunks (concat (map hunk_text hs) @ rest) = (hs, rest)"
  using assms(1)
proof (induction hs)
  case Nil
  with assms(2) show ?case by (cases rest) auto
next
  case (Cons h hs)
  let ?rest = "concat (map hunk_text hs) @ rest"
  have "?rest = [] \<or> is_marker (hd ?rest) \<or> is_hunk_header (hd ?rest)"
    using assms(2) by (cases hs) (auto simp: hunk_text_def)
  then have "hunk_body (empty_hunk, False, False) (tl (hunk_text h) @ ?rest) = (h, ?rest)"
    using Cons.prems by (intro hunk_body_text) auto
  moreover have "concat (map hunk_text (h # hs)) @ rest = ''@@'' # tl (hunk_text h) @ ?rest"
    by (simp add: hunk_text_def)
  moreover have "parse_hunks ?rest = (hs, rest)" using Cons by simp
  ultimately show ?case by (simp only: parse_hunks.simps header_line if_True if_False Let_def prod.case)
qed

lemma add_content_text:
  "rest = [] \<or> is_marker (hd rest) \<Longrightarrow>
     add_content acc (map (Cons (CHR ''+'')) xs @ rest) = Inr (acc @ xs, rest)"
  by (induction xs arbitrary: acc; cases rest) (auto simp: strip_prefix_Cons)

text \<open>Header lines.\<close>

lemma op_header:
  assumes "path_ok p"
  shows "trim (''*** Add File: '' @ p) = ''*** Add File: '' @ p"
    and "trim (''*** Update File: '' @ p) = ''*** Update File: '' @ p"
    and "trim (''*** Delete File: '' @ p) = ''*** Delete File: '' @ p"
  using assms trim_keeps_ends [of "CHR ''*''" "''** Add File: ''" p]
    trim_keeps_ends [of "CHR ''*''" "''** Update File: ''" p]
    trim_keeps_ends [of "CHR ''*''" "''** Delete File: ''" p]
  by (simp_all add: path_ok_def)

text \<open>The rest of an update header: a path, or two around an arrow.\<close>

definition target_text :: "string \<Rightarrow> string option \<Rightarrow> string" where
  "target_text p mv = p @ (case mv of None \<Rightarrow> [] | Some q \<Rightarrow> '' -> '' @ q)"

lemma target_text_ok:
  assumes "path_ok p" and "case mv of None \<Rightarrow> True | Some q \<Rightarrow> path_ok q"
  shows "target_text p mv \<noteq> []" and "trim (target_text p mv) = target_text p mv"
  using assms trim_sandwich [of p "'' -> ''"] by (auto simp: target_text_def path_ok_def split: option.splits)

lemma find_arrow:
  "\<not> contains_sub p ''->'' \<Longrightarrow> find_sub ''->'' (p @ '' -> '' @ q) = Some (length p + 1)"
proof (induction p)
  case Nil
  show ?case by (simp add: starts_with_Cons)
next
  case (Cons x p)
  have "\<not> contains_sub p ''->''" using Cons.prems by (auto simp: contains_sub_def split: if_splits)
  moreover have "\<not> starts_with (x # p @ '' -> '' @ q) ''->''"
    using Cons.prems by (cases p) (auto simp: starts_with_Cons contains_sub_def)
  ultimately show ?case using Cons.IH by simp
qed

lemma split_arrow_text:
  assumes "path_ok p" and "\<not> contains_sub p ''->''" and "case mv of None \<Rightarrow> True | Some q \<Rightarrow> path_ok q"
  shows "split_arrow (target_text p mv) = (p, mv)"
proof (cases mv)
  case None
  with assms show ?thesis by (simp add: split_arrow_def target_text_def contains_sub_def)
next
  case (Some q)
  have "trim (p @ '' '') = p" using assms(1) trim_space_after by (simp add: path_ok_def)
  moreover have "trim q = q" using assms(3) Some by (simp add: path_ok_def)
  ultimately show ?thesis
    using find_arrow [OF assms(2), of q] by (simp add: split_arrow_def target_text_def Some)
qed

text \<open>Each operation is read back.\<close>

lemma body_op:
  assumes "op_ok p" and "rest = [] \<or> is_marker (hd rest)"
  shows "parse_body (op_text p @ rest) ops = parse_body rest (ops @ [p])"
proof (cases p)
  case (AddFile path c)
  with assms have "path_ok path" by simp
  note h = op_header [OF this] and t = this [unfolded path_ok_def]
  have "parse_body (op_text p @ rest) ops =
      parse_body ((''*** Add File: '' @ path) # map (Cons (CHR ''+'')) (split_on (CHR 0x0A) c) @ rest) ops"
    by (simp add: AddFile)
  also have "\<dots> = parse_body rest (ops @ [p])"
    unfolding parse_body.simps Let_def h(1)
    using t add_content_text [OF assms(2), of "[]" "split_on (CHR 0x0A) c"]
    by (simp add: after_prefix_def join_split_on AddFile starts_with_Cons)
  finally show ?thesis .
next
  case (UpdateFile path mv hs)
  with assms have ok: "path_ok path" "\<not> contains_sub path ''->''"
    "case mv of None \<Rightarrow> True | Some q \<Rightarrow> path_ok q" "hs \<noteq> []" "list_all hunk_ok hs" by simp_all
  note t = target_text_ok [OF ok(1,3)]
  have "trim (''*** Update File: '' @ target_text path mv) = ''*** Update File: '' @ target_text path mv"
    using trim_keeps_ends [of "CHR ''*''" "''** Update File: ''" "target_text path mv"] t by simp
  note h = this
  have "parse_body (op_text p @ rest) ops =
      parse_body ((''*** Update File: '' @ target_text path mv) # concat (map hunk_text hs) @ rest) ops"
    by (simp add: UpdateFile target_text_def)
  also have "\<dots> = parse_body rest (ops @ [p])"
    unfolding parse_body.simps Let_def h
    using t ok(1,4) split_arrow_text [OF ok(1-3)] parse_hunks_text [OF ok(5) assms(2)]
    by (simp add: after_prefix_def UpdateFile starts_with_Cons path_ok_def)
  finally show ?thesis .
next
  case (DeleteFile path)
  with assms have "path_ok path" by simp
  note h = op_header [OF this] and t = this [unfolded path_ok_def]
  have "parse_body (op_text p @ rest) ops = parse_body ((''*** Delete File: '' @ path) # rest) ops"
    by (simp add: DeleteFile)
  also have "\<dots> = parse_body rest (ops @ [p])"
    unfolding parse_body.simps Let_def h(3) using t
    by (simp add: after_prefix_def DeleteFile starts_with_Cons)
  finally show ?thesis .
qed

lemma op_text_marker:
  assumes "op_ok p"
  shows "op_text p \<noteq> [] \<and> is_marker (hd (op_text p))"
proof (cases p)
  case (AddFile path c)
  with assms op_header [of path] show ?thesis by (simp add: is_marker_def starts_with_Cons)
next
  case (UpdateFile path mv hs)
  with assms trim_keeps_ends [of "CHR ''*''" "''** Update File: ''" "target_text path mv"] target_text_ok [of path mv]
  show ?thesis by (simp add: is_marker_def starts_with_Cons target_text_def)
next
  case (DeleteFile path)
  with assms op_header [of path] show ?thesis by (simp add: is_marker_def starts_with_Cons)
qed

lemma parse_body_text: "list_all op_ok ps \<Longrightarrow> parse_body (concat (map op_text ps)) ops = Inr (ops @ ps)"
proof (induction ps arbitrary: ops)
  case (Cons p ps)
  have "concat (map op_text ps) = [] \<or> is_marker (hd (concat (map op_text ps)))"
    using Cons.prems op_text_marker by (cases ps) (auto simp: hd_append)
  with body_op [of p "concat (map op_text ps)" ops] Cons show ?case by simp
qed simp

text \<open>No line of a written patch holds a line break.\<close>

lemma plain_Cons: "plain_line s \<Longrightarrow> c \<noteq> CHR 0x0A \<Longrightarrow> c \<noteq> CHR 0x0D \<Longrightarrow> plain_line (c # s)"
  by (cases s rule: rev_cases) (auto simp: plain_line_def ends_with_iff Cons_eq_append_conv)

lemma plain_append: "CHR 0x0A \<notin> set a \<Longrightarrow> b \<noteq> [] \<Longrightarrow> plain_line b \<Longrightarrow> plain_line (a @ b)"
  by (cases b rule: rev_cases) (auto simp: plain_line_def ends_with_iff)

lemma plain_header: "plain_line ''@@''"
  by (simp add: plain_line_def ends_with_def)

lemma plain_hunk: "hunk_ok h \<Longrightarrow> l \<in> set (hunk_text h) \<Longrightarrow> plain_line l"
  by (auto simp: hunk_text_def hunk_ok_def list_all_iff plain_header intro: plain_Cons)

lemma plain_op:
  assumes "op_ok p" and "l \<in> set (op_text p)"
  shows "plain_line l"
proof (cases p)
  case (AddFile path c)
  with assms show ?thesis
    using plain_append [of "''*** Add File: ''" path]
    by (auto simp: path_ok_def list_all_iff intro: plain_Cons)
next
  case (UpdateFile path mv hs)
  with assms have ok: "path_ok path" "case mv of None \<Rightarrow> True | Some q \<Rightarrow> path_ok q" by simp_all
  have "plain_line (target_text path mv)"
    using ok plain_append [of "path @ '' -> ''"]
    by (auto simp: target_text_def path_ok_def plain_line_def split: option.splits)
  then have "plain_line (''*** Update File: '' @ target_text path mv)"
    using target_text_ok [OF ok] by (intro plain_append) simp_all
  with UpdateFile assms plain_hunk show ?thesis by (auto simp: target_text_def list_all_iff)
next
  case (DeleteFile path)
  with assms show ?thesis
    using plain_append [of "''*** Delete File: ''" path] by (auto simp: path_ok_def)
qed

lemma str_lines_join:
  assumes "ls \<noteq> []" and "last ls \<noteq> []" and "\<And>l. l \<in> set ls \<Longrightarrow> plain_line l"
  shows "str_lines (join [CHR 0x0A] ls) = ls"
proof -
  have s: "split_on (CHR 0x0A) (join [CHR 0x0A] ls) = ls"
    using assms by (intro split_on_join) (auto simp: plain_line_def)
  have "map strip_cr (butlast ls) = butlast ls"
    by (intro map_idI) (use assms(3) in \<open>auto simp: strip_cr_def plain_line_def dest: in_set_butlastD\<close>)
  then show ?thesis using assms(1,2) by (simp add: str_lines_def s Let_def)
qed

section \<open>Which files change\<close>

fun op_paths :: "patch_op \<Rightarrow> string set" where
  "op_paths (AddFile p c) = {p}"
| "op_paths (UpdateFile p mv hs) = insert p (set_option mv)"
| "op_paths (DeleteFile p) = {p}"

definition same_but :: "string set \<Rightarrow> files \<Rightarrow> files \<Rightarrow> bool" where
  "same_but S fs fs' \<longleftrightarrow> (\<forall>p. p \<notin> S \<longrightarrow> fs' p = fs p)"

lemma same_but_refl [simp]: "same_but S fs fs"
  by (simp add: same_but_def)

lemma same_but_trans: "same_but S fs fs' \<Longrightarrow> same_but S fs' fs'' \<Longrightarrow> same_but S fs fs''"
  by (simp add: same_but_def)

lemma same_but_mono: "same_but S fs fs' \<Longrightarrow> S \<subseteq> T \<Longrightarrow> same_but T fs fs'"
  by (auto simp: same_but_def)

lemma write_same: "p \<in> S \<Longrightarrow> same_but S fs (fst (write_file e fs p c))"
  by (auto simp: write_file_def same_but_def split: option.split)

lemma remove_same: "remove_file e fs p = Inr fs' \<Longrightarrow> p \<in> S \<Longrightarrow> same_but S fs fs'"
  by (auto simp: remove_file_def same_but_def split: option.splits if_splits)

lemma finish_move_same: "p \<in> S \<Longrightarrow> same_but S (fst st) (fst (finish_move e p st))"
  by (auto simp: finish_move_def split: prod.split sum.split dest: remove_same)

lemma write_target_same:
  assumes "resolved \<in> S" and "target \<in> S"
  shows "same_but S (fst st) (fst (write_target e path moving resolved target patched st))"
proof (cases "make_parent e target")
  case None
  obtain fs' err where w: "write_file e (fst st) target patched = (fs', err)" by fastforce
  have "same_but S (fst st) fs'" using write_same [OF assms(2), of "fst st" e patched] w by simp
  then show ?thesis
    using w None finish_move_same [OF assms(1), of "(fs', snd st)" e] same_but_trans
    by (auto simp: write_target_def case_prod_beta split: option.split)
qed (simp add: write_target_def case_prod_beta)

definition resolved_paths :: "patch_env \<Rightarrow> patch_op list \<Rightarrow> string set" where
  "resolved_paths e ops = {r. \<exists>p \<in> set ops. \<exists>raw \<in> op_paths p. resolve_path e raw = Inr r}"

lemma apply_op_same:
  "same_but (resolved_paths e [p]) (fst st) (fst (apply_op e st p))"
proof (cases p)
  case (AddFile path c)
  show ?thesis
  proof (cases "resolve_path e path")
    case (Inr r)
    then have "r \<in> resolved_paths e [p]" by (auto simp: resolved_paths_def AddFile)
    from write_same [OF this, of "fst st" e c] Inr AddFile show ?thesis
      by (auto simp: apply_add_def case_prod_beta split: option.split)
  qed (simp add: AddFile apply_add_def case_prod_beta)
next
  case (UpdateFile path mv hs)
  let ?S = "resolved_paths e [p]"
  have wt: "same_but ?S (fst s) (fst (write_target e path moving resolved target patched s))"
    if "resolve_path e path = Inr resolved" "target = resolved \<or> (\<exists>q. mv = Some q \<and> resolve_path e q = Inr target)"
    for s moving resolved target patched
    using that write_target_same [of resolved ?S target s e path moving patched]
    by (auto simp: resolved_paths_def UpdateFile)
  show ?thesis
  proof (cases "resolve_path e path")
    case (Inr resolved)
    note w = wt [OF Inr]
    show ?thesis
    proof (cases mv)
      case None
      show ?thesis
        using w [of resolved st False] Inr None
        by (simp add: UpdateFile apply_update_def case_prod_beta split: sum.split)
    next
      case (Some q)
      show ?thesis
        using w [of _ st True] Inr Some
        by (simp add: UpdateFile apply_update_def case_prod_beta split: sum.split)
    qed
  qed (simp add: UpdateFile apply_update_def case_prod_beta)
next
  case (DeleteFile path)
  then show ?thesis
    by (auto simp: apply_delete_def case_prod_beta resolved_paths_def split: sum.split dest: remove_same)
qed

lemma apply_ops_same:
  "same_but (resolved_paths e ops) (fst st) (fst (foldl (apply_op e) st ops))"
proof (induction ops arbitrary: st)
  case (Cons p ops)
  have "same_but (resolved_paths e (p # ops)) (fst st) (fst (apply_op e st p))"
    by (rule same_but_mono [OF apply_op_same]) (auto simp: resolved_paths_def)
  moreover have "same_but (resolved_paths e (p # ops)) (fst (apply_op e st p))
      (fst (foldl (apply_op e) (apply_op e st p) ops))"
    by (rule same_but_mono [OF Cons.IH]) (auto simp: resolved_paths_def)
  ultimately show ?case using same_but_trans by simp
qed simp

section \<open>Properties\<close>

text \<open>
  a hunk changes one window of the file only: when it applies, the file is some lines before,
  a window that matches the hunk's context and old lines up to trailing white space, and some
  lines after; the result has the context and the new lines in place of the window.
\<close>

theorem hunk_changes_one_window:
  assumes "apply_hunk idx h ls = Inr ls'"
  shows "\<exists>pre mid post. ls = pre @ mid @ post \<and>
     list_all2 (\<lambda>a b. trim_end a = trim_end b) mid (context_before h @ old_lines h) \<and>
     ls' = pre @ context_before h @ new_lines h @ post"
proof (cases "context_before h = [] \<and> old_lines h = []")
  case True
  then obtain i where i: "ls' = splice ls i i (new_lines h) \<or> ls' = ls @ new_lines h"
    using assms by (auto simp: apply_hunk_def split: if_splits option.splits)
  have "ls' = take i ls @ new_lines h @ drop i ls \<or> ls' = ls @ new_lines h @ []"
    using i by (simp add: splice_def)
  then show ?thesis
  proof
    assume "ls' = take i ls @ new_lines h @ drop i ls"
    with True show ?thesis
      by (intro exI [of _ "take i ls"] exI [of _ "[]"] exI [of _ "drop i ls"]) simp
  next
    assume "ls' = ls @ new_lines h @ []"
    with True show ?thesis by (intro exI [of _ ls] exI [of _ "[]"]) simp
  qed
next
  case False
  let ?core = "context_before h @ old_lines h"
  obtain i mid post where w: "ls = take i ls @ mid @ post" "length mid = length ?core"
    "list_all2 fuzzy_eq mid ?core"
    and r: "ls' = splice ls i (i + length ?core) (context_before h @ new_lines h)"
    using hunk_window [OF assms] False by blast
  have i: "length (take i ls) = i \<or> mid @ post = []"
  proof (cases "i \<le> length ls")
    case False
    then have "ls = ls @ mid @ post" using w(1) by simp
    then show ?thesis by simp
  qed simp
  have "drop (i + length ?core) ls = post"
  proof (cases "mid @ post = []")
    case True
    with w(2) False show ?thesis by simp
  next
    case ne: False
    with i have l: "length (take i ls) = i" by blast
    have "drop (i + length ?core) ls = drop (i + length ?core) (take i ls @ mid @ post)" using w(1) by simp
    also have "\<dots> = post" using l w(2) by simp
    finally show ?thesis .
  qed
  with r have "ls' = take i ls @ context_before h @ new_lines h @ post" by (simp add: splice_def)
  with w show ?thesis unfolding fuzzy_eq_def by blast
qed

text \<open>
  a hunk whose context, old lines and trailing context occur exactly in the file is applied
  at their first occurrence, and the trailing context stays.
\<close>

theorem exact_hunk_applied:
  fixes h :: hunk
  defines "window \<equiv> context_before h @ old_lines h @ context_after h"
  assumes "window \<noteq> []"
    and "\<forall>j < length pre. take (length window) (drop j (pre @ window @ post)) \<noteq> window"
  shows "apply_hunk idx h (pre @ window @ post)
    = Inr (pre @ context_before h @ new_lines h @ context_after h @ post)"
proof -
  have f: "find_anchor (pre @ window @ post) window = Some (length pre)"
    using find_anchor_first [OF assms(2,3)] .
  show ?thesis
  proof (cases "context_before h = [] \<and> old_lines h = []")
    case True
    with assms(2) f show ?thesis
      by (simp add: apply_hunk_def window_def or_else_def splice_def)
  next
    case False
    have "core_position h (pre @ window @ post) = Some (length pre)"
    proof (cases "context_after h = []")
      case True
      with f show ?thesis by (simp add: core_position_def Let_def window_def or_else_def)
    next
      case False
      with f show ?thesis by (simp add: core_position_def Let_def window_def or_else_def)
    qed
    moreover have "drop (length pre + (length (context_before h) + length (old_lines h))) (pre @ window @ post)
        = context_after h @ post" unfolding window_def by simp
    ultimately show ?thesis using False by (auto simp: apply_hunk_def Let_def splice_def)
  qed
qed

text \<open>
  round trip. A list of operations whose paths and lines can be written in the documented
  format is parsed back from its text.
\<close>

theorem parse_written_patch:
  assumes "ops \<noteq> []" and "\<forall>p \<in> set ops. op_ok p"
  shows "parse_patch (patch_text ops) = Inr ops"
proof -
  let ?body = "concat (map op_text ops)"
  let ?ls = "''*** Begin Patch'' # ?body @ [''*** End Patch'']"
  have tb: "trim ''*** Begin Patch'' = ''*** Begin Patch''" and te: "trim ''*** End Patch'' = ''*** End Patch''"
    by code_simp+
  have plain: "plain_line l" if "l \<in> set ?ls" for l
    using that assms(2) plain_op by (auto simp: plain_line_def ends_with_def)
  have "str_lines (patch_text ops) = ?ls"
    unfolding patch_text_def by (rule str_lines_join) (use plain in auto)
  moreover have "rposition (\<lambda>l. trim l = ''*** End Patch'') ?ls = Some (length ?body + 1)"
    by (simp add: rposition_def te)
  moreover have "position (\<lambda>l. trim l = ''*** Begin Patch'') ?ls = Some 0" by (simp add: tb)
  moreover have "parse_body ?body [] = Inr ops"
    using parse_body_text [of ops "[]"] assms(2) by (simp add: list_all_iff)
  ultimately show ?thesis using assms(1) unfolding parse_patch_def by (simp add: Let_def)
qed

text \<open>
  confinement. Applying a patch changes no file but those to which one of its paths
  resolves, whatever system calls fail.
\<close>

theorem apply_patch_confined:
  assumes "fst (apply_patch e fs ops) path \<noteq> fs path"
  shows "\<exists>p \<in> set ops. \<exists>raw \<in> op_paths p. resolve_path e raw = Inr path"
proof -
  have "path \<in> resolved_paths e ops"
    using apply_ops_same [of e ops "(fs, empty_result)"] assms
    unfolding apply_patch_def same_but_def by (metis fst_conv)
  then show ?thesis unfolding resolved_paths_def by blast
qed

text \<open>
  what a patch without effect does to a file with plain line ends: the file is kept, except
  that a file ending in an empty line loses that line.
\<close>

theorem rewriting_drops_blank_line:
  assumes "CHR 0x0D \<notin> set content"
  shows "apply_hunks content [] =
    Inr (if ends_with content [CHR 0x0A, CHR 0x0A] then butlast content else content)"
proof -
  have nl: "\<not> contains_sub content [CHR 0x0D, CHR 0x0A]" using assms by (auto simp: contains_sub_iff)
  show ?thesis
  proof (cases content rule: rev_cases)
    case (snoc t x)
    have "ends_with (t @ [x]) [CHR 0x0A, CHR 0x0A] \<longleftrightarrow> x = CHR 0x0A \<and> ends_with t [CHR 0x0A]"
      by (cases t rule: rev_cases) (auto simp: ends_with_iff)
    moreover have "ends_with (t @ [x]) [CHR 0x0A] \<longleftrightarrow> x = CHR 0x0A" by (auto simp: ends_with_iff)
    ultimately show ?thesis
      using nl join_str_lines [OF assms] unfolding snoc
      by (simp add: apply_hunks_def Let_def split: if_splits)
  qed (simp add: apply_hunks_def Let_def contains_sub_def str_lines_def ends_with_def)
qed

section \<open>Witnesses\<close>

definition sample_hunk :: hunk where
  "sample_hunk = \<lparr>context_before = [''a''], old_lines = [''b''], new_lines = [''c''], context_after = [''d'']\<rparr>"

theorem exact_hunk_applied_witness:
  "apply_hunk 0 sample_hunk ([''x''] @ [''a'', ''b'', ''d''] @ []) = Inr [''x'', ''a'', ''c'', ''d'']"
  using exact_hunk_applied [of sample_hunk "[''x'']" "[]" 0] by (simp add: sample_hunk_def)

theorem hunk_changes_one_window_witness:
  "\<exists>pre mid post. [''a'', ''b'', ''d''] = pre @ mid @ post \<and>
     list_all2 (\<lambda>a b. trim_end a = trim_end b) mid (context_before sample_hunk @ old_lines sample_hunk) \<and>
     [''a'', ''c'', ''d''] = pre @ context_before sample_hunk @ new_lines sample_hunk @ post"
  by (rule hunk_changes_one_window [of 0])
    (simp add: apply_hunk_def core_position_def sample_hunk_def or_else_def find_anchor_def find_window_def
      splice_def)

definition sample_op :: patch_op where
  "sample_op = UpdateFile ''a.rs'' (Some ''b.rs'') [sample_hunk]"

theorem parse_written_patch_witness: "parse_patch (patch_text [sample_op]) = Inr [sample_op]"
proof (rule parse_written_patch)
  show "\<forall>p \<in> set [sample_op]. op_ok p" by code_simp
qed simp

definition open_env :: patch_env where
  "open_env = \<lparr>resolve_path = (\<lambda>p. Inr (''/w/'' @ p)), make_parent = (\<lambda>_. None), write_error = (\<lambda>_. None),
     read_error = (\<lambda>_. None), remove_error = (\<lambda>_. None), not_found = ''not found'', show_parent = (\<lambda>p. p)\<rparr>"

theorem apply_patch_confined_witness:
  "\<exists>p \<in> set [DeleteFile ''a'']. \<exists>raw \<in> op_paths p. resolve_path open_env raw = Inr ''/w/a''"
  by (rule apply_patch_confined [where fs = "[''/w/a'' \<mapsto> ''x'']"])
    (simp add: apply_patch_def apply_delete_def remove_file_def open_env_def)

theorem rewriting_drops_blank_line_witness:
  "apply_hunks [CHR ''a'', CHR 0x0A, CHR 0x0A] [] = Inr [CHR ''a'', CHR 0x0A]"
  using rewriting_drops_blank_line [of "[CHR ''a'', CHR 0x0A, CHR 0x0A]"] by (simp add: ends_with_def)

end
