(* ===== verification/Workflow.thy ===== *)
theory Workflow
  imports Rh_Prelude
begin

text \<open>
  The workflow engine of \<open>kernel/src/workflow.rs\<close>: definitions, runs, the expansion of prompt
  templates and the execution of a run.

  What the engine does not own is the record \<open>wf_env\<close>: the agent resolver and the message sender
  are closures of the caller, \<open>to_lowercase\<close> is a Unicode table. The outcome of a message is a
  value (\<open>reply\<close>): an answer, an error, or the elapsed timeout. It may depend on the agent, the
  prompt and the number of messages sent before (\<open>ex_sent\<close>), so every behaviour of the agents is
  some \<open>send_message\<close>. Clock readings are indexed in the same way. A future that is built but not
  polled has no effect, so a fan-out batch whose resolution fails sends nothing. UUIDs are
  numbers, the two hash maps are tables because both are iterated.
\<close>

section \<open>Data\<close>

datatype step_agent = ById string | ByName string

datatype step_mode =
    Sequential | FanOut | Collect
  | Conditional string
  | Loop_until nat string

datatype on_error = Fail | Skip | Retry nat

datatype run_state = RunPending | RunRunning | RunCompleted | RunFailed

record wf_step =
  step_name :: string
  step_agent :: step_agent
  prompt_template :: string
  step_mode :: step_mode
  step_timeout :: nat
  error_mode :: on_error
  output_var :: "string option"

record workflow =
  wf_id :: nat
  wf_name :: string
  wf_description :: string
  wf_steps :: "wf_step list"
  wf_created :: nat

record step_result =
  sr_step :: string
  sr_agent_id :: string
  sr_agent :: string
  sr_output :: string
  sr_in_tokens :: nat
  sr_out_tokens :: nat
  sr_duration :: nat

record wf_run =
  run_id :: nat
  run_workflow :: nat
  run_wf_name :: string
  run_input :: string
  run_st :: run_state
  step_results :: "step_result list"
  run_output :: "string option"
  run_error :: "string option"
  run_started :: nat
  run_completed_at :: "nat option"

record wf_engine =
  workflows :: "(nat, workflow) table"
  runs :: "(nat, wf_run) table"
  persists :: bool
  wf_disk :: "string option"

definition default_timeout :: nat where "default_timeout = 120"

definition new_engine :: wf_engine where
  "new_engine = \<lparr>workflows = [], runs = [], persists = False, wf_disk = None\<rparr>"

section \<open>Definitions and their persistence\<close>

text \<open>
  \<open>encode\<close>/\<open>decode\<close> are the JSON codec of the definitions; \<open>io\<close> says whether the write of the
  temporary file and its rename succeed. The file only changes when all of it does.
\<close>

definition persist_workflows :: "(workflow list \<Rightarrow> string option) \<Rightarrow> bool \<times> bool \<Rightarrow> wf_engine \<Rightarrow> wf_engine" where
  "persist_workflows encode io e =
     (if \<not> persists e then e
      else case encode (map snd (workflows e)) of
        None \<Rightarrow> e
      | Some data \<Rightarrow> if fst io \<and> snd io then e\<lparr>wf_disk := Some data\<rparr> else e)"

text \<open>\<open>disk\<close> is the content of the file, \<open>readable\<close> whether reading it succeeds.\<close>

definition with_persistence ::
    "(string \<Rightarrow> workflow list option) \<Rightarrow> bool \<Rightarrow> string option \<Rightarrow> wf_engine" where
  "with_persistence decode readable disk =
     (let e = \<lparr>workflows = [], runs = [], persists = True, wf_disk = disk\<rparr> in
      case disk of
        None \<Rightarrow> e
      | Some data \<Rightarrow>
          (if \<not> readable then e
           else case decode data of
             None \<Rightarrow> e
           | Some loaded \<Rightarrow> e\<lparr>workflows := fold (\<lambda>w. tab_put (wf_id w) w) loaded []\<rparr>))"

definition register :: "(workflow list \<Rightarrow> string option) \<Rightarrow> bool \<times> bool \<Rightarrow> workflow \<Rightarrow> wf_engine
    \<Rightarrow> wf_engine \<times> nat" where
  "register encode io w e =
     (persist_workflows encode io (e\<lparr>workflows := tab_put (wf_id w) w (workflows e)\<rparr>), wf_id w)"

text \<open>\<open>w_lock\<close>, \<open>r_lock\<close>: whether \<open>try_write\<close> and \<open>try_read\<close> get the lock.\<close>

definition persist_blocking :: "(workflow list \<Rightarrow> string option) \<Rightarrow> bool \<Rightarrow> bool \<times> bool \<Rightarrow> wf_engine
    \<Rightarrow> wf_engine" where
  "persist_blocking encode r_lock io e =
     (if \<not> persists e then e else if \<not> r_lock then e else persist_workflows encode io e)"

definition register_blocking :: "(workflow list \<Rightarrow> string option) \<Rightarrow> bool \<Rightarrow> bool \<Rightarrow> bool \<times> bool
    \<Rightarrow> workflow \<Rightarrow> wf_engine \<Rightarrow> wf_engine \<times> nat" where
  "register_blocking encode w_lock r_lock io w e =
     (if \<not> w_lock then (e, wf_id w)
      else (persist_blocking encode r_lock io
              (e\<lparr>workflows := tab_put (wf_id w) w (workflows e)\<rparr>), wf_id w))"

definition list_workflows :: "wf_engine \<Rightarrow> workflow list" where
  "list_workflows e = map snd (workflows e)"

definition get_workflow :: "wf_engine \<Rightarrow> nat \<Rightarrow> workflow option" where
  "get_workflow e i = map_of (workflows e) i"

definition remove_workflow :: "(workflow list \<Rightarrow> string option) \<Rightarrow> bool \<times> bool \<Rightarrow> nat \<Rightarrow> wf_engine
    \<Rightarrow> wf_engine \<times> bool" where
  "remove_workflow encode io i e =
     (let removed = map_of (workflows e) i \<noteq> None;
          e' = e\<lparr>workflows := tab_del i (workflows e)\<rparr> in
      (if removed then persist_workflows encode io e' else e', removed))"

section \<open>Runs\<close>

definition max_retained_runs :: nat where "max_retained_runs = 200"

definition run_terminal :: "wf_run \<Rightarrow> bool" where
  "run_terminal r \<longleftrightarrow> run_st r = RunCompleted \<or> run_st r = RunFailed"

definition run_open :: "wf_run \<Rightarrow> bool" where
  "run_open r \<longleftrightarrow> run_st r = RunRunning \<or> run_st r = RunPending"

definition evictable :: "(nat, wf_run) table \<Rightarrow> (nat \<times> nat) list" where
  "evictable rs = sort_key snd
     (map (\<lambda>(i, r). (i, run_started r)) (filter (\<lambda>(i, r). run_terminal r) rs))"

definition evict_runs :: "(nat, wf_run) table \<Rightarrow> (nat, wf_run) table" where
  "evict_runs rs =
     (if max_retained_runs < length rs
      then fold (\<lambda>(i, _). tab_del i) (take (length rs - max_retained_runs) (evictable rs)) rs
      else rs)"

definition new_run :: "nat \<Rightarrow> nat \<Rightarrow> workflow \<Rightarrow> nat \<Rightarrow> string \<Rightarrow> wf_run" where
  "new_run now i w wid input =
     \<lparr>run_id = i, run_workflow = wid, run_wf_name = wf_name w, run_input = input,
      run_st = RunPending, step_results = [], run_output = None, run_error = None,
      run_started = now, run_completed_at = None\<rparr>"

definition create_run :: "nat \<Rightarrow> nat \<Rightarrow> nat \<Rightarrow> string \<Rightarrow> wf_engine \<Rightarrow> wf_engine \<times> nat option" where
  "create_run now fresh wid input e =
     (case map_of (workflows e) wid of
        None \<Rightarrow> (e, None)
      | Some w \<Rightarrow>
          (e\<lparr>runs := evict_runs (tab_put fresh (new_run now fresh w wid input) (runs e))\<rparr>,
           Some fresh))"

definition get_run :: "wf_engine \<Rightarrow> nat \<Rightarrow> wf_run option" where
  "get_run e i = map_of (runs e) i"

definition state_matches :: "string \<Rightarrow> wf_run \<Rightarrow> bool" where
  "state_matches f r =
     (if f = ''pending'' then run_st r = RunPending
      else if f = ''running'' then run_st r = RunRunning
      else if f = ''completed'' then run_st r = RunCompleted
      else if f = ''failed'' then run_st r = RunFailed
      else True)"

definition list_runs :: "string option \<Rightarrow> wf_engine \<Rightarrow> wf_run list" where
  "list_runs f e = filter (\<lambda>r. case f of None \<Rightarrow> True | Some s \<Rightarrow> state_matches s r)
     (map snd (runs e))"

text \<open>\<open>runs.get_mut(&run_id)\<close> and an update of what it finds.\<close>

fun tab_upd :: "'k \<Rightarrow> ('v \<Rightarrow> 'v) \<Rightarrow> ('k, 'v) table \<Rightarrow> ('k, 'v) table" where
  "tab_upd k f [] = []"
| "tab_upd k f ((j, v) # t) = (if j = k then (j, f v) # t else (j, v) # tab_upd k f t)"

definition upd_run :: "nat \<Rightarrow> (wf_run \<Rightarrow> wf_run) \<Rightarrow> wf_engine \<Rightarrow> wf_engine" where
  "upd_run i f e = e\<lparr>runs := tab_upd i f (runs e)\<rparr>"

definition fail_open :: "nat \<Rightarrow> string \<Rightarrow> wf_run \<Rightarrow> wf_run" where
  "fail_open now err r =
     (if run_open r
      then r\<lparr>run_st := RunFailed,
             run_error := (if run_error r = None then Some err else run_error r),
             run_completed_at := Some now\<rparr>
      else r)"

definition mark_run_failed :: "nat \<Rightarrow> nat \<Rightarrow> string \<Rightarrow> wf_engine \<Rightarrow> wf_engine" where
  "mark_run_failed now i err e = upd_run i (fail_open now err) e"

section \<open>Templates\<close>

abbreviation open_braces :: string where "open_braces \<equiv> ''{{''"
abbreviation close_braces :: string where "close_braces \<equiv> ''}}''"

definition hole_value :: "string \<Rightarrow> (string \<rightharpoonup> string) \<Rightarrow> string \<Rightarrow> string" where
  "hole_value input vars name =
     (let t = trim name in
      if t = ''input'' then input
      else case vars t of Some v \<Rightarrow> v | None \<Rightarrow> open_braces @ name @ close_braces)"

definition next_hole :: "string \<Rightarrow> nat option" where
  "next_hole t = (if starts_with t open_braces then find_sub close_braces (drop 2 t) else None)"

function expand_variables :: "string \<Rightarrow> string \<Rightarrow> (string \<rightharpoonup> string) \<Rightarrow> string" where
  "expand_variables [] input vars = []"
| "expand_variables (c # cs) input vars =
     (case next_hole (c # cs) of
        Some j \<Rightarrow> hole_value input vars (take j (drop 2 (c # cs)))
                    @ expand_variables (drop (j + 4) (c # cs)) input vars
      | None \<Rightarrow> (c # takeWhile is_cont cs) @ expand_variables (dropWhile is_cont cs) input vars)"
  by pat_completeness auto
termination
  by (relation "measure (\<lambda>(t, i, v). length t)") (auto simp: le_imp_less_Suc length_dropWhile_le)

section \<open>Execution\<close>

datatype reply = Replied string nat nat | Errored string | Elapsed

record wf_env =
  agent_resolver :: "nat \<Rightarrow> step_agent \<Rightarrow> (nat \<times> string) option"
  agent_text :: "nat \<Rightarrow> string"
  send_message :: "nat \<Rightarrow> nat \<Rightarrow> string \<Rightarrow> reply"
  wf_lower :: "string \<Rightarrow> string"
  elapsed_ms :: "nat \<Rightarrow> nat"
  wall_clock :: "nat \<Rightarrow> nat"

definition timed_out_msg :: "wf_step \<Rightarrow> string" where
  "timed_out_msg st = ''timed out after '' @ nat_str (step_timeout st) @ ''s''"

text \<open>The retry loop \<open>0..=max_retries\<close>: \<open>n\<close> attempts are left; the count of messages comes back.\<close>

fun send_attempts :: "wf_env \<Rightarrow> wf_step \<Rightarrow> nat \<Rightarrow> string \<Rightarrow> nat \<Rightarrow> nat \<Rightarrow> string
    \<Rightarrow> (string + (string \<times> nat \<times> nat)) \<times> nat" where
  "send_attempts E st a p 0 k last_err = (Inl last_err, k)"
| "send_attempts E st a p (Suc n) k last_err =
     (case send_message E k a p of
        Replied out i t \<Rightarrow> (Inr (out, i, t), Suc k)
      | Errored err \<Rightarrow> send_attempts E st a p n (Suc k) err
      | Elapsed \<Rightarrow> send_attempts E st a p n (Suc k) (timed_out_msg st))"

definition execute_step :: "wf_env \<Rightarrow> wf_step \<Rightarrow> nat \<Rightarrow> string \<Rightarrow> nat
    \<Rightarrow> (string + (string \<times> nat \<times> nat) option) \<times> nat" where
  "execute_step E st a p k =
     (case error_mode st of
        Fail \<Rightarrow>
          (case send_message E k a p of
             Replied out i t \<Rightarrow> (Inr (Some (out, i, t)), Suc k)
           | Errored err \<Rightarrow>
               (Inl (''Step '' @ quoted (step_name st) @ '' failed: '' @ err), Suc k)
           | Elapsed \<Rightarrow>
               (Inl (''Step '' @ quoted (step_name st) @ '' '' @ timed_out_msg st), Suc k))
      | Skip \<Rightarrow>
          (case send_message E k a p of
             Replied out i t \<Rightarrow> (Inr (Some (out, i, t)), Suc k)
           | Errored err \<Rightarrow> (Inr None, Suc k)
           | Elapsed \<Rightarrow> (Inr None, Suc k))
      | Retry m \<Rightarrow>
          (case send_attempts E st a p (Suc m) k [] of
             (Inr x, k') \<Rightarrow> (Inr (Some x), k')
           | (Inl err, k') \<Rightarrow>
               (Inl (''Step '' @ quoted (step_name st) @ '' failed after '' @ nat_str m
                     @ '' retries: '' @ err), k')))"

text \<open>The local variables of \<open>execute_run_inner\<close>, with the engine and the message count.\<close>

record wf_exec =
  ex_engine :: wf_engine
  ex_sent :: nat
  current_input :: string
  all_outputs :: "string list"
  variables :: "string \<rightharpoonup> string"

definition not_found_msg :: "wf_step \<Rightarrow> string" where
  "not_found_msg st = ''Agent not found for step '' @ quoted (step_name st)"

definition mk_result :: "wf_env \<Rightarrow> string \<Rightarrow> nat \<Rightarrow> string \<Rightarrow> string \<times> nat \<times> nat \<Rightarrow> nat \<Rightarrow> step_result"
where
  "mk_result E name a agent x k =
     \<lparr>sr_step = name, sr_agent_id = agent_text E a, sr_agent = agent, sr_output = fst x,
      sr_in_tokens = fst (snd x), sr_out_tokens = snd (snd x), sr_duration = elapsed_ms E k\<rparr>"

definition push_result :: "step_result \<Rightarrow> wf_run \<Rightarrow> wf_run" where
  "push_result x r = r\<lparr>step_results := step_results r @ [x]\<rparr>"

definition set_var :: "wf_step \<Rightarrow> string \<Rightarrow> (string \<rightharpoonup> string) \<Rightarrow> (string \<rightharpoonup> string)" where
  "set_var st v vars = (case output_var st of None \<Rightarrow> vars | Some x \<Rightarrow> vars(x \<mapsto> v))"

definition fail_run :: "nat \<Rightarrow> string \<Rightarrow> wf_run \<Rightarrow> wf_run" where
  "fail_run now err r =
     r\<lparr>run_st := RunFailed, run_error := Some err, run_completed_at := Some now\<rparr>"

definition complete_run :: "nat \<Rightarrow> string \<Rightarrow> wf_run \<Rightarrow> wf_run" where
  "complete_run now out r =
     r\<lparr>run_st := RunCompleted, run_output := Some out, run_completed_at := Some now\<rparr>"

text \<open>Abandon the run: \<open>Inl\<close> carries the error and the state it leaves.\<close>

definition stop_run :: "wf_env \<Rightarrow> nat \<Rightarrow> string \<Rightarrow> wf_exec \<Rightarrow> (string \<times> wf_exec) + 'r" where
  "stop_run E rid err s =
     Inl (err, s\<lparr>ex_engine := upd_run rid (fail_run (wall_clock E (ex_sent s)) err) (ex_engine s)\<rparr>)"

text \<open>The body of a \<open>Sequential\<close> step, which a \<open>Conditional\<close> step repeats.\<close>

definition agent_step :: "wf_env \<Rightarrow> nat \<Rightarrow> wf_step \<Rightarrow> wf_exec \<Rightarrow> (string \<times> wf_exec) + wf_exec" where
  "agent_step E rid st s =
     (case agent_resolver E (ex_sent s) (step_agent st) of
        None \<Rightarrow> Inl (not_found_msg st, s)
      | Some (a, agent) \<Rightarrow>
          (case execute_step E st a
                  (expand_variables (prompt_template st) (current_input s) (variables s)) (ex_sent s) of
             (Inl err, k) \<Rightarrow> stop_run E rid err (s\<lparr>ex_sent := k\<rparr>)
           | (Inr None, k) \<Rightarrow> Inr (s\<lparr>ex_sent := k\<rparr>)
           | (Inr (Some x), k) \<Rightarrow>
               Inr (s\<lparr>ex_engine := upd_run rid (push_result (mk_result E (step_name st) a agent x k))
                                     (ex_engine s),
                      ex_sent := k,
                      variables := set_var st (fst x) (variables s),
                      all_outputs := all_outputs s @ [fst x],
                      current_input := fst x\<rparr>)))"

definition is_fan_out :: "wf_step \<Rightarrow> bool" where
  "is_fan_out st \<longleftrightarrow> step_mode st = FanOut"

text \<open>Building the futures of a batch: every agent is resolved before a message leaves.\<close>

fun fan_prepare :: "wf_env \<Rightarrow> wf_step list \<Rightarrow> wf_exec
    \<Rightarrow> string + (wf_step \<times> nat \<times> string \<times> string) list" where
  "fan_prepare E [] s = Inr []"
| "fan_prepare E (st # sts) s =
     (case agent_resolver E (ex_sent s) (step_agent st) of
        None \<Rightarrow> Inl (not_found_msg st)
      | Some (a, agent) \<Rightarrow>
          (case fan_prepare E sts s of
             Inl err \<Rightarrow> Inl err
           | Inr js \<Rightarrow>
               Inr ((st, a, agent,
                     expand_variables (prompt_template st) (current_input s) (variables s)) # js)))"

text \<open>\<open>join_all\<close>: the messages of the batch, numbered from \<open>k\<close>; all of them end.\<close>

fun fan_send :: "wf_env \<Rightarrow> nat \<Rightarrow> (wf_step \<times> nat \<times> string \<times> string) list
    \<Rightarrow> (wf_step \<times> nat \<times> string \<times> reply) list" where
  "fan_send E k [] = []"
| "fan_send E k ((st, a, agent, p) # js) = (st, a, agent, send_message E k a p) # fan_send E (Suc k) js"

fun fan_gather :: "wf_env \<Rightarrow> nat \<Rightarrow> (wf_step \<times> nat \<times> string \<times> reply) list \<Rightarrow> wf_exec
    \<Rightarrow> (string \<times> wf_exec) + wf_exec" where
  "fan_gather E rid [] s = Inr s"
| "fan_gather E rid ((st, a, agent, rep) # rs) s =
     (case rep of
        Replied out i t \<Rightarrow>
          fan_gather E rid rs
            (s\<lparr>ex_engine := upd_run rid
                 (push_result (mk_result E (step_name st) a agent (out, i, t) (ex_sent s))) (ex_engine s),
               variables := set_var st out (variables s),
               all_outputs := all_outputs s @ [out],
               current_input := out\<rparr>)
      | Errored err \<Rightarrow>
          stop_run E rid (''FanOut step '' @ quoted (step_name st) @ '' failed: '' @ err) s
      | Elapsed \<Rightarrow>
          stop_run E rid (''FanOut step '' @ quoted (step_name st) @ '' '' @ timed_out_msg st) s)"

definition fan_out :: "wf_env \<Rightarrow> nat \<Rightarrow> wf_step list \<Rightarrow> wf_exec \<Rightarrow> (string \<times> wf_exec) + wf_exec" where
  "fan_out E rid batch s =
     (case fan_prepare E batch s of
        Inl err \<Rightarrow> Inl (err, s)
      | Inr js \<Rightarrow> fan_gather E rid (fan_send E (ex_sent s) js) (s\<lparr>ex_sent := ex_sent s + length js\<rparr>))"

definition collect_sep :: string where
  "collect_sep = [CHR 0x0A, CHR 0x0A] @ ''---'' @ [CHR 0x0A, CHR 0x0A]"

definition collect_step :: "wf_step \<Rightarrow> wf_exec \<Rightarrow> wf_exec" where
  "collect_step st s =
     (let joined = join collect_sep (all_outputs s) in
      s\<lparr>current_input := joined, all_outputs := [joined],
        variables := set_var st joined (variables s)\<rparr>)"

text \<open>The iterations of a \<open>Loop\<close> step: \<open>n\<close> are left, \<open>it\<close> are done.\<close>

fun loop_iters :: "wf_env \<Rightarrow> nat \<Rightarrow> wf_step \<Rightarrow> nat \<Rightarrow> string \<Rightarrow> string \<Rightarrow> nat \<Rightarrow> nat \<Rightarrow> wf_exec
    \<Rightarrow> (string \<times> wf_exec) + wf_exec" where
  "loop_iters E rid st a agent until_lower 0 it s = Inr s"
| "loop_iters E rid st a agent until_lower (Suc n) it s =
     (case execute_step E st a
             (expand_variables (prompt_template st) (current_input s) (variables s)) (ex_sent s) of
        (Inl err, k) \<Rightarrow> stop_run E rid err (s\<lparr>ex_sent := k\<rparr>)
      | (Inr None, k) \<Rightarrow> Inr (s\<lparr>ex_sent := k\<rparr>)
      | (Inr (Some x), k) \<Rightarrow>
          (let s' = s\<lparr>ex_engine := upd_run rid
                        (push_result (mk_result E
                           (step_name st @ '' (iter '' @ nat_str (it + 1) @ '')'') a agent x k))
                        (ex_engine s),
                      ex_sent := k, current_input := fst x\<rparr> in
           if until_lower \<noteq> [] \<and> contains_sub (wf_lower E (fst x)) until_lower then Inr s'
           else loop_iters E rid st a agent until_lower n (it + 1) s'))"

definition loop_step :: "wf_env \<Rightarrow> nat \<Rightarrow> wf_step \<Rightarrow> nat \<Rightarrow> string \<Rightarrow> wf_exec
    \<Rightarrow> (string \<times> wf_exec) + wf_exec" where
  "loop_step E rid st max_iterations until s =
     (case agent_resolver E (ex_sent s) (step_agent st) of
        None \<Rightarrow> Inl (not_found_msg st, s)
      | Some (a, agent) \<Rightarrow>
          (case loop_iters E rid st a agent (wf_lower E until) max_iterations 0 s of
             Inl x \<Rightarrow> Inl x
           | Inr s' \<Rightarrow>
               Inr (s'\<lparr>variables := set_var st (current_input s') (variables s'),
                       all_outputs := all_outputs s' @ [current_input s']\<rparr>)))"

definition condition_met :: "wf_env \<Rightarrow> string \<Rightarrow> wf_exec \<Rightarrow> bool" where
  "condition_met E c s \<longleftrightarrow> contains_sub (wf_lower E (current_input s)) (wf_lower E c)"

lemma length_dropWhile_fan [termination_simp]: "length (dropWhile P xs) < Suc (length xs)"
  by (simp add: le_imp_less_Suc length_dropWhile_le)

fun run_steps :: "wf_env \<Rightarrow> nat \<Rightarrow> wf_step list \<Rightarrow> wf_exec \<Rightarrow> (string \<times> wf_exec) + wf_exec" where
  "run_steps E rid [] s = Inr s"
| "run_steps E rid (st # sts) s =
     (case step_mode st of
        Sequential \<Rightarrow>
          (case agent_step E rid st s of Inl x \<Rightarrow> Inl x | Inr s' \<Rightarrow> run_steps E rid sts s')
      | FanOut \<Rightarrow>
          (case fan_out E rid (st # takeWhile is_fan_out sts) s of
             Inl x \<Rightarrow> Inl x
           | Inr s' \<Rightarrow> run_steps E rid (dropWhile is_fan_out sts) s')
      | Collect \<Rightarrow> run_steps E rid sts (collect_step st s)
      | Conditional c \<Rightarrow>
          (if \<not> condition_met E c s then run_steps E rid sts s
           else (case agent_step E rid st s of Inl x \<Rightarrow> Inl x | Inr s' \<Rightarrow> run_steps E rid sts s'))
      | Loop_until n until \<Rightarrow>
          (case loop_step E rid st n until s of Inl x \<Rightarrow> Inl x | Inr s' \<Rightarrow> run_steps E rid sts s'))"

definition start_exec :: "wf_engine \<Rightarrow> nat \<Rightarrow> string \<Rightarrow> wf_exec" where
  "start_exec e k input =
     \<lparr>ex_engine = e, ex_sent = k, current_input = input, all_outputs = [], variables = Map.empty\<rparr>"

text \<open>The result, the engine and the number of messages sent.\<close>

definition execute_run_inner :: "wf_env \<Rightarrow> nat \<Rightarrow> wf_engine \<Rightarrow> nat
    \<Rightarrow> (string + string) \<times> wf_engine \<times> nat" where
  "execute_run_inner E rid e k =
     (case map_of (runs e) rid of
        None \<Rightarrow> (Inl ''Workflow run not found'', e, k)
      | Some r \<Rightarrow>
          (let e' = upd_run rid (\<lambda>r. r\<lparr>run_st := RunRunning\<rparr>) e in
           case map_of (workflows e) (run_workflow r) of
             None \<Rightarrow> (Inl ''Workflow definition not found'', e', k)
           | Some w \<Rightarrow>
               (case run_steps E rid (wf_steps w) (start_exec e' k (run_input r)) of
                  Inl (err, s) \<Rightarrow> (Inl err, ex_engine s, ex_sent s)
                | Inr s \<Rightarrow>
                    (Inr (current_input s),
                     upd_run rid (complete_run (wall_clock E (ex_sent s)) (current_input s)) (ex_engine s),
                     ex_sent s))))"

definition execute_run :: "wf_env \<Rightarrow> nat \<Rightarrow> wf_engine \<Rightarrow> nat
    \<Rightarrow> (string + string) \<times> wf_engine \<times> nat" where
  "execute_run E rid e k =
     (case execute_run_inner E rid e k of
        (Inl err, e', k') \<Rightarrow> (Inl err, upd_run rid (fail_open (wall_clock E k') err) e', k')
      | (Inr out, e', k') \<Rightarrow> (Inr out, e', k'))"

end
