(* ===== verification/Workflow_Theorems.thy ===== *)
theory Workflow_Theorems
  imports Workflow
begin

text \<open>
  What the workflow engine guarantees. An engine-free pipeline (\<open>pipeline\<close>: groups of steps
  folded over the data that flows through them, the retry loop as the first answered attempt, a
  fan-out batch as its answered prefix) is the abstract specification; \<open>run_steps_refine\<close> is
  the simulation, and the properties of runs follow from it. Templates are concatenations of
  segments that only the template determines. The operations of the engine keep its type
  invariant \<open>engine_ok\<close>.
\<close>

section \<open>Updating one run\<close>

lemma map_of_tab_upd: "map_of (tab_upd k f t) j = (if j = k then map_option f (map_of t k) else map_of t j)"
  by (induction t) auto

lemma keys_tab_upd [simp]: "map fst (tab_upd k f t) = map fst t"
  by (induction t) auto

lemma tab_upd_tab_upd [simp]: "tab_upd k f (tab_upd k g t) = tab_upd k (f \<circ> g) t"
  by (induction t) auto

lemma tab_upd_cong: "(\<And>v. map_of t k = Some v \<Longrightarrow> f v = g v) \<Longrightarrow> tab_upd k f t = tab_upd k g t"
  by (induction t) auto

lemma upd_run_upd_run [simp]: "upd_run i f (upd_run i g e) = upd_run i (f \<circ> g) e"
  by (simp add: upd_run_def)

lemma upd_run_sel [simp]:
  "workflows (upd_run i f e) = workflows e"
  "runs (upd_run i f e) = tab_upd i f (runs e)"
  by (simp_all add: upd_run_def)

lemma upd_run_cong:
  "(\<And>r. map_of (runs e) i = Some r \<Longrightarrow> f r = g r) \<Longrightarrow> upd_run i f e = upd_run i g e"
  by (simp add: upd_run_def tab_upd_cong [of "runs e" i f g])

lemma upd_run_id: "upd_run i (\<lambda>r. r) e = e"
proof -
  have "tab_upd i (\<lambda>r. r) t = t" for t :: "(nat, wf_run) table" by (induction t) auto
  then show ?thesis by (simp add: upd_run_def)
qed

section \<open>The retry loop\<close>

text \<open>How many messages a step may send, and which of its attempts decides.\<close>

definition tries :: "wf_step \<Rightarrow> nat" where
  "tries st = (case error_mode st of Retry m \<Rightarrow> Suc m | _ \<Rightarrow> 1)"

fun answered :: "reply \<Rightarrow> bool" where
  "answered (Replied out i t) = True"
| "answered (Errored err) = False"
| "answered Elapsed = False"

text \<open>The number of messages used and the reply that counts: the first answer, or the last failure.\<close>

definition ask :: "wf_env \<Rightarrow> nat \<Rightarrow> nat \<Rightarrow> string \<Rightarrow> nat \<Rightarrow> nat \<times> reply" where
  "ask E n a p k =
     (case find (\<lambda>j. answered (send_message E (k + j) a p)) [0..<n] of
        Some j \<Rightarrow> (Suc j, send_message E (k + j) a p)
      | None \<Rightarrow> (n, send_message E (k + (n - 1)) a p))"

fun failure_text :: "wf_step \<Rightarrow> reply \<Rightarrow> string" where
  "failure_text st (Replied out i t) = []"
| "failure_text st (Errored err) = err"
| "failure_text st Elapsed = timed_out_msg st"

definition step_failure :: "wf_step \<Rightarrow> reply \<Rightarrow> string" where
  "step_failure st rep =
     (case error_mode st of
        Retry m \<Rightarrow> ''Step '' @ quoted (step_name st) @ '' failed after '' @ nat_str m
                    @ '' retries: '' @ failure_text st rep
      | _ \<Rightarrow> (if rep = Elapsed then ''Step '' @ quoted (step_name st) @ '' '' @ timed_out_msg st
              else ''Step '' @ quoted (step_name st) @ '' failed: '' @ failure_text st rep))"

definition step_outcome :: "wf_step \<Rightarrow> reply \<Rightarrow> string + (string \<times> nat \<times> nat) option" where
  "step_outcome st rep =
     (case rep of
        Replied out i t \<Rightarrow> Inr (Some (out, i, t))
      | _ \<Rightarrow> (if error_mode st = Skip then Inr None else Inl (step_failure st rep)))"

lemma ask_Suc:
  "ask E (Suc n) a p k =
     (if answered (send_message E k a p) then (1, send_message E k a p)
      else if n = 0 then (1, send_message E k a p)
      else (Suc (fst (ask E n a p (Suc k))), snd (ask E n a p (Suc k))))"
proof -
  have up: "[0..<Suc n] = 0 # map Suc [0..<n]" by (simp add: map_Suc_upt upt_conv_Cons)
  have "find (\<lambda>j. answered (send_message E (k + j) a p)) (map Suc xs)
        = map_option Suc (find (\<lambda>j. answered (send_message E (Suc k + j) a p)) xs)" for xs
    by (induction xs) auto
  then show ?thesis
    unfolding ask_def up by (cases n) (auto simp del: upt_Suc split: option.split)
qed

lemma send_attempts_ask:
  "0 < n \<Longrightarrow> send_attempts E st a p n k last_err =
     (let (used, rep) = ask E n a p k in
      (case rep of Replied out i t \<Rightarrow> Inr (out, i, t) | _ \<Rightarrow> Inl (failure_text st rep), k + used))"
proof (induction n arbitrary: k last_err)
  case (Suc n)
  show ?case
  proof (cases n)
    case 0
    then show ?thesis by (simp add: ask_Suc split: reply.split)
  next
    case (Suc m)
    then have "0 < n" "n \<noteq> 0" by simp_all
    then show ?thesis
      using Suc.IH [of "Suc k"]
      by (cases "send_message E k a p")
        (simp_all add: ask_Suc [of E n] case_prod_unfold Let_def split: reply.split)
  qed
qed simp

lemma execute_step_ask:
  "execute_step E st a p k =
     (step_outcome st (snd (ask E (tries st) a p k)), k + fst (ask E (tries st) a p k))"
proof (cases "error_mode st")
  case (Retry m)
  then show ?thesis
    by (simp add: execute_step_def tries_def send_attempts_ask step_outcome_def step_failure_def
          case_prod_unfold Let_def del: send_attempts.simps split: reply.split)
qed (simp_all add: execute_step_def tries_def ask_def step_outcome_def step_failure_def split: reply.split)

lemma ask_used: "0 < n \<Longrightarrow> 0 < fst (ask E n a p k) \<and> fst (ask E n a p k) \<le> n"
proof -
  assume n: "0 < n"
  have "find P [0..<n] = Some j \<Longrightarrow> j < n" for P j
    by (auto simp: find_Some_iff)
  with n show ?thesis unfolding ask_def by (auto split: option.split simp: Suc_le_eq)
qed

section \<open>The pipeline\<close>

record pipe =
  pi_sent :: nat
  pi_in :: string
  pi_outs :: "string list"
  pi_vars :: "string \<rightharpoonup> string"
  pi_results :: "step_result list"

abbreviation pipe_prompt :: "wf_step \<Rightarrow> pipe \<Rightarrow> string" where
  "pipe_prompt st p \<equiv> expand_variables (prompt_template st) (pi_in p) (pi_vars p)"

definition pipe_agent :: "wf_env \<Rightarrow> wf_step \<Rightarrow> pipe \<Rightarrow> (string \<times> pipe) + pipe" where
  "pipe_agent E st p =
     (case agent_resolver E (pi_sent p) (step_agent st) of
        None \<Rightarrow> Inl (not_found_msg st, p)
      | Some (a, agent) \<Rightarrow>
          (let (used, rep) = ask E (tries st) a (pipe_prompt st p) (pi_sent p);
               p' = p\<lparr>pi_sent := pi_sent p + used\<rparr> in
           case step_outcome st rep of
             Inl err \<Rightarrow> Inl (err, p')
           | Inr None \<Rightarrow> Inr p'
           | Inr (Some x) \<Rightarrow>
               Inr (p'\<lparr>pi_in := fst x, pi_outs := pi_outs p @ [fst x],
                       pi_vars := set_var st (fst x) (pi_vars p),
                       pi_results := pi_results p @ [mk_result E (step_name st) a agent x (pi_sent p')]\<rparr>)))"

text \<open>A batch: its jobs with their replies, the answered prefix, and the first failure.\<close>

definition batch_jobs :: "wf_env \<Rightarrow> wf_step list \<Rightarrow> pipe \<Rightarrow> (wf_step \<times> nat \<times> string \<times> reply) list" where
  "batch_jobs E sts p =
     map (\<lambda>(j, st). case agent_resolver E (pi_sent p) (step_agent st) of
            Some (a, agent) \<Rightarrow> (st, a, agent, send_message E (pi_sent p + j) a (pipe_prompt st p))
          | None \<Rightarrow> (st, 0, [], Elapsed))
       (enumerate 0 sts)"

fun job_output :: "wf_step \<times> nat \<times> string \<times> reply \<Rightarrow> string \<times> nat \<times> nat" where
  "job_output (st, a, agent, Replied out i t) = (out, i, t)"
| "job_output (st, a, agent, rep) = ([], 0, 0)"

definition batch_failure :: "wf_step \<times> nat \<times> string \<times> reply \<Rightarrow> string" where
  "batch_failure job = (case job of (st, a, agent, rep) \<Rightarrow>
     if rep = Elapsed then ''FanOut step '' @ quoted (step_name st) @ '' '' @ timed_out_msg st
     else ''FanOut step '' @ quoted (step_name st) @ '' failed: '' @ failure_text st rep)"

definition job_answered :: "wf_step \<times> nat \<times> string \<times> reply \<Rightarrow> bool" where
  "job_answered job = answered (snd (snd (snd job)))"

definition absorb :: "wf_env \<Rightarrow> (wf_step \<times> nat \<times> string \<times> reply) list \<Rightarrow> pipe \<Rightarrow> pipe" where
  "absorb E ok p =
     p\<lparr>pi_in := (if ok = [] then pi_in p else fst (job_output (last ok))),
       pi_outs := pi_outs p @ map (fst \<circ> job_output) ok,
       pi_vars := fold (\<lambda>job. set_var (fst job) (fst (job_output job))) ok (pi_vars p),
       pi_results := pi_results p @
         map (\<lambda>job. mk_result E (step_name (fst job)) (fst (snd job)) (fst (snd (snd job)))
                      (job_output job) (pi_sent p)) ok\<rparr>"

definition pipe_batch :: "wf_env \<Rightarrow> wf_step list \<Rightarrow> pipe \<Rightarrow> (string \<times> pipe) + pipe" where
  "pipe_batch E sts p =
     (case find (\<lambda>st. agent_resolver E (pi_sent p) (step_agent st) = None) sts of
        Some st \<Rightarrow> Inl (not_found_msg st, p)
      | None \<Rightarrow>
          (let jobs = batch_jobs E sts p;
               p' = absorb E (takeWhile job_answered jobs) (p\<lparr>pi_sent := pi_sent p + length sts\<rparr>) in
           case dropWhile job_answered jobs of
             [] \<Rightarrow> Inr p'
           | job # _ \<Rightarrow> Inl (batch_failure job, p')))"

fun pipe_loop :: "wf_env \<Rightarrow> wf_step \<Rightarrow> nat \<Rightarrow> string \<Rightarrow> string \<Rightarrow> nat \<Rightarrow> nat \<Rightarrow> pipe
    \<Rightarrow> (string \<times> pipe) + pipe" where
  "pipe_loop E st a agent until_lower 0 it p = Inr p"
| "pipe_loop E st a agent until_lower (Suc n) it p =
     (let (used, rep) = ask E (tries st) a (pipe_prompt st p) (pi_sent p);
          p' = p\<lparr>pi_sent := pi_sent p + used\<rparr> in
      case step_outcome st rep of
        Inl err \<Rightarrow> Inl (err, p')
      | Inr None \<Rightarrow> Inr p'
      | Inr (Some x) \<Rightarrow>
          (let p'' = p'\<lparr>pi_in := fst x, pi_results := pi_results p @
                 [mk_result E (step_name st @ '' (iter '' @ nat_str (it + 1) @ '')'') a agent x (pi_sent p')]\<rparr> in
           if until_lower \<noteq> [] \<and> contains_sub (wf_lower E (fst x)) until_lower then Inr p''
           else pipe_loop E st a agent until_lower n (it + 1) p''))"

fun step_groups :: "wf_step list \<Rightarrow> wf_step list list" where
  "step_groups [] = []"
| "step_groups (st # sts) =
     (if is_fan_out st then (st # takeWhile is_fan_out sts) # step_groups (dropWhile is_fan_out sts)
      else [st] # step_groups sts)"

definition pipe_single :: "wf_env \<Rightarrow> wf_step \<Rightarrow> pipe \<Rightarrow> (string \<times> pipe) + pipe" where
  "pipe_single E st p =
     (case step_mode st of
        Collect \<Rightarrow>
          (let joined = join collect_sep (pi_outs p) in
           Inr (p\<lparr>pi_in := joined, pi_outs := [joined], pi_vars := set_var st joined (pi_vars p)\<rparr>))
      | Conditional c \<Rightarrow>
          (if contains_sub (wf_lower E (pi_in p)) (wf_lower E c) then pipe_agent E st p else Inr p)
      | Loop_until n until \<Rightarrow>
          (case agent_resolver E (pi_sent p) (step_agent st) of
             None \<Rightarrow> Inl (not_found_msg st, p)
           | Some (a, agent) \<Rightarrow>
               map_sum id (\<lambda>p'. p'\<lparr>pi_vars := set_var st (pi_in p') (pi_vars p'),
                                   pi_outs := pi_outs p' @ [pi_in p']\<rparr>)
                 (pipe_loop E st a agent (wf_lower E until) n 0 p))
      | _ \<Rightarrow> pipe_agent E st p)"

definition pipe_group :: "wf_env \<Rightarrow> wf_step list \<Rightarrow> pipe \<Rightarrow> (string \<times> pipe) + pipe" where
  "pipe_group E g p = (if is_fan_out (hd g) then pipe_batch E g p else pipe_single E (hd g) p)"

fun fold_groups :: "wf_env \<Rightarrow> wf_step list list \<Rightarrow> pipe \<Rightarrow> (string \<times> pipe) + pipe" where
  "fold_groups E [] p = Inr p"
| "fold_groups E (g # gs) p = (case pipe_group E g p of Inl x \<Rightarrow> Inl x | Inr p' \<Rightarrow> fold_groups E gs p')"

definition pipeline :: "wf_env \<Rightarrow> wf_step list \<Rightarrow> nat \<Rightarrow> string \<Rightarrow> (string \<times> pipe) + pipe" where
  "pipeline E sts k input = fold_groups E (step_groups sts)
     \<lparr>pi_sent = k, pi_in = input, pi_outs = [], pi_vars = Map.empty, pi_results = []\<rparr>"

section \<open>The simulation\<close>

text \<open>The concrete state of a pipeline state: its results are appended to the run \<open>rid\<close> of \<open>e\<close>.\<close>

definition append_results :: "step_result list \<Rightarrow> wf_run \<Rightarrow> wf_run" where
  "append_results xs r = r\<lparr>step_results := step_results r @ xs\<rparr>"

definition conc :: "wf_engine \<Rightarrow> nat \<Rightarrow> pipe \<Rightarrow> wf_exec" where
  "conc e rid p =
     \<lparr>ex_engine = upd_run rid (append_results (pi_results p)) e, ex_sent = pi_sent p,
      current_input = pi_in p, all_outputs = pi_outs p, variables = pi_vars p\<rparr>"

definition stopped :: "wf_env \<Rightarrow> nat \<Rightarrow> string \<Rightarrow> wf_exec \<Rightarrow> wf_exec" where
  "stopped E rid err s =
     s\<lparr>ex_engine := upd_run rid (fail_run (wall_clock E (ex_sent s)) err) (ex_engine s)\<rparr>"

definition simulates :: "wf_env \<Rightarrow> wf_engine \<Rightarrow> nat \<Rightarrow> (string \<times> wf_exec) + wf_exec
    \<Rightarrow> (string \<times> pipe) + pipe \<Rightarrow> bool" where
  "simulates E e rid c a =
     (case a of
        Inr p \<Rightarrow> c = Inr (conc e rid p)
      | Inl (err, p) \<Rightarrow> c = Inl (err, conc e rid p) \<or> c = Inl (err, stopped E rid err (conc e rid p)))"

lemma conc_sel [simp]:
  "ex_sent (conc e rid p) = pi_sent p" "current_input (conc e rid p) = pi_in p"
  "all_outputs (conc e rid p) = pi_outs p" "variables (conc e rid p) = pi_vars p"
  by (simp_all add: conc_def)

lemma stop_run_stopped: "stop_run E rid err s = Inl (err, stopped E rid err s)"
  by (simp add: stop_run_def stopped_def)

lemma simulates_simps [simp]:
  "simulates E e rid (Inr s) (Inr p) \<longleftrightarrow> s = conc e rid p"
  "simulates E e rid (Inl (err, conc e rid p)) (Inl (err, p))"
  "simulates E e rid (stop_run E rid err (conc e rid p)) (Inl (err, p))"
  by (simp_all add: simulates_def stop_run_stopped)

lemma simulates_bind:
  assumes "simulates E e rid c a"
    and "\<And>p. a = Inr p \<Longrightarrow> simulates E e rid (f (conc e rid p)) (g p)"
  shows "simulates E e rid (case c of Inl x \<Rightarrow> Inl x | Inr s \<Rightarrow> f s) (case a of Inl x \<Rightarrow> Inl x | Inr p \<Rightarrow> g p)"
  using assms by (auto simp: simulates_def split: sum.splits prod.splits)

lemma conc_sent: "conc e rid p\<lparr>ex_sent := k\<rparr> = conc e rid (p\<lparr>pi_sent := k\<rparr>)"
  by (simp add: conc_def)

lemma push_append: "push_result x \<circ> append_results xs = append_results (xs @ [x])"
  by (rule ext) (simp add: push_result_def append_results_def)

lemma agent_step_refine: "simulates E e rid (agent_step E rid st (conc e rid p)) (pipe_agent E st p)"
proof (cases "agent_resolver E (pi_sent p) (step_agent st)")
  case (Some x)
  obtain a agent where x: "x = (a, agent)" by (cases x)
  let ?ask = "ask E (tries st) a (pipe_prompt st p) (pi_sent p)"
  show ?thesis
  proof (cases "step_outcome st (snd ?ask)")
    case (Inr y)
    then show ?thesis
      using Some x
      by (cases y)
        (simp_all add: agent_step_def pipe_agent_def execute_step_ask case_prod_unfold Let_def
          conc_def push_append)
  qed (simp add: Some x agent_step_def pipe_agent_def execute_step_ask case_prod_unfold Let_def conc_sent)
qed (simp add: agent_step_def pipe_agent_def)

lemma conc_push:
  "conc e rid p\<lparr>ex_engine := upd_run rid (push_result x) (ex_engine (conc e rid p)),
                ex_sent := k, current_input := c\<rparr>
   = conc e rid (p\<lparr>pi_sent := k, pi_in := c, pi_results := pi_results p @ [x]\<rparr>)"
  by (simp add: conc_def push_append)

lemma loop_iters_refine:
  "simulates E e rid (loop_iters E rid st a agent u n it (conc e rid p)) (pipe_loop E st a agent u n it p)"
proof (induction n arbitrary: it p u)
  case (Suc n)
  let ?ask = "ask E (tries st) a (pipe_prompt st p) (pi_sent p)"
  show ?case
  proof (cases "step_outcome st (snd ?ask)")
    case (Inr y)
    then show ?thesis
      by (cases y) (simp_all add: execute_step_ask case_prod_unfold Let_def conc_sent conc_push Suc.IH)
  qed (simp add: execute_step_ask case_prod_unfold Let_def conc_sent)
qed simp

text \<open>A fan-out batch.\<close>

definition fan_job :: "wf_env \<Rightarrow> wf_exec \<Rightarrow> wf_step \<Rightarrow> wf_step \<times> nat \<times> string \<times> string" where
  "fan_job E s st =
     (case agent_resolver E (ex_sent s) (step_agent st) of
        Some (a, agent) \<Rightarrow> (st, a, agent, expand_variables (prompt_template st) (current_input s) (variables s))
      | None \<Rightarrow> (st, 0, [], []))"

lemma fan_prepare_jobs:
  "fan_prepare E sts s =
     (case find (\<lambda>st. agent_resolver E (ex_sent s) (step_agent st) = None) sts of
        Some st \<Rightarrow> Inl (not_found_msg st)
      | None \<Rightarrow> Inr (map (fan_job E s) sts))"
  by (induction sts) (auto simp: fan_job_def split: option.splits)

lemma fan_send_enumerate:
  "fan_send E (k + n) js =
     map (\<lambda>(j, st, a, agent, p). (st, a, agent, send_message E (k + j) a p)) (enumerate n js)"
proof (induction js arbitrary: n)
  case (Cons x js)
  obtain st a agent p where "x = (st, a, agent, p)" by (cases x)
  with Cons.IH [of "Suc n"] show ?case by simp
qed simp

lemma enumerate_map_list: "enumerate n (map f xs) = map (\<lambda>(i, x). (i, f x)) (enumerate n xs)"
  by (induction xs arbitrary: n) auto

lemma fan_send_jobs:
  assumes "find (\<lambda>st. agent_resolver E (pi_sent p) (step_agent st) = None) sts = None"
  shows "fan_send E (pi_sent p) (map (fan_job E (conc e rid p)) sts) = batch_jobs E sts p"
proof -
  have res: "agent_resolver E (pi_sent p) (step_agent st) \<noteq> None" if "st \<in> set sts" for st
    using assms that by (auto simp: find_None_iff)
  have st: "st \<in> set sts" if "(j, st) \<in> set (enumerate 0 sts)" for j st
    using that by (metis enumerate_eq_zip set_zip_rightD)
  have "fan_send E (pi_sent p) (map (fan_job E (conc e rid p)) sts)
        = map (\<lambda>(j, st, a, agent, q). (st, a, agent, send_message E (pi_sent p + j) a q))
            (map (\<lambda>(i, x). (i, fan_job E (conc e rid p) x)) (enumerate 0 sts))"
    using fan_send_enumerate [of E "pi_sent p" 0] by (simp add: enumerate_map_list)
  also have "\<dots> = batch_jobs E sts p"
    unfolding batch_jobs_def map_map
  proof (intro map_cong refl, clarify)
    fix j st assume "(j, st) \<in> set (enumerate 0 sts)"
    then obtain a agent where "agent_resolver E (pi_sent p) (step_agent st) = Some (a, agent)"
      using st res by fastforce
    then show "((\<lambda>(j, st, a, agent, q). (st, a, agent, send_message E (pi_sent p + j) a q)) \<circ>
          (\<lambda>(i, x). (i, fan_job E (conc e rid p) x))) (j, st) =
        (case agent_resolver E (pi_sent p) (step_agent st) of
           None \<Rightarrow> (st, 0, [], Elapsed)
         | Some (a, agent) \<Rightarrow> (st, a, agent, send_message E (pi_sent p + j) a (pipe_prompt st p)))"
      by (simp add: fan_job_def)
  qed
  finally show ?thesis .
qed

lemma absorb_Nil: "absorb E [] p = p"
  by (simp add: absorb_def)

lemma absorb_Cons: "absorb E (job # js) p = absorb E js (absorb E [job] p)"
  by (simp add: absorb_def)

lemma fan_gather_refine:
  "simulates E e rid (fan_gather E rid jobs (conc e rid p))
     (case dropWhile job_answered jobs of
        [] \<Rightarrow> Inr (absorb E (takeWhile job_answered jobs) p)
      | job # _ \<Rightarrow> Inl (batch_failure job, absorb E (takeWhile job_answered jobs) p))"
proof (induction jobs arbitrary: p)
  case (Cons job jobs)
  obtain st a agent rep where job: "job = (st, a, agent, rep)" by (cases job)
  show ?case
  proof (cases rep)
    case (Replied out i t)
    have "conc e rid p\<lparr>ex_engine := upd_run rid
              (push_result (mk_result E (step_name st) a agent (out, i, t) (pi_sent p))) (ex_engine (conc e rid p)),
            variables := set_var st out (pi_vars p), all_outputs := pi_outs p @ [out], current_input := out\<rparr>
          = conc e rid (absorb E [job] p)"
      by (simp add: conc_def push_append absorb_def job Replied)
    then have step: "fan_gather E rid (job # jobs) (conc e rid p)
        = fan_gather E rid jobs (conc e rid (absorb E [job] p))"
      by (simp add: job Replied)
    have prefix: "takeWhile job_answered (job # jobs) = job # takeWhile job_answered jobs"
      "dropWhile job_answered (job # jobs) = dropWhile job_answered jobs"
      by (simp_all add: job Replied job_answered_def)
    show ?thesis
      unfolding step prefix absorb_Cons [of E job "takeWhile job_answered jobs"] by (rule Cons.IH)
  qed (simp_all add: job job_answered_def absorb_Nil batch_failure_def)
qed (simp add: absorb_Nil)

lemma fan_out_refine: "simulates E e rid (fan_out E rid sts (conc e rid p)) (pipe_batch E sts p)"
proof (cases "find (\<lambda>st. agent_resolver E (pi_sent p) (step_agent st) = None) sts")
  case None
  then show ?thesis
    using fan_gather_refine [of E e rid "batch_jobs E sts p" "p\<lparr>pi_sent := pi_sent p + length sts\<rparr>"]
    by (simp add: fan_out_def pipe_batch_def fan_prepare_jobs fan_send_jobs Let_def conc_sent)
qed (simp add: fan_out_def pipe_batch_def fan_prepare_jobs)

lemma collect_refine:
  "collect_step st (conc e rid p) =
     conc e rid (let joined = join collect_sep (pi_outs p) in
       p\<lparr>pi_in := joined, pi_outs := [joined], pi_vars := set_var st joined (pi_vars p)\<rparr>)"
  by (simp add: collect_step_def conc_def Let_def)

lemma loop_step_refine:
  "step_mode st = Loop_until n until \<Longrightarrow>
   simulates E e rid (loop_step E rid st n until (conc e rid p)) (pipe_single E st p)"
proof (cases "agent_resolver E (pi_sent p) (step_agent st)")
  case (Some x)
  assume mode: "step_mode st = Loop_until n until"
  obtain a agent where x: "x = (a, agent)" by (cases x)
  let ?c = "loop_iters E rid st a agent (wf_lower E until) n 0 (conc e rid p)"
  let ?a = "pipe_loop E st a agent (wf_lower E until) n 0 p"
  have "simulates E e rid ?c ?a" by (rule loop_iters_refine)
  then show ?thesis
    by (cases ?a) (auto simp: simulates_def loop_step_def pipe_single_def mode Some x conc_def)
qed (simp add: loop_step_def pipe_single_def)

lemmas pipe_simps = pipe_group_def pipe_single_def is_fan_out_def condition_met_def

lemma run_steps_refine:
  "simulates E e rid (run_steps E rid sts (conc e rid p)) (fold_groups E (step_groups sts) p)"
proof (induction sts arbitrary: p rule: step_groups.induct)
  case (2 st sts)
  note bind = simulates_bind [where f = "run_steps E rid sts" and g = "fold_groups E (step_groups sts)"]
  show ?case
  proof (cases "step_mode st")
    case FanOut
    then have fan: "is_fan_out st" by (simp add: is_fan_out_def)
    show ?thesis
      using simulates_bind [OF fan_out_refine [of E e rid "st # takeWhile is_fan_out sts" p], where
          f = "run_steps E rid (dropWhile is_fan_out sts)" and
          g = "fold_groups E (step_groups (dropWhile is_fan_out sts))"] 2(1) [OF fan] FanOut fan
      by (simp add: pipe_group_def)
  next
    case Sequential
    then show ?thesis
      using bind [OF agent_step_refine [of E e rid st p]] 2(2) by (simp add: pipe_simps)
  next
    case (Conditional c)
    then show ?thesis
      using bind [OF agent_step_refine [of E e rid st p]] 2(2) by (simp add: pipe_simps)
  next
    case (Loop_until n until)
    then show ?thesis
      using bind [OF loop_step_refine [OF Loop_until, of E e rid p]] 2(2)
      by (simp add: is_fan_out_def pipe_group_def)
  next
    case Collect
    then show ?thesis
      using 2(2) by (simp add: collect_refine is_fan_out_def pipe_group_def pipe_single_def Let_def)
  qed
qed simp

section \<open>What a run ends with\<close>

definition pipe_of :: "(string \<times> pipe) + pipe \<Rightarrow> pipe" where
  "pipe_of out = (case out of Inl (err, p) \<Rightarrow> p | Inr p \<Rightarrow> p)"

definition pipe_result :: "(string \<times> pipe) + pipe \<Rightarrow> string + string" where
  "pipe_result out = (case out of Inl (err, p) \<Rightarrow> Inl err | Inr p \<Rightarrow> Inr (pi_in p))"

definition settle :: "wf_env \<Rightarrow> (string \<times> pipe) + pipe \<Rightarrow> wf_run \<Rightarrow> wf_run" where
  "settle E out r =
     (let r' = append_results (pi_results (pipe_of out)) r; now = wall_clock E (pi_sent (pipe_of out)) in
      case pipe_result out of Inl err \<Rightarrow> fail_run now err r' | Inr v \<Rightarrow> complete_run now v r')"

lemma start_conc:
  "start_exec e k input =
     conc e rid \<lparr>pi_sent = k, pi_in = input, pi_outs = [], pi_vars = Map.empty, pi_results = []\<rparr>"
proof -
  have "append_results [] = (\<lambda>r. r)" by (rule ext) (simp add: append_results_def)
  then show ?thesis by (simp add: start_exec_def conc_def upd_run_id)
qed

lemma run_pipeline:
  "simulates E e rid (run_steps E rid sts (start_exec e k input)) (pipeline E sts k input)"
  unfolding pipeline_def start_conc [of e k input rid] by (rule run_steps_refine)

lemmas settle_defs = settle_def pipe_of_def pipe_result_def fail_open_def fail_run_def complete_run_def
  append_results_def run_open_def stopped_def conc_def Let_def

text \<open>
  C12: Execution refines the engine-free pipeline: running a fresh run of a registered workflow
  returns what the fold of its step groups returns, sends exactly its messages, and changes the
  engine in one place, the run's own record, which becomes the settled record of that pipeline
  (its step results appended in order, completed with the output or failed with the error).
\<close>
theorem execute_run_refines:
  assumes "map_of (runs e) rid = Some r" and "map_of (workflows e) (run_workflow r) = Some w"
    and "run_error r = None"
  shows "execute_run E rid e k =
    (let out = pipeline E (wf_steps w) k (run_input r) in
     (pipe_result out, upd_run rid (settle E out) e, pi_sent (pipe_of out)))"
proof -
  let ?e = "upd_run rid (\<lambda>r. r\<lparr>run_st := RunRunning\<rparr>) e"
  let ?out = "pipeline E (wf_steps w) k (run_input r)"
  have sim: "simulates E ?e rid (run_steps E rid (wf_steps w) (start_exec ?e k (run_input r))) ?out"
    by (rule run_pipeline)
  have upd: "upd_run rid f e = upd_run rid (settle E out) e" if "f r = settle E out r" for f out
    using that assms(1) by (intro upd_run_cong) auto
  show ?thesis
  proof (cases ?out)
    case (Inr p)
    with sim have "run_steps E rid (wf_steps w) (start_exec ?e k (run_input r)) = Inr (conc ?e rid p)"
      by (simp add: simulates_def)
    with Inr assms(1,2) show ?thesis
      by (simp add: execute_run_def execute_run_inner_def Let_def pipe_result_def pipe_of_def conc_def)
        (rule upd, simp add: settle_defs)
  next
    case (Inl x)
    obtain err p where x: "x = (err, p)" by (cases x)
    from sim Inl x consider
        "run_steps E rid (wf_steps w) (start_exec ?e k (run_input r)) = Inl (err, conc ?e rid p)"
      | "run_steps E rid (wf_steps w) (start_exec ?e k (run_input r)) = Inl (err, stopped E rid err (conc ?e rid p))"
      by (auto simp: simulates_def)
    then show ?thesis
    proof cases
      case 1
      with assms Inl x show ?thesis
        by (simp add: execute_run_def execute_run_inner_def Let_def pipe_result_def pipe_of_def conc_def)
          (rule upd, simp add: settle_defs assms(3))
    next
      case 2
      with assms Inl x show ?thesis
        by (simp add: execute_run_def execute_run_inner_def Let_def pipe_result_def pipe_of_def conc_def stopped_def)
          (rule upd, simp add: settle_defs assms(3))
    qed
  qed
qed

lemma execute_run_missing:
  "map_of (runs e) rid = None \<Longrightarrow> execute_run E rid e k = (Inl ''Workflow run not found'', e, k)"
proof -
  assume none: "map_of (runs e) rid = None"
  then have "upd_run rid f e = e" for f
    using upd_run_cong [of e rid f "\<lambda>r. r"] by (simp add: upd_run_id)
  with none show ?thesis by (simp add: execute_run_def execute_run_inner_def)
qed

text \<open>
  The general shape, for any run that is in the table (also one that is executed again, or whose
  workflow was removed): one record changes, its identity stays, and it ends as the result says.
\<close>

definition ends_as :: "nat \<Rightarrow> string + string \<Rightarrow> wf_run \<Rightarrow> bool" where
  "ends_as now res r \<longleftrightarrow> run_completed_at r = Some now \<and>
     (case res of
        Inr out \<Rightarrow> run_st r = RunCompleted \<and> run_output r = Some out
      | Inl err \<Rightarrow> run_st r = RunFailed \<and> run_error r \<noteq> None)"

definition run_identity :: "wf_run \<Rightarrow> nat \<times> nat \<times> string \<times> string \<times> nat" where
  "run_identity r = (run_id r, run_workflow r, run_wf_name r, run_input r, run_started r)"

lemma execute_run_shape:
  assumes "map_of (runs e) rid = Some r"
  shows "\<exists>f res k'. execute_run E rid e k = (res, upd_run rid f e, k')
    \<and> ends_as (wall_clock E k') res (f r) \<and> run_identity (f r) = run_identity r"
proof (cases "map_of (workflows e) (run_workflow r)")
  case None
  then show ?thesis
    using assms
    by (auto simp: execute_run_def execute_run_inner_def Let_def ends_as_def run_identity_def settle_defs
        intro!: exI [of _ "fail_open n err \<circ> run_st_update (\<lambda>_. RunRunning)" for n err])
next
  case (Some w)
  let ?e = "upd_run rid (\<lambda>r. r\<lparr>run_st := RunRunning\<rparr>) e"
  let ?c = "run_steps E rid (wf_steps w) (start_exec ?e k (run_input r))"
  have sim: "simulates E ?e rid ?c (pipeline E (wf_steps w) k (run_input r))"
    by (rule run_pipeline)
  let ?app = "\<lambda>p. append_results (pi_results p) \<circ> run_st_update (\<lambda>_. RunRunning)"
  from sim consider (ended) p where "?c = Inr (conc ?e rid p)"
    | (early) err p where "?c = Inl (err, conc ?e rid p)"
    | (failed) err p where "?c = Inl (err, stopped E rid err (conc ?e rid p))"
    by (auto simp: simulates_def split: sum.splits prod.splits)
  then show ?thesis
  proof cases
    case ended
    with Some assms show ?thesis
      by (intro exI [of _ "complete_run (wall_clock E (pi_sent p)) (pi_in p) \<circ> ?app p"]
          exI [of _ "Inr (pi_in p)"] exI [of _ "pi_sent p"])
        (simp add: execute_run_def execute_run_inner_def ends_as_def run_identity_def settle_defs)
  next
    case early
    with Some assms show ?thesis
      by (intro exI [of _ "fail_open (wall_clock E (pi_sent p)) err \<circ> ?app p"]
          exI [of _ "Inl err"] exI [of _ "pi_sent p"])
        (simp add: execute_run_def execute_run_inner_def ends_as_def run_identity_def settle_defs)
  next
    case failed
    with Some assms show ?thesis
      by (intro exI [of _ "fail_open (wall_clock E (pi_sent p)) err \<circ> fail_run (wall_clock E (pi_sent p)) err \<circ> ?app p"]
          exI [of _ "Inl err"] exI [of _ "pi_sent p"])
        (simp add: execute_run_def execute_run_inner_def ends_as_def run_identity_def settle_defs comp_assoc)
  qed
qed

text \<open>
  C16: A run never leaks: whatever the agents answer, whatever is missing (the workflow, an agent),
  executing a run that is in the table leaves it terminal with a completion time, \<open>Completed\<close>
  with the returned output or \<open>Failed\<close> with an error as the returned value says; no other run
  and no definition changes.
\<close>
theorem run_always_settles:
  assumes "map_of (runs e) rid = Some r" and "execute_run E rid e k = (res, e', k')"
  shows "(\<exists>r'. map_of (runs e') rid = Some r' \<and> ends_as (wall_clock E k') res r'
        \<and> run_identity r' = run_identity r)
    \<and> (\<forall>j. j \<noteq> rid \<longrightarrow> map_of (runs e') j = map_of (runs e) j)
    \<and> workflows e' = workflows e"
  using execute_run_shape [OF assms(1), of E k] assms by (auto simp: map_of_tab_upd)

section \<open>How many messages\<close>

definition step_cost :: "wf_step \<Rightarrow> nat" where
  "step_cost st =
     (case step_mode st of
        Collect \<Rightarrow> 0 | FanOut \<Rightarrow> 1 | Loop_until n until \<Rightarrow> n * tries st | _ \<Rightarrow> tries st)"

lemma tries_pos: "0 < tries st"
  by (simp add: tries_def split: on_error.split)

lemma ask_le: "fst (ask E (tries st) a p k) \<le> tries st"
  using ask_used [OF tries_pos] by blast

lemma pipe_agent_sent: "pi_sent (pipe_of (pipe_agent E st p)) \<le> pi_sent p + tries st"
proof (cases "agent_resolver E (pi_sent p) (step_agent st)")
  case (Some x)
  then show ?thesis
    using ask_le [of E st "fst x" "pipe_prompt st p" "pi_sent p"]
    by (cases x; cases "step_outcome st (snd (ask E (tries st) (fst x) (pipe_prompt st p) (pi_sent p)))")
      (auto simp: pipe_agent_def pipe_of_def case_prod_unfold Let_def split: option.split)
qed (simp add: pipe_agent_def pipe_of_def)

lemma pipe_loop_sent: "pi_sent (pipe_of (pipe_loop E st a agent u n it p)) \<le> pi_sent p + n * tries st"
proof (induction n arbitrary: it p u)
  case (Suc n)
  let ?ask = "ask E (tries st) a (pipe_prompt st p) (pi_sent p)"
  have le: "fst ?ask \<le> tries st" by (rule ask_le)
  let ?p = "\<lambda>x. p\<lparr>pi_sent := pi_sent p + fst ?ask, pi_in := fst x, pi_results := pi_results p @
      [mk_result E (step_name st @ '' (iter '' @ nat_str (it + 1) @ '')'') a agent x (pi_sent p + fst ?ask)]\<rparr>"
  have rest: "pi_sent (pipe_of (pipe_loop E st a agent u n (it + 1) (?p x))) \<le> pi_sent p + Suc n * tries st" for x
    using Suc.IH [of u "it + 1" "?p x"] le by simp
  show ?case
  proof (cases "step_outcome st (snd ?ask)")
    case (Inr y)
    then show ?thesis
      using le rest by (cases y) (simp_all add: pipe_of_def case_prod_unfold Let_def)
  qed (use le in \<open>simp add: pipe_of_def case_prod_unfold Let_def\<close>)
qed (simp add: pipe_of_def)

lemma pipe_single_sent: "\<not> is_fan_out st \<Longrightarrow> pi_sent (pipe_of (pipe_single E st p)) \<le> pi_sent p + step_cost st"
proof (cases "step_mode st")
  case (Loop_until n until)
  show ?thesis
  proof (cases "agent_resolver E (pi_sent p) (step_agent st)")
    case (Some x)
    obtain a agent where x: "x = (a, agent)" by (cases x)
    let ?l = "pipe_loop E st a agent (wf_lower E until) n 0 p"
    have "pi_sent (pipe_of ?l) \<le> pi_sent p + n * tries st" by (rule pipe_loop_sent)
    then show ?thesis
      using Some x by (cases ?l) (simp_all add: pipe_single_def Loop_until step_cost_def pipe_of_def case_prod_unfold)
  qed (simp add: pipe_single_def Loop_until pipe_of_def)
next
  case Collect
  then show ?thesis by (simp add: pipe_single_def pipe_of_def Let_def)
qed (use pipe_agent_sent [of E st p] in \<open>simp_all add: pipe_single_def step_cost_def is_fan_out_def pipe_of_def\<close>)

lemma pipe_batch_sent: "pi_sent (pipe_of (pipe_batch E sts p)) \<le> pi_sent p + length sts"
proof -
  have absorb: "pi_sent (absorb E ok q) = pi_sent q" for ok q by (simp add: absorb_def)
  show ?thesis
    unfolding pipe_batch_def Let_def
    by (auto simp: pipe_of_def absorb split: option.split list.split)
qed

lemma fan_prefix_cost: "sum_list (map step_cost (takeWhile is_fan_out sts)) = length (takeWhile is_fan_out sts)"
  by (induction sts) (auto simp: step_cost_def is_fan_out_def)

lemma fold_groups_sent:
  "pi_sent (pipe_of (fold_groups E (step_groups sts) p)) \<le> pi_sent p + sum_list (map step_cost sts)"
proof (induction sts arbitrary: p rule: step_groups.induct)
  case (2 st sts)
  show ?case
  proof (cases "is_fan_out st")
    case True
    let ?g = "st # takeWhile is_fan_out sts"
    have cost: "sum_list (map step_cost (st # sts))
        = length ?g + sum_list (map step_cost (dropWhile is_fan_out sts))"
      using True fan_prefix_cost [of sts]
        sum_list_append [of "map step_cost (takeWhile is_fan_out sts)" "map step_cost (dropWhile is_fan_out sts)"]
      by (simp add: step_cost_def is_fan_out_def flip: map_append)
    show ?thesis
      using pipe_batch_sent [of E ?g p] 2(1) [OF True] cost True
      by (cases "pipe_batch E ?g p")
        (fastforce simp: pipe_group_def pipe_of_def intro: order_trans)+
  next
    case False
    then show ?thesis
      using pipe_single_sent [OF False, of E p] 2(2) [OF False]
      by (cases "pipe_single E st p")
        (fastforce simp: pipe_group_def pipe_of_def intro: order_trans)+
  qed
qed (simp add: pipe_of_def)

end
