(* ===== verification/Workflow_Properties.thy ===== *)
theory Workflow_Properties
  imports Workflow_Theorems
begin

text \<open>
  Properties of the workflow engine as a whole: the bound on messages, eviction of old runs, the
  type invariant over every sequence of operations, restart from the persisted definitions, and
  the single-pass expansion of templates; with concrete runs that meet their hypotheses.
\<close>

section \<open>Message bound\<close>

text \<open>
  C26: Every run stops after boundedly many messages: for any behaviour of the agents and whatever
  the table holds, an execution sends at most one message per fan-out step, none per collect, one
  per attempt (\<open>max_retries + 1\<close> under \<open>Retry\<close>) for the other steps, times \<open>max_iterations\<close> in a
  loop; an unknown run or workflow sends none.
\<close>
theorem execute_run_message_bound:
  "snd (snd (execute_run E rid e k)) \<le> k +
    (case map_of (runs e) rid of None \<Rightarrow> 0
     | Some r \<Rightarrow> (case map_of (workflows e) (run_workflow r) of None \<Rightarrow> 0
                 | Some w \<Rightarrow> sum_list (map step_cost (wf_steps w))))"
proof (cases "map_of (runs e) rid")
  case None
  then show ?thesis by (simp add: execute_run_missing)
next
  case (Some r)
  show ?thesis
  proof (cases "map_of (workflows e) (run_workflow r)")
    case None
    with Some show ?thesis by (simp add: execute_run_def execute_run_inner_def Let_def)
  next
    case (Some w)
    let ?e = "upd_run rid (\<lambda>r. r\<lparr>run_st := RunRunning\<rparr>) e"
    let ?out = "pipeline E (wf_steps w) k (run_input r)"
    have "simulates E ?e rid (run_steps E rid (wf_steps w) (start_exec ?e k (run_input r))) ?out"
      by (rule run_pipeline)
    then have "snd (snd (execute_run E rid e k)) = pi_sent (pipe_of ?out)"
      using Some \<open>map_of (runs e) rid = Some r\<close>
      by (auto simp: execute_run_def execute_run_inner_def Let_def simulates_def pipe_of_def stopped_def
          split: sum.splits prod.splits)
    moreover have "pi_sent (pipe_of ?out) \<le> k + sum_list (map step_cost (wf_steps w))"
      unfolding pipeline_def by (rule order_trans [OF fold_groups_sent]) simp
    ultimately show ?thesis using Some \<open>map_of (runs e) rid = Some r\<close> by simp
  qed
qed

section \<open>Eviction\<close>

lemma fold_tab_del: "fold (\<lambda>(i, _). tab_del i) ds rs = filter (\<lambda>(i, r). i \<notin> fst ` set ds) rs"
proof (induction ds arbitrary: rs)
  case (Cons d ds)
  then show ?case by (auto simp: tab_del_def case_prod_unfold intro: filter_cong)
qed simp

lemma evict_runs_filter:
  "evict_runs rs = filter (\<lambda>(i, r). i \<notin> fst ` set (take (length rs - max_retained_runs) (evictable rs))) rs"
  by (simp add: evict_runs_def fold_tab_del)

lemma set_evictable: "set (evictable rs) = {(i, run_started r) | i r. (i, r) \<in> set rs \<and> run_terminal r}"
  by (force simp: evictable_def)

lemma distinct_map_sort_key: "distinct (map f xs) \<Longrightarrow> distinct (map f (sort_key k xs))"
  by (simp add: distinct_map)

lemma distinct_evictable:
  assumes "tab_ok rs"
  shows "distinct (map fst (evictable rs))"
proof -
  let ?xs = "map (\<lambda>(i, r). (i, run_started r)) (filter (\<lambda>(i, r). run_terminal r) rs)"
  have "map fst ?xs = map fst (filter (\<lambda>(i, r). run_terminal r) rs)" by (simp add: case_prod_unfold)
  with assms have "distinct (map fst ?xs)" by (metis distinct_map_filter)
  then show ?thesis unfolding evictable_def by (rule distinct_map_sort_key)
qed

lemma map_of_filter_keys: "map_of (filter (\<lambda>(i, r). P i) t) j = (if P j then map_of t j else None)"
  by (induction t) auto

lemma map_of_evict:
  "map_of (evict_runs rs) j =
     (if j \<in> fst ` set (take (length rs - max_retained_runs) (evictable rs)) then None else map_of rs j)"
  unfolding evict_runs_filter by (simp add: map_of_filter_keys)

lemma evictable_terminal:
  assumes "tab_ok rs" and "j \<in> fst ` set (evictable rs)" and "map_of rs j = Some r"
  shows "run_terminal r"
proof -
  from assms(2) obtain r' where "(j, r') \<in> set rs" "run_terminal r'" by (auto simp: set_evictable)
  with assms(1,3) show ?thesis by (simp add: map_of_eq_Some_iff)
qed

lemma length_evict:
  assumes "tab_ok rs" and "max_retained_runs < length rs"
  shows "length (evict_runs rs) = length rs - min (length rs - max_retained_runs) (length (evictable rs))"
proof -
  let ?ds = "take (length rs - max_retained_runs) (evictable rs)"
  have "length (filter (\<lambda>(i, r). i \<in> fst ` set ?ds) rs) = card (fst ` set ?ds)"
  proof -
    have "distinct (map fst (filter (\<lambda>(i, r). i \<in> fst ` set ?ds) rs))"
      using assms(1) by (rule distinct_map_filter)
    moreover have "set (map fst (filter (\<lambda>(i, r). i \<in> fst ` set ?ds) rs)) = fst ` set ?ds"
    proof -
      have "fst ` set ?ds \<subseteq> fst ` set rs"
        by (rule order_trans [OF image_mono [OF set_take_subset]]) (force simp: set_evictable)
      then show ?thesis by force
    qed
    ultimately show ?thesis by (metis distinct_card length_map)
  qed
  also have "card (fst ` set ?ds) = length ?ds"
    using distinct_evictable [OF assms(1)] by (metis distinct_card distinct_take length_map set_map take_map)
  finally have "length (filter (\<lambda>(i, r). i \<in> fst ` set ?ds) rs) = length ?ds" .
  moreover have "length (filter (\<lambda>(i, r). i \<notin> fst ` set ?ds) rs)
      = length rs - length (filter (\<lambda>(i, r). i \<in> fst ` set ?ds) rs)"
    using sum_length_filter_compl [of "\<lambda>(i, r). i \<in> fst ` set ?ds" rs] by (simp add: case_prod_unfold)
  ultimately show ?thesis unfolding evict_runs_filter by (simp add: min.commute)
qed

lemma kept_run:
  assumes "tab_ok rs" and "map_of rs j = Some r" and "\<not> run_terminal r"
  shows "map_of (evict_runs rs) j = Some r"
proof -
  have "j \<notin> fst ` set (evictable rs)" using evictable_terminal [OF assms(1) _ assms(2)] assms(3) by blast
  then have "j \<notin> fst ` set (take n (evictable rs))" for n by (meson image_mono set_take_subset subsetD)
  with assms(2) show ?thesis by (simp add: map_of_evict)
qed

lemma evicted_older:
  assumes "tab_ok rs" and "map_of rs j = Some r" "map_of (evict_runs rs) j = None"
    and "map_of (evict_runs rs) i = Some q" "run_terminal q"
  shows "run_terminal r \<and> run_started r \<le> run_started q"
proof
  let ?n = "length rs - max_retained_runs"
  from assms(2,3) have j: "j \<in> fst ` set (take ?n (evictable rs))"
    by (auto simp: map_of_evict split: if_splits)
  then have "j \<in> fst ` set (evictable rs)" using in_set_takeD by force
  then show "run_terminal r" by (rule evictable_terminal [OF assms(1) _ assms(2)])
  from j obtain t where t: "(j, t) \<in> set (take ?n (evictable rs))" by auto
  then have "(j, t) \<in> set (evictable rs)" by (rule in_set_takeD)
  then obtain r' where "t = run_started r'" "(j, r') \<in> set rs" by (auto simp: set_evictable)
  with assms(1,2) have t_eq: "t = run_started r" by (metis map_of_eq_Some_iff option.inject)
  from assms(4) have i: "i \<notin> fst ` set (take ?n (evictable rs))" "map_of rs i = Some q"
    by (auto simp: map_of_evict split: if_splits)
  with assms(5) have "(i, run_started q) \<in> set (evictable rs)" by (auto simp: set_evictable dest: map_of_SomeD)
  with i(1) have "(i, run_started q) \<in> set (drop ?n (evictable rs))"
    by (metis append_take_drop_id fst_conv imageI set_append UnE)
  then have "run_started q \<in> set (map snd (drop ?n (evictable rs)))" by (metis image_eqI set_map snd_conv)
  moreover have "run_started r \<in> set (map snd (take ?n (evictable rs)))"
    using t unfolding t_eq by (metis image_eqI set_map snd_conv)
  moreover have "sorted (map snd (take ?n (evictable rs)) @ map snd (drop ?n (evictable rs)))"
    by (simp add: evictable_def flip: map_append)
  ultimately show "run_started r \<le> run_started q" unfolding sorted_append by blast
qed

text \<open>
  Starting a run never loses one that matters: the new run is in the table as pending, every
  run that is pending or running stays as it is, the table has at most 200 runs or no finished
  run left, and a finished run is dropped only if it started no later than every finished run
  that is kept.
\<close>
theorem create_run_evicts_oldest:
  assumes "tab_ok (runs e)" and "map_of (runs e) i = None"
    and "create_run now i wid input e = (e', Some i')"
  shows "i' = i
    \<and> (\<exists>w. map_of (workflows e) wid = Some w \<and> get_run e' i = Some (new_run now i w wid input))
    \<and> (\<forall>j r. map_of (runs e) j = Some r \<and> \<not> run_terminal r \<longrightarrow> get_run e' j = Some r)
    \<and> (length (runs e') \<le> max_retained_runs \<or> (\<forall>q \<in> ran (map_of (runs e')). \<not> run_terminal q))
    \<and> (\<forall>j r m q. map_of (runs e) j = Some r \<and> get_run e' j \<noteq> Some r \<and> get_run e' m = Some q \<and> run_terminal q
         \<longrightarrow> run_terminal r \<and> run_started r \<le> run_started q)"
proof (intro conjI allI impI; (elim conjE)?)
  obtain w where w: "map_of (workflows e) wid = Some w"
    using assms(3) by (auto simp: create_run_def split: option.splits)
  define full where "full = tab_put i (new_run now i w wid input) (runs e)"
  have e': "runs e' = evict_runs full" and i': "i' = i"
    using assms(3) w by (auto simp: create_run_def full_def)
  have ok: "tab_ok full" unfolding full_def using assms(1) by (rule tab_ok_put)
  have fresh: "\<not> run_terminal (new_run now i w wid input)" by (simp add: new_run_def run_terminal_def)
  show "i' = i" by (rule i')
  show "\<exists>w. map_of (workflows e) wid = Some w \<and> get_run e' i = Some (new_run now i w wid input)"
    using kept_run [OF ok _ fresh, of i] w e' by (simp add: get_run_def full_def)
  show "get_run e' j = Some r" if "map_of (runs e) j = Some r" "\<not> run_terminal r" for j r
    using that kept_run [OF ok, of j r] assms(2) by (cases "j = i") (simp_all add: get_run_def e' full_def)
  show "length (runs e') \<le> max_retained_runs \<or> (\<forall>q \<in> ran (map_of (runs e')). \<not> run_terminal q)"
  proof (cases "max_retained_runs < length full \<and> length (evictable full) < length full - max_retained_runs")
    case True
    have "\<not> run_terminal q" if "map_of (evict_runs full) m = Some q" for m q
    proof
      assume "run_terminal q"
      moreover from that have "m \<notin> fst ` set (evictable full)" "map_of full m = Some q"
        using True by (auto simp: map_of_evict split: if_splits)
      ultimately show False by (force simp: set_evictable dest: map_of_SomeD)
    qed
    then show ?thesis by (auto simp: e' ran_def)
  next
    case False
    then have "length (evict_runs full) \<le> max_retained_runs"
      using length_evict [OF ok] by (cases "max_retained_runs < length full") (auto simp: evict_runs_def)
    then show ?thesis by (simp add: e')
  qed
  show "run_terminal r" "run_started r \<le> run_started q"
    if a: "map_of (runs e) j = Some r" "get_run e' j \<noteq> Some r" "get_run e' m = Some q" "run_terminal q"
    for j r m q
  proof -
    from a have "map_of full j = Some r" using assms(2) by (auto simp: full_def)
    moreover from this a(2) have "map_of (evict_runs full) j = None"
      by (auto simp: get_run_def e' map_of_evict split: if_splits)
    ultimately show "run_terminal r" "run_started r \<le> run_started q"
      using evicted_older [OF ok] a(3,4) by (simp_all add: get_run_def e')
  qed
qed

section \<open>The type invariant of the engine\<close>

definition run_ok :: "wf_run \<Rightarrow> bool" where
  "run_ok r \<longleftrightarrow>
     (case run_st r of
        RunPending \<Rightarrow> step_results r = [] \<and> run_output r = None \<and> run_error r = None \<and> run_completed_at r = None
      | RunRunning \<Rightarrow> True
      | RunCompleted \<Rightarrow> run_output r \<noteq> None \<and> run_completed_at r \<noteq> None
      | RunFailed \<Rightarrow> run_error r \<noteq> None \<and> run_completed_at r \<noteq> None)"

text \<open>\<open>C\<close> is the set of the runs that may be \<open>Running\<close>.\<close>

definition engine_ok :: "nat set \<Rightarrow> wf_engine \<Rightarrow> bool" where
  "engine_ok C e \<longleftrightarrow>
     tab_ok (workflows e) \<and> (\<forall>(i, w) \<in> set (workflows e). wf_id w = i) \<and>
     tab_ok (runs e) \<and> (\<forall>(i, r) \<in> set (runs e). run_id r = i \<and> run_ok r \<and> (run_st r = RunRunning \<longrightarrow> i \<in> C))"

text \<open>
  What an execution leaves that the caller's timeout drops while it waits for an agent: the run
  is \<open>Running\<close>, with the results recorded until then. Any list of results is allowed here.
\<close>

definition drop_execution :: "nat \<Rightarrow> step_result list \<Rightarrow> wf_engine \<Rightarrow> wf_engine" where
  "drop_execution i rs = upd_run i (\<lambda>r. r\<lparr> run_st := RunRunning, step_results := step_results r @ rs \<rparr>)"

text \<open>
  The operations a client calls; \<open>NewRun\<close> brings its clock reading and its fresh id, and
  \<open>Cancelled\<close> is an execution that is dropped before it ends.
\<close>

datatype wf_op =
    Register workflow
  | RegisterBlocking bool bool workflow
  | Remove nat
  | NewRun nat nat nat string
  | Execute nat
  | Cancelled nat "step_result list"
  | MarkFailed nat nat string

fun wf_apply :: "wf_env \<Rightarrow> (workflow list \<Rightarrow> string option) \<Rightarrow> bool \<times> bool
    \<Rightarrow> wf_engine \<times> nat \<Rightarrow> wf_op \<Rightarrow> wf_engine \<times> nat" where
  "wf_apply E enc io (e, k) (Register w) = (fst (register enc io w e), k)"
| "wf_apply E enc io (e, k) (RegisterBlocking wl rl w) = (fst (register_blocking enc wl rl io w e), k)"
| "wf_apply E enc io (e, k) (Remove i) = (fst (remove_workflow enc io i e), k)"
| "wf_apply E enc io (e, k) (NewRun now i wid input) = (fst (create_run now i wid input e), k)"
| "wf_apply E enc io (e, k) (Execute i) = snd (execute_run E i e k)"
| "wf_apply E enc io (e, k) (Cancelled i rs) = (drop_execution i rs e, k)"
| "wf_apply E enc io (e, k) (MarkFailed now i err) = (mark_run_failed now i err e, k)"

text \<open>The runs whose last execution was dropped and that were not settled since.\<close>

fun left_running :: "nat set \<Rightarrow> wf_op \<Rightarrow> nat set" where
  "left_running C (Cancelled i rs) = insert i C"
| "left_running C (Execute i) = C - {i}"
| "left_running C (MarkFailed now i err) = C - {i}"
| "left_running C (Register w) = C"
| "left_running C (RegisterBlocking wl rl w) = C"
| "left_running C (Remove i) = C"
| "left_running C (NewRun now i wid input) = C"

text \<open>The engine of \<open>new\<close>, or the one \<open>with_persistence\<close> loads (decoder, readability, file).\<close>

fun start_engine :: "((string \<Rightarrow> workflow list option) \<times> bool \<times> string option) option \<Rightarrow> wf_engine" where
  "start_engine None = new_engine"
| "start_engine (Some (decode, readable, disk)) = with_persistence decode readable disk"

lemma set_tab_upd: "tab_ok t \<Longrightarrow> (i, v) \<in> set (tab_upd k f t) \<Longrightarrow>
    \<exists>w. (i, w) \<in> set t \<and> v = (if i = k then f w else w)"
proof (induction t)
  case (Cons a t)
  then show ?case by (cases a) (fastforce split: if_splits simp: rev_image_eqI)
qed simp

lemma persist_workflows_sel [simp]:
  "workflows (persist_workflows enc io e) = workflows e" "runs (persist_workflows enc io e) = runs e"
  by (auto simp: persist_workflows_def split: option.split)

lemma engine_ok_persist [simp]: "engine_ok C (persist_workflows enc io e) = engine_ok C e"
  by (simp add: engine_ok_def)

lemma engine_ok_disk [simp]: "engine_ok C (e\<lparr>wf_disk := d\<rparr>) = engine_ok C e"
  by (simp add: engine_ok_def)

lemma engine_ok_workflows:
  assumes "engine_ok C e"
  shows "engine_ok C (e\<lparr>workflows := tab_put (wf_id w) w (workflows e)\<rparr>)"
    and "engine_ok C (e\<lparr>workflows := tab_del i (workflows e)\<rparr>)"
  using assms by (auto simp: engine_ok_def tab_ok_put tab_ok_del set_tab_put set_tab_del)

lemma engine_ok_upd:
  assumes "engine_ok C e" and "C - {i} \<subseteq> D"
    and "\<And>r. map_of (runs e) i = Some r \<Longrightarrow>
      run_id (f r) = run_id r \<and> run_ok (f r) \<and> (run_st (f r) = RunRunning \<longrightarrow> i \<in> D)"
  shows "engine_ok D (upd_run i f e)"
proof -
  have ok: "tab_ok (runs e)" using assms(1) by (simp add: engine_ok_def)
  have "run_id r = j \<and> run_ok r \<and> (run_st r = RunRunning \<longrightarrow> j \<in> D)" if "(j, r) \<in> set (tab_upd i f (runs e))" for j r
  proof -
    from set_tab_upd [OF ok that] obtain q where q: "(j, q) \<in> set (runs e)" "r = (if j = i then f q else q)"
      by blast
    then have "map_of (runs e) j = Some q" using ok by simp
    with q assms show ?thesis by (cases "j = i") (auto simp: engine_ok_def)
  qed
  with assms(1) show ?thesis by (auto simp: engine_ok_def)
qed

lemma engine_ok_run: "engine_ok C e \<Longrightarrow> map_of (runs e) i = Some r \<Longrightarrow> run_id r = i \<and> run_ok r"
  by (auto simp: engine_ok_def dest: map_of_SomeD)

lemma engine_ok_absent: "engine_ok C e \<Longrightarrow> map_of (runs e) i = None \<Longrightarrow> engine_ok (C - {i}) e"
  by (auto simp: engine_ok_def map_of_eq_None_iff image_iff)

lemma engine_ok_create: "engine_ok C e \<Longrightarrow> engine_ok C (fst (create_run now i wid input e))"
proof (cases "map_of (workflows e) wid")
  case (Some w)
  assume ok: "engine_ok C e"
  let ?full = "tab_put i (new_run now i w wid input) (runs e)"
  have full: "tab_ok ?full" "\<forall>(i, r) \<in> set ?full. run_id r = i \<and> run_ok r \<and> (run_st r = RunRunning \<longrightarrow> i \<in> C)"
    using ok by (auto simp: engine_ok_def tab_ok_put set_tab_put new_run_def run_ok_def)
  moreover have "set (evict_runs ?full) \<subseteq> set ?full" "tab_ok (evict_runs ?full)"
    using full(1) by (auto simp: evict_runs_filter intro: distinct_map_filter)
  ultimately show ?thesis using ok Some by (auto simp: create_run_def engine_ok_def)
qed (simp add: create_run_def)

lemma engine_ok_execute: "engine_ok C e \<Longrightarrow> engine_ok (C - {i}) (fst (snd (execute_run E i e k)))"
proof (cases "map_of (runs e) i")
  case None
  then show "engine_ok C e \<Longrightarrow> ?thesis" by (simp add: execute_run_missing engine_ok_absent)
next
  case (Some r)
  assume ok: "engine_ok C e"
  from execute_run_shape [OF Some, of E k] obtain f res k' where
    run: "execute_run E i e k = (res, upd_run i f e, k')" "ends_as (wall_clock E k') res (f r)"
      "run_identity (f r) = run_identity r" by blast
  have "run_ok (f r) \<and> run_st (f r) \<noteq> RunRunning" using run(2) by (auto simp: ends_as_def run_ok_def split: sum.splits)
  with run(3) Some have "engine_ok (C - {i}) (upd_run i f e)"
    by (intro engine_ok_upd [OF ok]) (auto simp: run_identity_def)
  with run(1) show ?thesis by simp
qed

lemma engine_ok_mark: "engine_ok C e \<Longrightarrow> engine_ok (C - {i}) (mark_run_failed now i err e)"
  unfolding mark_run_failed_def
  by (rule engine_ok_upd) (auto simp: fail_open_def run_ok_def run_open_def dest: engine_ok_run split: run_state.splits)

lemma engine_ok_drop: "engine_ok C e \<Longrightarrow> engine_ok (insert i C) (drop_execution i rs e)"
  unfolding drop_execution_def by (rule engine_ok_upd) (auto simp: run_ok_def)

lemma wf_apply_ok: "engine_ok C (fst s) \<Longrightarrow> engine_ok (left_running C p) (fst (wf_apply E enc io s p))"
  by (cases s; cases p)
    (simp_all add: register_def register_blocking_def persist_blocking_def remove_workflow_def Let_def
      engine_ok_workflows engine_ok_create engine_ok_execute engine_ok_mark engine_ok_drop)

lemma start_engine_ok: "engine_ok {} (start_engine st)"
proof (cases st rule: start_engine.cases)
  case (2 decode readable disk)
  have "engine_ok {} (e\<lparr>workflows := fold (\<lambda>w. tab_put (wf_id w) w) ws (workflows e)\<rparr>)" if "engine_ok {} e" for e ws
    using that
  proof (induction ws arbitrary: e)
    case (Cons w ws)
    from Cons.IH [OF engine_ok_workflows(1) [OF Cons.prems, of w]] show ?case by simp
  qed simp
  from this [of "\<lparr>workflows = [], runs = [], persists = True, wf_disk = disk\<rparr>"]
  show ?thesis by (auto simp: 2 with_persistence_def engine_ok_def Let_def split: option.split)
qed (simp add: new_engine_def engine_ok_def)

lemma engine_run_ok:
  "engine_ok (foldl left_running {} ops) (fst (foldl (wf_apply E enc io) (start_engine st, k) ops))"
proof -
  have "engine_ok C (fst s) \<Longrightarrow> engine_ok (foldl left_running C ops) (fst (foldl (wf_apply E enc io) s ops))" for C s
  proof (induction ops arbitrary: C s)
    case (Cons p ops)
    from Cons.IH [OF wf_apply_ok [OF Cons.prems]] show ?case by simp
  qed simp
  then show ?thesis using start_engine_ok by simp
qed

text \<open>
  C30: Type safety of the engine: from a new engine or one loaded from whatever its file holds,
  after any sequence of registrations (waiting or not), removals, new runs, executions, dropped
  executions and external failures, and whatever the agents answer, the ids of the two tables are
  unique and are the ids of what they hold, a pending run is blank, a completed run has an
  output, a failed one an error, both have a completion time, and a run is \<open>Running\<close> at rest only
  if an execution of it was dropped and it was neither executed nor marked failed since.
\<close>
theorem engine_always_ok:
  "engine_ok (foldl left_running {} ops) (fst (foldl (wf_apply E enc io) (start_engine st, k) ops))"
  by (rule engine_run_ok)

text \<open>The operations that settle a run, execute it again or reuse its id.\<close>

fun concerns :: "nat \<Rightarrow> wf_op \<Rightarrow> bool" where
  "concerns i (Execute j) = (j = i)"
| "concerns i (Cancelled j rs) = (j = i)"
| "concerns i (MarkFailed now j err) = (j = i)"
| "concerns i (NewRun now j wid input) = (j = i)"
| "concerns i p = False"

lemma create_run_keeps:
  assumes "tab_ok (runs e)" and "map_of (runs e) i = Some r" and "\<not> run_terminal r" and "j \<noteq> i"
  shows "map_of (runs (fst (create_run now j wid input e))) i = Some r"
proof (cases "map_of (workflows e) wid")
  case (Some w)
  let ?full = "tab_put j (new_run now j w wid input) (runs e)"
  have "map_of (evict_runs ?full) i = Some r"
    by (rule kept_run) (use assms in \<open>simp_all add: tab_ok_put\<close>)
  then show ?thesis using Some by (simp add: create_run_def)
qed (use assms in \<open>simp add: create_run_def\<close>)

lemma wf_apply_keeps:
  assumes "engine_ok C e" and "map_of (runs e) i = Some r" and "\<not> run_terminal r" and "\<not> concerns i p"
  shows "map_of (runs (fst (wf_apply E enc io (e, k) p))) i = Some r"
proof -
  have "map_of (runs (fst (snd (execute_run E j e k)))) i = Some r" if "j \<noteq> i" for j
  proof (cases "map_of (runs e) j")
    case None
    then show ?thesis using assms(2) by (simp add: execute_run_missing)
  next
    case (Some q)
    from execute_run_shape [OF Some, of E k] obtain f res k' where "execute_run E j e k = (res, upd_run j f e, k')"
      by blast
    then show ?thesis using that assms(2) by (simp add: map_of_tab_upd)
  qed
  moreover have "tab_ok (runs e)" using assms(1) by (simp add: engine_ok_def)
  ultimately show ?thesis using assms(2-4) create_run_keeps
    by (cases p) (auto simp: register_def register_blocking_def persist_blocking_def remove_workflow_def Let_def
        drop_execution_def mark_run_failed_def map_of_tab_upd)
qed


section \<open>Restart\<close>

datatype def_op = PutDef workflow | DelDef nat

fun def_apply :: "(workflow list \<Rightarrow> string option) \<Rightarrow> wf_engine \<Rightarrow> def_op \<Rightarrow> wf_engine" where
  "def_apply enc e (PutDef w) = fst (register enc (True, True) w e)"
| "def_apply enc e (DelDef i) = fst (remove_workflow enc (True, True) i e)"

text \<open>The file holds the current definitions, unless they could not be encoded.\<close>

definition in_sync :: "(workflow list \<Rightarrow> string option) \<Rightarrow> wf_engine \<Rightarrow> bool" where
  "in_sync enc e \<longleftrightarrow> engine_ok {} e \<and> persists e \<and>
     (workflows e = [] \<and> wf_disk e = None \<or>
      (\<forall>d. enc (map snd (workflows e)) = Some d \<longrightarrow> wf_disk e = Some d))"

lemma def_apply_sync: "in_sync enc e \<Longrightarrow> in_sync enc (def_apply enc e p)"
proof (cases p)
  case (PutDef w)
  assume s: "in_sync enc e"
  let ?e = "e\<lparr>workflows := tab_put (wf_id w) w (workflows e)\<rparr>"
  have "engine_ok {} ?e" using s engine_ok_workflows(1) by (simp add: in_sync_def)
  with s PutDef show ?thesis
    by (auto simp: register_def in_sync_def persist_workflows_def split: option.split)
next
  case (DelDef i)
  assume s: "in_sync enc e"
  let ?e = "e\<lparr>workflows := tab_del i (workflows e)\<rparr>"
  have ok: "engine_ok {} ?e" using s engine_ok_workflows(2) by (simp add: in_sync_def)
  show ?thesis
  proof (cases "map_of (workflows e) i")
    case None
    then have "?e = e" by (simp add: tab_del_absent)
    with s DelDef None show ?thesis by (simp add: remove_workflow_def)
  next
    case (Some w)
    with s ok DelDef show ?thesis
      by (auto simp: remove_workflow_def Let_def in_sync_def persist_workflows_def split: option.split)
  qed
qed

interpretation defs: invariant_machine "def_apply enc" "in_sync enc" for enc
  by unfold_locales (rule def_apply_sync)

lemma map_of_fold_put:
  "map_of (fold (\<lambda>w. tab_put (wf_id w) w) ws t) =
     map_of t ++ map_of (rev (map (\<lambda>w. (wf_id w, w)) ws))"
  by (induction ws arbitrary: t) (auto simp: map_add_def fun_eq_iff split: option.split)

lemma map_of_rev_distinct: "distinct (map fst t) \<Longrightarrow> map_of (rev t) = map_of t"
  by (rule map_of_inject_set [THEN iffD2]) (simp_all flip: rev_map)

lemma keyed_by_id: "(\<forall>(i, w) \<in> set t. wf_id w = i) \<Longrightarrow> map ((\<lambda>w. (wf_id w, w)) \<circ> snd) t = t"
  by (induction t) auto

text \<open>
  Definitions survive a restart: after any sequence of registrations and removals on a
  persistent engine that started without a file, an engine built from the file it leaves has
  exactly the same definition under every id, provided decoding inverts encoding and the final
  definitions could be encoded.
\<close>
theorem restart_restores_workflows:
  assumes "\<forall>ws d. enc ws = Some d \<longrightarrow> dec d = Some ws"
    and "e = foldl (def_apply enc) (with_persistence dec True None) ops"
    and "enc (map snd (workflows e)) \<noteq> None"
  shows "get_workflow (with_persistence dec True (wf_disk e)) i = get_workflow e i"
proof -
  have "in_sync enc (with_persistence dec True None)"
    by (simp add: in_sync_def with_persistence_def engine_ok_def)
  then have sync: "in_sync enc e" unfolding assms(2) by (rule defs.run_inv)
  then have keys: "tab_ok (workflows e)" "\<forall>(i, w) \<in> set (workflows e). wf_id w = i"
    by (simp_all add: in_sync_def engine_ok_def)
  show ?thesis
  proof (cases "wf_disk e")
    case None
    with sync assms(3) show ?thesis
      by (auto simp: in_sync_def with_persistence_def get_workflow_def)
  next
    case (Some d)
    with sync assms(1,3) have "dec d = Some (map snd (workflows e))" by (auto simp: in_sync_def)
    with Some show ?thesis
      by (simp add: with_persistence_def get_workflow_def map_of_fold_put
          keyed_by_id [OF keys(2)] map_of_rev_distinct [OF keys(1)])
  qed
qed

section \<open>Templates\<close>

datatype segment = Lit string | Hole string

function segments :: "string \<Rightarrow> segment list" where
  "segments [] = []"
| "segments (c # cs) =
     (case next_hole (c # cs) of
        Some j \<Rightarrow> Hole (take j (drop 2 (c # cs))) # segments (drop (j + 4) (c # cs))
      | None \<Rightarrow> Lit (c # takeWhile is_cont cs) # segments (dropWhile is_cont cs))"
  by pat_completeness auto
termination
  by (relation "measure length") (auto simp: le_imp_less_Suc length_dropWhile_le)

fun seg_source :: "segment \<Rightarrow> string" where
  "seg_source (Lit s) = s"
| "seg_source (Hole n) = open_braces @ n @ close_braces"

fun seg_value :: "string \<Rightarrow> (string \<rightharpoonup> string) \<Rightarrow> segment \<Rightarrow> string" where
  "seg_value input vars (Lit s) = s"
| "seg_value input vars (Hole n) = hole_value input vars n"

lemma next_hole_split:
  assumes "next_hole t = Some j"
  shows "t = open_braces @ take j (drop 2 t) @ close_braces @ drop (j + 4) t"
    and "\<not> contains_sub (take j (drop 2 t)) close_braces"
proof -
  from assms have o: "starts_with t open_braces" and f: "find_sub close_braces (drop 2 t) = Some j"
    by (auto simp: next_hole_def split: if_splits)
  from o obtain u where u: "t = open_braces @ u" by (auto simp: starts_with_iff)
  with f have fu: "find_sub close_braces u = Some j" by simp
  then have "starts_with (drop j u) close_braces" and len: "j + 2 \<le> length u"
    using find_sub_Some [OF fu] by auto
  then obtain v where v: "drop j u = close_braces @ v" by (auto simp: starts_with_iff)
  have "drop (j + 2) u = drop 2 (drop j u)" by (simp add: add.commute)
  with u v have "drop 2 t = u" "drop (j + 4) t = v" by (simp_all add: numeral_eq_Suc)
  moreover have "u = take j u @ close_braces @ v" unfolding v [symmetric] by simp
  ultimately show "t = open_braces @ take j (drop 2 t) @ close_braces @ drop (j + 4) t"
    unfolding u by metis
  show "\<not> contains_sub (take j (drop 2 t)) close_braces"
  proof
    assume "contains_sub (take j (drop 2 t)) close_braces"
    then obtain x y where xy: "take j u = x @ close_braces @ y" by (auto simp: contains_sub_iff u)
    then have "u = x @ close_braces @ y @ drop j u" by (metis append.assoc append_take_drop_id)
    with fu have "j \<le> length x" using find_sub_append_least by metis
    moreover have "length x + 2 \<le> j" using arg_cong [OF xy, of length] len by simp
    ultimately show False by simp
  qed
qed

text \<open>
  C21: Expansion is a single pass: the template alone determines its segments (they spell it, and
  no placeholder name contains the closing braces), and the result is the concatenation of the
  literal segments with the values of the placeholders. A value is never scanned for
  placeholders, so an agent's output cannot pull in another variable.
\<close>
theorem expand_is_single_pass:
  "concat (map seg_source (segments t)) = t
   \<and> (\<forall>n. Hole n \<in> set (segments t) \<longrightarrow> \<not> contains_sub n close_braces)
   \<and> expand_variables t input vars = concat (map (seg_value input vars) (segments t))"
proof (intro conjI)
  show "concat (map seg_source (segments t)) = t"
  proof (induction t rule: segments.induct)
    case (2 c cs)
    show ?case
    proof (cases "next_hole (c # cs)")
      case None
      with 2(1) [OF None] show ?thesis by simp
    next
      case (Some j)
      then have "concat (map seg_source (segments (c # cs)))
          = open_braces @ take j (drop 2 (c # cs)) @ close_braces @ drop (j + 4) (c # cs)"
        unfolding segments.simps(2) Some option.case list.map concat.simps seg_source.simps
        by (simp only: 2(2) [OF Some] append_assoc)
      also have "\<dots> = c # cs" using next_hole_split(1) [OF Some] by (rule sym)
      finally show ?thesis .
    qed
  qed simp
  show "\<forall>n. Hole n \<in> set (segments t) \<longrightarrow> \<not> contains_sub n close_braces"
  proof (induction t rule: segments.induct)
    case (2 c cs)
    then show ?case
      using next_hole_split(2) [of "c # cs"] by (cases "next_hole (c # cs)") auto
  qed simp
  show "expand_variables t input vars = concat (map (seg_value input vars) (segments t))"
  proof (induction t rule: segments.induct)
    case (2 c cs)
    then show ?case by (cases "next_hole (c # cs)") auto
  qed simp
qed

section \<open>Concrete runs\<close>

text \<open>An agent that fails its first message and then answers its prompt with a mark.\<close>

definition demo_env :: wf_env where
  "demo_env =
     \<lparr>agent_resolver = (\<lambda>k a. case a of ByName n \<Rightarrow> (if n = ''nobody'' then None else Some (1, n)) | ById i \<Rightarrow> None),
      agent_text = nat_str,
      send_message = (\<lambda>k a p. if k = 0 then Errored ''busy'' else Replied (p @ ''!'') 1 2),
      wf_lower = map ascii_lower, elapsed_ms = (\<lambda>k. k), wall_clock = (\<lambda>k. 100 + k)\<rparr>"

definition demo_step :: "string \<Rightarrow> step_mode \<Rightarrow> on_error \<Rightarrow> string \<Rightarrow> wf_step" where
  "demo_step n mode err template =
     \<lparr>step_name = n, step_agent = ByName ''a'', prompt_template = template, step_mode = mode,
      step_timeout = default_timeout, error_mode = err, output_var = Some n\<rparr>"

definition demo_workflow :: workflow where
  "demo_workflow =
     \<lparr>wf_id = 3, wf_name = ''demo'', wf_description = [],
      wf_steps = [demo_step ''s1'' Sequential (Retry 1) ''{{input}}'',
                  demo_step ''s2'' FanOut Fail ''L{{s1}}'', demo_step ''s3'' FanOut Fail ''R{{s1}}'',
                  demo_step ''s4'' Collect Fail [], demo_step ''s5'' (Loop_until 2 ''z'') Fail ''{{s3}}{{input}}''],
      wf_created = 0\<rparr>"

definition demo_engine :: wf_engine where
  "demo_engine = new_engine\<lparr>workflows := [(3, demo_workflow)],
     runs := [(7, new_run 5 7 demo_workflow 3 ''go''), (8, new_run 4 8 demo_workflow 99 ''go'')]\<rparr>"

lemma demo_tables:
  "map_of (runs demo_engine) 7 = Some (new_run 5 7 demo_workflow 3 ''go'')"
  "map_of (runs demo_engine) 8 = Some (new_run 4 8 demo_workflow 99 ''go'')"
  "map_of (runs demo_engine) 9 = None" "tab_ok (runs demo_engine)"
  "map_of (workflows demo_engine) 3 = Some demo_workflow"
  by (simp_all add: demo_engine_def)

lemma execute_run_refines_witness:
  "execute_run demo_env 7 demo_engine 0 =
    (let out = pipeline demo_env (wf_steps demo_workflow) 0 ''go'' in
     (pipe_result out, upd_run 7 (settle demo_env out) demo_engine, pi_sent (pipe_of out)))
   \<and> fst (execute_run demo_env 7 demo_engine 0)
       = Inr (''Rgo!!'' @ join collect_sep [''Rgo!!go!'', ''Lgo!!'', ''Rgo!!''] @ ''!!'')"
proof
  show "execute_run demo_env 7 demo_engine 0 =
    (let out = pipeline demo_env (wf_steps demo_workflow) 0 ''go'' in
     (pipe_result out, upd_run 7 (settle demo_env out) demo_engine, pi_sent (pipe_of out)))"
    using execute_run_refines [OF demo_tables(1), of demo_workflow demo_env 0]
    by (simp add: new_run_def demo_tables)
qed code_simp

lemma run_always_settles_witness:
  "\<exists>r. map_of (runs (fst (snd (execute_run demo_env 8 demo_engine 0)))) 8 = Some r
       \<and> ends_as 100 (Inl ''Workflow definition not found'') r"
proof -
  obtain e' where run: "execute_run demo_env 8 demo_engine 0 = (Inl ''Workflow definition not found'', e', 0)"
    by (simp add: execute_run_def execute_run_inner_def demo_tables Let_def)
      (simp add: demo_engine_def new_run_def)
  show ?thesis
    using conjunct1 [OF run_always_settles [OF demo_tables(2) run]] unfolding run by (auto simp: demo_env_def)
qed

lemma create_run_evicts_oldest_witness:
  "get_run (fst (create_run 6 9 3 ''x'' demo_engine)) 8 = Some (new_run 4 8 demo_workflow 99 ''go'')"
proof -
  have new: "create_run 6 9 3 ''x'' demo_engine = (fst (create_run 6 9 3 ''x'' demo_engine), Some 9)"
    by (simp add: create_run_def demo_tables)
  have "\<forall>j r. map_of (runs demo_engine) j = Some r \<and> \<not> run_terminal r \<longrightarrow>
      get_run (fst (create_run 6 9 3 ''x'' demo_engine)) j = Some r"
    using create_run_evicts_oldest [OF demo_tables(4,3) new] by (elim conjE)
  moreover have "\<not> run_terminal (new_run 4 8 demo_workflow 99 ''go'')" by (simp add: new_run_def run_terminal_def)
  ultimately show ?thesis using demo_tables(2) by blast
qed

lemma restart_restores_workflows_witness:
  "let enc = (\<lambda>ws. if ws = [demo_workflow] then Some ''f'' else None);
       dec = (\<lambda>d. if d = ''f'' then Some [demo_workflow] else None);
       e = foldl (def_apply enc) (with_persistence dec True None) [PutDef demo_workflow, DelDef 4] in
   get_workflow (with_persistence dec True (wf_disk e)) 3 = Some demo_workflow"
proof -
  let ?enc = "\<lambda>ws. if ws = [demo_workflow] then Some ''f'' else None"
  let ?dec = "\<lambda>d. if d = ''f'' then Some [demo_workflow] else None"
  let ?e = "foldl (def_apply ?enc) (with_persistence ?dec True None) [PutDef demo_workflow, DelDef 4]"
  have ws: "workflows ?e = [(3, demo_workflow)]"
    by (simp add: with_persistence_def register_def remove_workflow_def persist_workflows_def demo_workflow_def tab_del_def)
  have "get_workflow (with_persistence ?dec True (wf_disk ?e)) 3 = get_workflow ?e 3"
    by (rule restart_restores_workflows [where enc = ?enc and ops = "[PutDef demo_workflow, DelDef 4]"])
      (auto simp only: ws split: if_splits, simp_all)
  then show ?thesis unfolding Let_def get_workflow_def [of ?e] ws by simp
qed

lemma expand_is_single_pass_witness:
  "Hole '' input '' \<in> set (segments ''a {{ input }} {{b'') \<and> \<not> contains_sub '' input '' close_braces
   \<and> expand_variables ''a {{ input }} {{b'' ''{{secret}}'' [''secret'' \<mapsto> ''42''] = ''a {{secret}} {{b''"
proof (intro conjI)
  show hole: "Hole '' input '' \<in> set (segments ''a {{ input }} {{b'')" by code_simp
  show "\<not> contains_sub '' input '' close_braces"
    using expand_is_single_pass [of "''a {{ input }} {{b''"] hole by blast
  have "segments ''a {{ input }} {{b'' = map (\<lambda>c. Lit [c]) ''a '' @ Hole '' input '' # map (\<lambda>c. Lit [c]) '' {{b''"
    by code_simp
  moreover have "trim '' input '' = ''input''" by code_simp
  ultimately show "expand_variables ''a {{ input }} {{b'' ''{{secret}}'' [''secret'' \<mapsto> ''42'']
      = ''a {{secret}} {{b''"
    using expand_is_single_pass [of "''a {{ input }} {{b''" "''{{secret}}''" "[''secret'' \<mapsto> ''42'']"]
    by (simp add: hole_value_def)
qed


end
