(* ===== verification/Events.thy ===== *)
theory Events
  imports Rust_Text
begin

text \<open>
  The events of \<open>types/src/event.rs\<close>, their descriptions (\<open>describe_event\<close> of
  \<open>kernel/src/triggers.rs\<close>) and the event bus of \<open>kernel/src/event_bus.rs\<close>.

  Ids are numbers. Floating-point fields keep their bit patterns, and how the standard library
  prints a float, an id, or the derived \<open>Debug\<close> form of an enum with text in it are the
  functions of \<open>ev_fmt\<close>. The channels of the bus belong to tokio: \<open>publish\<close> returns the sends it
  makes, in order.
\<close>

section \<open>Events\<close>

datatype message_role = User_role | Agent_role | System_role | Tool_role

record agent_message =
  am_content :: string
  am_metadata :: "(string \<times> string) list"
  am_role :: message_role

record tool_output =
  to_tool_id :: string
  to_tool_use_id :: string
  to_content :: string
  to_success :: bool
  to_time_ms :: nat

datatype memory_operation = Created | Updated | Deleted

record memory_delta =
  md_operation :: memory_operation
  md_key :: string
  md_agent_id :: nat

datatype lifecycle_event =
    Spawned nat string
  | Started_agent nat
  | Suspended nat
  | Resumed nat
  | Terminated nat string
  | Crashed nat string

datatype network_event =
    PeerConnected string
  | PeerDisconnected string
  | MessageReceived string string
  | DiscoveryResult string "string list"

datatype system_event =
    KernelStarted
  | KernelStopping
  | QuotaWarning nat string "32 word"
  | HealthCheck string
  | QuotaEnforced nat "64 word" "64 word"
  | ModelRouted nat string string
  | UserAction string string string
  | HealthCheckFailed nat nat

datatype event_payload =
    Message_payload agent_message
  | ToolResult_payload tool_output
  | MemoryUpdate_payload memory_delta
  | Lifecycle_payload lifecycle_event
  | Network_payload network_event
  | System_payload system_event
  | Custom_payload "8 word list"

datatype event_target = Agent_target nat | Broadcast | Pattern_target string | System_target

record event =
  event_id :: nat
  event_source :: nat
  event_target :: event_target
  event_payload :: event_payload
  event_timestamp :: nat
  correlation_id :: "nat option"
  event_ttl :: "nat option"

definition new_event :: "nat \<Rightarrow> nat \<Rightarrow> nat \<Rightarrow> event_target \<Rightarrow> event_payload \<Rightarrow> event" where
  "new_event fresh now source target payload =
     \<lparr>event_id = fresh, event_source = source, event_target = target, event_payload = payload,
      event_timestamp = now, correlation_id = None, event_ttl = None\<rparr>"

definition with_correlation :: "nat \<Rightarrow> event \<Rightarrow> event" where
  "with_correlation c ev = ev\<lparr>correlation_id := Some c\<rparr>"

definition with_ttl :: "nat \<Rightarrow> event \<Rightarrow> event" where
  "with_ttl d ev = ev\<lparr>event_ttl := Some d\<rparr>"

section \<open>Descriptions\<close>

record ev_fmt =
  id_text :: "nat \<Rightarrow> string"
  f32_1 :: "32 word \<Rightarrow> string"
  f64_4 :: "64 word \<Rightarrow> string"
  debug_network :: "network_event \<Rightarrow> string"
  debug_system :: "system_event \<Rightarrow> string"
  ev_lower :: "string \<Rightarrow> string"

fun role_name :: "message_role \<Rightarrow> string" where
  "role_name User_role = ''User''"
| "role_name Agent_role = ''Agent''"
| "role_name System_role = ''System''"
| "role_name Tool_role = ''Tool''"

fun operation_name :: "memory_operation \<Rightarrow> string" where
  "operation_name Created = ''Created''"
| "operation_name Updated = ''Updated''"
| "operation_name Deleted = ''Deleted''"

fun describe_lifecycle :: "ev_fmt \<Rightarrow> lifecycle_event \<Rightarrow> string" where
  "describe_lifecycle F (Spawned a n) = ''Agent '' @ quoted n @ '' (id: '' @ id_text F a @ '') was spawned''"
| "describe_lifecycle F (Started_agent a) = ''Agent '' @ id_text F a @ '' started''"
| "describe_lifecycle F (Suspended a) = ''Agent '' @ id_text F a @ '' suspended''"
| "describe_lifecycle F (Resumed a) = ''Agent '' @ id_text F a @ '' resumed''"
| "describe_lifecycle F (Terminated a r) = ''Agent '' @ id_text F a @ '' terminated: '' @ r"
| "describe_lifecycle F (Crashed a e) = ''Agent '' @ id_text F a @ '' crashed: '' @ e"

fun describe_system :: "ev_fmt \<Rightarrow> system_event \<Rightarrow> string" where
  "describe_system F KernelStarted = ''Kernel started''"
| "describe_system F KernelStopping = ''Kernel stopping''"
| "describe_system F (QuotaWarning a r u) =
     ''Quota warning: agent '' @ id_text F a @ '', '' @ r @ '' at '' @ f32_1 F u @ ''%''"
| "describe_system F (HealthCheck s) = ''Health check: '' @ s"
| "describe_system F (QuotaEnforced a s l) =
     ''Quota enforced: agent '' @ id_text F a @ '', spent $'' @ f64_4 F s @ '' / $'' @ f64_4 F l"
| "describe_system F (ModelRouted a c m) =
     ''Model routed: agent '' @ id_text F a @ '', complexity='' @ c @ '', model='' @ m"
| "describe_system F (UserAction u a r) = ''User action: '' @ u @ '' '' @ a @ '' -> '' @ r"
| "describe_system F (HealthCheckFailed a s) =
     ''Health check failed: agent '' @ id_text F a @ '', unresponsive for '' @ nat_str s @ ''s''"

fun describe_payload :: "ev_fmt \<Rightarrow> event_payload \<Rightarrow> string" where
  "describe_payload F (Message_payload m) =
     ''Message from '' @ role_name (am_role m) @ '': '' @ am_content m"
| "describe_payload F (ToolResult_payload t) =
     ''Tool '' @ quoted (to_tool_id t) @ '' '' @ (if to_success t then ''succeeded'' else ''failed'')
     @ '' ('' @ nat_str (to_time_ms t) @ ''ms): '' @ truncate_bytes (to_content t) 200"
| "describe_payload F (MemoryUpdate_payload d) =
     ''Memory '' @ operation_name (md_operation d) @ '' on key '' @ quoted (md_key d)
     @ '' for agent '' @ id_text F (md_agent_id d)"
| "describe_payload F (Lifecycle_payload l) = describe_lifecycle F l"
| "describe_payload F (Network_payload n) = ''Network event: '' @ debug_network F n"
| "describe_payload F (System_payload s) = describe_system F s"
| "describe_payload F (Custom_payload bs) = ''Custom event ('' @ nat_str (length bs) @ '' bytes)''"

definition describe_event :: "ev_fmt \<Rightarrow> event \<Rightarrow> string" where
  "describe_event F ev = describe_payload F (event_payload ev)"

section \<open>The event bus\<close>

definition bus_history_size :: nat where "bus_history_size = 1000"

datatype bus_channel = Global_channel | Agent_channel nat

text \<open>The agents that have a channel, in the iteration order of the map, and the ring buffer.\<close>

record event_bus =
  agent_channels :: "nat list"
  bus_history :: "event list"

definition new_bus :: event_bus where
  "new_bus = \<lparr>agent_channels = [], bus_history = []\<rparr>"

definition push_history :: "event \<Rightarrow> event list \<Rightarrow> event list" where
  "push_history ev h = (if bus_history_size \<le> length h then tl h else h) @ [ev]"

definition route :: "event_bus \<Rightarrow> event \<Rightarrow> (bus_channel \<times> event) list" where
  "route b ev =
     (case event_target ev of
        Agent_target a \<Rightarrow> (if a \<in> set (agent_channels b) then [(Agent_channel a, ev)] else [])
      | Broadcast \<Rightarrow> (Global_channel, ev) # map (\<lambda>a. (Agent_channel a, ev)) (agent_channels b)
      | Pattern_target p \<Rightarrow> [(Global_channel, ev)]
      | System_target \<Rightarrow> [(Global_channel, ev)])"

definition publish :: "event \<Rightarrow> event_bus \<Rightarrow> event_bus \<times> (bus_channel \<times> event) list" where
  "publish ev b =
     (let b' = b\<lparr>bus_history := push_history ev (bus_history b)\<rparr> in (b', route b' ev))"

definition subscribe_agent :: "nat \<Rightarrow> event_bus \<Rightarrow> event_bus" where
  "subscribe_agent a b =
     (if a \<in> set (agent_channels b) then b else b\<lparr>agent_channels := agent_channels b @ [a]\<rparr>)"

definition history :: "nat \<Rightarrow> event_bus \<Rightarrow> event list" where
  "history limit b = take limit (rev (bus_history b))"

definition unsubscribe_agent :: "nat \<Rightarrow> event_bus \<Rightarrow> event_bus" where
  "unsubscribe_agent a b = b\<lparr>agent_channels := filter (\<lambda>c. c \<noteq> a) (agent_channels b)\<rparr>"

section \<open>The ring buffer keeps the newest events\<close>

datatype bus_op = Publish event | Subscribe nat | Unsubscribe nat

fun bus_apply :: "event_bus \<Rightarrow> bus_op \<Rightarrow> event_bus" where
  "bus_apply b (Publish ev) = fst (publish ev b)"
| "bus_apply b (Subscribe a) = subscribe_agent a b"
| "bus_apply b (Unsubscribe a) = unsubscribe_agent a b"

fun published :: "bus_op list \<Rightarrow> event list" where
  "published [] = []"
| "published (Publish ev # ops) = ev # published ops"
| "published (Subscribe a # ops) = published ops"
| "published (Unsubscribe a # ops) = published ops"

lemma push_history_take:
  "rev h = take bus_history_size xs \<Longrightarrow> rev (push_history ev h) = take bus_history_size (ev # xs)"
proof -
  assume h: "rev h = take bus_history_size xs"
  have len: "length h = min (length xs) bus_history_size" using arg_cong [OF h, of length] by simp
  show ?thesis
  proof (cases "bus_history_size \<le> length xs")
    case True
    with len have "h \<noteq> []" by (auto simp: bus_history_size_def)
    then have "rev (tl h) = butlast (rev h)" by (cases h) auto
    also have "\<dots> = take (bus_history_size - 1) xs" unfolding h using True by (simp add: butlast_take)
    finally show ?thesis using True len by (simp add: push_history_def bus_history_size_def take_Cons')
  next
    case False
    with h len show ?thesis by (simp add: push_history_def bus_history_size_def take_Cons')
  qed
qed

lemma bus_history_newest:
  "rev (bus_history b) = take bus_history_size xs \<Longrightarrow>
   rev (bus_history (foldl bus_apply b ops)) = take bus_history_size (rev (published ops) @ xs)"
proof (induction ops arbitrary: b xs rule: published.induct)
  case (2 ev ops)
  have "rev (bus_history (bus_apply b (Publish ev))) = take bus_history_size (ev # xs)"
    using push_history_take [OF 2(2)] by (simp add: publish_def Let_def)
  from 2(1) [OF this] show ?case by simp
qed (auto simp: subscribe_agent_def unsubscribe_agent_def)

lemma bus_channels_distinct:
  "distinct (agent_channels b) \<Longrightarrow> distinct (agent_channels (bus_apply b p))"
  by (cases p) (auto simp: publish_def Let_def subscribe_agent_def unsubscribe_agent_def)

interpretation bus: invariant_machine bus_apply "\<lambda>b. distinct (agent_channels b)"
  by unfold_locales (rule bus_channels_distinct)

text \<open>
  The history of the event bus is the newest first, at most a thousand: whatever is
  subscribed and unsubscribed in between, \<open>history n\<close> returns the last \<open>n\<close> published events (of
  the last thousand) in reverse order, and a broadcast reaches the global channel once and each
  agent with a channel exactly once.
\<close>
theorem history_is_newest:
  "history n (foldl bus_apply new_bus ops) = take n (take bus_history_size (rev (published ops)))
   \<and> (event_target ev = Broadcast \<longrightarrow>
      (let b = foldl bus_apply new_bus ops in
       distinct (map fst (snd (publish ev b)))
       \<and> set (map fst (snd (publish ev b))) = insert Global_channel (Agent_channel ` set (agent_channels b))))"
proof (intro conjI impI)
  show "history n (foldl bus_apply new_bus ops) = take n (take bus_history_size (rev (published ops)))"
    using bus_history_newest [of new_bus "[]" ops] by (simp add: history_def new_bus_def)
  have d: "distinct (agent_channels (foldl bus_apply new_bus ops))"
    by (rule bus.run_inv) (simp add: new_bus_def)
  assume "event_target ev = Broadcast"
  with d show "let b = foldl bus_apply new_bus ops in
       distinct (map fst (snd (publish ev b)))
       \<and> set (map fst (snd (publish ev b))) = insert Global_channel (Agent_channel ` set (agent_channels b))"
    by (auto simp: publish_def route_def Let_def distinct_map inj_on_def)
qed

definition demo_event :: "nat \<Rightarrow> event_target \<Rightarrow> event" where
  "demo_event i target = new_event i 0 0 target (System_payload KernelStarted)"

lemma history_is_newest_witness:
  "distinct (map fst (snd (publish (demo_event 2 Broadcast)
     (foldl bus_apply new_bus [Subscribe 4, Publish (demo_event 1 Broadcast), Subscribe 4, Subscribe 5]))))"
  using history_is_newest [of 0 "[Subscribe 4, Publish (demo_event 1 Broadcast), Subscribe 4, Subscribe 5]"
      "demo_event 2 Broadcast"]
  unfolding Let_def by (simp only: demo_event_def new_event_def event.simps simp_thms)

end
