(* ===== verification/Triggers.thy ===== *)
theory Triggers
  imports Events
begin

text \<open>
  The trigger engine of \<open>kernel/src/triggers.rs\<close>, the conditions of proactive agents
  (\<open>kernel/src/background.rs\<close>) and the two places of \<open>kernel/src/kernel.rs\<close> where an event meets
  the triggers. The map of triggers is iterated, so it is a table; the index by agent is only
  looked up. The content of the persistence file has the type \<open>'d\<close>, a parameter with its codec
  (\<open>serde_json\<close>); \<open>io\<close> says whether the write and the rename succeed.
\<close>

section \<open>Data\<close>

datatype trigger_pattern =
    Lifecycle_pattern
  | AgentSpawned string
  | AgentTerminated
  | System_pattern
  | SystemKeyword string
  | MemoryUpdate
  | MemoryKeyPattern string
  | All_pattern
  | ContentMatch string

record trigger =
  trigger_id :: nat
  trigger_agent :: nat
  trigger_pattern :: trigger_pattern
  trigger_template :: string
  trigger_enabled :: bool
  trigger_created :: nat
  fire_count :: nat
  max_fires :: nat

record 'd trigger_engine =
  triggers :: "(nat, trigger) table"
  agent_triggers :: "nat \<rightharpoonup> nat list"
  trigger_persists :: bool
  trigger_disk :: "'d option"

definition new_trigger_engine :: "'d trigger_engine" where
  "new_trigger_engine =
     \<lparr>triggers = [], agent_triggers = Map.empty, trigger_persists = False, trigger_disk = None\<rparr>"

text \<open>\<open>agent_triggers.entry(agent_id).or_default().push(id)\<close>.\<close>

definition index_push :: "nat \<Rightarrow> nat \<Rightarrow> (nat \<rightharpoonup> nat list) \<Rightarrow> (nat \<rightharpoonup> nat list)" where
  "index_push a i ix = ix(a \<mapsto> (case ix a of None \<Rightarrow> [] | Some is \<Rightarrow> is) @ [i])"

definition load_trigger :: "trigger \<Rightarrow> 'd trigger_engine \<Rightarrow> 'd trigger_engine" where
  "load_trigger t e = e\<lparr>triggers := tab_put (trigger_id t) t (triggers e),
     agent_triggers := index_push (trigger_agent t) (trigger_id t) (agent_triggers e)\<rparr>"

definition triggers_with_persistence ::
    "('d \<Rightarrow> trigger list option) \<Rightarrow> bool \<Rightarrow> 'd option \<Rightarrow> 'd trigger_engine" where
  "triggers_with_persistence dec readable disk =
     (let e = \<lparr>triggers = [], agent_triggers = Map.empty, trigger_persists = True, trigger_disk = disk\<rparr> in
      case disk of
        None \<Rightarrow> e
      | Some data \<Rightarrow> if \<not> readable then e
          else (case dec data of None \<Rightarrow> e | Some loaded \<Rightarrow> fold load_trigger loaded e))"

definition persist_triggers ::
    "(trigger list \<Rightarrow> 'd option) \<Rightarrow> bool \<times> bool \<Rightarrow> 'd trigger_engine \<Rightarrow> 'd trigger_engine" where
  "persist_triggers enc io e =
     (if \<not> trigger_persists e then e
      else case enc (map snd (triggers e)) of
        None \<Rightarrow> e
      | Some data \<Rightarrow> if fst io \<and> snd io then e\<lparr>trigger_disk := Some data\<rparr> else e)"

section \<open>Operations\<close>

definition new_trigger :: "nat \<Rightarrow> nat \<Rightarrow> nat \<Rightarrow> trigger_pattern \<Rightarrow> string \<Rightarrow> nat \<Rightarrow> trigger" where
  "new_trigger fresh now a pat template maxf =
     \<lparr>trigger_id = fresh, trigger_agent = a, trigger_pattern = pat, trigger_template = template,
      trigger_enabled = True, trigger_created = now, fire_count = 0, max_fires = maxf\<rparr>"

definition register_trigger :: "(trigger list \<Rightarrow> 'd option) \<Rightarrow> bool \<times> bool \<Rightarrow> nat \<Rightarrow> nat \<Rightarrow> nat
    \<Rightarrow> trigger_pattern \<Rightarrow> string \<Rightarrow> nat \<Rightarrow> 'd trigger_engine \<Rightarrow> 'd trigger_engine \<times> nat" where
  "register_trigger enc io fresh now a pat template maxf e =
     (persist_triggers enc io (load_trigger (new_trigger fresh now a pat template maxf) e), fresh)"

definition remove_trigger :: "(trigger list \<Rightarrow> 'd option) \<Rightarrow> bool \<times> bool \<Rightarrow> nat
    \<Rightarrow> 'd trigger_engine \<Rightarrow> 'd trigger_engine \<times> bool" where
  "remove_trigger enc io i e =
     (case map_of (triggers e) i of
        None \<Rightarrow> (e, False)
      | Some t \<Rightarrow>
          (persist_triggers enc io
             (e\<lparr>triggers := tab_del i (triggers e),
                agent_triggers :=
                  (case agent_triggers e (trigger_agent t) of
                     None \<Rightarrow> agent_triggers e
                   | Some is \<Rightarrow> (agent_triggers e)(trigger_agent t \<mapsto> filter (\<lambda>j. j \<noteq> i) is))\<rparr>),
           True))"

definition remove_agent_triggers :: "(trigger list \<Rightarrow> 'd option) \<Rightarrow> bool \<times> bool \<Rightarrow> nat
    \<Rightarrow> 'd trigger_engine \<Rightarrow> 'd trigger_engine" where
  "remove_agent_triggers enc io a e =
     (case agent_triggers e a of
        None \<Rightarrow> e
      | Some is \<Rightarrow> persist_triggers enc io
          (e\<lparr>triggers := fold tab_del is (triggers e), agent_triggers := (agent_triggers e)(a := None)\<rparr>))"

definition set_enabled :: "(trigger list \<Rightarrow> 'd option) \<Rightarrow> bool \<times> bool \<Rightarrow> nat \<Rightarrow> bool
    \<Rightarrow> 'd trigger_engine \<Rightarrow> 'd trigger_engine \<times> bool" where
  "set_enabled enc io i b e =
     (case map_of (triggers e) i of
        None \<Rightarrow> (e, False)
      | Some t \<Rightarrow>
          (persist_triggers enc io (e\<lparr>triggers := tab_put i (t\<lparr>trigger_enabled := b\<rparr>) (triggers e)\<rparr>), True))"

definition list_agent_triggers :: "nat \<Rightarrow> 'd trigger_engine \<Rightarrow> trigger list" where
  "list_agent_triggers a e =
     (case agent_triggers e a of None \<Rightarrow> [] | Some is \<Rightarrow> List.map_filter (map_of (triggers e)) is)"

definition list_all_triggers :: "'d trigger_engine \<Rightarrow> trigger list" where
  "list_all_triggers e = map snd (triggers e)"

definition get_trigger :: "nat \<Rightarrow> 'd trigger_engine \<Rightarrow> trigger option" where
  "get_trigger i e = map_of (triggers e) i"

section \<open>Matching\<close>

definition lower_contains :: "ev_fmt \<Rightarrow> string \<Rightarrow> string \<Rightarrow> bool" where
  "lower_contains F t p \<longleftrightarrow> contains_sub (ev_lower F t) (ev_lower F p)"

definition wild_contains :: "string \<Rightarrow> string \<Rightarrow> bool" where
  "wild_contains t p \<longleftrightarrow> (if p = ''*'' then True else if p = [] then False else contains_sub t p)"

definition trigger_matches :: "ev_fmt \<Rightarrow> trigger_pattern \<Rightarrow> event \<Rightarrow> string \<Rightarrow> bool" where
  "trigger_matches F pat ev description =
     (case pat of
        All_pattern \<Rightarrow> True
      | Lifecycle_pattern \<Rightarrow> (case event_payload ev of Lifecycle_payload l \<Rightarrow> True | _ \<Rightarrow> False)
      | AgentSpawned p \<Rightarrow>
          (case event_payload ev of
             Lifecycle_payload l \<Rightarrow> (case l of Spawned a n \<Rightarrow> wild_contains n p | _ \<Rightarrow> False)
           | _ \<Rightarrow> False)
      | AgentTerminated \<Rightarrow>
          (case event_payload ev of
             Lifecycle_payload l \<Rightarrow> (case l of Terminated a r \<Rightarrow> True | Crashed a x \<Rightarrow> True | _ \<Rightarrow> False)
           | _ \<Rightarrow> False)
      | System_pattern \<Rightarrow> (case event_payload ev of System_payload s \<Rightarrow> True | _ \<Rightarrow> False)
      | SystemKeyword k \<Rightarrow>
          (case event_payload ev of
             System_payload s \<Rightarrow> (if k = [] then False else lower_contains F (debug_system F s) k)
           | _ \<Rightarrow> False)
      | MemoryUpdate \<Rightarrow> (case event_payload ev of MemoryUpdate_payload d \<Rightarrow> True | _ \<Rightarrow> False)
      | MemoryKeyPattern p \<Rightarrow>
          (case event_payload ev of MemoryUpdate_payload d \<Rightarrow> wild_contains (md_key d) p | _ \<Rightarrow> False)
      | ContentMatch s \<Rightarrow> (if s = [] then False else lower_contains F description s))"

section \<open>Evaluation\<close>

definition event_hole :: string where "event_hole = ''{{event}}''"

text \<open>The body of the loop on one trigger: the trigger after it, and what it sends.\<close>

definition evaluate_one :: "ev_fmt \<Rightarrow> event \<Rightarrow> string \<Rightarrow> trigger \<Rightarrow> trigger \<times> bool \<times> (nat \<times> string) option" where
  "evaluate_one F ev description t =
     (if \<not> trigger_enabled t then (t, False, None)
      else if 0 < max_fires t \<and> max_fires t \<le> fire_count t
        then (t\<lparr>trigger_enabled := False\<rparr>, True, None)
      else if trigger_matches F (trigger_pattern t) ev description
        then (t\<lparr>fire_count := fire_count t + 1\<rparr>, True,
              Some (trigger_agent t, replace_all event_hole description (trigger_template t)))
      else (t, False, None))"

definition evaluate :: "ev_fmt \<Rightarrow> (trigger list \<Rightarrow> 'd option) \<Rightarrow> bool \<times> bool \<Rightarrow> event
    \<Rightarrow> 'd trigger_engine \<Rightarrow> 'd trigger_engine \<times> (nat \<times> string) list" where
  "evaluate F enc io ev e =
     (let description = describe_event F ev;
          one = (\<lambda>t. evaluate_one F ev description t);
          e' = e\<lparr>triggers := map (\<lambda>(i, t). (i, fst (one t))) (triggers e)\<rparr>;
          mutated = list_ex (\<lambda>(i, t). fst (snd (one t))) (triggers e) in
      (if mutated then persist_triggers enc io e' else e',
       List.map_filter (\<lambda>(i, t). snd (snd (one t))) (triggers e)))"

section \<open>Conditions of proactive agents\<close>

definition after_prefix_opt :: "string \<Rightarrow> string \<Rightarrow> string option" where
  "after_prefix_opt p s = (if starts_with s p then Some (drop (length p) s) else None)"

definition parse_condition :: "(string \<Rightarrow> string) \<Rightarrow> string \<Rightarrow> trigger_pattern option" where
  "parse_condition lower condition0 =
     (let condition = trim condition0 in
      if map ascii_lower condition = ''all'' then Some All_pattern
      else case after_prefix_opt ''event:'' condition of
        Some event_kind \<Rightarrow>
          (let kind = lower (trim event_kind) in
           if kind = ''agent_spawned'' then Some (AgentSpawned ''*'')
           else if kind = ''agent_terminated'' then Some AgentTerminated
           else if kind = ''lifecycle'' then Some Lifecycle_pattern
           else if kind = ''system'' then Some System_pattern
           else if kind = ''memory_update'' then Some MemoryUpdate
           else None)
      | None \<Rightarrow>
          (case after_prefix_opt ''memory:'' condition of
             Some key \<Rightarrow> Some (MemoryKeyPattern (trim key))
           | None \<Rightarrow> None))"

definition default_interval :: nat where "default_interval = 300"

definition cron_units :: "(string \<times> nat) list" where
  "cron_units = [(''s'', 1), (''m'', 60), (''h'', 3600), (''d'', 86400)]"

text \<open>The loop over the units: \<open>continue\<close> on a number that does not parse.\<close>

fun cron_unit :: "string \<Rightarrow> (string \<times> nat) list \<Rightarrow> nat" where
  "cron_unit rest [] = default_interval"
| "cron_unit rest ((unit_char, mul) # us) =
     (if ends_with rest unit_char
      then (case parse_nat 64 (trim (take (length rest - length unit_char) rest)) of
              None \<Rightarrow> cron_unit rest us
            | Some n \<Rightarrow> (if n = 0 then default_interval
                        else if n * mul < 2 ^ 64 then n * mul else default_interval))
      else cron_unit rest us)"

definition parse_cron_to_secs :: "(string \<Rightarrow> string) \<Rightarrow> string \<Rightarrow> nat" where
  "parse_cron_to_secs lower cron0 =
     (case after_prefix_opt ''every '' (lower (trim cron0)) of
        Some rest \<Rightarrow> cron_unit (trim rest) cron_units
      | None \<Rightarrow> default_interval)"

section \<open>Where the kernel meets the triggers\<close>

text \<open>\<open>publish_event\<close>: evaluate, then publish; one message task per match.\<close>

definition publish_event :: "ev_fmt \<Rightarrow> (trigger list \<Rightarrow> 'd option) \<Rightarrow> bool \<times> bool \<Rightarrow> event
    \<Rightarrow> 'd trigger_engine \<times> event_bus
    \<Rightarrow> ('d trigger_engine \<times> event_bus) \<times> (bus_channel \<times> event) list \<times> (nat \<times> string) list" where
  "publish_event F enc io ev s =
     (let (e', triggered) = evaluate F enc io ev (fst s);
          (b', sends) = publish ev (snd s) in
      ((e', b'), sends, triggered))"

text \<open>The end of \<open>spawn_agent\<close>: conditions become triggers, and the spawn event is evaluated.\<close>

definition alert_template :: "string \<Rightarrow> string \<Rightarrow> string" where
  "alert_template condition name =
     ''[PROACTIVE ALERT] Condition '' @ quoted condition @ '' matched: {{event}}. '' @
     ''Review and take appropriate action. Agent: '' @ name"

fun register_conditions :: "(string \<Rightarrow> string) \<Rightarrow> (trigger list \<Rightarrow> 'd option) \<Rightarrow> bool \<times> bool \<Rightarrow> nat \<Rightarrow> nat
    \<Rightarrow> string \<Rightarrow> (string \<times> nat) list \<Rightarrow> 'd trigger_engine \<Rightarrow> 'd trigger_engine" where
  "register_conditions lower enc io now a name [] e = e"
| "register_conditions lower enc io now a name ((condition, fresh) # cs) e =
     register_conditions lower enc io now a name cs
       (case parse_condition lower condition of
          None \<Rightarrow> e
        | Some pat \<Rightarrow>
            fst (register_trigger enc io fresh now a pat (alert_template condition name) 0 e))"

definition spawn_triggers :: "ev_fmt \<Rightarrow> (trigger list \<Rightarrow> 'd option) \<Rightarrow> bool \<times> bool \<Rightarrow> nat \<Rightarrow> nat \<Rightarrow> nat
    \<Rightarrow> string \<Rightarrow> (string \<times> nat) list \<Rightarrow> 'd trigger_engine \<Rightarrow> 'd trigger_engine" where
  "spawn_triggers F enc io now fresh_event a name conditions e =
     (let e' = register_conditions (ev_lower F) enc io now a name conditions e;
          ev = new_event fresh_event now a Broadcast (Lifecycle_payload (Spawned a name)) in
      fst (evaluate F enc io ev e'))"

end
