(* ===== verification/Trigger_Theorems.thy ===== *)
theory Trigger_Theorems
  imports Triggers
begin

text \<open>
  What the trigger engine guarantees over sequences of operations that include restarts from its
  file: the table, the index by agent and the file agree (\<open>trig_inv\<close>), a trigger fires at most
  \<open>max_fires\<close> times in its life, an agent whose triggers were removed hears nothing, and an
  evaluation sends exactly what the patterns say. The conditions and intervals of
  \<open>background.rs\<close> follow at the end.
\<close>

section \<open>One evaluation\<close>

definition fires_now :: "ev_fmt \<Rightarrow> event \<Rightarrow> trigger \<Rightarrow> bool" where
  "fires_now F ev t \<longleftrightarrow> trigger_enabled t \<and> (max_fires t = 0 \<or> fire_count t < max_fires t)
     \<and> trigger_matches F (trigger_pattern t) ev (describe_event F ev)"

definition fired :: "ev_fmt \<Rightarrow> event \<Rightarrow> trigger \<Rightarrow> trigger" where
  "fired F ev t =
     (if fires_now F ev t then t\<lparr>fire_count := fire_count t + 1\<rparr>
      else if 0 < max_fires t \<and> max_fires t \<le> fire_count t then t\<lparr>trigger_enabled := False\<rparr>
      else t)"

definition trigger_message :: "ev_fmt \<Rightarrow> event \<Rightarrow> trigger \<Rightarrow> nat \<times> string" where
  "trigger_message F ev t =
     (trigger_agent t, replace_all event_hole (describe_event F ev) (trigger_template t))"

lemma evaluate_one_fired:
  "fst (evaluate_one F ev (describe_event F ev) t) = fired F ev t"
  "snd (snd (evaluate_one F ev (describe_event F ev) t))
     = (if fires_now F ev t then Some (trigger_message F ev t) else None)"
  "\<not> fst (snd (evaluate_one F ev (describe_event F ev) t)) \<Longrightarrow> fired F ev t = t"
  by (cases t; auto simp: evaluate_one_def fired_def fires_now_def trigger_message_def)+

lemma fired_sel [simp]:
  "trigger_id (fired F ev t) = trigger_id t" "trigger_agent (fired F ev t) = trigger_agent t"
  "max_fires (fired F ev t) = max_fires t"
  "fire_count (fired F ev t) = fire_count t + (if fires_now F ev t then 1 else 0)"
  by (simp_all add: fired_def)

lemma persist_triggers_sel [simp]:
  "triggers (persist_triggers enc io e) = triggers e"
  "agent_triggers (persist_triggers enc io e) = agent_triggers e"
  "trigger_persists (persist_triggers enc io e) = trigger_persists e"
  by (auto simp: persist_triggers_def split: option.split)

lemma evaluate_triggers [simp]:
  "triggers (fst (evaluate F enc io ev e)) = map (\<lambda>(i, t). (i, fired F ev t)) (triggers e)"
  "agent_triggers (fst (evaluate F enc io ev e)) = agent_triggers e"
  "trigger_persists (fst (evaluate F enc io ev e)) = trigger_persists e"
  by (simp_all add: evaluate_def Let_def evaluate_one_fired)

lemma evaluate_messages:
  "snd (evaluate F enc io ev e) = map (trigger_message F ev) (filter (fires_now F ev) (map snd (triggers e)))"
proof -
  have "List.map_filter (\<lambda>(i, t). snd (snd (evaluate_one F ev (describe_event F ev) t))) ts
      = map (trigger_message F ev) (filter (fires_now F ev) (map snd ts))" for ts :: "(nat \<times> trigger) list"
    by (induction ts) (auto simp: evaluate_one_fired)
  then show ?thesis by (simp add: evaluate_def Let_def)
qed

lemma evaluate_disk:
  assumes "trigger_persists e" and "enc (map snd (map (\<lambda>(i, t). (i, fired F ev t)) (triggers e))) = Some d"
  shows "trigger_disk (fst (evaluate F enc (True, True) ev e)) = Some d
    \<or> trigger_disk (fst (evaluate F enc (True, True) ev e)) = trigger_disk e
      \<and> map (\<lambda>(i, t). (i, fired F ev t)) (triggers e) = triggers e"
proof (cases "list_ex (\<lambda>(i, t). fst (snd (evaluate_one F ev (describe_event F ev) t))) (triggers e)")
  case True
  with assms show ?thesis
    by (simp add: evaluate_def Let_def evaluate_one_fired persist_triggers_def case_prod_unfold)
next
  case False
  have "map (\<lambda>(i, t). (i, fired F ev t)) (triggers e) = triggers e"
    using False by (intro map_idI) (auto simp: list_ex_iff evaluate_one_fired(3))
  with False show ?thesis by (simp add: evaluate_def Let_def)
qed

section \<open>The invariant\<close>

definition ids_of :: "'d trigger_engine \<Rightarrow> nat \<Rightarrow> nat list" where
  "ids_of e a = (case agent_triggers e a of None \<Rightarrow> [] | Some is \<Rightarrow> is)"

definition index_ok :: "'d trigger_engine \<Rightarrow> bool" where
  "index_ok e \<longleftrightarrow> (\<forall>a. distinct (ids_of e a)
     \<and> set (ids_of e a) = {i. \<exists>t. map_of (triggers e) i = Some t \<and> trigger_agent t = a})"

definition keys_ok :: "'d trigger_engine \<Rightarrow> bool" where
  "keys_ok e \<longleftrightarrow> tab_ok (triggers e) \<and> (\<forall>(i, t) \<in> set (triggers e). trigger_id t = i)"

definition disk_ok :: "('d \<Rightarrow> trigger list option) \<Rightarrow> 'd trigger_engine \<Rightarrow> bool" where
  "disk_ok dec e \<longleftrightarrow> trigger_persists e \<and>
     (trigger_disk e = None \<and> triggers e = [] \<or>
      (\<exists>d. trigger_disk e = Some d \<and> dec d = Some (map snd (triggers e))))"

definition trig_inv :: "('d \<Rightarrow> trigger list option) \<Rightarrow> 'd trigger_engine \<Rightarrow> bool" where
  "trig_inv dec e \<longleftrightarrow> keys_ok e \<and> index_ok e \<and> disk_ok dec e"

definition codec :: "(trigger list \<Rightarrow> 'd option) \<Rightarrow> ('d \<Rightarrow> trigger list option) \<Rightarrow> bool" where
  "codec enc dec \<longleftrightarrow> (\<forall>ts. \<exists>d. enc ts = Some d \<and> dec d = Some ts)"

lemma index_ok_persist [simp]: "index_ok (persist_triggers enc io e) = index_ok e"
  by (simp add: index_ok_def ids_of_def)

lemma keys_ok_persist [simp]: "keys_ok (persist_triggers enc io e) = keys_ok e"
  by (simp add: keys_ok_def)

lemma disk_ok_persist: "codec enc dec \<Longrightarrow> trigger_persists e \<Longrightarrow> disk_ok dec (persist_triggers enc (True, True) e)"
proof -
  assume "codec enc dec" and p: "trigger_persists e"
  then obtain d where "enc (map snd (triggers e)) = Some d" "dec d = Some (map snd (triggers e))"
    unfolding codec_def by blast
  with p show ?thesis by (auto simp: disk_ok_def persist_triggers_def)
qed

lemma ids_of_load:
  "ids_of (load_trigger t e) a = (if a = trigger_agent t then ids_of e a @ [trigger_id t] else ids_of e a)"
  by (simp add: ids_of_def load_trigger_def index_push_def)

lemma load_ok:
  assumes "keys_ok e" "index_ok e" and "map_of (triggers e) (trigger_id t) = None"
  shows "keys_ok (load_trigger t e)" and "index_ok (load_trigger t e)"
proof -
  show "keys_ok (load_trigger t e)"
    using assms(1,3) by (auto simp: keys_ok_def load_trigger_def tab_put_new map_of_eq_None_iff)
  have old: "distinct (ids_of e a)" "set (ids_of e a) = {i. \<exists>t. map_of (triggers e) i = Some t \<and> trigger_agent t = a}" for a
    using assms(2) by (simp_all add: index_ok_def)
  have trigs: "triggers (load_trigger t e) = tab_put (trigger_id t) t (triggers e)"
    by (simp add: load_trigger_def)
  show "index_ok (load_trigger t e)"
    unfolding index_ok_def ids_of_load trigs map_of_tab_put using old assms(3) by auto
qed

lemma fold_load:
  assumes "distinct (map trigger_id ts)" and "\<forall>t \<in> set ts. map_of (triggers e) (trigger_id t) = None"
    and "keys_ok e" "index_ok e"
  shows "keys_ok (fold load_trigger ts e) \<and> index_ok (fold load_trigger ts e)
    \<and> triggers (fold load_trigger ts e) = triggers e @ map (\<lambda>t. (trigger_id t, t)) ts"
  using assms
proof (induction ts arbitrary: e)
  case (Cons t ts)
  have e: "triggers (load_trigger t e) = triggers e @ [(trigger_id t, t)]"
    using Cons.prems(2) by (simp add: load_trigger_def tab_put_new map_of_eq_None_iff)
  have "keys_ok (load_trigger t e)" "index_ok (load_trigger t e)"
    using load_ok [OF Cons.prems(3,4)] Cons.prems(2) by simp_all
  moreover have "\<forall>u \<in> set ts. map_of (triggers (load_trigger t e)) (trigger_id u) = None"
    using Cons.prems(1,2) by (auto simp: e map_add_def) (metis imageI)
  ultimately show ?case using Cons.IH [of "load_trigger t e"] Cons.prems(1) by (simp add: e)
qed simp

lemma fold_load_sel [simp]:
  "trigger_persists (fold load_trigger ts e) = trigger_persists e"
  "trigger_disk (fold load_trigger ts e) = trigger_disk e"
  by (induction ts arbitrary: e) (simp_all add: load_trigger_def)

lemma keyed_by_trigger_id: "(\<forall>(i, t) \<in> set ts. trigger_id t = i) \<Longrightarrow> map ((\<lambda>t. (trigger_id t, t)) \<circ> snd) ts = ts"
  by (induction ts) auto

lemma restart_ok:
  assumes "trig_inv dec e"
  shows "trig_inv dec (triggers_with_persistence dec True (trigger_disk e))"
    and "triggers (triggers_with_persistence dec True (trigger_disk e)) = triggers e"
proof -
  let ?e0 = "\<lparr>triggers = [], agent_triggers = Map.empty, trigger_persists = True, trigger_disk = trigger_disk e\<rparr>"
  have e0: "keys_ok ?e0" "index_ok ?e0" by (simp_all add: keys_ok_def index_ok_def ids_of_def)
  have keys: "tab_ok (triggers e)" "\<forall>(i, t) \<in> set (triggers e). trigger_id t = i"
    using assms by (simp_all add: trig_inv_def keys_ok_def)
  have "map trigger_id (map snd (triggers e)) = map fst (triggers e)"
    using keys(2) by auto
  with keys(1) have ids: "distinct (map trigger_id (map snd (triggers e)))" by (simp only:)
  have loaded: "keys_ok (fold load_trigger (map snd (triggers e)) ?e0) \<and>
      index_ok (fold load_trigger (map snd (triggers e)) ?e0) \<and>
      triggers (fold load_trigger (map snd (triggers e)) ?e0) = triggers e"
    using fold_load [OF ids _ e0] keyed_by_trigger_id [OF keys(2)] by simp
  have "trigger_disk e = None \<and> triggers e = [] \<or>
      (\<exists>d. trigger_disk e = Some d \<and> dec d = Some (map snd (triggers e)))"
    using assms by (simp add: trig_inv_def disk_ok_def)
  then show "trig_inv dec (triggers_with_persistence dec True (trigger_disk e))"
    and "triggers (triggers_with_persistence dec True (trigger_disk e)) = triggers e"
    using loaded e0 by (auto simp: triggers_with_persistence_def Let_def trig_inv_def disk_ok_def)
qed

section \<open>Sequences of operations\<close>

datatype trig_op =
    Add_trigger nat nat nat trigger_pattern string nat
  | Remove_trigger nat
  | Remove_agent nat
  | Enable nat bool
  | Event_occurs event
  | Restart

fun trig_apply :: "ev_fmt \<Rightarrow> (trigger list \<Rightarrow> 'd option) \<Rightarrow> ('d \<Rightarrow> trigger list option)
    \<Rightarrow> 'd trigger_engine \<Rightarrow> trig_op \<Rightarrow> 'd trigger_engine" where
  "trig_apply F enc dec e (Add_trigger i now a pat template maxf) =
     fst (register_trigger enc (True, True) i now a pat template maxf e)"
| "trig_apply F enc dec e (Remove_trigger i) = fst (remove_trigger enc (True, True) i e)"
| "trig_apply F enc dec e (Remove_agent a) = remove_agent_triggers enc (True, True) a e"
| "trig_apply F enc dec e (Enable i b) = fst (set_enabled enc (True, True) i b e)"
| "trig_apply F enc dec e (Event_occurs ev) = fst (evaluate F enc (True, True) ev e)"
| "trig_apply F enc dec e Restart = triggers_with_persistence dec True (trigger_disk e)"

text \<open>The ids an operation hands out: fresh UUIDs, so an operation list has distinct new ones.\<close>

fun op_ids :: "trig_op \<Rightarrow> nat list" where
  "op_ids (Add_trigger i now a pat template maxf) = [i]"
| "op_ids _ = []"

definition ids_fresh :: "'d trigger_engine \<Rightarrow> trig_op list \<Rightarrow> bool" where
  "ids_fresh e ops \<longleftrightarrow> distinct (concat (map op_ids ops))
     \<and> (\<forall>i \<in> set (concat (map op_ids ops)). map_of (triggers e) i = None)"

lemma remove_ok:
  assumes "keys_ok e" "index_ok e"
  shows "keys_ok (fst (remove_trigger enc io i e)) \<and> index_ok (fst (remove_trigger enc io i e))"
proof (cases "map_of (triggers e) i")
  case (Some t)
  have old: "distinct (ids_of e a)" "set (ids_of e a) = {i. \<exists>t. map_of (triggers e) i = Some t \<and> trigger_agent t = a}" for a
    using assms(2) by (simp_all add: index_ok_def)
  let ?e = "e\<lparr>triggers := tab_del i (triggers e), agent_triggers :=
      (case agent_triggers e (trigger_agent t) of None \<Rightarrow> agent_triggers e
       | Some is \<Rightarrow> (agent_triggers e)(trigger_agent t \<mapsto> filter (\<lambda>j. j \<noteq> i) is))\<rparr>"
  have ids: "ids_of ?e a = (if a = trigger_agent t then filter (\<lambda>j. j \<noteq> i) (ids_of e a) else ids_of e a)" for a
    by (auto simp: ids_of_def split: option.split)
  have "keys_ok ?e" using assms(1) by (auto simp: keys_ok_def tab_ok_del set_tab_del)
  moreover have "index_ok ?e" unfolding index_ok_def ids using old Some by auto
  ultimately show ?thesis using Some by (simp add: remove_trigger_def)
qed (use assms in \<open>simp add: remove_trigger_def\<close>)

lemma fold_tab_del_keys: "map_of (fold tab_del is t) j = (if j \<in> set is then None else map_of t j)"
  by (induction "is" arbitrary: t) auto

lemma fold_tab_del_subset: "set (fold tab_del is t) \<subseteq> set t"
  by (induction "is" arbitrary: t) (fastforce simp: tab_del_def)+

lemma fold_tab_del_ok: "tab_ok t \<Longrightarrow> tab_ok (fold tab_del is t)"
  by (induction "is" arbitrary: t) (auto intro: tab_ok_del)

lemma remove_agent_ok:
  assumes "keys_ok e" "index_ok e"
  shows "keys_ok (remove_agent_triggers enc io a e) \<and> index_ok (remove_agent_triggers enc io a e)"
    and "map_of (triggers (remove_agent_triggers enc io a e)) i =
      (case map_of (triggers e) i of Some t \<Rightarrow> if trigger_agent t = a then None else Some t | None \<Rightarrow> None)"
proof -
  have old: "distinct (ids_of e b)" "set (ids_of e b) = {i. \<exists>t. map_of (triggers e) i = Some t \<and> trigger_agent t = b}" for b
    using assms(2) by (simp_all add: index_ok_def)
  let ?r = "remove_agent_triggers enc io a e"
  have trigs: "triggers ?r = fold tab_del (ids_of e a) (triggers e)"
    by (simp add: remove_agent_triggers_def ids_of_def split: option.split)
  have ids: "ids_of ?r b = (if b = a then [] else ids_of e b)" for b
    by (auto simp: remove_agent_triggers_def ids_of_def split: option.split)
  show look: "map_of (triggers ?r) i =
      (case map_of (triggers e) i of Some t \<Rightarrow> if trigger_agent t = a then None else Some t | None \<Rightarrow> None)" for i
    using old(2) [of a] by (auto simp: trigs fold_tab_del_keys split: option.split)
  have "keys_ok ?r"
    using assms(1) fold_tab_del_subset unfolding keys_ok_def trigs by (blast intro: fold_tab_del_ok)
  moreover have "index_ok ?r"
    unfolding index_ok_def ids look using old by (auto split: option.splits if_splits)
  ultimately show "keys_ok ?r \<and> index_ok ?r" ..
qed

lemma map_of_map_values: "map_of (map (\<lambda>(i, t). (i, f t)) ts) j = map_option f (map_of ts j)"
  by (induction ts) auto

lemma evaluate_ok:
  assumes "keys_ok e" "index_ok e"
  shows "keys_ok (fst (evaluate F enc io ev e)) \<and> index_ok (fst (evaluate F enc io ev e))"
proof -
  have "map fst (map (\<lambda>(i, t). (i, fired F ev t)) ts) = map fst ts" for ts :: "(nat, trigger) table"
    by (induction ts) auto
  then have "tab_ok (triggers (fst (evaluate F enc io ev e)))"
    using assms(1) by (simp only: evaluate_triggers keys_ok_def)
  with assms(1) have "keys_ok (fst (evaluate F enc io ev e))" unfolding keys_ok_def by auto
  moreover have "index_ok (fst (evaluate F enc io ev e))"
    using assms(2) by (auto simp: index_ok_def ids_of_def map_of_map_values)
  ultimately show ?thesis ..
qed

lemma set_enabled_ok:
  assumes "keys_ok e" "index_ok e"
  shows "keys_ok (fst (set_enabled enc io i b e)) \<and> index_ok (fst (set_enabled enc io i b e))"
proof (cases "map_of (triggers e) i")
  case (Some t)
  let ?t = "t\<lparr>trigger_enabled := b\<rparr>"
  have id: "trigger_id t = i" using assms(1) Some by (auto simp: keys_ok_def dest: map_of_SomeD)
  have put: "set (tab_put i ?t ts) \<subseteq> insert (i, ?t) (set ts)" for ts
    by (induction ts) (auto split: if_splits)
  have "keys_ok (e\<lparr>triggers := tab_put i ?t (triggers e)\<rparr>)"
    using assms(1) put id by (fastforce simp: keys_ok_def intro: tab_ok_put)
  moreover have "index_ok (e\<lparr>triggers := tab_put i ?t (triggers e)\<rparr>)"
    using assms(2) Some by (auto simp: index_ok_def ids_of_def)
  ultimately show ?thesis using Some by (simp add: set_enabled_def)
qed (use assms in \<open>simp add: set_enabled_def\<close>)

lemma trig_apply_inv:
  assumes "codec enc dec" and "trig_inv dec e" and "\<forall>i \<in> set (op_ids p). map_of (triggers e) i = None"
  shows "trig_inv dec (trig_apply F enc dec e p)"
proof -
  have pers: "trigger_persists e" and disk: "disk_ok dec e" using assms(2) by (simp_all add: trig_inv_def disk_ok_def)
  show ?thesis
proof (cases p)
  case (Add_trigger i now a pat template maxf)
  let ?t = "new_trigger i now a pat template maxf"
  have "keys_ok (load_trigger ?t e)" "index_ok (load_trigger ?t e)"
    using assms(2,3) load_ok [of e ?t] Add_trigger by (simp_all add: trig_inv_def new_trigger_def)
  moreover have "trigger_persists (load_trigger ?t e)"
    using assms(2) by (simp add: trig_inv_def disk_ok_def load_trigger_def)
  ultimately show ?thesis
    using Add_trigger disk_ok_persist [OF assms(1)] by (simp add: register_trigger_def trig_inv_def)
next
  case (Remove_trigger i)
  have "disk_ok dec (fst (remove_trigger enc (True, True) i e))"
    by (auto simp: remove_trigger_def disk pers intro!: disk_ok_persist [OF assms(1)] split: option.split)
  with Remove_trigger remove_ok [of e enc "(True, True)" i] assms(2) show ?thesis by (auto simp: trig_inv_def)
next
  case (Remove_agent a)
  have "disk_ok dec (remove_agent_triggers enc (True, True) a e)"
    by (auto simp: remove_agent_triggers_def disk pers intro!: disk_ok_persist [OF assms(1)] split: option.split)
  with Remove_agent remove_agent_ok(1) [of e enc "(True, True)" a] assms(2) show ?thesis by (auto simp: trig_inv_def)
next
  case (Enable i b)
  have "disk_ok dec (fst (set_enabled enc (True, True) i b e))"
    by (auto simp: set_enabled_def disk pers intro!: disk_ok_persist [OF assms(1)] split: option.split)
  with Enable set_enabled_ok [of e enc "(True, True)" i b] assms(2) show ?thesis by (auto simp: trig_inv_def)
next
  case (Event_occurs ev)
  obtain d where d: "enc (map snd (map (\<lambda>(i, t). (i, fired F ev t)) (triggers e))) = Some d"
    "dec d = Some (map snd (map (\<lambda>(i, t). (i, fired F ev t)) (triggers e)))"
    using assms(1) unfolding codec_def by blast
  have "disk_ok dec (fst (evaluate F enc (True, True) ev e))"
    using evaluate_disk [of e enc F ev d, OF pers d(1)]
  proof
    assume "trigger_disk (fst (evaluate F enc (True, True) ev e)) = Some d"
    then show ?thesis using d(2) pers by (simp add: disk_ok_def)
  next
    assume same: "trigger_disk (fst (evaluate F enc (True, True) ev e)) = trigger_disk e
      \<and> map (\<lambda>(i, t). (i, fired F ev t)) (triggers e) = triggers e"
    then have "triggers (fst (evaluate F enc (True, True) ev e)) = triggers e" by (simp only: evaluate_triggers)
    with same disk show ?thesis by (simp only: disk_ok_def evaluate_triggers)
  qed
  with Event_occurs evaluate_ok [of e F enc "(True, True)" ev] assms(2) show ?thesis by (auto simp: trig_inv_def)
next
  case Restart
  with restart_ok(1) assms(2) show ?thesis by simp
qed
qed

lemma trig_apply_keys:
  assumes "trig_inv dec e" and "map_of (triggers (trig_apply F enc dec e p)) i \<noteq> None"
  shows "i \<in> set (op_ids p) \<or> map_of (triggers e) i \<noteq> None"
proof (cases p)
  case (Remove_agent a)
  with assms remove_agent_ok(2) [of e enc "(True, True)" a i] show ?thesis
    by (auto simp: trig_inv_def split: option.splits)
next
  case Restart
  with assms restart_ok(2) [OF assms(1)] show ?thesis by simp
qed (use assms in \<open>auto simp: register_trigger_def load_trigger_def new_trigger_def remove_trigger_def
    set_enabled_def map_of_map_values split: option.splits if_splits\<close>)

lemma ids_fresh_Cons:
  assumes "trig_inv dec e" and "ids_fresh e (p # ops)"
  shows "\<forall>i \<in> set (op_ids p). map_of (triggers e) i = None"
    and "ids_fresh (trig_apply F enc dec e p) ops"
proof -
  show "\<forall>i \<in> set (op_ids p). map_of (triggers e) i = None" using assms(2) by (auto simp: ids_fresh_def)
  have "map_of (triggers (trig_apply F enc dec e p)) i = None" if "i \<in> set (concat (map op_ids ops))" for i
    using trig_apply_keys [OF assms(1), of F enc p i] assms(2) that by (auto simp: ids_fresh_def)
  then show "ids_fresh (trig_apply F enc dec e p) ops" using assms(2) by (simp add: ids_fresh_def)
qed

lemma trig_run_inv:
  "codec enc dec \<Longrightarrow> trig_inv dec e \<Longrightarrow> ids_fresh e ops \<Longrightarrow> trig_inv dec (foldl (trig_apply F enc dec) e ops)"
proof (induction ops arbitrary: e)
  case (Cons p ops)
  then show ?case
    using trig_apply_inv [OF Cons.prems(1,2) ids_fresh_Cons(1) [OF Cons.prems(2,3)], of F]
      ids_fresh_Cons(2) [OF Cons.prems(2,3), of F enc] by simp
qed simp

section \<open>Properties\<close>

definition empty_store :: "('d \<Rightarrow> trigger list option) \<Rightarrow> 'd trigger_engine" where
  "empty_store dec = triggers_with_persistence dec True None"

lemma trig_inv_empty: "trig_inv dec (empty_store dec)"
  by (simp add: empty_store_def triggers_with_persistence_def trig_inv_def keys_ok_def index_ok_def
      ids_of_def disk_ok_def)

lemma map_filter_map_of:
  "set (List.map_filter (map_of t) is) = {v. \<exists>i \<in> set is. map_of t i = Some v}"
  by (auto simp: set_map_filter)

text \<open>
  The per-agent index is exact: after any sequence of registrations (with fresh ids),
  removals, switches, events and restarts from the file, listing an agent's triggers returns
  exactly the registered triggers of that agent, each once.
\<close>
theorem list_agent_triggers_exact:
  assumes "codec enc dec" and "ids_fresh (empty_store dec) ops"
    and "e = foldl (trig_apply F enc dec) (empty_store dec) ops"
  shows "set (list_agent_triggers a e) = {t \<in> set (list_all_triggers e). trigger_agent t = a}
    \<and> distinct (map trigger_id (list_agent_triggers a e))"
proof
  have inv: "trig_inv dec e" unfolding assms(3) by (rule trig_run_inv [OF assms(1) trig_inv_empty assms(2)])
  then have keys: "tab_ok (triggers e)" "\<forall>(i, t) \<in> set (triggers e). trigger_id t = i"
    and ix: "distinct (ids_of e a)" "set (ids_of e a) = {i. \<exists>t. map_of (triggers e) i = Some t \<and> trigger_agent t = a}"
    by (simp_all add: trig_inv_def keys_ok_def index_ok_def)
  have list: "list_agent_triggers a e = List.map_filter (map_of (triggers e)) (ids_of e a)"
    by (simp add: list_agent_triggers_def ids_of_def split: option.split)
  show "set (list_agent_triggers a e) = {t \<in> set (list_all_triggers e). trigger_agent t = a}"
  proof (rule set_eqI)
    fix t
    have "t \<in> set (map snd (triggers e)) \<longleftrightarrow> (\<exists>i. map_of (triggers e) i = Some t)"
      unfolding map_of_eq_Some_iff [OF keys(1)] by force
    then show "t \<in> set (list_agent_triggers a e) \<longleftrightarrow> t \<in> {t \<in> set (list_all_triggers e). trigger_agent t = a}"
      unfolding list map_filter_map_of ix(2) list_all_triggers_def by auto
  qed
  have id: "trigger_id t = i" if "map_of (triggers e) i = Some t" for i t
    using keys(2) map_of_SomeD [OF that] by auto
  have "map trigger_id (List.map_filter (map_of (triggers e)) is) = filter (\<lambda>i. map_of (triggers e) i \<noteq> None) is" for "is"
    by (induction "is") (auto simp: id split: option.split)
  then show "distinct (map trigger_id (list_agent_triggers a e))" unfolding list using ix(1) by simp
qed

text \<open>
  How often trigger \<open>i\<close> fires in a sequence of operations: the messages that each evaluation
  sends for it, that is, those it sends when the store holds no other trigger.
\<close>

fun op_fires :: "ev_fmt \<Rightarrow> (trigger list \<Rightarrow> 'd option) \<Rightarrow> 'd trigger_engine \<Rightarrow> trig_op \<Rightarrow> nat \<Rightarrow> nat" where
  "op_fires F enc e (Event_occurs ev) i =
     length (snd (evaluate F enc (True, True) ev (e\<lparr> triggers := filter (\<lambda>(j, t). j = i) (triggers e) \<rparr>)))"
| "op_fires F enc e _ i = 0"

lemma only_trigger:
  "tab_ok ts \<Longrightarrow> filter (\<lambda>(j, t). j = i) ts = (case map_of ts i of None \<Rightarrow> [] | Some t \<Rightarrow> [(i, t)])"
proof (induction ts)
  case (Cons x ts)
  have "filter (\<lambda>(j, t). j = fst x) ts = []" using Cons.prems by (auto simp: filter_empty_conv image_iff)
  then show ?case using Cons by (cases x) auto
qed simp

lemma op_fires_event:
  "tab_ok (triggers e) \<Longrightarrow> op_fires F enc e (Event_occurs ev) i
     = (case map_of (triggers e) i of None \<Rightarrow> 0 | Some t \<Rightarrow> if fires_now F ev t then 1 else 0)"
  by (simp add: evaluate_messages only_trigger split: option.split)

text \<open>Every message of an evaluation is the firing of one of the triggers.\<close>

lemma evaluate_sends_firings:
  assumes "tab_ok (triggers e)"
  shows "length (snd (evaluate F enc (True, True) ev e))
     = sum_list (map (op_fires F enc e (Event_occurs ev)) (map fst (triggers e)))"
proof -
  have "op_fires F enc e (Event_occurs ev) i = (if fires_now F ev t then 1 else 0)" if "(i, t) \<in> set (triggers e)" for i t
    using that assms by (simp only: op_fires_event) simp
  then have "map (op_fires F enc e (Event_occurs ev)) (map fst (triggers e))
      = map (\<lambda>(i, t). if fires_now F ev t then 1 else 0) (triggers e)"
    by (auto simp del: op_fires.simps)
  moreover have "length (filter (fires_now F ev) (map snd ts))
      = sum_list (map (\<lambda>(i, t). if fires_now F ev t then 1 else 0) ts)" for ts :: "(nat, trigger) table"
    by (induction ts) auto
  ultimately show ?thesis by (simp add: evaluate_messages del: op_fires.simps map_map filter_map)
qed

fun total_fires :: "ev_fmt \<Rightarrow> (trigger list \<Rightarrow> 'd option) \<Rightarrow> ('d \<Rightarrow> trigger list option)
    \<Rightarrow> 'd trigger_engine \<Rightarrow> trig_op list \<Rightarrow> nat \<Rightarrow> nat" where
  "total_fires F enc dec e [] i = 0"
| "total_fires F enc dec e (p # ops) i = op_fires F enc e p i + total_fires F enc dec (trig_apply F enc dec e p) ops i"

lemma absent_never_fires:
  "codec enc dec \<Longrightarrow> trig_inv dec e \<Longrightarrow> ids_fresh e ops \<Longrightarrow> map_of (triggers e) i = None \<Longrightarrow>
   i \<notin> set (concat (map op_ids ops)) \<Longrightarrow> total_fires F enc dec e ops i = 0"
proof (induction ops arbitrary: e)
  case (Cons p ops)
  note fresh = ids_fresh_Cons [OF Cons.prems(2,3)]
  have "map_of (triggers (trig_apply F enc dec e p)) i = None"
    using trig_apply_keys [OF Cons.prems(2), of F enc p i] Cons.prems(4,5)
    by (cases "map_of (triggers (trig_apply F enc dec e p)) i") auto
  with Cons.IH [OF Cons.prems(1) trig_apply_inv [OF Cons.prems(1,2) fresh(1)] fresh(2), of F] Cons.prems
  show ?case by (cases p) (auto simp: op_fires_event trig_inv_def keys_ok_def simp del: op_fires.simps(1))
qed simp

lemma trig_apply_counts:
  assumes "trig_inv dec e" and "map_of (triggers e) i = Some t" and "i \<notin> set (op_ids p)"
    and "map_of (triggers (trig_apply F enc dec e p)) i = Some t'"
  shows "max_fires t' = max_fires t \<and> fire_count t' = fire_count t + op_fires F enc e p i"
proof (cases p)
  case (Remove_agent a)
  with assms remove_agent_ok(2) [of e enc "(True, True)" a i] show ?thesis
    by (auto simp: trig_inv_def split: if_splits)
next
  case Restart
  with assms restart_ok(2) [OF assms(1)] show ?thesis by simp
next
  case (Event_occurs ev)
  have "tab_ok (triggers e)" using assms(1) by (simp add: trig_inv_def keys_ok_def)
  with Event_occurs assms show ?thesis by (auto simp: op_fires_event map_of_map_values simp del: op_fires.simps(1))
qed (use assms in \<open>auto simp: register_trigger_def load_trigger_def new_trigger_def remove_trigger_def
    set_enabled_def map_of_map_values split: option.splits if_splits\<close>)

text \<open>
  C36: A trigger limited to \<open>max_fires\<close> fires no more often: over any sequence of events,
  re-enabling, other registrations, removals and restarts from the file, the messages the
  evaluations send for the trigger and those it had sent before never exceed its limit, while
  every write of the file succeeds and decodes to what was encoded. (After a failed write a
  restart reads an older count.)
\<close>
theorem fire_limit_holds:
  assumes "codec enc dec" and "trig_inv dec e" and "ids_fresh e ops"
    and "map_of (triggers e) i = Some t" and "0 < max_fires t" and "fire_count t \<le> max_fires t"
  shows "fire_count t + total_fires F enc dec e ops i \<le> max_fires t"
  using assms(2-)
proof (induction ops arbitrary: e t)
  case (Cons p ops)
  note fresh = ids_fresh_Cons [OF Cons.prems(1,2)]
  let ?e = "trig_apply F enc dec e p"
  have inv: "trig_inv dec ?e" by (rule trig_apply_inv [OF assms(1) Cons.prems(1) fresh(1)])
  have new: "i \<notin> set (concat (map op_ids (p # ops)))"
    using Cons.prems(2,3) unfolding ids_fresh_def by (metis option.distinct(1))
  have one: "fire_count t + op_fires F enc e p i \<le> max_fires t"
    using Cons.prems(1,3-5)
    by (cases p) (auto simp: op_fires_event fires_now_def trig_inv_def keys_ok_def simp del: op_fires.simps(1))
  show ?case
  proof (cases "map_of (triggers ?e) i")
    case None
    with absent_never_fires [OF assms(1) inv fresh(2)] new one show ?thesis by simp
  next
    case (Some t')
    with trig_apply_counts [OF Cons.prems(1,3) _ Some] new
    have "max_fires t' = max_fires t" "fire_count t' = fire_count t + op_fires F enc e p i" by simp_all
    with Cons.IH [OF inv fresh(2) Some] one Cons.prems(4) show ?thesis by simp
  qed
qed simp

text \<open>The messages of a sequence of operations.\<close>

fun sent_messages :: "ev_fmt \<Rightarrow> (trigger list \<Rightarrow> 'd option) \<Rightarrow> ('d \<Rightarrow> trigger list option)
    \<Rightarrow> 'd trigger_engine \<Rightarrow> trig_op list \<Rightarrow> (nat \<times> string) list" where
  "sent_messages F enc dec e [] = []"
| "sent_messages F enc dec e (p # ops) =
     (case p of Event_occurs ev \<Rightarrow> snd (evaluate F enc (True, True) ev e) | _ \<Rightarrow> [])
     @ sent_messages F enc dec (trig_apply F enc dec e p) ops"

fun op_agents :: "trig_op \<Rightarrow> nat list" where
  "op_agents (Add_trigger i now a pat template maxf) = [a]"
| "op_agents _ = []"

definition no_triggers_of :: "nat \<Rightarrow> 'd trigger_engine \<Rightarrow> bool" where
  "no_triggers_of a e \<longleftrightarrow> (\<forall>(i, t) \<in> set (triggers e). trigger_agent t \<noteq> a)"

lemma no_triggers_of_look:
  "keys_ok e \<Longrightarrow> no_triggers_of a e \<longleftrightarrow> (\<forall>i t. map_of (triggers e) i = Some t \<longrightarrow> trigger_agent t \<noteq> a)"
  by (auto simp: no_triggers_of_def keys_ok_def)

lemma trig_apply_no_triggers:
  assumes "trig_inv dec e" and "no_triggers_of a e" and "a \<notin> set (op_agents p)"
    and "trig_inv dec (trig_apply F enc dec e p)"
  shows "no_triggers_of a (trig_apply F enc dec e p)"
proof -
  have old: "map_of (triggers e) i = Some t \<Longrightarrow> trigger_agent t \<noteq> a" for i t
    using assms(1,2) by (simp add: no_triggers_of_look trig_inv_def)
  have "trigger_agent t \<noteq> a" if "map_of (triggers (trig_apply F enc dec e p)) i = Some t" for i t
  proof (cases p)
    case (Remove_agent b)
    with assms(1) that old [of i] remove_agent_ok(2) [of e enc "(True, True)" b i] show ?thesis
      by (auto simp: trig_inv_def split: option.splits if_splits)
  next
    case Restart
    with assms(1) that old [of i] restart_ok(2) [OF assms(1)] show ?thesis by simp
  qed (use assms(3) that old [of i] in \<open>auto simp: register_trigger_def load_trigger_def new_trigger_def
      remove_trigger_def set_enabled_def map_of_map_values split: option.splits if_splits\<close>)
  then show ?thesis using assms(4) by (simp add: no_triggers_of_look trig_inv_def)
qed

text \<open>
  An agent whose triggers were removed (as the kernel does when it dies) hears nothing more:
  no later sequence of events, registrations for other agents, removals, switches and restarts
  sends it a message.
\<close>
theorem removed_agent_hears_nothing:
  assumes "codec enc dec" and "trig_inv dec e" and "ids_fresh e (Remove_agent a # ops)"
    and "a \<notin> set (concat (map op_agents ops))"
  shows "a \<notin> fst ` set (sent_messages F enc dec (trig_apply F enc dec e (Remove_agent a)) ops)"
proof -
  let ?e = "trig_apply F enc dec e (Remove_agent a)"
  have gen: "a \<notin> fst ` set (sent_messages F enc dec e ops)"
    if "trig_inv dec e" "ids_fresh e ops" "no_triggers_of a e" "a \<notin> set (concat (map op_agents ops))" for e
    using that
  proof (induction ops arbitrary: e)
    case (Cons p ops)
    note fresh = ids_fresh_Cons [OF Cons.prems(1,2)]
    have inv: "trig_inv dec (trig_apply F enc dec e p)"
      by (rule trig_apply_inv [OF assms(1) Cons.prems(1) fresh(1)])
    have "no_triggers_of a (trig_apply F enc dec e p)"
      using Cons.prems(4) by (intro trig_apply_no_triggers [OF Cons.prems(1,3) _ inv]) simp
    from Cons.IH [OF inv fresh(2) this] Cons.prems(4)
    have "a \<notin> fst ` set (sent_messages F enc dec (trig_apply F enc dec e p) ops)" by simp
    moreover have "a \<notin> fst ` set (snd (evaluate F enc (True, True) ev e))" for ev
      using Cons.prems(3) by (auto simp: evaluate_messages trigger_message_def no_triggers_of_def)
    ultimately show ?case by (auto split: trig_op.splits)
  qed simp
  have inv: "trig_inv dec ?e" by (rule trig_apply_inv [OF assms(1,2)]) simp
  then have "no_triggers_of a ?e"
    using assms(2) remove_agent_ok(2) [of e enc "(True, True)" a]
    by (auto simp: no_triggers_of_look trig_inv_def split: option.splits if_splits)
  with inv ids_fresh_Cons(2) [OF assms(2,3)] assms(4) show ?thesis by (intro gen)
qed

text \<open>
  An evaluation sends exactly one message for each trigger that is enabled, has not used up
  its limit and matches, in the order of the table, with \<open>{{event}}\<close> replaced by the description;
  those triggers count one more firing, exhausted ones are switched off, nothing else changes.
\<close>
theorem evaluate_exact:
  "snd (evaluate F enc io ev e) =
     map (\<lambda>t. (trigger_agent t, replace_all event_hole (describe_event F ev) (trigger_template t)))
       (filter (fires_now F ev) (list_all_triggers e))
   \<and> get_trigger i (fst (evaluate F enc io ev e)) = map_option
     (\<lambda>t. if fires_now F ev t then t\<lparr>fire_count := fire_count t + 1\<rparr>
          else if 0 < max_fires t \<and> max_fires t \<le> fire_count t then t\<lparr>trigger_enabled := False\<rparr>
          else t) (get_trigger i e)"
  by (simp_all add: evaluate_messages trigger_message_def [abs_def] list_all_triggers_def get_trigger_def
      map_of_map_values fired_def [abs_def])

section \<open>Intervals\<close>

lemma trim_ascii:
  "is_ascii s \<Longrightarrow> s \<noteq> [] \<Longrightarrow> \<not> is_whitespace [hd s] \<Longrightarrow> \<not> is_whitespace [last s] \<Longrightarrow> trim s = s"
  using ascii_chars [of s] by (intro trim_whole) (simp_all add: hd_map last_map)

lemma digit_plain: "is_digit c \<Longrightarrow> \<not> is_whitespace [c] \<and> ascii_lower c = c"
  by (auto simp: is_digit_def is_whitespace_def ws_chars_def ascii_lower_def)

lemma nat_str_plain:
  "map ascii_lower (nat_str n) = nat_str n" "trim (nat_str n) = nat_str n"
  "\<not> is_whitespace [hd (nat_str n)]"
proof -
  have d: "list_all is_digit (nat_str n)" "nat_str n \<noteq> []" using nat_str_digits by blast+
  have ends: "is_digit (hd (nat_str n))" "is_digit (last (nat_str n))"
    using d by (simp_all add: list_all_iff)
  show "map ascii_lower (nat_str n) = nat_str n"
    using d(1) digit_plain by (intro map_idI) (auto simp: list_all_iff)
  show "trim (nat_str n) = nat_str n" "\<not> is_whitespace [hd (nat_str n)]"
    using d(2) ends digit_plain is_ascii_nat_str by (auto intro: trim_ascii)
qed

lemma cron_unit_range: "0 < cron_unit rest us \<and> cron_unit rest us < 2 ^ 64" if "\<forall>u \<in> set us. 0 < snd u"
  using that by (induction us rule: cron_unit.induct) (auto simp: default_interval_def split: option.split)

lemma cron_text:
  assumes "\<forall>s. is_ascii s \<longrightarrow> lower s = map ascii_lower s" and "(u, m) \<in> set cron_units"
  shows "parse_cron_to_secs lower (''every '' @ nat_str n @ u) = cron_unit (nat_str n @ u) cron_units"
proof -
  let ?s = "''every '' @ nat_str n @ u"
  have u: "u \<noteq> []" "is_ascii u" "map ascii_lower u = u" "\<not> is_whitespace [last u]"
    using assms(2) by (auto simp: cron_units_def is_ascii_def is_whitespace_def ws_chars_def ascii_lower_def)
  have asc: "is_ascii ?s" using is_ascii_nat_str u(2) by simp
  have "trim ?s = ?s"
    using u asc by (intro trim_ascii) (simp_all add: is_whitespace_def ws_chars_def)
  moreover have "lower ?s = ?s"
    using assms(1) asc u(3) nat_str_plain(1) by (simp add: ascii_lower_def)
  moreover have "trim (nat_str n @ u) = nat_str n @ u"
    using u asc nat_str_plain(3) nat_str_digits by (intro trim_ascii) auto
  ultimately show ?thesis
    by (simp add: parse_cron_to_secs_def after_prefix_opt_def starts_with_Cons)
qed

text \<open>
  Intervals of background agents: \<open>every <n><unit>\<close> means \<open>n\<close> times the unit in seconds when
  that is positive and fits 64 bits, and the default of 300 seconds otherwise; whatever the text
  is, the interval is never zero (no tight loop) and always fits.
\<close>
theorem parse_cron_intervals:
  assumes l: "\<And>s. is_ascii s \<Longrightarrow> lower s = map ascii_lower s" and u: "(u, m) \<in> set cron_units" and n: "n < 2 ^ 64"
  shows "0 < parse_cron_to_secs lower c \<and> parse_cron_to_secs lower c < 2 ^ 64
    \<and> parse_cron_to_secs lower (''every '' @ nat_str n @ u) =
        (if 0 < n \<and> n * m < 2 ^ 64 then n * m else default_interval)"
proof (intro conjI)
  have "\<forall>u \<in> set cron_units. 0 < snd u" by (simp add: cron_units_def)
  then show "0 < parse_cron_to_secs lower c" "parse_cron_to_secs lower c < 2 ^ 64"
    using cron_unit_range
    by (auto simp: parse_cron_to_secs_def default_interval_def split: option.split)
  have "parse_cron_to_secs lower (''every '' @ nat_str n @ u) = cron_unit (nat_str n @ u) cron_units"
    using l by (intro cron_text [OF _ u]) blast
  also have "\<dots> = (if 0 < n \<and> n * m < 2 ^ 64 then n * m else default_interval)"
  proof -
    have "u = ''s'' \<and> m = 1 \<or> u = ''m'' \<and> m = 60 \<or> u = ''h'' \<and> m = 3600 \<or> u = ''d'' \<and> m = 86400"
      using u by (auto simp: cron_units_def)
    moreover have "ends_with (nat_str n @ [x]) [y] \<longleftrightarrow> x = y" for x y
      by (auto simp: ends_with_def)
    ultimately show ?thesis
      using parse_nat_str [OF n] nat_str_plain(2) [of n]
      by (elim disjE) (simp_all add: cron_units_def)
  qed
  finally show "parse_cron_to_secs lower (''every '' @ nat_str n @ u) =
     (if 0 < n \<and> n * m < 2 ^ 64 then n * m else default_interval)" .
qed

section \<open>The end of a spawn\<close>

text \<open>A custom event is matched by its length only, never by its content.\<close>

lemma custom_content_invisible:
  "event_payload ev = Custom_payload bs \<Longrightarrow> event_payload ev' = Custom_payload cs \<Longrightarrow> length bs = length cs \<Longrightarrow>
   trigger_matches F pat ev (describe_event F ev) = trigger_matches F pat ev' (describe_event F ev')"
  by (cases pat) (simp_all add: trigger_matches_def describe_event_def)

text \<open>
  A spawn spends triggers without sending anything: after the spawn of an agent without
  proactive conditions, each trigger that matches the spawn event has one firing more, while the
  spawn only returns the engine; after \<open>max_fires\<close> spawns a limited trigger is used up.
\<close>
theorem spawn_spends_triggers:
  assumes "get_trigger i e = Some t"
    and "fires_now F (new_event f now a Broadcast (Lifecycle_payload (Spawned a name))) t"
  shows "map_option fire_count (get_trigger i (spawn_triggers F enc io now f a name [] e)) = Some (fire_count t + 1)
    \<and> (max_fires t = fire_count t + 1 \<longrightarrow>
      map_option (fires_now F ev) (get_trigger i (spawn_triggers F enc io now f a name [] e)) = Some False)"
  using assms
  by (auto simp: spawn_triggers_def get_trigger_def map_of_map_values fires_now_def fired_def)

section \<open>Concrete uses\<close>

definition demo_fmt :: ev_fmt where
  "demo_fmt = \<lparr>id_text = nat_str, f32_1 = (\<lambda>w. []), f64_4 = (\<lambda>w. []), debug_network = (\<lambda>n. []),
     debug_system = (\<lambda>s. []), ev_lower = map ascii_lower\<rparr>"

definition demo_ops :: "trig_op list" where
  "demo_ops = [Add_trigger 1 0 5 (AgentSpawned ''*'') ''go {{event}}'' 1, Add_trigger 2 0 6 All_pattern ''x'' 0,
     Restart, Event_occurs (new_event 0 0 9 Broadcast (Lifecycle_payload (Spawned 9 ''n'')))]"

lemma codec_plain: "codec Some (Some :: trigger list \<Rightarrow> trigger list option)"
  by (simp add: codec_def)

lemma demo_fresh: "ids_fresh (empty_store (Some :: trigger list \<Rightarrow> trigger list option)) demo_ops"
  by (simp add: ids_fresh_def empty_store_def triggers_with_persistence_def demo_ops_def)

lemma list_agent_triggers_exact_witness:
  "set (list_agent_triggers 5 (foldl (trig_apply demo_fmt Some Some) (empty_store Some) demo_ops)) =
     {t \<in> set (list_all_triggers (foldl (trig_apply demo_fmt Some Some) (empty_store Some) demo_ops)).
        trigger_agent t = 5}"
  using list_agent_triggers_exact [OF codec_plain demo_fresh refl] by blast

definition demo_store :: "trigger list trigger_engine" where
  "demo_store = foldl (trig_apply demo_fmt Some Some) (empty_store Some) (take 2 demo_ops)"

lemma demo_store_inv: "trig_inv Some demo_store"
  unfolding demo_store_def
  by (rule trig_run_inv [OF codec_plain trig_inv_empty])
    (simp add: ids_fresh_def empty_store_def triggers_with_persistence_def demo_ops_def)

lemma demo_store_triggers:
  "triggers demo_store = [(1, new_trigger 1 0 5 (AgentSpawned ''*'') ''go {{event}}'' 1),
     (2, new_trigger 2 0 6 All_pattern ''x'' 0)]"
  by (simp add: demo_store_def demo_ops_def register_trigger_def load_trigger_def new_trigger_def
      empty_store_def triggers_with_persistence_def)

lemma fire_limit_holds_witness:
  "total_fires demo_fmt Some Some demo_store (drop 2 demo_ops @ [Enable 1 True] @ drop 3 demo_ops) 1 \<le> 1"
proof -
  let ?t = "new_trigger 1 0 5 (AgentSpawned ''*'') ''go {{event}}'' 1"
  have "fire_count ?t + total_fires demo_fmt Some Some demo_store
      (drop 2 demo_ops @ [Enable 1 True] @ drop 3 demo_ops) 1 \<le> max_fires ?t"
    by (rule fire_limit_holds [OF codec_plain demo_store_inv])
      (simp_all add: demo_ops_def ids_fresh_def demo_store_triggers new_trigger_def)
  then show ?thesis by (simp add: new_trigger_def del: total_fires.simps append.simps)
qed

lemma removed_agent_hears_nothing_witness:
  "5 \<notin> fst ` set (sent_messages demo_fmt Some Some
      (trig_apply demo_fmt Some Some demo_store (Remove_agent 5)) (drop 2 demo_ops))"
  by (rule removed_agent_hears_nothing [OF codec_plain demo_store_inv])
    (simp_all add: demo_ops_def ids_fresh_def)

lemma parse_cron_intervals_witness:
  "parse_cron_to_secs (map ascii_lower) (''every '' @ nat_str 5 @ ''m'') = 300"
  using parse_cron_intervals [of "map ascii_lower" "''m''" 60 5] by (simp add: cron_units_def)

lemma spawn_spends_triggers_witness:
  "map_option fire_count (get_trigger 1 (spawn_triggers demo_fmt Some (True, True) 0 7 9 ''n'' [] demo_store)) = Some 1"
  using spawn_spends_triggers [of 1 demo_store "new_trigger 1 0 5 (AgentSpawned ''*'') ''go {{event}}'' 1"
      demo_fmt 7 0 9 "''n''" Some "(True, True)"]
  by (simp add: get_trigger_def demo_store_triggers)
    (simp add: new_trigger_def fires_now_def trigger_matches_def new_event_def wild_contains_def)

end
