(* ===== verification/Cron_Job.thy ===== *)
theory Cron_Job
  imports Rh_Prelude
begin

text \<open>
  Scheduled jobs: the types and the validation of \<open>types/src/scheduler.rs\<close>. Times are
  nanoseconds since the epoch (\<open>int\<close>), ids are numbers, unsigned machine integers are \<open>nat\<close> (the
  validation only compares them). \<open>char::is_alphanumeric\<close> is a Unicode table and the UUID parser
  a crate: both are functions of \<open>job_env\<close>.
\<close>

section \<open>Data\<close>

datatype cron_schedule =
    At int
  | Every nat
  | Cron string "string option"

datatype cron_action =
    SystemEvent string
  | AgentTurn string "string option" "nat option"
  | WorkflowRun string string "nat option"

datatype cron_delivery =
    No_delivery
  | Channel_delivery string string
  | LastChannel
  | Webhook string

record cron_job =
  job_id :: nat
  job_agent :: nat
  job_name :: string
  job_enabled :: bool
  job_schedule :: cron_schedule
  job_action :: cron_action
  job_delivery :: cron_delivery
  job_created :: int
  last_run :: "int option"
  next_run :: "int option"

definition max_jobs_per_agent :: nat where "max_jobs_per_agent = 50"
definition max_name_len :: nat where "max_name_len = 128"
definition min_every_secs :: nat where "min_every_secs = 60"
definition max_every_secs :: nat where "max_every_secs = 86400"
definition max_at_horizon_secs :: int where "max_at_horizon_secs = 365 * 24 * 3600"
definition max_event_text_len :: nat where "max_event_text_len = 4096"
definition max_turn_message_len :: nat where "max_turn_message_len = 16384"
definition max_workflow_input_len :: nat where "max_workflow_input_len = 65536"
definition min_job_timeout_secs :: nat where "min_job_timeout_secs = 10"
definition max_job_timeout_secs :: nat where "max_job_timeout_secs = 600"
definition max_webhook_url_len :: nat where "max_webhook_url_len = 2048"

definition second :: int where "second = 1000000000"

record job_env =
  is_alphanumeric :: "string \<Rightarrow> bool"
  uuid_ok :: "string \<Rightarrow> bool"

section \<open>Validation\<close>

definition cron_char :: "string \<Rightarrow> bool" where
  "cron_char c \<longleftrightarrow> (\<exists>d \<in> set ''0123456789''. c = [d]) \<or> c \<in> set [''*'', ''/'', ''-'', '','', ''?'']"

fun check_fields :: "nat \<Rightarrow> string list \<Rightarrow> string + unit" where
  "check_fields i [] = Inr ()"
| "check_fields i (field # fs) =
     (if field = [] then Inl (''cron field '' @ nat_str i @ '' is empty'')
      else if \<not> list_all cron_char (chars field)
        then Inl (''cron field '' @ nat_str i @ '' contains invalid characters: '' @ dquoted field)
      else check_fields (i + 1) fs)"

definition validate_cron_expr :: "string \<Rightarrow> string + unit" where
  "validate_cron_expr expr =
     (let trimmed = trim expr in
      if trimmed = [] then Inl ''cron expression must not be empty''
      else let fields = split_whitespace trimmed in
        if length fields \<noteq> 5
        then Inl (''cron expression must have exactly 5 fields (got '' @ nat_str (length fields) @ ''): ''
                  @ dquoted trimmed)
        else check_fields 0 fields)"

definition validate_schedule :: "int \<Rightarrow> cron_schedule \<Rightarrow> string + unit" where
  "validate_schedule now s =
     (case s of
        Every secs \<Rightarrow>
          (if secs < min_every_secs
           then Inl (''every_secs too small ('' @ nat_str secs @ '', min '' @ nat_str min_every_secs @ '')'')
           else if max_every_secs < secs
           then Inl (''every_secs too large ('' @ nat_str secs @ '', max '' @ nat_str max_every_secs @ '')'')
           else Inr ())
      | At at \<Rightarrow>
          (if at \<le> now then Inl ''scheduled time must be in the future''
           else if max_at_horizon_secs < (at - now) div second
           then Inl (''scheduled time too far in the future (max '' @ int_str max_at_horizon_secs @ ''s / ~1 year)'')
           else Inr ())
      | Cron expr tz \<Rightarrow> validate_cron_expr expr)"

definition validate_job_timeout :: "nat option \<Rightarrow> string + unit" where
  "validate_job_timeout timeout =
     (case timeout of
        None \<Rightarrow> Inr ()
      | Some t \<Rightarrow>
          (if t < min_job_timeout_secs
           then Inl (''timeout_secs too small ('' @ nat_str t @ '', min '' @ nat_str min_job_timeout_secs @ '')'')
           else if max_job_timeout_secs < t
           then Inl (''timeout_secs too large ('' @ nat_str t @ '', max '' @ nat_str max_job_timeout_secs @ '')'')
           else Inr ()))"

definition too_long_text :: "string \<Rightarrow> string \<Rightarrow> nat \<Rightarrow> string" where
  "too_long_text what s limit = what @ '' too long ('' @ nat_str (length s) @ '' chars, max '' @ nat_str limit @ '')''"

definition validate_action :: "job_env \<Rightarrow> cron_action \<Rightarrow> string + unit" where
  "validate_action E a =
     (case a of
        SystemEvent t \<Rightarrow>
          (if t = [] then Inl ''system event text must not be empty''
           else if max_event_text_len < length t then Inl (too_long_text ''system event text'' t max_event_text_len)
           else Inr ())
      | AgentTurn msg model timeout \<Rightarrow>
          (if msg = [] then Inl ''agent turn message must not be empty''
           else if max_turn_message_len < length msg
           then Inl (too_long_text ''agent turn message'' msg max_turn_message_len)
           else validate_job_timeout timeout)
      | WorkflowRun wid input timeout \<Rightarrow>
          (if wid = [] then Inl ''workflow_id must not be empty''
           else if \<not> uuid_ok E wid then Inl (''workflow_id must be a valid UUID, got '' @ quoted wid)
           else if max_workflow_input_len < length input
           then Inl (too_long_text ''workflow input'' input max_workflow_input_len)
           else validate_job_timeout timeout))"

definition validate_delivery :: "cron_delivery \<Rightarrow> string + unit" where
  "validate_delivery d =
     (case d of
        Channel_delivery channel to \<Rightarrow>
          (if channel = [] then Inl ''delivery channel must not be empty''
           else if to = [] then Inl ''delivery recipient must not be empty''
           else Inr ())
      | Webhook url \<Rightarrow>
          (if \<not> starts_with url ''http://'' \<and> \<not> starts_with url ''https://''
           then Inl ''webhook URL must start with http:// or https://''
           else if max_webhook_url_len < length url then Inl (too_long_text ''webhook URL'' url max_webhook_url_len)
           else Inr ())
      | No_delivery \<Rightarrow> Inr ()
      | LastChannel \<Rightarrow> Inr ())"

definition name_char :: "job_env \<Rightarrow> string \<Rightarrow> bool" where
  "name_char E c \<longleftrightarrow> is_alphanumeric E c \<or> c = '' '' \<or> c = ''-'' \<or> c = ''_''"

definition validate_job :: "job_env \<Rightarrow> int \<Rightarrow> nat \<Rightarrow> cron_job \<Rightarrow> string + unit" where
  "validate_job E now existing_count j =
     (if max_jobs_per_agent \<le> existing_count
      then Inl (''agent already has '' @ nat_str existing_count @ '' jobs (max '' @ nat_str max_jobs_per_agent @ '')'')
      else if job_name j = [] then Inl ''name must not be empty''
      else if max_name_len < length (job_name j) then Inl (too_long_text ''name'' (job_name j) max_name_len)
      else if \<not> list_all (name_char E) (chars (job_name j))
      then Inl ''name may only contain alphanumeric characters, spaces, hyphens, and underscores''
      else case validate_schedule now (job_schedule j) of
        Inl err \<Rightarrow> Inl err
      | Inr _ \<Rightarrow> (case validate_action E (job_action j) of
          Inl err \<Rightarrow> Inl err
        | Inr _ \<Rightarrow> validate_delivery (job_delivery j)))"

section \<open>What a validated job satisfies\<close>

lemma check_fields_ok:
  "check_fields i fs = Inr () \<longleftrightarrow> (\<forall>f \<in> set fs. f \<noteq> [] \<and> list_all cron_char (chars f))"
  by (induction i fs rule: check_fields.induct) auto

fun timeout_ok :: "nat option \<Rightarrow> bool" where
  "timeout_ok None = True"
| "timeout_ok (Some t) = (min_job_timeout_secs \<le> t \<and> t \<le> max_job_timeout_secs)"

lemma validate_job_timeout_ok: "validate_job_timeout t = Inr () \<longleftrightarrow> timeout_ok t"
  by (cases t) (auto simp: validate_job_timeout_def)

text \<open>The limits that do not depend on the clock.\<close>

definition job_limits :: "job_env \<Rightarrow> cron_job \<Rightarrow> bool" where
  "job_limits E j \<longleftrightarrow>
     0 < length (job_name j) \<and> length (job_name j) \<le> max_name_len
     \<and> list_all (name_char E) (chars (job_name j))
     \<and> (case job_schedule j of
          Every s \<Rightarrow> min_every_secs \<le> s \<and> s \<le> max_every_secs
        | Cron expr tz \<Rightarrow> length (split_whitespace (trim expr)) = 5
        | At t \<Rightarrow> True)
     \<and> (case job_action j of
          SystemEvent t \<Rightarrow> t \<noteq> [] \<and> length t \<le> max_event_text_len
        | AgentTurn msg model timeout \<Rightarrow> msg \<noteq> [] \<and> length msg \<le> max_turn_message_len \<and> timeout_ok timeout
        | WorkflowRun wid input timeout \<Rightarrow>
            uuid_ok E wid \<and> length input \<le> max_workflow_input_len \<and> timeout_ok timeout)
     \<and> (case job_delivery j of
          Channel_delivery channel to \<Rightarrow> channel \<noteq> [] \<and> to \<noteq> []
        | Webhook url \<Rightarrow> length url \<le> max_webhook_url_len
            \<and> (starts_with url ''http://'' \<or> starts_with url ''https://'')
        | _ \<Rightarrow> True)"

lemma validate_job_limits:
  assumes "validate_job E now n j = Inr ()"
  shows "job_limits E j" and "n < max_jobs_per_agent"
    and "\<And>t. job_schedule j = At t \<Longrightarrow> now < t \<and> t \<le> now + (max_at_horizon_secs + 1) * second"
proof -
  have s: "validate_schedule now (job_schedule j) = Inr ()" and a: "validate_action E (job_action j) = Inr ()"
    and d: "validate_delivery (job_delivery j) = Inr ()"
    and n: "job_name j \<noteq> []" "length (job_name j) \<le> max_name_len" "list_all (name_char E) (chars (job_name j))"
    using assms by (auto simp: validate_job_def not_less split: if_splits sum.splits)
  show "n < max_jobs_per_agent" using assms by (auto simp: validate_job_def split: if_splits)
  have "case job_schedule j of Every s \<Rightarrow> min_every_secs \<le> s \<and> s \<le> max_every_secs
      | Cron expr tz \<Rightarrow> length (split_whitespace (trim expr)) = 5 | At t \<Rightarrow> True"
    using s by (cases "job_schedule j") (auto simp: validate_schedule_def validate_cron_expr_def Let_def split: if_splits)
  moreover have "case job_action j of
          SystemEvent t \<Rightarrow> t \<noteq> [] \<and> length t \<le> max_event_text_len
        | AgentTurn msg model timeout \<Rightarrow> msg \<noteq> [] \<and> length msg \<le> max_turn_message_len \<and> timeout_ok timeout
        | WorkflowRun wid input timeout \<Rightarrow>
            uuid_ok E wid \<and> length input \<le> max_workflow_input_len \<and> timeout_ok timeout"
    using a by (cases "job_action j") (auto simp: validate_action_def validate_job_timeout_ok split: if_splits)
  moreover have "case job_delivery j of
          Channel_delivery channel to \<Rightarrow> channel \<noteq> [] \<and> to \<noteq> []
        | Webhook url \<Rightarrow> length url \<le> max_webhook_url_len
            \<and> (starts_with url ''http://'' \<or> starts_with url ''https://'')
        | _ \<Rightarrow> True"
    using d by (cases "job_delivery j") (auto simp: validate_delivery_def split: if_splits)
  ultimately show "job_limits E j" using n by (simp add: job_limits_def)
  show "now < t \<and> t \<le> now + (max_at_horizon_secs + 1) * second" if "job_schedule j = At t" for t
  proof -
    have "(t - now) div second \<le> max_at_horizon_secs" "now < t"
      using s that by (auto simp: validate_schedule_def split: if_splits)
    moreover have "t - now < ((t - now) div second + 1) * second"
      using div_mult_mod_eq [of "t - now" second] pos_mod_bound [of second "t - now"]
      by (simp add: second_def algebra_simps)
    moreover have "((t - now) div second + 1) * second \<le> (max_at_horizon_secs + 1) * second"
      using calculation(1) by (intro mult_right_mono) (simp_all add: second_def)
    ultimately show ?thesis by linarith
  qed
qed

end
