(* ===== verification/Rh_Error.thy ===== *)
theory Rh_Error
  imports Rh_Prelude
begin

text \<open>
  The error type of \<open>types/src/error.rs\<close> with its printed forms; the text of an I/O error comes
  from the operating system.
\<close>

section \<open>Errors\<close>

datatype rh_error =
    AgentNotFound string
  | AgentAlreadyExists string
  | CapabilityDenied string
  | QuotaExceeded string
  | InvalidState string string
  | SessionNotFound string
  | Memory_error string
  | ToolExecution string string
  | LlmDriver string
  | Config_error string
  | ManifestParse string
  | Sandbox_error string
  | Network_error string
  | Serialization string
  | MaxIterationsExceeded nat
  | ShuttingDown
  | Io_error string
  | Internal string
  | AuthDenied string
  | MeteringError string
  | InvalidInput string

fun error_str :: "rh_error \<Rightarrow> string" where
  "error_str (AgentNotFound s) = ''Agent not found: '' @ s"
| "error_str (AgentAlreadyExists s) = ''Agent already exists: '' @ s"
| "error_str (CapabilityDenied s) = ''Capability denied: '' @ s"
| "error_str (QuotaExceeded s) = ''Resource quota exceeded: '' @ s"
| "error_str (InvalidState c op) =
     ''Agent is in invalid state '' @ quoted c @ '' for operation '' @ quoted op"
| "error_str (SessionNotFound s) = ''Session not found: '' @ s"
| "error_str (Memory_error s) = ''Memory error: '' @ s"
| "error_str (ToolExecution t r) = ''Tool execution failed: '' @ t @ '' '' @ em_dash @ '' '' @ r"
| "error_str (LlmDriver s) = ''LLM driver error: '' @ s"
| "error_str (Config_error s) = ''Configuration error: '' @ s"
| "error_str (ManifestParse s) = ''Manifest parsing error: '' @ s"
| "error_str (Sandbox_error s) = ''WASM sandbox error: '' @ s"
| "error_str (Network_error s) = ''Network error: '' @ s"
| "error_str (Serialization s) = ''Serialization error: '' @ s"
| "error_str (MaxIterationsExceeded n) = ''Max iterations exceeded: '' @ nat_str n"
| "error_str ShuttingDown = ''Shutdown in progress''"
| "error_str (Io_error s) = ''IO error: '' @ s"
| "error_str (Internal s) = ''Internal error: '' @ s"
| "error_str (AuthDenied s) = ''Auth denied: '' @ s"
| "error_str (MeteringError s) = ''Metering error: '' @ s"
| "error_str (InvalidInput s) = ''Invalid input: '' @ s"

end
