(* ===== verification/Cron.thy ===== *)
theory Cron
  imports Cron_Job Rh_Error
begin

text \<open>
  The cron scheduler of \<open>kernel/src/cron.rs\<close>. The map of jobs is iterated, so it is a table. The
  \<open>cron\<close> and \<open>chrono_tz\<close> crates are functions of \<open>cron_env\<close>: the error of a seven-field
  expression, and the next matching time after a given one in an optional zone. An operation that
  reads the clock takes its readings as arguments. The file content has the type \<open>'d\<close> with its
  codec. Adding a duration to a time is exact: the validated schedules are far from the range of
  chrono.
\<close>

section \<open>Data\<close>

record job_meta =
  meta_job :: cron_job
  one_shot :: bool
  last_status :: "string option"
  consecutive_errors :: nat

record cron_env = job_env +
  cron_error :: "string \<Rightarrow> string option"
  cron_upcoming :: "string \<Rightarrow> string option \<Rightarrow> int \<Rightarrow> int option"
  tz_known :: "string \<Rightarrow> bool"
  cron_lower :: "string \<Rightarrow> string"

record 'd cron_scheduler =
  jobs :: "(nat, job_meta) table"
  max_total_jobs :: nat
  cron_disk :: "'d option"

definition max_consecutive_errors :: nat where "max_consecutive_errors = 5"

definition new_meta :: "cron_job \<Rightarrow> bool \<Rightarrow> job_meta" where
  "new_meta j os = \<lparr>meta_job = j, one_shot = os, last_status = None, consecutive_errors = 0\<rparr>"

definition new_scheduler :: "nat \<Rightarrow> 'd option \<Rightarrow> 'd cron_scheduler" where
  "new_scheduler maxj disk = \<lparr>jobs = [], max_total_jobs = maxj, cron_disk = disk\<rparr>"

definition set_max_total_jobs :: "nat \<Rightarrow> 'd cron_scheduler \<Rightarrow> 'd cron_scheduler" where
  "set_max_total_jobs n s = s\<lparr>max_total_jobs := n\<rparr>"

section \<open>Schedules\<close>

definition seven_field :: "string \<Rightarrow> string" where
  "seven_field expr = ''0 '' @ expr @ '' *''"

definition known_zone :: "cron_env \<Rightarrow> string option \<Rightarrow> string option" where
  "known_zone E tz = (case tz of Some t \<Rightarrow> if tz_known E t then Some t else None | None \<Rightarrow> None)"

definition compute_next_run :: "cron_env \<Rightarrow> int \<Rightarrow> cron_schedule \<Rightarrow> int" where
  "compute_next_run E now s =
     (case s of
        At at \<Rightarrow> at
      | Every secs \<Rightarrow> now + int secs * second
      | Cron expr tz \<Rightarrow>
          (case cron_error E (seven_field expr) of
             None \<Rightarrow>
               (case cron_upcoming E (seven_field expr) (known_zone E tz) now of
                  Some t \<Rightarrow> t
                | None \<Rightarrow> now + 3600 * second)
           | Some err \<Rightarrow> now + 3600 * second))"

definition validate_schedule_parses :: "cron_env \<Rightarrow> int \<Rightarrow> cron_schedule \<Rightarrow> string + unit" where
  "validate_schedule_parses E now s =
     (case s of
        Cron expr tz \<Rightarrow>
          (case cron_error E (seven_field expr) of
             Some err \<Rightarrow> Inl (''invalid cron expression '' @ dquoted expr @ '': '' @ err)
           | None \<Rightarrow>
               (if (case tz of Some t \<Rightarrow> \<not> tz_known E t | None \<Rightarrow> False)
                then Inl (''unknown IANA timezone '' @ dquoted (the tz))
                else if cron_upcoming E (seven_field expr) (known_zone E tz) now = None
                then Inl (''cron expression '' @ dquoted expr @ '' never matches any future time'')
                else Inr ()))
      | _ \<Rightarrow> Inr ())"

section \<open>Persistence\<close>

definition revive :: "cron_env \<Rightarrow> int \<Rightarrow> job_meta \<Rightarrow> job_meta" where
  "revive E now m =
     (if job_enabled (meta_job m) \<and> next_run (meta_job m) = None
      then m\<lparr>meta_job := (meta_job m)\<lparr>next_run := Some (compute_next_run E now (job_schedule (meta_job m)))\<rparr>\<rparr>
      else m)"

definition load_jobs :: "cron_env \<Rightarrow> ('d \<Rightarrow> string + job_meta list) \<Rightarrow> (string \<Rightarrow> string option) \<Rightarrow> int
    \<Rightarrow> 'd cron_scheduler \<Rightarrow> 'd cron_scheduler \<times> (rh_error + nat)" where
  "load_jobs E dec read_error now s =
     (case cron_disk s of
        None \<Rightarrow> (s, Inr 0)
      | Some data \<Rightarrow>
          (case read_error ''read'' of
             Some err \<Rightarrow> (s, Inl (Internal (''Failed to read cron jobs: '' @ err)))
           | None \<Rightarrow>
               (case dec data of
                  Inl err \<Rightarrow> (s, Inl (Internal (''Failed to parse cron jobs: '' @ err)))
                | Inr metas \<Rightarrow>
                    (s\<lparr>jobs := fold (\<lambda>m. tab_put (job_id (meta_job m)) (revive E now m)) metas (jobs s)\<rparr>,
                     Inr (length metas)))))"

text \<open>\<open>io what\<close> is the error of the step \<open>what\<close>, when it fails.\<close>

definition persist_jobs :: "(job_meta list \<Rightarrow> string + 'd) \<Rightarrow> (string \<Rightarrow> string option)
    \<Rightarrow> 'd cron_scheduler \<Rightarrow> 'd cron_scheduler \<times> (rh_error + unit)" where
  "persist_jobs enc io s =
     (case enc (map snd (jobs s)) of
        Inl err \<Rightarrow> (s, Inl (Internal (''Failed to serialize cron jobs: '' @ err)))
      | Inr data \<Rightarrow>
          (case io ''write'' of
             Some err \<Rightarrow> (s, Inl (Internal (''Failed to write cron jobs temp file: '' @ err)))
           | None \<Rightarrow>
               (case io ''rename'' of
                  Some err \<Rightarrow> (s, Inl (Internal (''Failed to rename cron jobs file: '' @ err)))
                | None \<Rightarrow> (s\<lparr>cron_disk := Some data\<rparr>, Inr ()))))"

section \<open>Jobs\<close>

definition job_not_found :: "nat \<Rightarrow> rh_error" where
  "job_not_found i = Internal (''Cron job '' @ nat_str i @ '' not found'')"

definition agent_jobs :: "nat \<Rightarrow> (nat, job_meta) table \<Rightarrow> (nat, job_meta) table" where
  "agent_jobs a js = filter (\<lambda>(i, m). job_agent (meta_job m) = a) js"

definition add_job :: "cron_env \<Rightarrow> int \<Rightarrow> int \<Rightarrow> cron_job \<Rightarrow> bool \<Rightarrow> 'd cron_scheduler
    \<Rightarrow> 'd cron_scheduler \<times> (rh_error + nat)" where
  "add_job E now now' j os s =
     (if max_total_jobs s \<le> length (jobs s)
      then (s, Inl (Internal (''Global cron job limit reached ('' @ nat_str (max_total_jobs s) @ '')'')))
      else case validate_job (job_env.truncate E) now (length (agent_jobs (job_agent j) (jobs s))) j of
        Inl err \<Rightarrow> (s, Inl (InvalidInput err))
      | Inr _ \<Rightarrow> (case validate_schedule_parses E now (job_schedule j) of
          Inl err \<Rightarrow> (s, Inl (InvalidInput err))
        | Inr _ \<Rightarrow>
            (let j' = j\<lparr>next_run := Some (compute_next_run E now' (job_schedule j))\<rparr> in
             (s\<lparr>jobs := tab_put (job_id j) (new_meta j' os) (jobs s)\<rparr>, Inr (job_id j)))))"

definition remove_job :: "nat \<Rightarrow> 'd cron_scheduler \<Rightarrow> 'd cron_scheduler \<times> (rh_error + cron_job)" where
  "remove_job i s =
     (case map_of (jobs s) i of
        None \<Rightarrow> (s, Inl (job_not_found i))
      | Some m \<Rightarrow> (s\<lparr>jobs := tab_del i (jobs s)\<rparr>, Inr (meta_job m)))"

definition reschedule :: "cron_env \<Rightarrow> int \<Rightarrow> job_meta \<Rightarrow> job_meta" where
  "reschedule E now m =
     m\<lparr>meta_job := (meta_job m)\<lparr>next_run := Some (compute_next_run E now (job_schedule (meta_job m)))\<rparr>\<rparr>"

definition set_job_enabled :: "cron_env \<Rightarrow> int \<Rightarrow> nat \<Rightarrow> bool \<Rightarrow> 'd cron_scheduler
    \<Rightarrow> 'd cron_scheduler \<times> (rh_error + unit)" where
  "set_job_enabled E now i b s =
     (case map_of (jobs s) i of
        None \<Rightarrow> (s, Inl (job_not_found i))
      | Some m \<Rightarrow>
          (let m' = m\<lparr>meta_job := (meta_job m)\<lparr>job_enabled := b\<rparr>\<rparr>;
               m'' = (if b then reschedule E now (m'\<lparr>consecutive_errors := 0\<rparr>) else m') in
           (s\<lparr>jobs := tab_put i m'' (jobs s)\<rparr>, Inr ())))"

definition reassign_agent :: "nat \<Rightarrow> nat \<Rightarrow> 'd cron_scheduler \<Rightarrow> 'd cron_scheduler \<times> nat" where
  "reassign_agent old_id new_id s =
     (s\<lparr>jobs := map (\<lambda>(i, m). (i, if job_agent (meta_job m) = old_id
                                  then m\<lparr>meta_job := (meta_job m)\<lparr>job_agent := new_id\<rparr>\<rparr> else m)) (jobs s)\<rparr>,
      length (agent_jobs old_id (jobs s)))"

definition get_job :: "nat \<Rightarrow> 'd cron_scheduler \<Rightarrow> cron_job option" where
  "get_job i s = map_option meta_job (map_of (jobs s) i)"

definition get_meta :: "nat \<Rightarrow> 'd cron_scheduler \<Rightarrow> job_meta option" where
  "get_meta i s = map_of (jobs s) i"

definition list_metas :: "nat \<Rightarrow> 'd cron_scheduler \<Rightarrow> job_meta list" where
  "list_metas a s = map snd (agent_jobs a (jobs s))"

definition list_jobs :: "nat \<Rightarrow> 'd cron_scheduler \<Rightarrow> cron_job list" where
  "list_jobs a s = map meta_job (list_metas a s)"

definition list_all_metas :: "'d cron_scheduler \<Rightarrow> job_meta list" where
  "list_all_metas s = map snd (jobs s)"

definition list_all_jobs :: "'d cron_scheduler \<Rightarrow> cron_job list" where
  "list_all_jobs s = map meta_job (list_all_metas s)"

definition total_jobs :: "'d cron_scheduler \<Rightarrow> nat" where
  "total_jobs s = length (jobs s)"

definition update_job :: "cron_env \<Rightarrow> int \<Rightarrow> int \<Rightarrow> nat \<Rightarrow> cron_job \<Rightarrow> bool \<Rightarrow> 'd cron_scheduler
    \<Rightarrow> 'd cron_scheduler \<times> (rh_error + unit)" where
  "update_job E now now' i updated os s =
     (case map_of (jobs s) i of
        None \<Rightarrow> (s, Inl (job_not_found i))
      | Some m \<Rightarrow>
          (case validate_job (job_env.truncate E) now
                  (length (filter (\<lambda>(k, m). job_agent (meta_job m) = job_agent updated \<and> k \<noteq> i) (jobs s))) updated of
             Inl err \<Rightarrow> (s, Inl (InvalidInput err))
           | Inr _ \<Rightarrow> (case validate_schedule_parses E now (job_schedule updated) of
               Inl err \<Rightarrow> (s, Inl (InvalidInput err))
             | Inr _ \<Rightarrow>
                 (let j = updated\<lparr>job_id := i, job_created := job_created (meta_job m),
                            last_run := last_run (meta_job m),
                            next_run := Some (compute_next_run E now' (job_schedule updated))\<rparr> in
                  (s\<lparr>jobs := tab_put i (m\<lparr>meta_job := j, one_shot := os, consecutive_errors := 0\<rparr>) (jobs s)\<rparr>,
                   Inr ())))))"

section \<open>Running jobs\<close>

definition is_due :: "int \<Rightarrow> job_meta \<Rightarrow> bool" where
  "is_due now m \<longleftrightarrow> job_enabled (meta_job m)
     \<and> (case next_run (meta_job m) of Some t \<Rightarrow> t \<le> now | None \<Rightarrow> False)"

definition claim :: "job_meta \<Rightarrow> job_meta" where
  "claim m = m\<lparr>meta_job := (meta_job m)\<lparr>next_run := None\<rparr>\<rparr>"

definition claim_due_jobs :: "int \<Rightarrow> 'd cron_scheduler \<Rightarrow> 'd cron_scheduler \<times> cron_job list" where
  "claim_due_jobs now s =
     (s\<lparr>jobs := map (\<lambda>(i, m). (i, if is_due now m then claim m else m)) (jobs s)\<rparr>,
      map (meta_job \<circ> claim) (filter (is_due now) (map snd (jobs s))))"

definition is_at :: "cron_schedule \<Rightarrow> bool" where
  "is_at s = (case s of At t \<Rightarrow> True | _ \<Rightarrow> False)"

definition record_job_success :: "cron_env \<Rightarrow> int \<Rightarrow> int \<Rightarrow> nat \<Rightarrow> 'd cron_scheduler \<Rightarrow> 'd cron_scheduler" where
  "record_job_success E now now' i s =
     (case map_of (jobs s) i of
        None \<Rightarrow> s
      | Some m \<Rightarrow>
          (let m' = m\<lparr>meta_job := (meta_job m)\<lparr>last_run := Some now\<rparr>, last_status := Some ''ok'',
                      consecutive_errors := 0\<rparr> in
           if one_shot m' \<or> is_at (job_schedule (meta_job m')) then s\<lparr>jobs := tab_del i (jobs s)\<rparr>
           else s\<lparr>jobs := tab_put i (reschedule E now' m') (jobs s)\<rparr>))"

definition record_job_failure :: "cron_env \<Rightarrow> int \<Rightarrow> int \<Rightarrow> nat \<Rightarrow> string \<Rightarrow> bool \<Rightarrow> 'd cron_scheduler
    \<Rightarrow> 'd cron_scheduler" where
  "record_job_failure E now now' i error_msg transient s =
     (case map_of (jobs s) i of
        None \<Rightarrow> s
      | Some m \<Rightarrow>
          (let m' = m\<lparr>meta_job := (meta_job m)\<lparr>last_run := Some now\<rparr>,
                      last_status := Some (''error: '' @ concat (take 256 (chars error_msg)))\<rparr> in
           if is_at (job_schedule (meta_job m)) then s\<lparr>jobs := tab_del i (jobs s)\<rparr>
           else if transient then s\<lparr>jobs := tab_put i (reschedule E now' m') (jobs s)\<rparr>
           else (let n = consecutive_errors m + 1; m'' = m'\<lparr>consecutive_errors := n\<rparr> in
                 s\<lparr>jobs := tab_put i
                     (if max_consecutive_errors \<le> n
                      then m''\<lparr>meta_job := (meta_job m'')\<lparr>job_enabled := False\<rparr>\<rparr>
                      else reschedule E now' m'') (jobs s)\<rparr>)))"

definition transient_marks :: "string list" where
  "transient_marks = [''rate limit'', ''overload'', ''cooldown'', ''timed out'', ''timeout'', ''econnreset'',
     ''etimedout'', ''econnrefused'', ''service unavailable'', ''502'', ''503'', ''504'']"

definition is_transient_error :: "cron_env \<Rightarrow> string \<Rightarrow> bool" where
  "is_transient_error E error_msg = list_ex (contains_sub (cron_lower E error_msg)) transient_marks"

end
