(* ===== verification/Cron_Theorems.thy ===== *)
theory Cron_Theorems
  imports Cron
begin

text \<open>
  The cron scheduler over sequences of its operations, crashes and restarts from the saved file
  included: no enabled job is stuck, a claimed job is not claimed again before its outcome, the
  limits on jobs hold, and the automatic disabling follows the run of permanent failures.
\<close>

datatype cron_op =
    Add_job int int cron_job bool
  | Remove_job nat
  | Enable_job int nat bool
  | Update_job int int nat cron_job bool
  | Claim_due int
  | Success int int nat
  | Failure int int nat string bool
  | Reassign nat nat
  | Set_max nat
  | Save
  | Crash_restart int

text \<open>A restart builds a new scheduler with the same limit and loads the file.\<close>

definition no_io_error :: "string \<Rightarrow> string option" where
  "no_io_error what = None"

fun cron_apply :: "cron_env \<Rightarrow> (job_meta list \<Rightarrow> string + 'd) \<Rightarrow> ('d \<Rightarrow> string + job_meta list)
    \<Rightarrow> 'd cron_scheduler \<Rightarrow> cron_op \<Rightarrow> 'd cron_scheduler" where
  "cron_apply E enc dec s (Add_job t t' j os) = fst (add_job E t t' j os s)"
| "cron_apply E enc dec s (Remove_job i) = fst (remove_job i s)"
| "cron_apply E enc dec s (Enable_job t i b) = fst (set_job_enabled E t i b s)"
| "cron_apply E enc dec s (Update_job t t' i j os) = fst (update_job E t t' i j os s)"
| "cron_apply E enc dec s (Claim_due t) = fst (claim_due_jobs t s)"
| "cron_apply E enc dec s (Success t t' i) = record_job_success E t t' i s"
| "cron_apply E enc dec s (Failure t t' i err tr) = record_job_failure E t t' i err tr s"
| "cron_apply E enc dec s (Reassign a b) = fst (reassign_agent a b s)"
| "cron_apply E enc dec s (Set_max n) = set_max_total_jobs n s"
| "cron_apply E enc dec s Save = fst (persist_jobs enc no_io_error s)"
| "cron_apply E enc dec s (Crash_restart t) =
     fst (load_jobs E dec no_io_error t (new_scheduler (max_total_jobs s) (cron_disk s)))"

section \<open>The table is keyed by the ids of its jobs\<close>

definition keyed :: "(nat, job_meta) table \<Rightarrow> bool" where
  "keyed js \<longleftrightarrow> tab_ok js \<and> (\<forall>(i, m) \<in> set js. job_id (meta_job m) = i)"

lemma keyed_empty [simp]: "keyed []"
  by (simp add: keyed_def)

lemma keyed_put: "keyed js \<Longrightarrow> job_id (meta_job m) = i \<Longrightarrow> keyed (tab_put i m js)"
  by (auto simp: keyed_def tab_ok_put set_tab_put)

lemma keyed_del: "keyed js \<Longrightarrow> keyed (tab_del i js)"
  by (auto simp: keyed_def tab_ok_del set_tab_del)

lemma keyed_map:
  assumes "keyed js" and "\<And>m. job_id (meta_job (f m)) = job_id (meta_job m)"
  shows "keyed (map (\<lambda>(i, m). (i, f m)) js)"
proof -
  have "map fst (map (\<lambda>(i, m). (i, f m)) js) = map fst js" by auto
  then show ?thesis using assms unfolding keyed_def by (auto simp del: map_map)
qed

lemma keyed_look: "keyed js \<Longrightarrow> map_of js i = Some m \<Longrightarrow> job_id (meta_job m) = i"
  by (auto simp: keyed_def dest: map_of_SomeD)

lemma keyed_revive:
  "keyed t \<Longrightarrow> keyed (fold (\<lambda>m. tab_put (job_id (meta_job m)) (revive E now m)) ms t)"
proof (induction ms arbitrary: t)
  case (Cons m ms)
  have "job_id (meta_job (revive E now m)) = job_id (meta_job m)" by (simp add: revive_def)
  from Cons.IH [OF keyed_put [OF Cons.prems this]] show ?case by simp
qed simp

lemma keyed_apply: "keyed (jobs s) \<Longrightarrow> keyed (jobs (cron_apply E enc dec s p))"
  by (cases p)
    (auto simp: add_job_def remove_job_def set_job_enabled_def update_job_def claim_due_jobs_def record_job_success_def
      record_job_failure_def reassign_agent_def set_max_total_jobs_def persist_jobs_def load_jobs_def new_scheduler_def
      no_io_error_def new_meta_def reschedule_def claim_def Let_def
      intro!: keyed_put keyed_del keyed_map keyed_revive dest: keyed_look split: option.splits sum.splits if_splits)

lemma claimed_jobs:
  assumes "keyed (jobs s)"
  shows "i \<in> job_id ` set (snd (claim_due_jobs t s)) \<longleftrightarrow> (\<exists>m. map_of (jobs s) i = Some m \<and> is_due t m)"
proof
  assume "i \<in> job_id ` set (snd (claim_due_jobs t s))"
  then obtain k m where km: "(k, m) \<in> set (jobs s)" "is_due t m" "i = job_id (meta_job (claim m))"
    by (auto simp: claim_due_jobs_def)
  moreover from km(1) assms have "job_id (meta_job m) = k" by (auto simp: keyed_def)
  ultimately show "\<exists>m. map_of (jobs s) i = Some m \<and> is_due t m"
    using assms by (auto simp: keyed_def claim_def)
next
  assume "\<exists>m. map_of (jobs s) i = Some m \<and> is_due t m"
  then obtain m where m: "(i, m) \<in> set (jobs s)" "is_due t m" by (auto dest: map_of_SomeD)
  with assms have "job_id (meta_job (claim m)) = i" by (auto simp: keyed_def claim_def)
  with m show "i \<in> job_id ` set (snd (claim_due_jobs t s))"
    by (force simp: claim_due_jobs_def intro!: rev_image_eqI [of "meta_job (claim m)"])
qed

section \<open>No job is stuck\<close>

text \<open>
  The jobs that are executing: handed out by \<open>claim_due_jobs\<close>, and no outcome recorded since.
\<close>

fun in_flight :: "'d cron_scheduler \<Rightarrow> nat set \<Rightarrow> cron_op \<Rightarrow> nat set" where
  "in_flight s C (Claim_due t) = C \<union> job_id ` set (snd (claim_due_jobs t s))"
| "in_flight s C (Success t t' i) = C - {i}"
| "in_flight s C (Failure t t' i err tr) = C - {i}"
| "in_flight s C (Crash_restart t) = {}"
| "in_flight s C _ = C"

fun flight_step :: "cron_env \<Rightarrow> (job_meta list \<Rightarrow> string + 'd) \<Rightarrow> ('d \<Rightarrow> string + job_meta list)
    \<Rightarrow> 'd cron_scheduler \<times> nat set \<Rightarrow> cron_op \<Rightarrow> 'd cron_scheduler \<times> nat set" where
  "flight_step E enc dec (s, C) p = (cron_apply E enc dec s p, in_flight s C p)"

definition waiting_ok :: "nat set \<Rightarrow> nat \<Rightarrow> job_meta \<Rightarrow> bool" where
  "waiting_ok C i m \<longleftrightarrow> (job_enabled (meta_job m) \<and> next_run (meta_job m) = None \<longrightarrow> i \<in> C)"

definition not_stuck :: "'d cron_scheduler \<times> nat set \<Rightarrow> bool" where
  "not_stuck sc \<longleftrightarrow> keyed (jobs (fst sc)) \<and> (\<forall>i m. map_of (jobs (fst sc)) i = Some m \<longrightarrow> waiting_ok (snd sc) i m)"

lemma waiting_reschedule [simp]: "waiting_ok C i (reschedule E t m)"
  by (simp add: waiting_ok_def reschedule_def)

lemma waiting_revive [simp]: "waiting_ok C i (revive E t m)"
  by (auto simp: waiting_ok_def revive_def)

lemma map_of_map_keyed: "map_of (map (\<lambda>(i, m). (i, f i m)) t) j = map_option (f j) (map_of t j)"
  by (induction t) auto

lemma fold_revive:
  "(\<And>i m. map_of t i = Some m \<Longrightarrow> waiting_ok C i m) \<Longrightarrow>
   map_of (fold (\<lambda>m. tab_put (job_id (meta_job m)) (revive E now m)) ms t) i = Some m \<Longrightarrow> waiting_ok C i m"
proof (induction ms arbitrary: t)
  case (Cons x ms)
  show ?case
    by (rule Cons.IH [OF _ Cons.prems(2) [unfolded fold_simps comp_apply]])
      (use Cons.prems(1) in \<open>auto split: if_splits\<close>)
qed simp

lemma flight_step_ok:
  assumes "not_stuck sc"
  shows "not_stuck (flight_step E enc dec sc p)"
proof -
  obtain s C where sc: "sc = (s, C)" by (cases sc)
  have old: "map_of (jobs s) i = Some m \<Longrightarrow> waiting_ok C i m" for i m
    using assms by (simp add: not_stuck_def sc)
  have keys: "keyed (jobs s)" using assms by (simp add: not_stuck_def sc)
  have "waiting_ok (in_flight s C p) i m"
    if m: "map_of (jobs (cron_apply E enc dec s p)) i = Some m" for i m
  proof (cases p)
    case (Add_job t t' j os)
    with m old [of i] show ?thesis
      by (auto simp: add_job_def new_meta_def waiting_ok_def Let_def split: if_splits sum.splits)
  next
    case (Remove_job k)
    with m old [of i] show ?thesis by (auto simp: remove_job_def split: option.splits if_splits)
  next
    case (Enable_job t k b)
    with m old [of i] old [of k] show ?thesis
      by (auto simp: set_job_enabled_def Let_def split: option.splits if_splits)
        (auto simp: waiting_ok_def)
  next
    case (Update_job t t' k j os)
    with m old [of i] show ?thesis
      by (auto simp: update_job_def waiting_ok_def Let_def split: option.splits if_splits sum.splits)
  next
    case (Claim_due t)
    with m obtain m0 where m0: "map_of (jobs s) i = Some m0" "m = (if is_due t m0 then claim m0 else m0)"
      by (auto simp: claim_due_jobs_def map_of_map_keyed)
    show ?thesis
    proof (cases "is_due t m0")
      case True
      with claimed_jobs [OF keys, of i t] m0(1) Claim_due show ?thesis by (simp add: waiting_ok_def)
    next
      case False
      with old [OF m0(1)] m0(2) Claim_due show ?thesis by (auto simp: waiting_ok_def)
    qed
  next
    case (Success t t' k)
    with m old [of i] show ?thesis
      by (auto simp: record_job_success_def Let_def split: option.splits if_splits) (auto simp: waiting_ok_def)
  next
    case (Failure t t' k err tr)
    with m old [of i] show ?thesis
      by (auto simp: record_job_failure_def Let_def split: option.splits if_splits) (auto simp: waiting_ok_def)
  next
    case (Reassign a b)
    with m obtain m0 where m0: "map_of (jobs s) i = Some m0"
      "job_enabled (meta_job m) = job_enabled (meta_job m0)" "next_run (meta_job m) = next_run (meta_job m0)"
      by (auto simp: reassign_agent_def map_of_map_keyed split: if_splits)
    with old [OF m0(1)] Reassign show ?thesis by (simp add: waiting_ok_def)
  next
    case (Set_max n)
    with m old show ?thesis by (simp add: set_max_total_jobs_def)
  next
    case Save
    with m old show ?thesis by (auto simp: persist_jobs_def no_io_error_def split: sum.splits)
  next
    case (Crash_restart t)
    with m show ?thesis
      by (auto simp: load_jobs_def new_scheduler_def no_io_error_def intro: fold_revive [of "[]"]
          split: option.splits sum.splits)
  qed
  then show ?thesis using keyed_apply [OF keys] by (simp add: not_stuck_def sc)
qed

interpretation flight: invariant_machine "flight_step E enc dec" not_stuck for E enc dec
  by unfold_locales (rule flight_step_ok)

text \<open>
  C40: No enabled job is ever stuck: after any sequence of operations, saves, crashes and
  restarts, with any file content, a job that is enabled and has no next run is executing (it was
  handed out by \<open>claim_due_jobs\<close> and its outcome is not recorded yet), so recording the outcome, which the kernel does
  on every path, or a restart schedules it again.
\<close>
theorem no_job_is_stuck:
  assumes "foldl (flight_step E enc dec) (new_scheduler maxj disk, {}) ops = (s, C)"
    and "get_job i s = Some j" and "job_enabled j" and "next_run j = None"
  shows "i \<in> C"
proof -
  have "not_stuck (foldl (flight_step E enc dec) (new_scheduler maxj disk, {}) ops)"
    by (rule flight.run_inv) (simp add: not_stuck_def new_scheduler_def)
  with assms show ?thesis by (auto simp: not_stuck_def waiting_ok_def get_job_def)
qed

section \<open>One claim per run\<close>

text \<open>The operations that give job \<open>i\<close> a next run again.\<close>

fun re_arms :: "nat \<Rightarrow> cron_op \<Rightarrow> bool" where
  "re_arms i (Add_job t t' j os) = (job_id j = i)"
| "re_arms i (Enable_job t k b) = (k = i \<and> b)"
| "re_arms i (Update_job t t' k j os) = (k = i)"
| "re_arms i (Success t t' k) = (k = i)"
| "re_arms i (Failure t t' k err tr) = (k = i)"
| "re_arms i (Crash_restart t) = True"
| "re_arms i _ = False"

definition unarmed :: "nat \<Rightarrow> 'd cron_scheduler \<Rightarrow> bool" where
  "unarmed i s \<longleftrightarrow> (\<forall>m. map_of (jobs s) i = Some m \<longrightarrow> next_run (meta_job m) = None)"

lemma unarmed_apply:
  assumes "unarmed i s" and "\<not> re_arms i p"
  shows "unarmed i (cron_apply E enc dec s p)"
proof -
  have old: "map_of (jobs s) i = Some m \<Longrightarrow> next_run (meta_job m) = None" for m
    using assms(1) by (simp add: unarmed_def)
  have "next_run (meta_job m) = None" if m: "map_of (jobs (cron_apply E enc dec s p)) i = Some m" for m
  proof (cases p)
    case (Add_job t t' j os)
    with m old assms(2) show ?thesis by (auto simp: add_job_def Let_def split: if_splits sum.splits)
  next
    case (Remove_job k)
    with m old show ?thesis by (auto simp: remove_job_def split: option.splits if_splits)
  next
    case (Enable_job t k b)
    with m old assms(2) show ?thesis
      by (auto simp: set_job_enabled_def Let_def split: option.splits if_splits)
  next
    case (Update_job t t' k j os)
    with m old assms(2) show ?thesis
      by (auto simp: update_job_def Let_def split: option.splits if_splits sum.splits)
  next
    case (Claim_due t)
    with m old show ?thesis by (auto simp: claim_due_jobs_def map_of_map_keyed claim_def split: if_splits)
  next
    case (Reassign a b)
    with m old show ?thesis by (auto simp: reassign_agent_def map_of_map_keyed split: if_splits)
  next
    case Save
    with m old show ?thesis by (auto simp: persist_jobs_def no_io_error_def split: sum.splits)
  next
    case (Success t t' k)
    with m old assms(2) show ?thesis
      by (auto simp: record_job_success_def Let_def split: option.splits if_splits)
  next
    case (Failure t t' k err tr)
    with m old assms(2) show ?thesis
      by (auto simp: record_job_failure_def Let_def split: option.splits if_splits)
  qed (use m old assms(2) in \<open>auto simp: set_max_total_jobs_def\<close>)
  then show ?thesis by (simp add: unarmed_def)
qed

lemma unarmed_run:
  "unarmed i s \<Longrightarrow> list_all (\<lambda>p. \<not> re_arms i p) ops \<Longrightarrow> unarmed i (foldl (cron_apply E enc dec) s ops)"
  by (induction ops arbitrary: s) (auto intro: unarmed_apply)

section \<open>The limits\<close>

lemma job_limits_updates [simp]:
  "job_limits E (j\<lparr>next_run := x\<rparr>) = job_limits E j" "job_limits E (j\<lparr>last_run := x\<rparr>) = job_limits E j"
  "job_limits E (j\<lparr>job_enabled := b\<rparr>) = job_limits E j" "job_limits E (j\<lparr>job_id := i\<rparr>) = job_limits E j"
  "job_limits E (j\<lparr>job_created := c\<rparr>) = job_limits E j"
  by (simp_all add: job_limits_def)

definition table_ok :: "cron_env \<Rightarrow> nat \<Rightarrow> (nat, job_meta) table \<Rightarrow> bool" where
  "table_ok E maxj js \<longleftrightarrow> tab_ok js
     \<and> (\<forall>(i, m) \<in> set js. job_id (meta_job m) = i \<and> job_limits (job_env.truncate E) (meta_job m))
     \<and> (\<forall>a. length (agent_jobs a js) \<le> max_jobs_per_agent) \<and> length js \<le> maxj"

definition others :: "nat \<Rightarrow> nat \<Rightarrow> (nat, job_meta) table \<Rightarrow> nat" where
  "others a i js = length (filter (\<lambda>(k, m). job_agent (meta_job m) = a \<and> k \<noteq> i) js)"

lemma agent_jobs_put:
  "tab_ok js \<Longrightarrow> length (agent_jobs a (tab_put i m js)) = others a i js + (if job_agent (meta_job m) = a then 1 else 0)"
proof (induction js)
  case (Cons x js)
  obtain k m0 where x: "x = (k, m0)" by (cases x)
  have "others a i js = length (agent_jobs a js)" if "k = i"
    using Cons.prems x that unfolding others_def agent_jobs_def
    by (intro arg_cong [of _ _ length] filter_cong) (auto simp: rev_image_eqI)
  with Cons x show ?case by (auto simp: others_def agent_jobs_def)
qed (simp add: others_def agent_jobs_def)

lemma others_le: "others a i js \<le> length (agent_jobs a js)"
  unfolding others_def agent_jobs_def by (induction js) auto

lemma agent_jobs_present:
  "tab_ok js \<Longrightarrow> map_of js i = Some m \<Longrightarrow>
   length (agent_jobs a js) = others a i js + (if job_agent (meta_job m) = a then 1 else 0)"
proof -
  have "tab_put i m js = js" if "map_of js i = Some m" for js :: "(nat, job_meta) table"
    using that by (induction js) (auto split: if_splits)
  then show "tab_ok js \<Longrightarrow> map_of js i = Some m \<Longrightarrow> ?thesis" by (metis agent_jobs_put)
qed

lemma length_tab_put: "length (tab_put k v t) = (if map_of t k = None then Suc (length t) else length t)"
  by (induction t) auto

lemma table_ok_put:
  assumes "table_ok E maxj js" and "job_id (meta_job m) = i" "job_limits (job_env.truncate E) (meta_job m)"
    and "others (job_agent (meta_job m)) i js < max_jobs_per_agent"
    and "map_of js i = None \<longrightarrow> length js < maxj"
  shows "table_ok E maxj (tab_put i m js)"
proof -
  have ok: "tab_ok js" using assms(1) by (simp add: table_ok_def)
  have "length (agent_jobs a (tab_put i m js)) \<le> max_jobs_per_agent" for a
    using agent_jobs_put [OF ok, of a i m] others_le [of a i js] assms(1,4)
    by (auto simp: table_ok_def Suc_le_eq intro: order_trans)
  then show ?thesis
    using assms by (auto simp: table_ok_def tab_ok_put set_tab_put length_tab_put)
qed

lemma table_ok_same:
  assumes "table_ok E maxj js" and "map_of js i = Some m" and "job_id (meta_job m') = job_id (meta_job m)"
    and "job_agent (meta_job m') = job_agent (meta_job m)"
    and "job_limits (job_env.truncate E) (meta_job m) \<longrightarrow> job_limits (job_env.truncate E) (meta_job m')"
  shows "table_ok E maxj (tab_put i m' js)"
proof (rule table_ok_put [OF assms(1)])
  have m: "job_id (meta_job m) = i" "job_limits (job_env.truncate E) (meta_job m)"
    using assms(1) map_of_SomeD [OF assms(2)] by (auto simp: table_ok_def)
  with assms(3,5) show "job_id (meta_job m') = i" "job_limits (job_env.truncate E) (meta_job m')" by simp_all
  have "length (agent_jobs (job_agent (meta_job m)) js) = others (job_agent (meta_job m)) i js + 1"
    using agent_jobs_present [of js i m "job_agent (meta_job m)"] assms(1,2) by (simp add: table_ok_def)
  moreover have "length (agent_jobs (job_agent (meta_job m)) js) \<le> max_jobs_per_agent"
    using assms(1) by (simp add: table_ok_def)
  ultimately show "others (job_agent (meta_job m')) i js < max_jobs_per_agent" using assms(4) by simp
qed (use assms(2) in simp)

lemma table_ok_del: "table_ok E maxj js \<Longrightarrow> table_ok E maxj (tab_del i js)"
proof -
  assume ok: "table_ok E maxj js"
  have "length (agent_jobs a (tab_del i js)) \<le> length (agent_jobs a js)" for a
    unfolding agent_jobs_def tab_del_def by (induction js) auto
  moreover have "length (tab_del i js) \<le> length js" unfolding tab_del_def by simp
  ultimately show ?thesis
    using ok unfolding table_ok_def by (auto simp: tab_ok_del set_tab_del intro: order_trans)
qed

lemma table_ok_map:
  assumes "table_ok E maxj js" and "\<And>m. job_id (meta_job (f m)) = job_id (meta_job m)"
    and "\<And>m. job_agent (meta_job (f m)) = job_agent (meta_job m)"
    and "\<And>m. job_limits (job_env.truncate E) (meta_job (f m)) = job_limits (job_env.truncate E) (meta_job m)"
  shows "table_ok E maxj (map (\<lambda>(i, m). (i, f m)) js)"
proof -
  have keys: "map fst (map (\<lambda>(i, m). (i, f m)) ts) = map fst ts" for ts :: "(nat, job_meta) table"
    by (induction ts) auto
  have count: "length (agent_jobs a (map (\<lambda>(i, m). (i, f m)) js)) = length (agent_jobs a js)" for a
    unfolding agent_jobs_def by (induction js) (auto simp: assms(3))
  show ?thesis
    using assms(1) unfolding table_ok_def keys count by (auto simp: assms(2,4))
qed

definition job_codec :: "(job_meta list \<Rightarrow> string + 'd) \<Rightarrow> ('d \<Rightarrow> string + job_meta list) \<Rightarrow> bool" where
  "job_codec enc dec \<longleftrightarrow> (\<forall>ms. \<exists>d. enc ms = Inr d \<and> dec d = Inr ms)"

definition sched_ok :: "cron_env \<Rightarrow> ('d \<Rightarrow> string + job_meta list) \<Rightarrow> 'd cron_scheduler \<Rightarrow> bool" where
  "sched_ok E dec s \<longleftrightarrow> table_ok E (max_total_jobs s) (jobs s) \<and>
     (\<forall>d. cron_disk s = Some d \<longrightarrow>
        (\<exists>ms. dec d = Inr ms \<and> table_ok E (max_total_jobs s) (map (\<lambda>m. (job_id (meta_job m), m)) ms)))"

lemma fold_load_jobs:
  "distinct (map (\<lambda>m. job_id (meta_job m)) ms) \<Longrightarrow> fst ` set t \<inter> set (map (\<lambda>m. job_id (meta_job m)) ms) = {} \<Longrightarrow>
   fold (\<lambda>m. tab_put (job_id (meta_job m)) (revive E now m)) ms t
     = t @ map (\<lambda>m. (job_id (meta_job m), revive E now m)) ms"
proof (induction ms arbitrary: t)
  case (Cons m ms)
  then have "job_id (meta_job m) \<notin> fst ` set t" by auto
  with Cons.IH [of "t @ [(job_id (meta_job m), revive E now m)]"] Cons.prems show ?case
    by (auto simp: tab_put_new)
qed simp

lemma revive_sel [simp]:
  "job_id (meta_job (revive E t m)) = job_id (meta_job m)"
  "job_agent (meta_job (revive E t m)) = job_agent (meta_job m)"
  "job_limits Q (meta_job (revive E t m)) = job_limits Q (meta_job m)"
  by (simp_all add: revive_def)

lemma reschedule_sel [simp]:
  "job_id (meta_job (reschedule E t m)) = job_id (meta_job m)"
  "job_agent (meta_job (reschedule E t m)) = job_agent (meta_job m)"
  "job_limits Q (meta_job (reschedule E t m)) = job_limits Q (meta_job m)"
  by (simp_all add: reschedule_def)

lemma claim_sel [simp]:
  "job_id (meta_job (claim m)) = job_id (meta_job m)"
  "job_agent (meta_job (claim m)) = job_agent (meta_job m)"
  "job_limits Q (meta_job (claim m)) = job_limits Q (meta_job m)"
  by (simp_all add: claim_def)

fun is_reassign :: "cron_op \<Rightarrow> bool" where
  "is_reassign (Reassign a b) = True"
| "is_reassign (Set_max n) = True"
| "is_reassign _ = False"

text \<open>Every operation but those two either keeps the table in bounds or saves or loads it.\<close>

lemma table_ok_apply:
  assumes "table_ok E (max_total_jobs s) (jobs s)" and "\<not> is_reassign p" and "\<And>t. p \<noteq> Crash_restart t"
  shows "table_ok E (max_total_jobs s) (jobs (cron_apply E enc dec s p))"
proof (cases p)
  case (Add_job t t' j os)
  show ?thesis
  proof (cases "jobs (cron_apply E enc dec s p) = jobs s")
    case False
    with Add_job have ok: "length (jobs s) < max_total_jobs s"
      "validate_job (job_env.truncate E) t (length (agent_jobs (job_agent j) (jobs s))) j = Inr ()"
      "jobs (cron_apply E enc dec s p) = tab_put (job_id j)
         (new_meta (j\<lparr>next_run := Some (compute_next_run E t' (job_schedule j))\<rparr>) os) (jobs s)"
      by (auto simp: add_job_def Let_def split: if_splits sum.splits)
    note v = validate_job_limits(1,2) [OF ok(2)]
    show ?thesis
      unfolding ok(3)
      using v others_le [of "job_agent j" "job_id j" "jobs s"] ok(1)
      by (intro table_ok_put [OF assms(1)]) (simp_all add: new_meta_def)
  qed (use assms in simp)
next
  case (Update_job t t' i j os)
  show ?thesis
  proof (cases "jobs (cron_apply E enc dec s p) = jobs s")
    case False
    with Update_job obtain m where m: "map_of (jobs s) i = Some m"
      "validate_job (job_env.truncate E) t (others (job_agent j) i (jobs s)) j = Inr ()"
      "jobs (cron_apply E enc dec s p) = tab_put i (m\<lparr>meta_job := j\<lparr>job_id := i,
          job_created := job_created (meta_job m), last_run := last_run (meta_job m),
          next_run := Some (compute_next_run E t' (job_schedule j))\<rparr>, one_shot := os,
          consecutive_errors := 0\<rparr>) (jobs s)"
      by (auto simp: update_job_def others_def Let_def split: option.splits if_splits sum.splits)
    note v = validate_job_limits(1,2) [OF m(2)]
    show ?thesis
      unfolding m(3) using v m(1) by (intro table_ok_put [OF assms(1)]) simp_all
  qed (use assms in simp)
next
  case (Claim_due t)
  then show ?thesis
    using table_ok_map [OF assms(1), of "\<lambda>m. if is_due t m then claim m else m"]
    by (simp add: claim_due_jobs_def)
next
  case (Enable_job t i b)
  show ?thesis
  proof (cases "map_of (jobs s) i")
    case (Some m)
    then show ?thesis
      using Enable_job by (simp add: set_job_enabled_def Let_def table_ok_same [OF assms(1) Some])
  qed (use Enable_job assms in \<open>simp add: set_job_enabled_def\<close>)
next
  case (Success t t' i)
  show ?thesis
  proof (cases "map_of (jobs s) i")
    case (Some m)
    then show ?thesis
      using Success assms(1)
      by (simp add: record_job_success_def Let_def table_ok_same [OF assms(1) Some] table_ok_del)
  qed (use Success assms in \<open>simp add: record_job_success_def\<close>)
next
  case (Failure t t' i err tr)
  show ?thesis
  proof (cases "map_of (jobs s) i")
    case (Some m)
    then show ?thesis
      using Failure assms(1)
      by (simp add: record_job_failure_def Let_def table_ok_same [OF assms(1) Some] table_ok_del)
  qed (use Failure assms in \<open>simp add: record_job_failure_def\<close>)
qed (use assms in \<open>auto simp: remove_job_def table_ok_del persist_jobs_def no_io_error_def
    split: option.split sum.split\<close>)

lemma cron_apply_max: "\<not> is_reassign p \<Longrightarrow> max_total_jobs (cron_apply E enc dec s p) = max_total_jobs s"
  by (cases p) (auto simp: add_job_def remove_job_def set_job_enabled_def update_job_def claim_due_jobs_def
      record_job_success_def record_job_failure_def persist_jobs_def load_jobs_def new_scheduler_def Let_def
      split: option.splits sum.splits)

lemma cron_apply_disk: "p \<noteq> Save \<Longrightarrow> cron_disk (cron_apply E enc dec s p) = cron_disk s"
  by (cases p) (auto simp: add_job_def remove_job_def set_job_enabled_def update_job_def claim_due_jobs_def
      record_job_success_def record_job_failure_def load_jobs_def new_scheduler_def Let_def reassign_agent_def
      set_max_total_jobs_def split: option.splits sum.splits)

lemma disk_table_ok:
  assumes "table_ok E maxj js"
  shows "table_ok E maxj (map (\<lambda>m. (job_id (meta_job m), m)) (map snd js))"
proof -
  have "map (\<lambda>m. (job_id (meta_job m), m)) (map snd js) = js"
    using assms unfolding map_map by (intro map_idI) (auto simp: table_ok_def)
  with assms show ?thesis by (simp only:)
qed

lemma sched_ok_apply:
  assumes "job_codec enc dec" and "sched_ok E dec s" and "\<not> is_reassign p"
  shows "sched_ok E dec (cron_apply E enc dec s p)"
proof -
  have tab: "table_ok E (max_total_jobs s) (jobs s)" using assms(2) by (simp add: sched_ok_def)
  note keep = cron_apply_max [OF assms(3), of E enc dec s]
  show ?thesis
  proof (cases "p = Save")
    case True
    obtain d where d: "enc (map snd (jobs s)) = Inr d" "dec d = Inr (map snd (jobs s))"
      using assms(1) unfolding job_codec_def by blast
    from True d(1) have s': "cron_apply E enc dec s p = s\<lparr>cron_disk := Some d\<rparr>"
      by (simp add: persist_jobs_def no_io_error_def)
    show ?thesis
      unfolding s' sched_ok_def using tab d(2) disk_table_ok [OF tab] by simp
  next
    case not_save: False
    note disk = cron_apply_disk [OF not_save, of E enc dec s]
    show ?thesis
    proof (cases "\<exists>t. p = Crash_restart t")
      case False
      then have "table_ok E (max_total_jobs s) (jobs (cron_apply E enc dec s p))"
        by (intro table_ok_apply [OF tab assms(3)]) blast
      then show ?thesis using assms(2) unfolding sched_ok_def keep disk by blast
    next
      case True
      then obtain t where p: "p = Crash_restart t" by blast
      have "table_ok E (max_total_jobs s) (jobs (cron_apply E enc dec s p))"
      proof (cases "cron_disk s")
        case None
        then show ?thesis
          by (simp add: p load_jobs_def new_scheduler_def table_ok_def agent_jobs_def)
      next
        case (Some d)
        with assms(2) obtain ms where ms: "dec d = Inr ms"
          "table_ok E (max_total_jobs s) (map (\<lambda>m. (job_id (meta_job m), m)) ms)"
          by (auto simp: sched_ok_def)
        from ms(2) have "distinct (map (\<lambda>m. job_id (meta_job m)) ms)"
          by (simp add: table_ok_def comp_def)
        then have "jobs (cron_apply E enc dec s p) = map (\<lambda>m. (job_id (meta_job m), revive E t m)) ms"
          using Some ms(1) fold_load_jobs [of ms "[]" E t]
          by (simp add: p load_jobs_def new_scheduler_def no_io_error_def)
        also have "\<dots> = map (\<lambda>(i, m). (i, revive E t m)) (map (\<lambda>m. (job_id (meta_job m), m)) ms)"
          by simp
        finally show ?thesis using table_ok_map [OF ms(2), of "revive E t"] by simp
      qed
      then show ?thesis using assms(2) unfolding sched_ok_def keep disk by blast
    qed
  qed
qed

lemma sched_ok_run:
  "job_codec enc dec \<Longrightarrow> sched_ok E dec s \<Longrightarrow> list_all (\<lambda>p. \<not> is_reassign p) ops \<Longrightarrow>
   sched_ok E dec (foldl (cron_apply E enc dec) s ops)"
  by (induction ops arbitrary: s) (auto intro: sched_ok_apply)

lemma sched_ok_new: "sched_ok E dec (new_scheduler maxj None)"
  by (simp add: sched_ok_def new_scheduler_def table_ok_def agent_jobs_def)

text \<open>
  The limits on scheduled jobs always hold: after any additions, updates, claims, outcomes,
  saves and restarts, there are at most \<open>max_total_jobs\<close> jobs, at most fifty of each agent, each
  under its own id and within the bounds of its validation (interval of one minute to one day, text,
  input, timeout and URL sizes), so an update cannot bypass what an addition checks.
\<close>
theorem job_limits_hold:
  assumes "job_codec enc dec" and "list_all (\<lambda>p. \<not> is_reassign p) ops"
    and "s = foldl (cron_apply E enc dec) (new_scheduler maxj None) ops"
  shows "total_jobs s \<le> max_total_jobs s \<and> length (list_jobs a s) \<le> max_jobs_per_agent
    \<and> (\<forall>i j. get_job i s = Some j \<longrightarrow> job_id j = i \<and> job_limits (job_env.truncate E) j)"
proof -
  have "sched_ok E dec s" unfolding assms(3) by (rule sched_ok_run [OF assms(1) sched_ok_new assms(2)])
  then have "table_ok E (max_total_jobs s) (jobs s)" by (simp add: sched_ok_def)
  then show ?thesis
    by (auto simp: table_ok_def total_jobs_def list_jobs_def list_metas_def get_job_def dest: map_of_SomeD)
qed

text \<open>
  One claim per run: once a tick has claimed a job, no later tick claims it again until its
  outcome is recorded (or it is re-enabled, updated, added anew, or the process restarts),
  whatever else happens in between; and a tick claims exactly the enabled jobs that are due.
\<close>
theorem no_double_claim:
  assumes "job_codec enc dec" and "list_all (\<lambda>p. \<not> is_reassign p) before"
    and "s = foldl (cron_apply E enc dec) (new_scheduler maxj None) before"
    and "i \<in> job_id ` set (snd (claim_due_jobs t s))"
    and "list_all (\<lambda>p. \<not> re_arms i p \<and> \<not> is_reassign p) between"
  shows "(\<exists>j. get_job i s = Some j \<and> job_enabled j \<and> (\<exists>n. next_run j = Some n \<and> n \<le> t))
    \<and> i \<notin> job_id ` set (snd (claim_due_jobs t' (foldl (cron_apply E enc dec) s (Claim_due t # between))))"
proof
  have ok: "sched_ok E dec s" unfolding assms(3) by (rule sched_ok_run [OF assms(1) sched_ok_new assms(2)])
  then have keyed: "keyed (jobs s)" by (auto simp: sched_ok_def table_ok_def keyed_def)
  obtain m where m: "map_of (jobs s) i = Some m" "is_due t m"
    using assms(4) claimed_jobs [OF keyed] by blast
  then show "\<exists>j. get_job i s = Some j \<and> job_enabled j \<and> (\<exists>n. next_run j = Some n \<and> n \<le> t)"
    by (auto simp: get_job_def is_due_def split: option.splits)
  let ?s = "foldl (cron_apply E enc dec) s (Claim_due t # between)"
  have "unarmed i (cron_apply E enc dec s (Claim_due t))"
    using m by (simp add: unarmed_def claim_due_jobs_def map_of_map_keyed claim_def)
  then have un: "unarmed i ?s"
    using assms(5) by (simp add: unarmed_run list_all_iff)
  have "sched_ok E dec ?s"
    using assms(5) by (intro sched_ok_run [OF assms(1) ok]) (simp add: list_all_iff)
  then have "keyed (jobs ?s)" unfolding sched_ok_def table_ok_def keyed_def by blast
  from claimed_jobs [OF this, of i t'] un
  show "i \<notin> job_id ` set (snd (claim_due_jobs t' ?s))"
    unfolding unarmed_def is_due_def by (auto split: option.splits)
qed

section \<open>Outcomes\<close>

datatype outcome = Ran | Provider_down string | Broken string

fun record_outcomes :: "cron_env \<Rightarrow> (nat \<Rightarrow> int) \<Rightarrow> nat \<Rightarrow> 'd cron_scheduler \<Rightarrow> outcome list \<Rightarrow> 'd cron_scheduler" where
  "record_outcomes E clk i s [] = s"
| "record_outcomes E clk i s (Ran # os) =
     record_outcomes E clk i (record_job_success E (clk (length os)) (clk (length os)) i s) os"
| "record_outcomes E clk i s (Provider_down err # os) =
     record_outcomes E clk i (record_job_failure E (clk (length os)) (clk (length os)) i err True s) os"
| "record_outcomes E clk i s (Broken err # os) =
     record_outcomes E clk i (record_job_failure E (clk (length os)) (clk (length os)) i err False s) os"

text \<open>The specification: five permanent failures, with no success between them.\<close>

fun gives_up :: "nat \<Rightarrow> outcome list \<Rightarrow> bool" where
  "gives_up n [] = False"
| "gives_up n (Ran # os) = gives_up 0 os"
| "gives_up n (Provider_down err # os) = gives_up n os"
| "gives_up n (Broken err # os) = (max_consecutive_errors \<le> n + 1 \<or> gives_up (n + 1) os)"

lemma record_outcomes_enabled:
  assumes "map_of (jobs s) i = Some m" and "\<not> one_shot m" and "\<not> is_at (job_schedule (meta_job m))"
    and "consecutive_errors m = n"
  shows "\<exists>m'. map_of (jobs (record_outcomes E clk i s os)) i = Some m'
    \<and> job_enabled (meta_job m') = (job_enabled (meta_job m) \<and> \<not> gives_up n os)"
  using assms
proof (induction os arbitrary: s m n)
  case (Cons x os)
  show ?case
  proof (cases x)
    case Ran
    let ?t = "clk (length os)"
    let ?m = "reschedule E ?t (m\<lparr>meta_job := (meta_job m)\<lparr>last_run := Some ?t\<rparr>,
        last_status := Some ''ok'', consecutive_errors := 0\<rparr>)"
    have "map_of (jobs (record_job_success E ?t ?t i s)) i = Some ?m"
      using Cons.prems by (simp add: record_job_success_def Let_def)
    from Cons.IH [OF this] Cons.prems show ?thesis by (simp add: Ran reschedule_def)
  next
    case (Provider_down err)
    let ?t = "clk (length os)"
    let ?m = "reschedule E ?t (m\<lparr>meta_job := (meta_job m)\<lparr>last_run := Some ?t\<rparr>,
        last_status := Some (''error: '' @ concat (take 256 (chars err)))\<rparr>)"
    have "map_of (jobs (record_job_failure E ?t ?t i err True s)) i = Some ?m"
      using Cons.prems by (simp add: record_job_failure_def Let_def)
    from Cons.IH [OF this] Cons.prems show ?thesis by (simp add: Provider_down reschedule_def)
  next
    case (Broken err)
    let ?t = "clk (length os)"
    let ?m0 = "m\<lparr>meta_job := (meta_job m)\<lparr>last_run := Some ?t\<rparr>,
        last_status := Some (''error: '' @ concat (take 256 (chars err))), consecutive_errors := n + 1\<rparr>"
    let ?m = "if max_consecutive_errors \<le> n + 1 then ?m0\<lparr>meta_job := (meta_job ?m0)\<lparr>job_enabled := False\<rparr>\<rparr>
        else reschedule E ?t ?m0"
    have "map_of (jobs (record_job_failure E ?t ?t i err False s)) i = Some ?m"
      using Cons.prems by (simp add: record_job_failure_def Let_def)
    from Cons.IH [OF this, of "n + 1"] Cons.prems show ?thesis
      by (cases "max_consecutive_errors \<le> n + 1") (simp_all add: Broken reschedule_def)
  qed
qed simp

text \<open>
  When a recurring job is switched off: after any sequence of outcomes it is still scheduled,
  and it is disabled exactly if five permanent failures came with no success between them;
  transient failures neither count nor interrupt the count.
\<close>
theorem auto_disable_exact:
  assumes "get_meta i s = Some m" and "\<not> one_shot m" and "\<not> is_at (job_schedule (meta_job m))"
    and "job_enabled (meta_job m)" and "consecutive_errors m = 0"
  shows "map_option job_enabled (get_job i (record_outcomes E clk i s os)) = Some (\<not> gives_up 0 os)"
  using record_outcomes_enabled [of s i m 0 E clk os] assms by (auto simp: get_meta_def get_job_def)

text \<open>
  A one-time job that was claimed when the shutdown began is lost: the failure that is
  recorded as transient, for the job to run again after the next start, removes it.
\<close>
theorem at_job_lost_at_shutdown:
  assumes "get_meta i s = Some m" and "job_schedule (meta_job m) = At t"
  shows "get_job i (record_job_failure E now now' i ''aborted due to shutdown'' True s) = None"
  using assms by (simp add: get_meta_def get_job_def record_job_failure_def is_at_def Let_def)

end
