(* ===== verification/Cron_Run.thy ===== *)
theory Cron_Run
  imports Cron_Theorems Triggers
begin

text \<open>
  The execution of cron jobs in \<open>kernel/src/kernel.rs\<close>: \<open>execute_cron_job\<close> with the delivery of the
  response, and the tick of the background loop. The scheduler, the triggers, the event bus and
  the last channel of each agent are the state; what an agent turn or a workflow run gives is an
  argument (\<open>call_result\<close>), channel and webhook sends are returned as effects.
\<close>

section \<open>State and outcomes\<close>

datatype call_result = Call_ok string | Call_err string | Call_elapsed

datatype cron_run_outcome =
    Ran_event string
  | Ran_turn nat string
  | Ran_workflow string string

record cron_run_error =
  err_message :: string
  err_timed_out :: bool

definition run_failed :: "string \<Rightarrow> cron_run_error" where
  "run_failed msg = \<lparr>err_message = msg, err_timed_out = False\<rparr>"

definition run_timed_out :: "string \<Rightarrow> cron_run_error" where
  "run_timed_out msg = \<lparr>err_message = msg, err_timed_out = True\<rparr>"

datatype cron_effect = Send_channel string string string | Post_webhook string string

record ('d, 'e) cron_kernel =
  kc_sched :: "'d cron_scheduler"
  kc_triggers :: "'e trigger_engine"
  kc_bus :: event_bus
  kc_last :: "nat \<rightharpoonup> string \<times> string"

text \<open>
  \<open>event_payload_of\<close> serializes the JSON object of a system event; \<open>parse_uuid\<close> gives the error of
  a text that is not a UUID; \<open>ssrf_ok\<close> is the guard of \<open>rusty-hand-runtime\<close> with the allowlist.
\<close>

record 'e run_env =
  re_cron :: cron_env
  re_fmt :: ev_fmt
  re_enc :: "trigger list \<Rightarrow> 'e option"
  event_payload_of :: "string \<Rightarrow> string \<Rightarrow> nat \<Rightarrow> 8 word list"
  parse_uuid :: "string \<Rightarrow> string option"
  ssrf_ok :: "string \<Rightarrow> bool"

section \<open>Delivery\<close>

definition deliver_response :: "'e run_env \<Rightarrow> nat \<Rightarrow> string \<Rightarrow> cron_delivery \<Rightarrow> ('d, 'e) cron_kernel
    \<Rightarrow> ('d, 'e) cron_kernel \<times> cron_effect list" where
  "deliver_response R a response delivery k =
     (if response = [] then (k, [])
      else case delivery of
        No_delivery \<Rightarrow> (k, [])
      | Channel_delivery channel to \<Rightarrow>
          (k\<lparr>kc_last := (kc_last k)(a \<mapsto> (channel, to))\<rparr>, [Send_channel channel to response])
      | LastChannel \<Rightarrow>
          (case kc_last k a of
             Some (channel, to) \<Rightarrow>
               (k, if channel \<noteq> [] \<and> to \<noteq> [] then [Send_channel channel to response] else [])
           | None \<Rightarrow> (k, []))
      | Webhook url \<Rightarrow> (k, if \<not> ssrf_ok R url then [] else [Post_webhook url response]))"

section \<open>Execution of one job\<close>

definition succeed_job :: "'e run_env \<Rightarrow> int \<Rightarrow> nat \<Rightarrow> ('d, 'e) cron_kernel \<Rightarrow> ('d, 'e) cron_kernel" where
  "succeed_job R now i k = k\<lparr>kc_sched := record_job_success (re_cron R) now now i (kc_sched k)\<rparr>"

definition fail_job :: "'e run_env \<Rightarrow> int \<Rightarrow> nat \<Rightarrow> string \<Rightarrow> bool \<Rightarrow> ('d, 'e) cron_kernel \<Rightarrow> ('d, 'e) cron_kernel" where
  "fail_job R now i msg transient k = k\<lparr>kc_sched := record_job_failure (re_cron R) now now i msg transient (kc_sched k)\<rparr>"

definition elapsed_msg :: "nat option \<Rightarrow> nat \<Rightarrow> string" where
  "elapsed_msg timeout secs = ''timed out after '' @ nat_str (case timeout of Some t \<Rightarrow> t | None \<Rightarrow> secs) @ ''s''"

text \<open>\<open>src\<close> and \<open>eid\<close> are the fresh agent and event ids, \<open>ts\<close> the timestamp of a system event.\<close>

definition execute_cron_job :: "'e run_env \<Rightarrow> int \<Rightarrow> nat \<times> nat \<times> nat \<Rightarrow> call_result \<Rightarrow> cron_job
    \<Rightarrow> ('d, 'e) cron_kernel \<Rightarrow> ('d, 'e) cron_kernel \<times> cron_effect list \<times> (cron_run_error + cron_run_outcome)"
where
  "execute_cron_job R now ids result j k =
     (case job_action j of
        SystemEvent body \<Rightarrow>
          (let event_type = ''cron.'' @ job_name j;
               (src, eid, ts) = ids;
               ev = new_event eid ts src Broadcast
                      (Custom_payload (event_payload_of R event_type body (job_id j)));
               ((te, bus), sends, triggered) = publish_event (re_fmt R) (re_enc R) (True, True) ev (kc_triggers k, kc_bus k)
           in (succeed_job R now (job_id j) (k\<lparr>kc_triggers := te, kc_bus := bus\<rparr>), [], Inr (Ran_event event_type)))
      | AgentTurn message model timeout \<Rightarrow>
          (case result of
             Call_ok response \<Rightarrow>
               (let (k', effects) = deliver_response R (job_agent j) response (job_delivery j) (succeed_job R now (job_id j) k)
                in (k', effects, Inr (Ran_turn (job_agent j) response)))
           | Call_err e \<Rightarrow>
               (fail_job R now (job_id j) e (is_transient_error (re_cron R) e) k, [], Inl (run_failed e))
           | Call_elapsed \<Rightarrow>
               (let msg = elapsed_msg timeout 120
                in (fail_job R now (job_id j) msg True k, [], Inl (run_timed_out msg))))
      | WorkflowRun wid input timeout \<Rightarrow>
          (case parse_uuid R wid of
             Some e \<Rightarrow>
               (let msg = ''Invalid workflow ID: '' @ e
                in (fail_job R now (job_id j) msg False k, [], Inl (run_failed msg)))
           | None \<Rightarrow>
               (case result of
                  Call_ok out \<Rightarrow> (succeed_job R now (job_id j) k, [], Inr (Ran_workflow wid out))
                | Call_err e \<Rightarrow> (fail_job R now (job_id j) e True k, [], Inl (run_failed e))
                | Call_elapsed \<Rightarrow>
                    (let msg = ''workflow '' @ elapsed_msg timeout 300
                     in (fail_job R now (job_id j) msg True k, [], Inl (run_timed_out msg))))))"

section \<open>The tick\<close>

text \<open>
  \<open>down\<close> says for each claimed job whether the shutdown has begun when the loop reaches it; a job
  that is not recorded as aborted is spawned (returned). A task that panics records a failure.
\<close>

fun spawn_due :: "'e run_env \<Rightarrow> int \<Rightarrow> (nat \<Rightarrow> bool) \<Rightarrow> cron_job list \<Rightarrow> ('d, 'e) cron_kernel
    \<Rightarrow> ('d, 'e) cron_kernel \<times> cron_job list" where
  "spawn_due R now down [] k = (k, [])"
| "spawn_due R now down (j # js) k =
     (if down (length js)
      then spawn_due R now down js (fail_job R now (job_id j) ''aborted due to shutdown'' True k)
      else (let (k', spawned) = spawn_due R now down js k in (k', j # spawned)))"

definition cron_tick :: "'e run_env \<Rightarrow> (job_meta list \<Rightarrow> string + 'd) \<Rightarrow> int \<Rightarrow> bool \<Rightarrow> (nat \<Rightarrow> bool) \<Rightarrow> nat
    \<Rightarrow> ('d, 'e) cron_kernel \<Rightarrow> ('d, 'e) cron_kernel \<times> cron_job list \<times> nat" where
  "cron_tick R enc now shutting down persist_counter k =
     (let save = (\<lambda>k. k\<lparr>kc_sched := fst (persist_jobs enc (\<lambda>w. None) (kc_sched k))\<rparr>) in
      if shutting then (save k, [], persist_counter)
      else let (s, due) = claim_due_jobs now (kc_sched k);
               (k', spawned) = spawn_due R now down due (k\<lparr>kc_sched := s\<rparr>);
               n = persist_counter + 1
           in if 20 \<le> n then (save k', spawned, 0) else (k', spawned, n))"

definition record_panic :: "'e run_env \<Rightarrow> int \<Rightarrow> cron_job \<Rightarrow> ('d, 'e) cron_kernel \<Rightarrow> ('d, 'e) cron_kernel" where
  "record_panic R now j k = fail_job R now (job_id j) ''panic during execution'' False k"

section \<open>Every execution ends the claim\<close>

definition settled :: "nat \<Rightarrow> 'd cron_scheduler \<Rightarrow> bool" where
  "settled i s \<longleftrightarrow> (\<forall>j. get_job i s = Some j \<and> job_enabled j \<longrightarrow> next_run j \<noteq> None)"

lemma record_settles:
  "settled i (record_job_success E now now' i s)" "settled i (record_job_failure E now now' i msg tr s)"
  by (auto simp: settled_def get_job_def record_job_success_def record_job_failure_def reschedule_def Let_def
      split: option.split)

lemma succeed_settles: "settled i (kc_sched (succeed_job R now i k))"
  by (simp add: succeed_job_def record_settles)

lemma fail_settles: "settled i (kc_sched (fail_job R now i msg tr k))"
  by (simp add: fail_job_def record_settles)

lemma deliver_sched [simp]: "kc_sched (fst (deliver_response R a resp d k)) = kc_sched k"
  by (simp add: deliver_response_def split: cron_delivery.split option.split)

text \<open>
  Every execution of a job ends its claim: whatever its action is and whatever the agent or
  the workflow answers (a panic of the task included), the job is afterwards removed, disabled or
  scheduled again, and no other job changes.
\<close>
theorem execution_ends_claim:
  "settled (job_id j) (kc_sched (fst (execute_cron_job R now ids result j k)))
   \<and> settled (job_id j) (kc_sched (record_panic R now j k))
   \<and> (\<forall>i. i \<noteq> job_id j \<longrightarrow> get_meta i (kc_sched (fst (execute_cron_job R now ids result j k))) = get_meta i (kc_sched k))"
proof -
  have frame: "i \<noteq> job_id j \<Longrightarrow> get_meta i (kc_sched (succeed_job R now (job_id j) k')) = get_meta i (kc_sched k')"
    "i \<noteq> job_id j \<Longrightarrow> get_meta i (kc_sched (fail_job R now (job_id j) msg tr k')) = get_meta i (kc_sched k')"
    for i msg tr k'
    by (auto simp: succeed_job_def fail_job_def get_meta_def record_job_success_def record_job_failure_def Let_def
        split: option.split)
  have "settled (job_id j) (kc_sched (fst (execute_cron_job R now ids result j k)))"
    by (auto simp: execute_cron_job_def case_prod_unfold Let_def succeed_settles fail_settles
        split: cron_action.split call_result.split option.split)
  moreover have "i \<noteq> job_id j \<Longrightarrow>
      get_meta i (kc_sched (fst (execute_cron_job R now ids result j k))) = get_meta i (kc_sched k)" for i
    by (auto simp: execute_cron_job_def case_prod_unfold Let_def frame
        split: cron_action.split call_result.split option.split)
  ultimately show ?thesis by (simp add: record_panic_def fail_settles)
qed

section \<open>Concrete uses\<close>

definition demo_cron_env :: cron_env where
  "demo_cron_env = \<lparr>is_alphanumeric = (\<lambda>c. length c = 1), uuid_ok = (\<lambda>s. True), cron_error = (\<lambda>s. None),
     cron_upcoming = (\<lambda>s z t. Some (t + 1)), tz_known = (\<lambda>s. True), cron_lower = map ascii_lower\<rparr>"

definition demo_job :: "nat \<Rightarrow> cron_schedule \<Rightarrow> cron_job" where
  "demo_job i sch = \<lparr>job_id = i, job_agent = 4, job_name = ''tick'', job_enabled = True, job_schedule = sch,
     job_action = SystemEvent ''x'', job_delivery = No_delivery, job_created = 0, last_run = None, next_run = None\<rparr>"

definition demo_sched :: "job_meta list cron_scheduler" where
  "demo_sched = foldl (cron_apply demo_cron_env Inr Inr) (new_scheduler 10 None) [Add_job 0 0 (demo_job 3 (Every 60)) False]"

lemma demo_codec: "job_codec Inr (Inr :: job_meta list \<Rightarrow> string + job_meta list)"
  by (simp add: job_codec_def)

lemma demo_added:
  "jobs demo_sched = [(3, new_meta ((demo_job 3 (Every 60))\<lparr>next_run := Some (60 * second)\<rparr>) False)]"
proof -
  have "list_all (name_char (job_env.truncate demo_cron_env)) (chars ''tick'')"
    by (simp add: utf8_extra_def name_char_def demo_cron_env_def job_env.truncate_def)
  then show ?thesis
    by (simp add: demo_sched_def add_job_def new_scheduler_def validate_job_def agent_jobs_def demo_job_def
        max_jobs_per_agent_def max_name_len_def validate_schedule_def min_every_secs_def max_every_secs_def
        validate_action_def max_event_text_len_def validate_delivery_def validate_schedule_parses_def
        compute_next_run_def)
qed

lemma no_job_is_stuck_witness:
  "3 \<in> snd (foldl (flight_step demo_cron_env Inr Inr) (new_scheduler 10 None, {})
     [Add_job 0 0 (demo_job 3 (Every 60)) False, Claim_due (60 * second)])"
proof -
  let ?sc = "foldl (flight_step demo_cron_env Inr Inr) (new_scheduler 10 None, {} :: nat set)
     [Add_job 0 0 (demo_job 3 (Every 60)) False, Claim_due (60 * second)]"
  have run: "?sc = (fst ?sc, snd ?sc)" by simp
  have "fst ?sc = fst (claim_due_jobs (60 * second) demo_sched)" by (simp add: demo_sched_def)
  then have "get_job 3 (fst ?sc) = Some (demo_job 3 (Every 60))"
    by (simp add: get_job_def claim_due_jobs_def demo_added is_due_def new_meta_def claim_def demo_job_def)
  with no_job_is_stuck [OF run] show ?thesis by (simp add: demo_job_def)
qed

lemma job_limits_hold_witness:
  "total_jobs demo_sched \<le> max_total_jobs demo_sched \<and> length (list_jobs 4 demo_sched) \<le> max_jobs_per_agent"
proof -
  have "list_all (\<lambda>p. \<not> is_reassign p) [Add_job 0 0 (demo_job 3 (Every 60)) False]" by simp
  from job_limits_hold [OF demo_codec this demo_sched_def, of 4] show ?thesis by blast
qed

lemma no_double_claim_witness:
  "3 \<notin> job_id ` set (snd (claim_due_jobs (90 * second)
     (foldl (cron_apply demo_cron_env Inr Inr) demo_sched (Claim_due (60 * second) # [Save, Claim_due (70 * second)]))))"
proof -
  have "3 \<in> job_id ` set (snd (claim_due_jobs (60 * second) demo_sched))"
    by (simp add: claim_due_jobs_def demo_added is_due_def new_meta_def claim_def demo_job_def)
  moreover have "list_all (\<lambda>p. \<not> is_reassign p) [Add_job 0 0 (demo_job 3 (Every 60)) False]"
    "list_all (\<lambda>p. \<not> re_arms 3 p \<and> \<not> is_reassign p) [Save, Claim_due (70 * second)]" by simp_all
  ultimately show ?thesis using no_double_claim [OF demo_codec _ demo_sched_def] by blast
qed

lemma auto_disable_exact_witness:
  "map_option job_enabled (get_job 3 (record_outcomes demo_cron_env (\<lambda>n. 0) 3 demo_sched
     [Broken ''a'', Broken ''a'', Provider_down ''b'', Broken ''a'', Broken ''a'', Broken ''a''])) = Some False"
  using auto_disable_exact [of 3 demo_sched "new_meta ((demo_job 3 (Every 60))\<lparr>next_run := Some (60 * second)\<rparr>) False"
      demo_cron_env "\<lambda>n. 0" "[Broken ''a'', Broken ''a'', Provider_down ''b'', Broken ''a'', Broken ''a'', Broken ''a'']"]
  by (simp add: get_meta_def demo_added del: record_outcomes.simps)
    (simp add: new_meta_def demo_job_def is_at_def max_consecutive_errors_def del: record_outcomes.simps)

lemma at_job_lost_at_shutdown_witness:
  "get_job 5 (record_job_failure demo_cron_env 0 0 5 ''aborted due to shutdown'' True
     (demo_sched\<lparr>jobs := [(5, new_meta (demo_job 5 (At 7)) False)]\<rparr>)) = None"
  by (rule at_job_lost_at_shutdown [of _ _ "new_meta (demo_job 5 (At 7)) False" 7])
    (simp_all add: get_meta_def new_meta_def demo_job_def)

definition demo_run_env :: "trigger list run_env" where
  "demo_run_env = \<lparr>re_cron = demo_cron_env,
     re_fmt = \<lparr>id_text = nat_str, f32_1 = (\<lambda>w. []), f64_4 = (\<lambda>w. []), debug_network = (\<lambda>n. []),
       debug_system = (\<lambda>s. []), ev_lower = map ascii_lower\<rparr>,
     re_enc = Some, event_payload_of = (\<lambda>e b i. []), parse_uuid = (\<lambda>s. None), ssrf_ok = (\<lambda>u. True)\<rparr>"

definition demo_kernel :: "(job_meta list, trigger list) cron_kernel" where
  "demo_kernel = \<lparr>kc_sched = fst (claim_due_jobs (60 * second) demo_sched), kc_triggers = new_trigger_engine,
     kc_bus = new_bus, kc_last = Map.empty\<rparr>"

lemma execution_ends_claim_witness:
  "settled 3 (kc_sched (fst (execute_cron_job demo_run_env (61 * second) (0, 1, 2) Call_elapsed
     (demo_job 3 (Every 60)) demo_kernel)))"
  using execution_ends_claim [of "demo_job 3 (Every 60)" demo_run_env "61 * second" "(0, 1, 2)" Call_elapsed demo_kernel]
  by (simp add: demo_job_def)

end
