(* ===== verification/Exec_Sandbox.thy ===== *)
theory Exec_Sandbox
  imports Rust_Text
begin

text \<open>
  The shell tool's gate: \<open>runtime/src/subprocess_sandbox.rs\<close>, \<open>types/src/taint.rs\<close>, and the shell
  part of \<open>runtime/src/tool_runner.rs\<close> with the policy types of \<open>types/src/config.rs\<close>. The target
  is Unix. The process environment, the process that runs and the signals' effect on it are
  arguments; \<open>str::to_lowercase\<close> is a Unicode table and an argument too. A \<open>HashSet\<close> of labels that
  is iterated is a list of distinct labels in its iteration order, one that is only searched a set.
\<close>

section \<open>The policy\<close>

datatype exec_security_mode = Deny_exec | Allowlist | Full_exec

record exec_policy =
  exec_mode :: exec_security_mode
  safe_bins :: "string list"
  allowed_commands :: "string list"
  exec_timeout_secs :: nat
  exec_max_output :: nat
  no_output_timeout_secs :: nat
  taint_check_enabled :: bool

definition default_exec_policy :: exec_policy where
  "default_exec_policy = \<lparr> exec_mode = Full_exec,
     safe_bins = [''sleep'', ''true'', ''false'', ''cat'', ''sort'', ''uniq'', ''cut'', ''tr'', ''head'', ''tail'',
                  ''wc'', ''date'', ''echo'', ''printf'', ''basename'', ''dirname'', ''pwd'', ''env''],
     allowed_commands = [], exec_timeout_secs = 30, exec_max_output = 100 * 1024,
     no_output_timeout_secs = 30, taint_check_enabled = False \<rparr>"

section \<open>The environment of the child\<close>

definition safe_env_vars :: "string list" where
  "safe_env_vars = [''PATH'', ''HOME'', ''TMPDIR'', ''TMP'', ''TEMP'', ''LANG'', ''LC_ALL'', ''TERM'']"

definition pass_env :: "(string \<Rightarrow> string option) \<Rightarrow> (string \<rightharpoonup> string) \<Rightarrow> string \<Rightarrow> (string \<rightharpoonup> string)" where
  "pass_env parent child var = (case parent var of Some val \<Rightarrow> child(var \<mapsto> val) | None \<Rightarrow> child)"

text \<open>\<open>parent\<close> is \<open>std::env::var\<close>, \<open>inherited\<close> the environment the command would have had.\<close>

definition sandbox_command ::
  "(string \<Rightarrow> string option) \<Rightarrow> (string \<rightharpoonup> string) \<Rightarrow> string list \<Rightarrow> (string \<rightharpoonup> string)"
where
  "sandbox_command parent inherited allowed =
     (let cleared = Map.empty;
          safe = foldl (pass_env parent) cleared safe_env_vars
      in foldl (pass_env parent) safe allowed)"

text \<open>On Unix a component is a piece between slashes; only the piece \<open>..\<close> is a parent directory.\<close>

definition validate_executable_path :: "string \<Rightarrow> string + unit" where
  "validate_executable_path path =
     (if list_ex (\<lambda>c. c = ''..'') (split_on CHR ''/'' path)
      then Inl (''executable path '' @ quoted path @ '' contains '' @ quoted ''..'' @ '' component which is not allowed'')
      else Inr ())"

section \<open>The allowlist\<close>

abbreviation backslash :: char where "backslash \<equiv> CHR 0x5C"

definition first_word :: "string \<Rightarrow> string" where
  "first_word t = (case split_whitespace t of [] \<Rightarrow> [] | w # ws \<Rightarrow> w)"

definition extract_base_command :: "string \<Rightarrow> string" where
  "extract_base_command cmd =
     (let trimmed = trim cmd; word = first_word trimmed
      in last (split_on backslash (last (split_on CHR ''/'' word))))"

definition separators :: "string list" where
  "separators = [''&&'', ''||'', ''|'', '';'']"

definition earliest_separator :: "string \<Rightarrow> nat \<times> nat" where
  "earliest_separator rest =
     foldl (\<lambda>(pos, len) sep. case find_sub sep rest of
              Some p \<Rightarrow> if p < pos then (p, length sep) else (pos, len)
            | None \<Rightarrow> (pos, len)) (length rest, 0) separators"

function extract_all_commands :: "string \<Rightarrow> string list" where
  "extract_all_commands rest =
     (if rest = [] then []
      else let (earliest_pos, earliest_len) = earliest_separator rest;
               base = extract_base_command (take earliest_pos rest)
           in (if base \<noteq> [] then [base] else []) @
              (if length rest \<le> earliest_pos + earliest_len then []
               else extract_all_commands (drop (earliest_pos + earliest_len) rest)))"
  by pat_completeness auto

text \<open>A separator that is found starts inside the text, so that every round consumes something.\<close>

lemma earliest_separator_bound:
  "earliest_separator rest = (p, n) \<Longrightarrow>
     (n = 0 \<and> p = length rest) \<or> (0 < n \<and> p + n \<le> length rest)"
  unfolding earliest_separator_def separators_def
  by (auto split: option.splits if_splits dest!: find_sub_Some)

termination extract_all_commands
proof (relation "measure length", goal_cases)
  case (2 rest x p n)
  then show ?case using earliest_separator_bound [of rest p n] by auto
qed simp

declare extract_all_commands.simps [simp del]

definition contains_disallowed_shell_metachars :: "string \<Rightarrow> bool" where
  "contains_disallowed_shell_metachars c \<longleftrightarrow>
     CHR 0x60 \<in> set c \<or> contains_sub c ''$('' \<or> contains_sub c ''${'' \<or> CHR 0x0A \<in> set c \<or> CHR 0x0D \<in> set c
     \<or> list_ex (\<lambda>i. c ! i = CHR ''&'' \<and>
           \<not> ((0 < i \<and> c ! (i - 1) = CHR ''&'') \<or> (i + 1 < length c \<and> c ! (i + 1) = CHR ''&'')))
         [0..<length c]"

fun check_bases :: "exec_policy \<Rightarrow> string list \<Rightarrow> string + unit" where
  "check_bases p [] = Inr ()"
| "check_bases p (base # bs) =
     (if list_ex (\<lambda>sb. sb = base) (safe_bins p) then check_bases p bs
      else if list_ex (\<lambda>ac. ac = base) (allowed_commands p) then check_bases p bs
      else Inl (''Command '' @ quoted base @
        '' is not in the exec allowlist. Add it to exec_policy.allowed_commands or exec_policy.safe_bins.''))"

definition validate_command_allowlist :: "string \<Rightarrow> exec_policy \<Rightarrow> string + unit" where
  "validate_command_allowlist command p =
     (case exec_mode p of
        Deny_exec \<Rightarrow> Inl ''Shell execution is disabled (exec_policy.mode = deny)''
      | Full_exec \<Rightarrow> Inr ()
      | Allowlist \<Rightarrow>
          (if contains_disallowed_shell_metachars command
           then Inl ''command contains shell metacharacters not permitted in allowlist mode''
           else check_bases p (extract_all_commands command)))"

section \<open>Killing a process tree\<close>

definition max_grace_ms :: nat where "max_grace_ms = 60000"

datatype kill_step = Signal_term int | Signal_kill int | Grace_sleep nat

text \<open>
  \<open>alive_first\<close> and \<open>alive_later\<close> are the two answers of \<open>is_alive\<close>; the result comes with the
  signals sent and the sleep between them, in order.
\<close>

definition kill_tree_unix :: "nat \<Rightarrow> nat \<Rightarrow> bool \<Rightarrow> bool \<Rightarrow> (string + bool) \<times> kill_step list" where
  "kill_tree_unix pid grace_ms alive_first alive_later =
     (if 2 ^ 31 \<le> pid then (Inl (''Invalid PID value: '' @ nat_str pid), [])
      else if \<not> alive_first then (Inr False, [])
      else let p = int pid;
               first = [Signal_term (- p), Signal_term p, Grace_sleep grace_ms]
           in if alive_later then (Inr True, first @ [Signal_kill (- p), Signal_kill p])
              else (Inr True, first))"

definition kill_process_tree :: "nat \<Rightarrow> nat \<Rightarrow> bool \<Rightarrow> bool \<Rightarrow> (string + bool) \<times> kill_step list" where
  "kill_process_tree pid grace_ms alive_first alive_later =
     kill_tree_unix pid (min grace_ms max_grace_ms) alive_first alive_later"

end
