(* ===== verification/Shell_Tool.thy ===== *)
theory Shell_Tool
  imports Exec_Sandbox
begin

text \<open>
  Taint labels and sinks (\<open>types/src/taint.rs\<close>), the two taint heuristics, the gate of
  \<open>shell_exec\<close> in \<open>execute_tool\<close> and the tool itself (\<open>runtime/src/tool_runner.rs\<close>). The started
  process is the argument \<open>run\<close>: it gets the program, arguments, directory, environment and time
  limit, and says how the wait ended.
\<close>

section \<open>Taint\<close>

datatype taint_label = ExternalNetwork | UserInput | Pii | Secret | UntrustedAgent

fun label_str :: "taint_label \<Rightarrow> string" where
  "label_str ExternalNetwork = ''ExternalNetwork''"
| "label_str UserInput = ''UserInput''"
| "label_str Pii = ''Pii''"
| "label_str Secret = ''Secret''"
| "label_str UntrustedAgent = ''UntrustedAgent''"

record tainted_value =
  tv_value :: string
  tv_labels :: "taint_label list"
  tv_source :: string

record taint_sink =
  sink_name :: string
  blocked_labels :: "taint_label set"

record taint_violation =
  viol_label :: taint_label
  viol_sink :: string
  viol_source :: string

definition clean_value :: "string \<Rightarrow> string \<Rightarrow> tainted_value" where
  "clean_value v src = \<lparr> tv_value = v, tv_labels = [], tv_source = src \<rparr>"

definition merge_taint :: "tainted_value \<Rightarrow> tainted_value \<Rightarrow> tainted_value" where
  "merge_taint v u = v\<lparr> tv_labels := foldl (\<lambda>ls l. List.insert l ls) (tv_labels v) (tv_labels u) \<rparr>"

definition declassify :: "taint_label \<Rightarrow> tainted_value \<Rightarrow> tainted_value" where
  "declassify l v = v\<lparr> tv_labels := filter (\<lambda>k. k \<noteq> l) (tv_labels v) \<rparr>"

definition is_tainted :: "tainted_value \<Rightarrow> bool" where
  "is_tainted v \<longleftrightarrow> tv_labels v \<noteq> []"

fun first_blocked :: "taint_label set \<Rightarrow> taint_label list \<Rightarrow> taint_label option" where
  "first_blocked B [] = None"
| "first_blocked B (l # ls) = (if l \<in> B then Some l else first_blocked B ls)"

definition check_sink :: "tainted_value \<Rightarrow> taint_sink \<Rightarrow> taint_violation + unit" where
  "check_sink v k =
     (case first_blocked (blocked_labels k) (tv_labels v) of
        Some l \<Rightarrow> Inl \<lparr> viol_label = l, viol_sink = sink_name k, viol_source = tv_source v \<rparr>
      | None \<Rightarrow> Inr ())"

definition shell_exec_sink :: taint_sink where
  "shell_exec_sink = \<lparr> sink_name = ''shell_exec'', blocked_labels = {ExternalNetwork, UntrustedAgent, UserInput} \<rparr>"

definition net_fetch_sink :: taint_sink where
  "net_fetch_sink = \<lparr> sink_name = ''net_fetch'', blocked_labels = {Secret, Pii} \<rparr>"

definition agent_message_sink :: taint_sink where
  "agent_message_sink = \<lparr> sink_name = ''agent_message'', blocked_labels = {Secret} \<rparr>"

definition violation_str :: "taint_violation \<Rightarrow> string" where
  "violation_str x = ''taint violation: label '' @ quoted (label_str (viol_label x)) @ '' from source ''
     @ quoted (viol_source x) @ '' is not allowed to reach sink '' @ quoted (viol_sink x)"

section \<open>The two heuristics\<close>

definition suspicious_patterns :: "string list" where
  "suspicious_patterns =
     [''curl '', ''wget '', ''| sh'', ''| bash'', ''base64 -d'', ''$(curl'', [CHR 0x60] @ ''curl'', ''eval '',
      ''python -c'', ''python3 -c'', ''perl -e'', ''ruby -e'', ''node -e'', ''node --eval'', ''php -r'']"

fun flag_shell :: "string \<Rightarrow> string list \<Rightarrow> string option" where
  "flag_shell command [] = None"
| "flag_shell command (p # ps) =
     (if contains_sub command p
      then (case check_sink \<lparr> tv_value = command, tv_labels = [ExternalNetwork], tv_source = ''llm_tool_call'' \<rparr>
                   shell_exec_sink of
              Inl x \<Rightarrow> Some (violation_str x)
            | Inr u \<Rightarrow> flag_shell command ps)
      else flag_shell command ps)"

definition check_taint_shell_exec :: "string \<Rightarrow> string option" where
  "check_taint_shell_exec command = flag_shell command suspicious_patterns"

text \<open>\<open>str::split\<close> at a non-empty pattern.\<close>

function split_sub :: "string \<Rightarrow> string \<Rightarrow> string list" where
  "split_sub p t =
     (if p = [] then [t]
      else case find_sub p t of
        None \<Rightarrow> [t]
      | Some i \<Rightarrow> take i t # split_sub p (drop (i + length p) t))"
  by pat_completeness auto

termination split_sub
proof (relation "measure (\<lambda>(p, t). length t)", goal_cases)
  case (2 p t i)
  then show ?case using find_sub_Some [of p t i] by (cases p) auto
qed simp

declare split_sub.simps [simp del]

definition url_host :: "string \<Rightarrow> string option" where
  "url_host url =
     (case split_sub ''://'' url of
        a # rest # bs \<Rightarrow> Some (hd (split_on CHR '':'' (hd (split_on CHR ''/'' rest))))
      | _ \<Rightarrow> None)"

definition eq_ignore_ascii_case :: "string \<Rightarrow> string \<Rightarrow> bool" where
  "eq_ignore_ascii_case s t \<longleftrightarrow> map ascii_lower s = map ascii_lower t"

definition exfil_patterns :: "string list" where
  "exfil_patterns = [''api_key='', ''apikey='', ''token='', ''secret='', ''password='', ''Authorization:'']"

fun flag_url :: "(string \<Rightarrow> string) \<Rightarrow> string \<Rightarrow> string list \<Rightarrow> string option" where
  "flag_url lower url [] = None"
| "flag_url lower url (p # ps) =
     (if contains_sub (lower url) (lower p)
      then (case check_sink \<lparr> tv_value = url, tv_labels = [Secret], tv_source = ''llm_tool_call'' \<rparr>
                   net_fetch_sink of
              Inl x \<Rightarrow> Some (violation_str x)
            | Inr u \<Rightarrow> flag_url lower url ps)
      else flag_url lower url ps)"

definition check_taint_net_fetch :: "(string \<Rightarrow> string) \<Rightarrow> string \<Rightarrow> string list \<Rightarrow> string option" where
  "check_taint_net_fetch lower url trusted_hosts =
     (if trusted_hosts \<noteq> [] \<and>
         (case url_host url of
            Some host \<Rightarrow> list_ex (\<lambda>t. eq_ignore_ascii_case t host) trusted_hosts
          | None \<Rightarrow> False)
      then None
      else flag_url lower url exfil_patterns)"

section \<open>The shell tool\<close>

text \<open>\<open>Inl\<close> carries the content of the error result; the command is the empty text when missing.\<close>

definition shell_exec_gate :: "exec_policy option \<Rightarrow> string option \<Rightarrow> string + unit" where
  "shell_exec_gate policy input_command =
     (let command = (case input_command of Some c \<Rightarrow> c | None \<Rightarrow> [])
      in case (case policy of Some p \<Rightarrow> validate_command_allowlist command p | None \<Rightarrow> Inr ()) of
        Inl reason \<Rightarrow> Inl (''Exec policy denied: '' @ reason)
      | Inr u \<Rightarrow>
          let is_full_exec = (case policy of Some p \<Rightarrow> exec_mode p = Full_exec | None \<Rightarrow> False);
              taint_enabled = (case policy of Some p \<Rightarrow> taint_check_enabled p | None \<Rightarrow> False)
          in if \<not> is_full_exec \<and> taint_enabled
             then (case check_taint_shell_exec command of
                     Some violation \<Rightarrow> Inl (''Taint violation: '' @ violation)
                   | None \<Rightarrow> Inr ())
             else Inr ())"

record spawn =
  sp_program :: string
  sp_args :: "string list"
  sp_dir :: "string option"
  sp_env :: "string \<rightharpoonup> string"
  sp_timeout :: nat

datatype proc_outcome = Exited "int option" string string | Spawn_failed string | Wait_elapsed

definition max_shell_output :: nat where "max_shell_output = 100000"

definition clip_output :: "string \<Rightarrow> string" where
  "clip_output s =
     (if max_shell_output < length s
      then truncate_bytes s max_shell_output @ ''...'' @ [CHR 0x0A] @ ''[truncated, '' @ nat_str (length s) @ '' total bytes]''
      else s)"

definition tool_shell_exec ::
  "(string \<Rightarrow> string option) \<Rightarrow> (string \<rightharpoonup> string) \<Rightarrow> (spawn \<Rightarrow> proc_outcome) \<Rightarrow>
   string option \<Rightarrow> nat option \<Rightarrow> string list \<Rightarrow> string option \<Rightarrow> exec_policy option \<Rightarrow> string + string"
where
  "tool_shell_exec parent inherited run input_command input_timeout allowed_env workspace_root policy =
     (case input_command of
        None \<Rightarrow> Inl ''Missing 'command' parameter''
      | Some command \<Rightarrow>
          let policy_timeout = (case policy of Some p \<Rightarrow> exec_timeout_secs p | None \<Rightarrow> 30);
              timeout_secs = (case input_timeout of Some t \<Rightarrow> t | None \<Rightarrow> policy_timeout);
              cmd = \<lparr> sp_program = ''sh'', sp_args = [''-c'', command], sp_dir = workspace_root,
                      sp_env = sandbox_command parent inherited allowed_env, sp_timeout = timeout_secs \<rparr>
          in case run cmd of
            Exited code stdout stderr \<Rightarrow>
              let exit_code = (case code of Some c \<Rightarrow> c | None \<Rightarrow> - 1);
                  stdout_str = clip_output stdout;
                  stderr_str = clip_output stderr
              in Inr (''Exit code: '' @ int_str exit_code @ [CHR 0x0A, CHR 0x0A] @ ''STDOUT:'' @ [CHR 0x0A]
                      @ stdout_str @ [CHR 0x0A] @ ''STDERR:'' @ [CHR 0x0A] @ stderr_str)
          | Spawn_failed e \<Rightarrow> Inl (''Failed to execute command: '' @ e)
          | Wait_elapsed \<Rightarrow> Inl (''Command timed out after '' @ nat_str timeout_secs @ ''s''))"

text \<open>\<open>Inl\<close> is an early error result, \<open>Inr\<close> the result of the tool.\<close>

definition shell_exec ::
  "(string \<Rightarrow> string option) \<Rightarrow> (string \<rightharpoonup> string) \<Rightarrow> (spawn \<Rightarrow> proc_outcome) \<Rightarrow>
   string option \<Rightarrow> nat option \<Rightarrow> string list option \<Rightarrow> string option \<Rightarrow> exec_policy option
   \<Rightarrow> string + (string + string)"
where
  "shell_exec parent inherited run input_command input_timeout allowed_env workspace_root policy =
     (case shell_exec_gate policy input_command of
        Inl content \<Rightarrow> Inl content
      | Inr u \<Rightarrow> Inr (tool_shell_exec parent inherited run input_command input_timeout
          (case allowed_env of Some vs \<Rightarrow> vs | None \<Rightarrow> []) workspace_root policy))"

end
