(* ===== verification/Shell_Theorems.thy ===== *)
theory Shell_Theorems
  imports Shell_Tool
begin

text \<open>
  What the gate of the shell tool lets through: the commands the allowlist sees against a one-pass
  splitter, the exact condition of acceptance, the ways around it, the environment and the text
  of the shell's child, and the taint check of URLs.
\<close>

section \<open>The commands of a line\<close>

text \<open>A one-pass reference: cut at every semicolon and bar, and at every pair of ampersands.\<close>

fun command_pieces :: "string \<Rightarrow> string \<Rightarrow> string list" where
  "command_pieces cur [] = [cur]"
| "command_pieces cur (c # cs) =
     (if c = CHR '';'' \<or> c = CHR ''|'' then cur # command_pieces [] cs
      else if c = CHR ''&'' \<and> starts_with cs ''&'' then cur # command_pieces [] (tl cs)
      else command_pieces (cur @ [c]) cs)"

definition bases_of :: "string list \<Rightarrow> string list" where
  "bases_of ps = filter (\<lambda>b. b \<noteq> []) (map extract_base_command ps)"

lemma bases_of_simps [simp]:
  "bases_of [] = []"
  "bases_of (p # ps) = (if extract_base_command p \<noteq> [] then [extract_base_command p] else []) @ bases_of ps"
  by (simp_all add: bases_of_def)

lemma split_whitespace_Nil [simp]: "split_whitespace [] = []"
  by (simp add: split_whitespace_def)

lemma base_Nil [simp]: "extract_base_command [] = []"
  by (simp add: extract_base_command_def first_word_def)

lemma earliest_separator_Nil [simp]: "earliest_separator [] = (0, 0)"
  by (simp add: earliest_separator_def separators_def)

lemma earliest_separator_Cons:
  "earliest_separator (c # cs) =
     (if starts_with (c # cs) ''&&'' \<or> starts_with (c # cs) ''||'' then (0, 2)
      else if c = CHR ''|'' \<or> c = CHR '';'' then (0, 1)
      else (Suc (fst (earliest_separator cs)), snd (earliest_separator cs)))"
  unfolding earliest_separator_def separators_def
  by (simp add: starts_with_Cons split: option.splits)

lemma bases_of_pieces:
  "earliest_separator rest = (p, n) \<Longrightarrow>
     bases_of (command_pieces cur rest) =
     bases_of [cur @ take p rest] @
     (if length rest \<le> p + n then [] else bases_of (command_pieces [] (drop (p + n) rest)))"
proof (induction rest arbitrary: cur p n)
  case Nil
  then show ?case by simp
next
  case (Cons c cs)
  consider (two) d ds where "cs = d # ds" "c = d" "c = CHR ''&'' \<or> c = CHR ''|''"
    | (one) "c = CHR ''|'' \<or> c = CHR '';''" "\<not> starts_with (c # cs) ''||''"
    | (none) "c \<noteq> CHR ''|''" "c \<noteq> CHR '';''" "\<not> (c = CHR ''&'' \<and> starts_with cs ''&'')"
    by (cases cs) (auto simp: starts_with_Cons)
  then show ?case
  proof cases
    case two
    then have "p = 0" "n = 2" using Cons.prems by (auto simp: earliest_separator_Cons starts_with_Cons)
    with two show ?thesis by (cases ds) (auto simp: starts_with_Cons)
  next
    case one
    then have "p = 0" "n = 1" using Cons.prems by (auto simp: earliest_separator_Cons starts_with_Cons)
    with one show ?thesis by (cases cs) auto
  next
    case none
    obtain q where q: "earliest_separator cs = (q, n)" "p = Suc q"
      using Cons.prems none by (cases "earliest_separator cs") (auto simp: earliest_separator_Cons starts_with_Cons)
    from none Cons.IH [OF q(1), of "cur @ [c]"] q(2) show ?thesis by auto
  qed
qed

lemma extract_all_commands_pieces: "extract_all_commands c = bases_of (command_pieces [] c)"
proof (induction c rule: length_induct)
  case (1 c)
  show ?case
  proof (cases "c = []")
    case True
    then show ?thesis by (simp add: extract_all_commands.simps)
  next
    case False
    obtain p n where e: "earliest_separator c = (p, n)" by (cases "earliest_separator c")
    show ?thesis
    proof (cases "length c \<le> p + n")
      case True
      with False e bases_of_pieces [OF e, of "[]"] show ?thesis by (simp add: extract_all_commands.simps [of c])
    next
      case long: False
      then have "length (drop (p + n) c) < length c"
        using earliest_separator_bound [OF e] by auto
      with 1 have "extract_all_commands (drop (p + n) c) = bases_of (command_pieces [] (drop (p + n) c))"
        by blast
      with False long e bases_of_pieces [OF e, of "[]"] show ?thesis
        by (simp add: extract_all_commands.simps [of c])
    qed
  qed
qed

lemma check_bases_iff:
  "check_bases p bs = Inr () \<longleftrightarrow> (\<forall>b \<in> set bs. b \<in> set (safe_bins p) \<union> set (allowed_commands p))"
  by (induction bs) (auto simp: list_ex_iff)

section \<open>White space and the first word\<close>

lemma ws_fields_trailing:
  "list_all is_whitespace b \<Longrightarrow> ws_fields (a @ b) cur = ws_fields a cur"
proof (induction a arbitrary: cur)
  case Nil
  then show ?case by (induction b arbitrary: cur) auto
qed auto

lemma ws_fields_leading: "ws_fields (dropWhile is_whitespace a) [] = ws_fields a []"
  by (induction a) auto

lemma chars_trim:
  "utf8_ok s \<Longrightarrow> chars (trim s) = rev (dropWhile is_whitespace (rev (dropWhile is_whitespace (chars s))))"
  unfolding trim_def
  by (rule chars_concat_sub(1), assumption) (auto dest!: set_dropWhileD)

lemma split_whitespace_trim:
  assumes "utf8_ok s"
  shows "split_whitespace (trim s) = split_whitespace s"
proof -
  let ?a = "dropWhile is_whitespace (chars s)"
  let ?b = "rev (dropWhile is_whitespace (rev ?a))" and ?t = "rev (takeWhile is_whitespace (rev ?a))"
  have "?b @ ?t = rev (takeWhile is_whitespace (rev ?a) @ dropWhile is_whitespace (rev ?a))"
    by (simp only: rev_append)
  then have a: "?a = ?b @ ?t" by simp
  have "list_all is_whitespace ?t" by (auto simp: list_all_iff dest: set_takeWhileD)
  then have "ws_fields ?a [] = ws_fields ?b []" using a ws_fields_trailing by metis
  then show ?thesis using assms by (simp add: split_whitespace_def chars_trim ws_fields_leading)
qed

lemma ws_fields_word:
  "list_all (\<lambda>c. \<not> is_whitespace c) w \<Longrightarrow> cur @ concat w \<noteq> [] \<Longrightarrow>
     ws_fields (w @ [CHR '' ''] # r) cur = (cur @ concat w) # ws_fields r []"
  by (induction w arbitrary: cur) (auto simp: is_whitespace_def ws_chars_def)

definition plain_word :: "string \<Rightarrow> bool" where
  "plain_word w \<longleftrightarrow> w \<noteq> [] \<and> is_ascii w \<and> list_all (\<lambda>c. \<not> is_whitespace [c]) w"

lemma first_word_plain:
  assumes "plain_word w" and "utf8_ok r"
  shows "first_word (trim (w @ '' '' @ r)) = w"
proof -
  have w: "chars w = map (\<lambda>c. [c]) w" "utf8_ok w"
    using assms(1) ascii_chars unfolding plain_word_def by blast+
  have r: "utf8_ok ('' '' @ r)" using assms(2) by (simp add: is_cont_def utf8_extra_def)
  have ok: "utf8_ok (w @ '' '' @ r)" using w(2) r by (rule utf8_ok_append)
  have "chars (w @ '' '' @ r) = map (\<lambda>c. [c]) w @ [CHR '' ''] # chars r"
    using w by (simp add: chars_append utf8_extra_def)
  then have "split_whitespace (w @ '' '' @ r) = w # ws_fields (chars r) []"
    using assms(1) ws_fields_word [of "map (\<lambda>c. [c]) w" "[]" "chars r"]
    by (simp add: split_whitespace_def plain_word_def list_all_iff concat_singletons)
  with split_whitespace_trim [OF ok] show ?thesis by (simp add: first_word_def)
qed

lemma base_plain:
  "plain_word w \<Longrightarrow> utf8_ok r \<Longrightarrow>
     extract_base_command (w @ '' '' @ r) = last (split_on backslash (last (split_on CHR ''/'' w)))"
  using first_word_plain [of w r] by (simp add: extract_base_command_def)

lemma last_split_after: "last (split_on c (u @ c # v)) = last (split_on c v)"
proof -
  have "split_on c (u @ c # v) = split_on c u @ split_on c v"
    by (induction u) (auto split: list.splits)
  then show ?thesis by simp
qed

definition base_name :: "string \<Rightarrow> string" where
  "base_name w = last (split_on backslash (last (split_on CHR ''/'' w)))"

lemma base_name_slash: "base_name (u @ ''/'') = []"
  using last_split_after [of "CHR ''/''" u "[]"] by (simp add: base_name_def)

lemma base_name_backslash: "CHR ''/'' \<notin> set u \<Longrightarrow> base_name (u @ [backslash]) = []"
  using last_split_after [of backslash u "[]"] by (simp add: base_name_def split_on_no_sep)

text \<open>Text without any byte the gate looks for: no separators, no substitutions, no line ends.\<close>

definition simple_text :: "string \<Rightarrow> bool" where
  "simple_text s \<longleftrightarrow>
     set s \<inter> {CHR ''&'', CHR ''|'', CHR '';'', CHR ''$'', CHR 0x60, CHR 0x0A, CHR 0x0D} = {}"

lemma simple_text_append [simp]: "simple_text (s @ t) \<longleftrightarrow> simple_text s \<and> simple_text t"
  by (auto simp: simple_text_def)

lemma simple_pieces: "simple_text s \<Longrightarrow> command_pieces cur s = [cur @ s]"
  by (induction s arbitrary: cur) (auto simp: simple_text_def)

lemma simple_no_meta:
  assumes "simple_text s"
  shows "\<not> contains_disallowed_shell_metachars s"
proof -
  have "s ! i \<noteq> CHR ''&''" if "i < length s" for i
    using assms nth_mem [OF that] by (metis disjoint_iff insertI1 simple_text_def)
  then show ?thesis
    using assms
    by (auto simp: contains_disallowed_shell_metachars_def simple_text_def contains_sub_iff list_ex_iff)
qed

section \<open>The allowlist\<close>

text \<open>
  In allowlist mode a command is accepted exactly when it has none of the forbidden shell
  characters and the base name of every piece between separators is empty or listed. The empty
  bases of the right-hand side are dropped by \<open>bases_of\<close>.
\<close>

theorem allowlist_exact:
  assumes "exec_mode p = Allowlist"
  shows "validate_command_allowlist c p = Inr () \<longleftrightarrow>
     \<not> contains_disallowed_shell_metachars c
     \<and> (\<forall>b \<in> set (bases_of (command_pieces [] c)). b \<in> set (safe_bins p) \<union> set (allowed_commands p))"
  using assms
  by (simp add: validate_command_allowlist_def extract_all_commands_pieces check_bases_iff)

lemma allowlist_exact_witness:
  "validate_command_allowlist ''cat a | rm b'' (default_exec_policy\<lparr> exec_mode := Allowlist \<rparr>) \<noteq> Inr ()"
proof -
  let ?p = "default_exec_policy\<lparr> exec_mode := Allowlist \<rparr>"
  have "bases_of (command_pieces [] ''cat a | rm b'') = [''cat'', ''rm'']" by code_simp
  moreover have "''rm'' \<notin> set (safe_bins ?p) \<union> set (allowed_commands ?p)" by (simp add: default_exec_policy_def)
  ultimately show ?thesis
    using allowlist_exact [of ?p "''cat a | rm b''"] by (simp add: default_exec_policy_def)
qed

lemma first_word_counts:
  assumes "exec_mode p = Allowlist" and "plain_word w" and "utf8_ok r" and "simple_text (w @ '' '' @ r)"
  shows "validate_command_allowlist (w @ '' '' @ r) p = Inr () \<longleftrightarrow>
     base_name w = [] \<or> base_name w \<in> set (safe_bins p) \<union> set (allowed_commands p)"
proof -
  have "bases_of (command_pieces [] (w @ '' '' @ r)) = (if base_name w \<noteq> [] then [base_name w] else [])"
    using simple_pieces [OF assms(4), of "[]"] base_plain [OF assms(2,3)] by (simp add: base_name_def)
  then show ?thesis
    using assms(1) simple_no_meta [OF assms(4)]
    by (auto simp: validate_command_allowlist_def extract_all_commands_pieces check_bases_iff)
qed

text \<open>
  The allowlist can be passed with any command and any policy: when the first word ends in a
  slash or a backslash its base name is empty and the piece is not checked at all, while the
  shell goes on to the next word (\<open>A=/ rm -rf x\<close> runs \<open>rm\<close>).
\<close>

theorem empty_base_bypass:
  assumes "exec_mode p = Allowlist" and "plain_word w" and "utf8_ok r" and "simple_text (w @ '' '' @ r)"
    and "(\<exists>u. w = u @ ''/'') \<or> (\<exists>u. w = u @ [backslash] \<and> CHR ''/'' \<notin> set u)"
  shows "validate_command_allowlist (w @ '' '' @ r) p = Inr ()"
  using first_word_counts [OF assms(1-4)] assms(5) base_name_slash base_name_backslash by metis

lemma empty_base_bypass_witness:
  "validate_command_allowlist ''A=/ rm -rf x''
     (default_exec_policy\<lparr> exec_mode := Allowlist, safe_bins := [] \<rparr>) = Inr ()"
  using empty_base_bypass [of "default_exec_policy\<lparr> exec_mode := Allowlist, safe_bins := [] \<rparr>" "''A=/''" "''rm -rf x''"]
  by (simp add: plain_word_def is_whitespace_def ws_chars_def simple_text_def default_exec_policy_def
      is_cont_def utf8_extra_def)

text \<open>
  With the default lists the allowlist mode lets every simple command through behind the
  listed program \<open>env\<close>, and a program at any path under a listed name.
\<close>

theorem default_allowlist_wraps:
  assumes "utf8_ok r" and "simple_text r"
    and "p = default_exec_policy\<lparr> exec_mode := Allowlist \<rparr>"
  shows "validate_command_allowlist (''env '' @ r) p = Inr ()
     \<and> validate_command_allowlist (''/tmp/x/cat '' @ r) p = Inr ()"
proof -
  have a: "plain_word ''env''" "plain_word ''/tmp/x/cat''"
    by (simp_all add: plain_word_def is_whitespace_def ws_chars_def)
  have s: "simple_text (''env'' @ '' '' @ r)" "simple_text (''/tmp/x/cat'' @ '' '' @ r)"
    using assms(2) by (auto simp: simple_text_def)
  have b: "base_name ''env'' = ''env''" "base_name ''/tmp/x/cat'' = ''cat''" by (simp_all add: base_name_def)
  have m: "exec_mode p = Allowlist" "''env'' \<in> set (safe_bins p)" "''cat'' \<in> set (safe_bins p)"
    by (simp_all add: assms(3) default_exec_policy_def)
  show ?thesis
    using first_word_counts [OF m(1) a(1) assms(1) s(1)] first_word_counts [OF m(1) a(2) assms(1) s(2)] m b
    by simp
qed

lemma default_allowlist_wraps_witness:
  "validate_command_allowlist ''env rm -rf x'' (default_exec_policy\<lparr> exec_mode := Allowlist \<rparr>) = Inr ()"
  using default_allowlist_wraps [of "''rm -rf x''", OF _ _ refl]
  by (simp add: simple_text_def is_cont_def utf8_extra_def)

section \<open>The child\<close>

lemma pass_env_exact:
  "foldl (pass_env parent) e vs v = (if v \<in> set vs \<and> parent v \<noteq> None then parent v else e v)"
  by (induction vs arbitrary: e) (auto simp: pass_env_def split: option.splits)

text \<open>
  The child of the shell tool sees exactly the safe variables and the ones its agent was
  granted, with the parent's values: no other variable of the parent, however it was going to be
  inherited, reaches it.
\<close>

theorem child_env_exact:
  "sandbox_command parent inherited allowed v =
     (if v \<in> set safe_env_vars \<union> set allowed then parent v else None)"
  by (auto simp: sandbox_command_def Let_def pass_env_exact)

lemma length_clip_output:
  assumes "length s < 2 ^ 64"
  shows "length (clip_output s) \<le> 100049"
proof -
  have "length (nat_str (length s)) \<le> 20"
    using nat_str_length [of "length s" 19] assms by simp
  moreover have "length (truncate_bytes s max_shell_output) \<le> max_shell_output" by (rule truncate_bytes_le)
  ultimately show ?thesis by (simp add: clip_output_def max_shell_output_def)
qed

lemma policy_limit_unused:
  "validate_command_allowlist c (p\<lparr> exec_max_output := m \<rparr>) = validate_command_allowlist c p"
proof -
  have "check_bases (p\<lparr> exec_max_output := m \<rparr>) bs = check_bases p bs" for bs
    by (induction bs) auto
  then show ?thesis by (simp add: validate_command_allowlist_def split: exec_security_mode.split)
qed

text \<open>
  What the model sees of the child's two streams is at most 100049 bytes each whatever the
  child wrote, and the policy's own output limit has no influence on the tool.
\<close>

theorem shell_output_limits:
  assumes "length out < 2 ^ 64" and "length err < 2 ^ 64"
    and "run = (\<lambda>sp. Exited code out err)"
  shows "(\<forall>content. tool_shell_exec parent inherited run cmd t env dir pol = Inr content \<longrightarrow>
            length content \<le> 200131 + length (int_str (case code of Some c \<Rightarrow> c | None \<Rightarrow> - 1)))
     \<and> (\<forall>p m. pol = Some p \<longrightarrow>
            shell_exec parent inherited run cmd t envs dir pol =
            shell_exec parent inherited run cmd t envs dir (Some (p\<lparr> exec_max_output := m \<rparr>)))"
proof (intro conjI allI impI)
  fix content
  assume "tool_shell_exec parent inherited run cmd t env dir pol = Inr content"
  then show "length content \<le> 200131 + length (int_str (case code of Some c \<Rightarrow> c | None \<Rightarrow> - 1))"
    using length_clip_output [OF assms(1)] length_clip_output [OF assms(2)]
    by (cases cmd) (auto simp: tool_shell_exec_def assms(3) Let_def)
next
  fix p m
  assume "pol = Some p"
  then show "shell_exec parent inherited run cmd t envs dir pol =
      shell_exec parent inherited run cmd t envs dir (Some (p\<lparr> exec_max_output := m \<rparr>))"
    by (simp add: shell_exec_def shell_exec_gate_def tool_shell_exec_def policy_limit_unused Let_def
        cong del: option.case_cong_weak sum.case_cong_weak)
qed

lemma shell_output_limits_witness:
  "tool_shell_exec (\<lambda>v. None) Map.empty (\<lambda>sp. Exited (Some 0) ''ok'' []) (Some ''echo ok'') None [] None None
     = Inr (''Exit code: 0'' @ [CHR 0x0A, CHR 0x0A] @ ''STDOUT:'' @ [CHR 0x0A] @ ''ok'' @ [CHR 0x0A] @ ''STDERR:'' @ [CHR 0x0A])
   \<and> length (''Exit code: 0'' @ [CHR 0x0A, CHR 0x0A] @ ''STDOUT:'' @ [CHR 0x0A] @ ''ok'' @ [CHR 0x0A] @ ''STDERR:'' @ [CHR 0x0A]) \<le> 200132"
proof -
  have zero: "nat_str 0 = ''0''" by code_simp
  have *: "tool_shell_exec (\<lambda>v. None) Map.empty (\<lambda>sp. Exited (Some 0) ''ok'' []) (Some ''echo ok'') None [] None None
     = Inr (''Exit code: 0'' @ [CHR 0x0A, CHR 0x0A] @ ''STDOUT:'' @ [CHR 0x0A] @ ''ok'' @ [CHR 0x0A] @ ''STDERR:'' @ [CHR 0x0A])"
    by (simp add: tool_shell_exec_def clip_output_def max_shell_output_def int_str_def zero)
  with conjunct1 [OF shell_output_limits [of "''ok''" "[]" "\<lambda>sp. Exited (Some 0) ''ok'' []" "Some 0" "\<lambda>v. None" Map.empty
      "Some ''echo ok''" None "[]" None None None]]
  show ?thesis by (simp add: int_str_def zero)
qed

section \<open>Taint\<close>

lemma first_blocked_iff: "first_blocked B ls = None \<longleftrightarrow> set ls \<inter> B = {}"
  by (induction ls) auto

lemma check_sink_ok: "check_sink v k = Inr () \<longleftrightarrow> set (tv_labels v) \<inter> blocked_labels k = {}"
  using first_blocked_iff [of "blocked_labels k" "tv_labels v"]
  by (auto simp: check_sink_def split: option.splits)

lemma set_merge_taint: "set (tv_labels (merge_taint v u)) = set (tv_labels v) \<union> set (tv_labels u)"
proof -
  have "set (foldl (\<lambda>ls l. List.insert l ls) ks us) = set ks \<union> set us" for ks us :: "taint_label list"
    by (induction us arbitrary: ks) auto
  then show ?thesis by (simp add: merge_taint_def)
qed

text \<open>
  Taint only grows by merging: a merged value may flow into a sink exactly when both parts
  may, merging keeps the labels distinct, and a clean value may flow everywhere.
\<close>

theorem merged_taint_flows:
  "(check_sink (merge_taint v u) k = Inr () \<longleftrightarrow> check_sink v k = Inr () \<and> check_sink u k = Inr ())
   \<and> distinct (tv_labels (merge_taint v u)) = distinct (tv_labels v)
   \<and> check_sink (clean_value x s) k = Inr ()"
proof -
  have "distinct (foldl (\<lambda>ls l. List.insert l ls) ks us) = distinct ks" for ks us :: "taint_label list"
    by (induction us arbitrary: ks) auto
  moreover have "check_sink (merge_taint v u) k = Inr () \<longleftrightarrow> check_sink v k = Inr () \<and> check_sink u k = Inr ()"
    unfolding check_sink_ok set_merge_taint by blast
  ultimately show ?thesis by (simp add: merge_taint_def check_sink_ok clean_value_def)
qed

definition secret_violation :: taint_violation where
  "secret_violation = \<lparr> viol_label = Secret, viol_sink = ''net_fetch'', viol_source = ''llm_tool_call'' \<rparr>"

lemma flag_url_exact:
  "flag_url lower url ps =
     (if \<exists>p \<in> set ps. contains_sub (lower url) (lower p) then Some (violation_str secret_violation) else None)"
  by (induction ps) (auto simp: check_sink_def net_fetch_sink_def secret_violation_def)

lemma url_host_userinfo:
  assumes "CHR ''/'' \<notin> set t" and "CHR '':'' \<notin> set t"
  shows "url_host (''https://'' @ t @ '':'' @ rest) = Some t"
proof -
  let ?r = "t @ CHR '':'' # rest"
  have f: "find_sub ''://'' (''https://'' @ ?r) = Some 5" by (simp add: starts_with_Cons)
  obtain b bs where s: "split_sub ''://'' ?r = b # bs" and b: "b = ?r \<or> (\<exists>i. find_sub ''://'' ?r = Some i \<and> b = take i ?r)"
  proof (cases "find_sub ''://'' ?r")
    case None
    then show ?thesis using that [of ?r "[]"] by (simp add: split_sub.simps [of _ ?r])
  next
    case (Some i)
    then show ?thesis using that [of "take i ?r"] by (simp add: split_sub.simps [of _ ?r])
  qed
  have "split_sub ''://'' (''https://'' @ ?r) = ''https'' # b # bs"
    unfolding split_sub.simps [of _ "''https://'' @ ?r"] f using s by simp
  then have h: "url_host (''https://'' @ ?r) = Some (hd (split_on CHR '':'' (hd (split_on CHR ''/'' b))))"
    by (simp add: url_host_def)
  have hd_split: "hd (split_on c (u @ v)) = u @ hd (split_on c v)" if "c \<notin> set u" for c :: char and u v
    using that by (induction u) (auto split: list.splits)
  have "\<exists>w. b = t @ w \<and> (w = [] \<or> hd w = CHR '':'')"
  proof (cases "b = ?r")
    case False
    then obtain i where i: "find_sub ''://'' ?r = Some i" "b = take i ?r" using b by blast
    have "starts_with (drop i ?r) ''://''" using find_sub_Some [OF i(1)] by blast
    have "length t \<le> i"
    proof (rule ccontr)
      assume "\<not> length t \<le> i"
      then have "drop i ?r = t ! i # drop (Suc i) t @ CHR '':'' # rest" and "t ! i \<in> set t"
        by (simp_all add: Cons_nth_drop_Suc)
      with \<open>starts_with (drop i ?r) ''://''\<close> have "CHR '':'' \<in> set t" by (simp add: starts_with_Cons)
      with assms(2) show False by simp
    qed
    then show ?thesis using i(2) by (cases "i - length t") auto
  qed auto
  then obtain w where w: "b = t @ w" "w = [] \<or> hd w = CHR '':''" by blast
  have "hd (split_on CHR '':'' (hd (split_on CHR ''/'' b))) = t @ hd (split_on CHR '':'' (hd (split_on CHR ''/'' w)))"
    using assms hd_split w(1) by simp
  also have "hd (split_on CHR '':'' (hd (split_on CHR ''/'' w))) = []"
    using w(2) by (cases w) (auto split: list.splits)
  finally show ?thesis using h by simp
qed

text \<open>
  The check of a URL reports the secret violation exactly when no trusted host is read off
  the URL and one of the patterns occurs in its lower-case form.
\<close>

theorem net_fetch_check_exact:
  "check_taint_net_fetch lower url trusted =
     (if (\<exists>host. url_host url = Some host \<and> list_ex (\<lambda>t. eq_ignore_ascii_case t host) trusted)
      then None
      else if list_ex (\<lambda>p. contains_sub (lower url) (lower p)) exfil_patterns
      then Some (violation_str secret_violation)
      else None)"
  by (cases trusted) (auto simp: check_taint_net_fetch_def flag_url_exact list_ex_iff split: option.splits)

text \<open>
  The trusted host is read before a user name is cut off: a URL whose user name is a trusted
  host passes the check whatever server it addresses and whatever secrets it carries.
\<close>

theorem trusted_host_as_user_name:
  assumes "t \<in> set trusted" and "CHR ''/'' \<notin> set t" and "CHR '':'' \<notin> set t"
  shows "check_taint_net_fetch lower (''https://'' @ t @ '':x@evil.example/?token='' @ secret) trusted = None"
proof -
  have "url_host (''https://'' @ t @ '':x@evil.example/?token='' @ secret) = Some t"
    using url_host_userinfo [OF assms(2,3), of "''x@evil.example/?token='' @ secret"] by simp
  with assms(1) show ?thesis
    by (auto simp: check_taint_net_fetch_def list_ex_iff eq_ignore_ascii_case_def)
qed

lemma trusted_host_as_user_name_witness:
  "check_taint_net_fetch id ''https://api.example:x@evil.example/?token=k'' [''api.example''] = None"
  using trusted_host_as_user_name [of "''api.example''" "[''api.example'']" id "''k''"] by simp

end
