(* ===== verification/Agent_Types.thy ===== *)
theory Agent_Types
  imports Capability Exec_Sandbox Rh_Error
begin

text \<open>
  Agents as data: \<open>types/src/agent.rs\<close>, and the translation of a manifest
  into capabilities, \<open>manifest_to_capabilities\<close> of \<open>kernel/src/kernel.rs\<close>. Ids are numbers, a
  floating-point temperature keeps its bits, amounts of money are those of \<open>Capability\<close>, and a
  JSON value (\<open>serde_json\<close>) is of the type parameter \<open>'j\<close>.
\<close>

section \<open>The manifest\<close>

datatype agent_state = Agent_created | Agent_running | Agent_suspended | Agent_terminated | Agent_crashed

datatype agent_mode = Observe | Assist | Full_mode

datatype schedule_mode = Reactive | Periodic string | Proactive "string list" | Continuous nat

datatype agent_priority = Low_priority | Normal_priority | High_priority | Critical_priority

datatype tool_profile = Minimal | Coding | Research | Messaging | Automation | Full_profile | Custom

datatype response_format = Text_format | Json_format

record resource_quota =
  max_memory_bytes :: nat
  max_cpu_time_ms :: nat
  max_tool_calls_per_minute :: nat
  max_llm_tokens_per_hour :: nat
  max_network_bytes_per_hour :: nat
  max_cost_per_hour_usd :: amount
  max_cost_per_day_usd :: amount
  max_cost_per_month_usd :: amount

definition default_quota :: resource_quota where
  "default_quota = \<lparr> max_memory_bytes = 256 * 1024 * 1024, max_cpu_time_ms = 30000,
     max_tool_calls_per_minute = 60, max_llm_tokens_per_hour = 1000000,
     max_network_bytes_per_hour = 100 * 1024 * 1024, max_cost_per_hour_usd = Finite 1,
     max_cost_per_day_usd = Finite 0, max_cost_per_month_usd = Finite 0 \<rparr>"

record thinking_config =
  budget_tokens :: nat
  stream_thinking :: bool

record model_config =
  mc_provider :: string
  mc_model :: string
  mc_max_tokens :: nat
  mc_temperature :: "32 word"
  mc_system_prompt :: string
  mc_api_key_env :: "string option"
  mc_base_url :: "string option"
  mc_response_format :: response_format
  mc_thinking :: "thinking_config option"

record fallback_model =
  fm_provider :: string
  fm_model :: string
  fm_api_key_env :: "string option"
  fm_base_url :: "string option"

record manifest_capabilities =
  cap_network :: "string list"
  cap_tools :: "string list"
  cap_memory_read :: "string list"
  cap_memory_write :: "string list"
  cap_agent_spawn :: bool
  cap_agent_message :: "string list"
  cap_shell :: "string list"
  cap_ofp_discover :: bool
  cap_ofp_connect :: "string list"

definition no_manifest_capabilities :: manifest_capabilities where
  "no_manifest_capabilities = \<lparr> cap_network = [], cap_tools = [], cap_memory_read = [], cap_memory_write = [],
     cap_agent_spawn = False, cap_agent_message = [], cap_shell = [], cap_ofp_discover = False, cap_ofp_connect = [] \<rparr>"

record model_routing_config =
  simple_model :: string
  medium_model :: string
  complex_model :: string
  simple_threshold :: nat
  complex_threshold :: nat

record autonomous_config =
  quiet_hours :: "string option"
  auto_max_iterations :: nat
  auto_max_restarts :: nat
  heartbeat_interval_secs :: nat
  heartbeat_channel :: "string option"

record 'j agent_manifest =
  mf_name :: string
  mf_version :: string
  mf_description :: string
  mf_group :: "string option"
  mf_author :: string
  mf_module :: string
  mf_schedule :: schedule_mode
  mf_model :: model_config
  mf_fallbacks :: "fallback_model list"
  mf_resources :: resource_quota
  mf_priority :: agent_priority
  mf_capabilities :: manifest_capabilities
  mf_profile :: "tool_profile option"
  mf_tools :: "string \<rightharpoonup> (string \<rightharpoonup> 'j)"
  mf_skills :: "string list"
  mf_mcp_servers :: "string list"
  mf_metadata :: "string \<rightharpoonup> 'j"
  mf_tags :: "string list"
  mf_routing :: "model_routing_config option"
  mf_autonomous :: "autonomous_config option"
  mf_pinned_model :: "string option"
  mf_workspace :: "string option"
  mf_identity_files :: bool
  mf_exec_policy :: "exec_policy option"

definition default_model_config :: model_config where
  "default_model_config = \<lparr> mc_provider = ''anthropic'', mc_model = ''claude-sonnet-4-6'', mc_max_tokens = 4096,
     mc_temperature = 0x3F333333, mc_system_prompt = ''You are a helpful AI agent.'', mc_api_key_env = None,
     mc_base_url = None, mc_response_format = Text_format, mc_thinking = None \<rparr>"

definition default_manifest :: "'j agent_manifest" where
  "default_manifest = \<lparr> mf_name = ''unnamed'', mf_version = ''0.1.0'', mf_description = [], mf_group = None,
     mf_author = [], mf_module = ''builtin:chat'', mf_schedule = Reactive, mf_model = default_model_config,
     mf_fallbacks = [], mf_resources = default_quota, mf_priority = Normal_priority,
     mf_capabilities = no_manifest_capabilities, mf_profile = None, mf_tools = Map.empty, mf_skills = [],
     mf_mcp_servers = [], mf_metadata = Map.empty, mf_tags = [], mf_routing = None, mf_autonomous = None,
     mf_pinned_model = None, mf_workspace = None, mf_identity_files = True, mf_exec_policy = None \<rparr>"

record agent_identity =
  id_emoji :: "string option"
  id_avatar_url :: "string option"
  id_color :: "string option"
  id_archetype :: "string option"
  id_vibe :: "string option"
  id_greeting_style :: "string option"

definition default_identity :: agent_identity where
  "default_identity = \<lparr> id_emoji = None, id_avatar_url = None, id_color = None, id_archetype = None,
     id_vibe = None, id_greeting_style = None \<rparr>"

record 'j agent_entry =
  ae_id :: nat
  ae_name :: string
  ae_manifest :: "'j agent_manifest"
  ae_state :: agent_state
  ae_mode :: agent_mode
  ae_created :: int
  ae_last_active :: int
  ae_parent :: "nat option"
  ae_children :: "nat list"
  ae_session :: nat
  ae_tags :: "string list"
  ae_identity :: agent_identity
  ae_onboarded :: bool
  ae_onboarded_at :: "int option"

section \<open>Group and session labels\<close>

definition max_agent_group_len :: nat where "max_agent_group_len = 80"

text \<open>\<open>char::is_control\<close>: the general category \<open>Cc\<close>.\<close>

definition is_control :: "string \<Rightarrow> bool" where
  "is_control c \<longleftrightarrow>
     (case c of
        [b] \<Rightarrow> of_char b < (32 :: nat) \<or> of_char b = (127 :: nat)
      | [a, b] \<Rightarrow> a = CHR 0xC2 \<and> (128 :: nat) \<le> of_char b \<and> of_char b < (160 :: nat)
      | _ \<Rightarrow> False)"

definition normalize_agent_group :: "string option \<Rightarrow> rh_error + string option" where
  "normalize_agent_group label =
     (case label of
        None \<Rightarrow> Inr None
      | Some g \<Rightarrow>
          let trimmed = trim g in
          if trimmed = [] then Inr None
          else if list_ex is_control (chars trimmed)
          then Inl (InvalidInput ''Agent group cannot contain control characters'')
          else if max_agent_group_len < char_count trimmed
          then Inl (InvalidInput (''Agent group must be at most '' @ nat_str max_agent_group_len @ '' characters''))
          else Inr (Some trimmed))"

text \<open>\<open>SessionLabel::new\<close>; \<open>alnum\<close> is \<open>char::is_alphanumeric\<close>.\<close>

definition new_session_label :: "(string \<Rightarrow> bool) \<Rightarrow> string \<Rightarrow> rh_error + string" where
  "new_session_label alnum label =
     (let trimmed = trim label in
      if trimmed = [] \<or> 128 < length trimmed
      then Inl (InvalidInput ''Session label must be 1-128 chars'')
      else if \<not> list_all (\<lambda>c. alnum c \<or> c = '' '' \<or> c = ''-'' \<or> c = ''_'') (chars trimmed)
      then Inl (InvalidInput ''Session label contains invalid chars'')
      else Inr trimmed)"

section \<open>Profiles and capabilities\<close>

fun profile_tools :: "tool_profile \<Rightarrow> string list" where
  "profile_tools Minimal = [''file_read'', ''file_list'', ''file_stat'']"
| "profile_tools Coding = [''file_read'', ''file_write'', ''file_list'', ''file_stat'', ''file_delete'', ''file_move'',
     ''file_copy'', ''file_mkdir'', ''shell_exec'', ''web_fetch'']"
| "profile_tools Research = [''web_fetch'', ''web_search'', ''file_read'', ''file_write'']"
| "profile_tools Messaging = [''agent_send'', ''agent_list'', ''memory_store'', ''memory_recall'']"
| "profile_tools Automation = [''file_read'', ''file_write'', ''file_list'', ''file_stat'', ''file_delete'', ''file_move'',
     ''file_copy'', ''file_mkdir'', ''shell_exec'', ''web_fetch'', ''web_search'', ''agent_send'', ''agent_list'',
     ''memory_store'', ''memory_recall'']"
| "profile_tools Full_profile = [''*'']"
| "profile_tools Custom = [''*'']"

definition implied_capabilities :: "tool_profile \<Rightarrow> manifest_capabilities" where
  "implied_capabilities p =
     (let tools = profile_tools p;
          has_net = list_ex (\<lambda>t. starts_with t ''web_'' \<or> t = ''*'') tools;
          has_shell = list_ex (\<lambda>t. t = ''shell_exec'' \<or> t = ''*'') tools;
          has_agent = list_ex (\<lambda>t. starts_with t ''agent_'' \<or> t = ''*'') tools;
          has_memory = list_ex (\<lambda>t. starts_with t ''memory_'' \<or> t = ''*'') tools
      in \<lparr> cap_network = (if has_net then [''*''] else []), cap_tools = tools,
           cap_memory_read = (if has_memory then [''*''] else [''self.*'']), cap_memory_write = [''self.*''],
           cap_agent_spawn = has_agent, cap_agent_message = (if has_agent then [''*''] else []),
           cap_shell = (if has_shell then [''*''] else []), cap_ofp_discover = False, cap_ofp_connect = [] \<rparr>)"

text \<open>\<open>merged.f = own.f\<close> when the manifest's own list is not empty.\<close>

abbreviation own_or :: "string list \<Rightarrow> string list \<Rightarrow> string list" where
  "own_or own implied \<equiv> (if own \<noteq> [] then own else implied)"

definition effective_capabilities :: "'j agent_manifest \<Rightarrow> manifest_capabilities" where
  "effective_capabilities mf =
     (let own = mf_capabilities mf in
      case mf_profile mf of
        None \<Rightarrow> own
      | Some profile \<Rightarrow>
          if cap_tools own = [] then
            let merged = implied_capabilities profile in
            merged\<lparr> cap_network := own_or (cap_network own) (cap_network merged),
              cap_shell := own_or (cap_shell own) (cap_shell merged),
              cap_agent_message := own_or (cap_agent_message own) (cap_agent_message merged),
              cap_agent_spawn := (if cap_agent_spawn own then True else cap_agent_spawn merged),
              cap_memory_read := own_or (cap_memory_read own) (cap_memory_read merged),
              cap_memory_write := own_or (cap_memory_write own) (cap_memory_write merged),
              cap_ofp_discover := (if cap_ofp_discover own then True else cap_ofp_discover merged),
              cap_ofp_connect := own_or (cap_ofp_connect own) (cap_ofp_connect merged) \<rparr>
          else own)"

definition manifest_to_capabilities :: "'j agent_manifest \<Rightarrow> capability list" where
  "manifest_to_capabilities mf =
     (let c = effective_capabilities mf in
      map CNetConnect (cap_network c) @ map CToolInvoke (cap_tools c) @ map CMemoryRead (cap_memory_read c) @
      map CMemoryWrite (cap_memory_write c) @ (if cap_agent_spawn c then [CAgentSpawn] else []) @
      map CAgentMessage (cap_agent_message c) @ map CShellExec (cap_shell c) @
      (if cap_ofp_discover c then [COfpDiscover] else []) @ map COfpConnect (cap_ofp_connect c))"

end
