(* ===== verification/Agent_Registry.thy ===== *)
theory Agent_Registry
  imports Agent_Types
begin

text \<open>
  The agent registry of \<open>kernel/src/registry.rs\<close>: the map of agents, iterated by \<open>list\<close> and
  therefore a table, and its two indexes. Every operation is one atomic step on the three maps,
  except that \<open>register\<close> is also given as its two halves, because the check and the insertion
  lock the name index separately. \<open>show\<close> prints an agent id, \<open>now\<close> is the clock's reading.
\<close>

section \<open>State\<close>

record 'j registry =
  agents :: "(nat, 'j agent_entry) table"
  name_index :: "string \<rightharpoonup> nat"
  tag_index :: "string \<rightharpoonup> nat list"

definition new_registry :: "'j registry" where
  "new_registry = \<lparr> agents = [], name_index = Map.empty, tag_index = Map.empty \<rparr>"

section \<open>Registering and removing\<close>

definition name_taken :: "'j agent_entry \<Rightarrow> 'j registry \<Rightarrow> bool" where
  "name_taken e r \<longleftrightarrow> name_index r (ae_name e) \<noteq> None"

definition push_tag :: "nat \<Rightarrow> string \<Rightarrow> (string \<rightharpoonup> nat list) \<Rightarrow> (string \<rightharpoonup> nat list)" where
  "push_tag i t ix = ix(t \<mapsto> (case ix t of None \<Rightarrow> [] | Some is \<Rightarrow> is) @ [i])"

definition insert_entry :: "'j agent_entry \<Rightarrow> 'j registry \<Rightarrow> 'j registry" where
  "insert_entry e r = r\<lparr> name_index := (name_index r)(ae_name e \<mapsto> ae_id e),
     tag_index := fold (push_tag (ae_id e)) (ae_tags e) (tag_index r),
     agents := tab_put (ae_id e) e (agents r) \<rparr>"

definition register_agent :: "'j agent_entry \<Rightarrow> 'j registry \<Rightarrow> 'j registry \<times> (rh_error + unit)" where
  "register_agent e r =
     (if name_taken e r then (r, Inl (AgentAlreadyExists (ae_name e)))
      else (insert_entry e r, Inr ()))"

definition get_agent :: "nat \<Rightarrow> 'j registry \<Rightarrow> 'j agent_entry option" where
  "get_agent i r = map_of (agents r) i"

definition find_by_name :: "string \<Rightarrow> 'j registry \<Rightarrow> 'j agent_entry option" where
  "find_by_name n r = (case name_index r n of None \<Rightarrow> None | Some i \<Rightarrow> map_of (agents r) i)"

definition drop_tag :: "nat \<Rightarrow> string \<Rightarrow> (string \<rightharpoonup> nat list) \<Rightarrow> (string \<rightharpoonup> nat list)" where
  "drop_tag i t ix = (case ix t of None \<Rightarrow> ix | Some is \<Rightarrow> ix(t \<mapsto> filter (\<lambda>j. j \<noteq> i) is))"

definition remove_agent :: "(nat \<Rightarrow> string) \<Rightarrow> nat \<Rightarrow> 'j registry \<Rightarrow> 'j registry \<times> (rh_error + 'j agent_entry)" where
  "remove_agent show i r =
     (case map_of (agents r) i of
        None \<Rightarrow> (r, Inl (AgentNotFound (show i)))
      | Some e \<Rightarrow>
          (r\<lparr> agents := tab_del i (agents r), name_index := (name_index r)(ae_name e := None),
              tag_index := fold (drop_tag i) (ae_tags e) (tag_index r) \<rparr>, Inr e))"

definition list_agents :: "'j registry \<Rightarrow> 'j agent_entry list" where
  "list_agents r = map snd (agents r)"

definition count_agents :: "'j registry \<Rightarrow> nat" where
  "count_agents r = length (agents r)"

definition add_child :: "nat \<Rightarrow> nat \<Rightarrow> 'j registry \<Rightarrow> 'j registry" where
  "add_child parent child r =
     (case map_of (agents r) parent of
        None \<Rightarrow> r
      | Some e \<Rightarrow> r\<lparr> agents := tab_put parent (e\<lparr> ae_children := ae_children e @ [child] \<rparr>) (agents r) \<rparr>)"

section \<open>Updates of an entry\<close>

text \<open>What the updates share: find the entry or fail, change it, stamp \<open>last_active\<close>.\<close>

definition touch :: "(nat \<Rightarrow> string) \<Rightarrow> int \<Rightarrow> ('j agent_entry \<Rightarrow> 'j agent_entry) \<Rightarrow> nat \<Rightarrow> 'j registry
    \<Rightarrow> 'j registry \<times> (rh_error + unit)" where
  "touch show now f i r =
     (case map_of (agents r) i of
        None \<Rightarrow> (r, Inl (AgentNotFound (show i)))
      | Some e \<Rightarrow> (r\<lparr> agents := tab_put i ((f e)\<lparr> ae_last_active := now \<rparr>) (agents r) \<rparr>, Inr ()))"

abbreviation on_manifest :: "('j agent_manifest \<Rightarrow> 'j agent_manifest) \<Rightarrow> 'j agent_entry \<Rightarrow> 'j agent_entry" where
  "on_manifest f e \<equiv> e\<lparr> ae_manifest := f (ae_manifest e) \<rparr>"

abbreviation on_model :: "(model_config \<Rightarrow> model_config) \<Rightarrow> 'j agent_entry \<Rightarrow> 'j agent_entry" where
  "on_model f \<equiv> on_manifest (\<lambda>m. m\<lparr> mf_model := f (mf_model m) \<rparr>)"

definition set_state :: "(nat \<Rightarrow> string) \<Rightarrow> int \<Rightarrow> agent_state \<Rightarrow> nat \<Rightarrow> 'j registry \<Rightarrow> 'j registry \<times> (rh_error + unit)" where
  "set_state show now s = touch show now (\<lambda>e. e\<lparr> ae_state := s \<rparr>)"

definition set_mode :: "(nat \<Rightarrow> string) \<Rightarrow> int \<Rightarrow> agent_mode \<Rightarrow> nat \<Rightarrow> 'j registry \<Rightarrow> 'j registry \<times> (rh_error + unit)" where
  "set_mode show now m = touch show now (\<lambda>e. e\<lparr> ae_mode := m \<rparr>)"

definition update_session_id :: "(nat \<Rightarrow> string) \<Rightarrow> int \<Rightarrow> nat \<Rightarrow> nat \<Rightarrow> 'j registry \<Rightarrow> 'j registry \<times> (rh_error + unit)" where
  "update_session_id show now s = touch show now (\<lambda>e. e\<lparr> ae_session := s \<rparr>)"

definition update_workspace :: "(nat \<Rightarrow> string) \<Rightarrow> int \<Rightarrow> string option \<Rightarrow> nat \<Rightarrow> 'j registry \<Rightarrow> 'j registry \<times> (rh_error + unit)" where
  "update_workspace show now w = touch show now (on_manifest (\<lambda>m. m\<lparr> mf_workspace := w \<rparr>))"

definition update_identity :: "(nat \<Rightarrow> string) \<Rightarrow> int \<Rightarrow> agent_identity \<Rightarrow> nat \<Rightarrow> 'j registry \<Rightarrow> 'j registry \<times> (rh_error + unit)" where
  "update_identity show now x = touch show now (\<lambda>e. e\<lparr> ae_identity := x \<rparr>)"

definition update_model :: "(nat \<Rightarrow> string) \<Rightarrow> int \<Rightarrow> string \<Rightarrow> nat \<Rightarrow> 'j registry \<Rightarrow> 'j registry \<times> (rh_error + unit)" where
  "update_model show now x = touch show now (on_model (\<lambda>m. m\<lparr> mc_model := x \<rparr>))"

definition update_model_and_provider :: "(nat \<Rightarrow> string) \<Rightarrow> int \<Rightarrow> string \<Rightarrow> string \<Rightarrow> nat \<Rightarrow> 'j registry
    \<Rightarrow> 'j registry \<times> (rh_error + unit)" where
  "update_model_and_provider show now x p = touch show now (on_model (\<lambda>m. m\<lparr> mc_model := x, mc_provider := p \<rparr>))"

definition update_max_tokens :: "(nat \<Rightarrow> string) \<Rightarrow> int \<Rightarrow> nat \<Rightarrow> nat \<Rightarrow> 'j registry \<Rightarrow> 'j registry \<times> (rh_error + unit)" where
  "update_max_tokens show now x = touch show now (on_model (\<lambda>m. m\<lparr> mc_max_tokens := x \<rparr>))"

definition update_temperature :: "(nat \<Rightarrow> string) \<Rightarrow> int \<Rightarrow> 32 word \<Rightarrow> nat \<Rightarrow> 'j registry \<Rightarrow> 'j registry \<times> (rh_error + unit)" where
  "update_temperature show now x = touch show now (on_model (\<lambda>m. m\<lparr> mc_temperature := x \<rparr>))"

definition update_thinking :: "(nat \<Rightarrow> string) \<Rightarrow> int \<Rightarrow> thinking_config option \<Rightarrow> nat \<Rightarrow> 'j registry
    \<Rightarrow> 'j registry \<times> (rh_error + unit)" where
  "update_thinking show now x = touch show now (on_model (\<lambda>m. m\<lparr> mc_thinking := x \<rparr>))"

definition update_skills :: "(nat \<Rightarrow> string) \<Rightarrow> int \<Rightarrow> string list \<Rightarrow> nat \<Rightarrow> 'j registry \<Rightarrow> 'j registry \<times> (rh_error + unit)" where
  "update_skills show now x = touch show now (on_manifest (\<lambda>m. m\<lparr> mf_skills := x \<rparr>))"

definition update_mcp_servers :: "(nat \<Rightarrow> string) \<Rightarrow> int \<Rightarrow> string list \<Rightarrow> nat \<Rightarrow> 'j registry \<Rightarrow> 'j registry \<times> (rh_error + unit)" where
  "update_mcp_servers show now x = touch show now (on_manifest (\<lambda>m. m\<lparr> mf_mcp_servers := x \<rparr>))"

definition update_system_prompt :: "(nat \<Rightarrow> string) \<Rightarrow> int \<Rightarrow> string \<Rightarrow> nat \<Rightarrow> 'j registry \<Rightarrow> 'j registry \<times> (rh_error + unit)" where
  "update_system_prompt show now x = touch show now (on_model (\<lambda>m. m\<lparr> mc_system_prompt := x \<rparr>))"

definition update_description :: "(nat \<Rightarrow> string) \<Rightarrow> int \<Rightarrow> string \<Rightarrow> nat \<Rightarrow> 'j registry \<Rightarrow> 'j registry \<times> (rh_error + unit)" where
  "update_description show now x = touch show now (on_manifest (\<lambda>m. m\<lparr> mf_description := x \<rparr>))"

definition update_group :: "(nat \<Rightarrow> string) \<Rightarrow> int \<Rightarrow> string option \<Rightarrow> nat \<Rightarrow> 'j registry \<Rightarrow> 'j registry \<times> (rh_error + unit)" where
  "update_group show now x = touch show now (on_manifest (\<lambda>m. m\<lparr> mf_group := x \<rparr>))"

definition mark_onboarding_complete :: "(nat \<Rightarrow> string) \<Rightarrow> int \<Rightarrow> nat \<Rightarrow> 'j registry \<Rightarrow> 'j registry \<times> (rh_error + unit)" where
  "mark_onboarding_complete show now =
     touch show now (\<lambda>e. e\<lparr> ae_onboarded := True, ae_onboarded_at := Some now \<rparr>)"

text \<open>The tool list replaces the old one; the capabilities it implies are only widened.\<close>

definition widen_capabilities :: "string list \<Rightarrow> manifest_capabilities \<Rightarrow> manifest_capabilities" where
  "widen_capabilities tools caps0 =
     (let has = (\<lambda>P. list_ex (\<lambda>t. t = ''*'' \<or> P t) tools);
          needs_net = has (\<lambda>t. starts_with t ''web_'');
          needs_shell = has (\<lambda>t. t = ''shell_exec'');
          needs_agent = has (\<lambda>t. starts_with t ''agent_'');
          needs_memory = has (\<lambda>t. starts_with t ''memory_'');
          caps = caps0\<lparr> cap_tools := tools \<rparr>;
          caps = (if needs_net \<and> cap_network caps = [] then caps\<lparr> cap_network := [''*''] \<rparr> else caps);
          caps = (if needs_shell \<and> cap_shell caps = [] then caps\<lparr> cap_shell := [''*''] \<rparr> else caps);
          caps = (if needs_agent
                  then (let caps = caps\<lparr> cap_agent_spawn := True \<rparr>
                        in if cap_agent_message caps = [] then caps\<lparr> cap_agent_message := [''*''] \<rparr> else caps)
                  else caps)
      in if needs_memory \<and> cap_memory_read caps = [] then caps\<lparr> cap_memory_read := [''*''] \<rparr> else caps)"

definition update_tools :: "(nat \<Rightarrow> string) \<Rightarrow> int \<Rightarrow> string list \<Rightarrow> nat \<Rightarrow> 'j registry \<Rightarrow> 'j registry \<times> (rh_error + unit)" where
  "update_tools show now tools = touch show now (on_manifest (\<lambda>m. m\<lparr>
     mf_capabilities := widen_capabilities tools (mf_capabilities m), mf_profile := None \<rparr>))"

section \<open>Renaming\<close>

definition update_name :: "(nat \<Rightarrow> string) \<Rightarrow> int \<Rightarrow> nat \<Rightarrow> string \<Rightarrow> 'j registry \<Rightarrow> 'j registry \<times> (rh_error + unit)" where
  "update_name show now i new_name r =
     (case name_index r new_name of
        Some existing \<Rightarrow>
          (if existing = i then (r, Inr ()) else (r, Inl (AgentAlreadyExists new_name)))
      | None \<Rightarrow>
          let r = r\<lparr> name_index := (name_index r)(new_name \<mapsto> i) \<rparr> in
          (case map_of (agents r) i of
             None \<Rightarrow> (r\<lparr> name_index := (name_index r)(new_name := None) \<rparr>, Inl (AgentNotFound (show i)))
           | Some e \<Rightarrow>
               let old_name = ae_name e;
                   e = e\<lparr> ae_name := new_name, ae_manifest := (ae_manifest e)\<lparr> mf_name := new_name \<rparr>,
                          ae_last_active := now \<rparr>;
                   r = r\<lparr> agents := tab_put i e (agents r) \<rparr>
               in (if old_name \<noteq> new_name then r\<lparr> name_index := (name_index r)(old_name := None) \<rparr> else r, Inr ())))"

section \<open>The indexes describe the agents\<close>

definition tag_ids :: "string \<Rightarrow> 'j registry \<Rightarrow> nat list" where
  "tag_ids t r = (case tag_index r t of None \<Rightarrow> [] | Some is \<Rightarrow> is)"

definition tag_occurs :: "string \<Rightarrow> nat \<Rightarrow> 'j registry \<Rightarrow> nat" where
  "tag_occurs t i r = (case map_of (agents r) i of None \<Rightarrow> 0 | Some e \<Rightarrow> count_list (ae_tags e) t)"

definition registry_ok :: "'j registry \<Rightarrow> bool" where
  "registry_ok r \<longleftrightarrow>
     tab_ok (agents r)
     \<and> (\<forall>i e. map_of (agents r) i = Some e \<longrightarrow> ae_id e = i \<and> name_index r (ae_name e) = Some i)
     \<and> (\<forall>n i. name_index r n = Some i \<longrightarrow> (\<exists>e. map_of (agents r) i = Some e \<and> ae_name e = n))
     \<and> (\<forall>t i. count_list (tag_ids t r) i = tag_occurs t i r)"

end
