(* ===== verification/Registry_Theorems.thy ===== *)
theory Registry_Theorems
  imports Agent_Registry
begin

text \<open>
  The two indexes of the agent registry describe exactly the registered agents after every
  sequence of operations, provided new agents have new ids, and the race that breaks this when
  two registrations of one name overlap.
\<close>

section \<open>Each operation keeps the indexes\<close>

lemma registry_okD:
  assumes "registry_ok r"
  shows "tab_ok (agents r)"
    and "map_of (agents r) i = Some e \<Longrightarrow> ae_id e = i"
    and "map_of (agents r) i = Some e \<Longrightarrow> name_index r (ae_name e) = Some i"
    and "name_index r n = Some i \<Longrightarrow> \<exists>e. map_of (agents r) i = Some e \<and> ae_name e = n"
    and "count_list (tag_ids t r) i = tag_occurs t i r"
  using assms by (auto simp: registry_ok_def)

lemma registry_okI:
  assumes "tab_ok (agents r)"
    and "\<And>i e. map_of (agents r) i = Some e \<Longrightarrow> ae_id e = i \<and> name_index r (ae_name e) = Some i"
    and "\<And>n i. name_index r n = Some i \<Longrightarrow> \<exists>e. map_of (agents r) i = Some e \<and> ae_name e = n"
    and "\<And>t i. count_list (tag_ids t r) i = tag_occurs t i r"
  shows "registry_ok r"
  unfolding registry_ok_def using assms by blast

lemma registry_ok_new: "registry_ok new_registry"
  by (simp add: registry_ok_def new_registry_def tag_ids_def tag_occurs_def)

definition ids_at :: "(string \<rightharpoonup> nat list) \<Rightarrow> string \<Rightarrow> nat list" where
  "ids_at ix t = (case ix t of None \<Rightarrow> [] | Some js \<Rightarrow> js)"

lemma tag_ids_at: "tag_ids t r = ids_at (tag_index r) t"
  by (simp add: tag_ids_def ids_at_def)

lemma count_push_tags:
  "count_list (ids_at (fold (push_tag i) ts ix) t) j =
     count_list (ids_at ix t) j + (if j = i then count_list ts t else 0)"
  by (induction ts arbitrary: ix) (auto simp: push_tag_def ids_at_def)

lemma count_list_filter: "count_list (filter (\<lambda>j. j \<noteq> i) js) k = (if k = i then 0 else count_list js k)"
  by (induction js) auto

lemma count_drop_tags:
  "count_list (ids_at (fold (drop_tag i) ts ix) t) j =
     (if j = i \<and> t \<in> set ts then 0 else count_list (ids_at ix t) j)"
proof (induction ts arbitrary: ix)
  case (Cons u us)
  have "ids_at (drop_tag i u ix) t = (if t = u then filter (\<lambda>j. j \<noteq> i) (ids_at ix t) else ids_at ix t)"
    by (auto simp: drop_tag_def ids_at_def split: option.splits)
  then show ?case using Cons.IH [of "drop_tag i u ix"] by (auto simp: count_list_filter)
qed simp

lemma registry_ok_insert:
  assumes ok: "registry_ok r" and free: "\<not> name_taken e r" and fresh: "map_of (agents r) (ae_id e) = None"
  shows "registry_ok (insert_entry e r)"
proof -
  have tags: "tag_occurs t (ae_id e) r = 0" for t using fresh by (simp add: tag_occurs_def)
  have "count_list (tag_ids t (insert_entry e r)) j = tag_occurs t j (insert_entry e r)" for t j
    using registry_okD(5) [OF ok, of t j] tags [of t]
    by (auto simp: tag_ids_at insert_entry_def count_push_tags tag_occurs_def)
  moreover have "ae_name e' \<noteq> ae_name e" if "map_of (agents r) j = Some e'" for j e'
    using registry_okD(3) [OF ok that] free by (auto simp: name_taken_def)
  moreover have "j \<noteq> ae_id e" if "map_of (agents r) j = Some e'" for j e'
    using that fresh by auto
  ultimately show ?thesis
    unfolding registry_ok_def
    using registry_okD(1,2,3) [OF ok] registry_okD(4) [OF ok] fresh
    by (auto simp: insert_entry_def tab_ok_put split: if_splits) metis+
qed

lemma registry_ok_register:
  "registry_ok r \<Longrightarrow> map_of (agents r) (ae_id e) = None \<Longrightarrow> registry_ok (fst (register_agent e r))"
  by (simp add: register_agent_def registry_ok_insert)

lemma registry_ok_remove:
  assumes ok: "registry_ok r"
  shows "registry_ok (fst (remove_agent show i r))"
proof (cases "map_of (agents r) i")
  case None
  then show ?thesis using ok by (simp add: remove_agent_def)
next
  case (Some e)
  let ?r = "fst (remove_agent show i r)"
  have r: "agents ?r = tab_del i (agents r)" "name_index ?r = (name_index r)(ae_name e := None)"
    "tag_index ?r = fold (drop_tag i) (ae_tags e) (tag_index r)"
    using Some by (simp_all add: remove_agent_def)
  have "count_list (tag_ids t ?r) j = tag_occurs t j ?r" for t j
    using registry_okD(5) [OF ok, of t j] Some count_list_0_iff [of "ae_tags e" t]
    by (auto simp: tag_ids_at r count_drop_tags tag_occurs_def)
  moreover have "ae_name e' \<noteq> ae_name e" if "map_of (agents r) j = Some e'" "j \<noteq> i" for j e'
    using registry_okD(3) [OF ok that(1)] registry_okD(3) [OF ok Some] that(2) by auto
  moreover have "j \<noteq> i" if "name_index r n = Some j" "n \<noteq> ae_name e" for n j
    using registry_okD(4) [OF ok that(1)] that(2) Some by auto
  ultimately show ?thesis
    unfolding registry_ok_def r
    using registry_okD(1,2,3) [OF ok] registry_okD(4) [OF ok]
    by (auto simp: tab_ok_del)
qed

lemma registry_ok_put_same:
  assumes ok: "registry_ok r" and old: "map_of (agents r) i = Some e"
    and same: "ae_id e' = ae_id e" "ae_name e' = ae_name e" "ae_tags e' = ae_tags e"
  shows "registry_ok (r\<lparr> agents := tab_put i e' (agents r) \<rparr>)"
proof (rule registry_okI)
  let ?r = "r\<lparr> agents := tab_put i e' (agents r) \<rparr>"
  have look: "map_of (agents ?r) j = (if j = i then Some e' else map_of (agents r) j)" for j by simp
  show "tab_ok (agents ?r)" using registry_okD(1) [OF ok] by (simp add: tab_ok_put)
  show "ae_id f = j \<and> name_index ?r (ae_name f) = Some j" if "map_of (agents ?r) j = Some f" for j f
    using that registry_okD(2,3) [OF ok old] registry_okD(2,3) [OF ok, of j f] same
    unfolding look by (simp split: if_splits)
  show "\<exists>f. map_of (agents ?r) j = Some f \<and> ae_name f = n" if "name_index ?r n = Some j" for n j
  proof -
    have "name_index r n = Some j" using that by simp
    from registry_okD(4) [OF ok this] obtain f where "map_of (agents r) j = Some f" "ae_name f = n" by blast
    then show ?thesis unfolding look using old same(2) by (cases "j = i") simp_all
  qed
  show "count_list (tag_ids t ?r) j = tag_occurs t j ?r" for t j
    using registry_okD(5) [OF ok, of t j] old same(3) by (simp add: tag_ids_def tag_occurs_def)
qed

lemma registry_ok_add_child: "registry_ok r \<Longrightarrow> registry_ok (add_child p c r)"
  by (auto simp: add_child_def intro: registry_ok_put_same split: option.split)

lemma registry_ok_touch:
  assumes "registry_ok r" and "\<And>e. ae_id (f e) = ae_id e \<and> ae_name (f e) = ae_name e \<and> ae_tags (f e) = ae_tags e"
  shows "registry_ok (fst (touch show now f i r))"
  using assms by (auto simp: touch_def intro!: registry_ok_put_same split: option.split)

lemma registry_ok_rename:
  assumes ok: "registry_ok r"
  shows "registry_ok (fst (update_name show now i n r))"
proof (cases "name_index r n")
  case (Some j)
  then show ?thesis using ok by (simp add: update_name_def)
next
  case free: None
  show ?thesis
  proof (cases "map_of (agents r) i")
    case None
    have "(name_index r)(n \<mapsto> i, n := None) = name_index r" using free by auto
    then have "fst (update_name show now i n r) = r" using free None by (simp add: update_name_def)
    then show ?thesis using ok by simp
  next
    case (Some e)
    have differs: "ae_name e \<noteq> n" using registry_okD(3) [OF ok Some] free by auto
    let ?r = "fst (update_name show now i n r)"
    obtain e' where e': "agents ?r = tab_put i e' (agents r)" "ae_id e' = ae_id e" "ae_name e' = n" "ae_tags e' = ae_tags e"
      and ix: "name_index ?r = (name_index r)(n \<mapsto> i, ae_name e := None)" "tag_index ?r = tag_index r"
      using free Some differs by (simp add: update_name_def)
    have "tag_occurs t j ?r = tag_occurs t j r" for t j using Some e'(1,4) by (auto simp: tag_occurs_def)
    moreover have "ae_name f \<noteq> ae_name e \<and> ae_name f \<noteq> n" if "map_of (agents r) j = Some f" "j \<noteq> i" for j f
      using registry_okD(3) [OF ok that(1)] registry_okD(3) [OF ok Some] that(2) free by auto
    moreover have "j \<noteq> i" if "name_index r m = Some j" "m \<noteq> ae_name e" for m j
      using registry_okD(4) [OF ok that(1)] that(2) Some by auto
    ultimately show ?thesis
      unfolding registry_ok_def e'(1) ix
      using registry_okD [OF ok] Some e'(2,3) differs
      by (auto simp: tab_ok_put tag_ids_def ix)
  qed
qed

section \<open>Sequences of operations\<close>

inductive reg_step :: "(nat \<Rightarrow> string) \<Rightarrow> 'j registry \<Rightarrow> 'j registry \<Rightarrow> bool" for sh where
  "map_of (agents r) (ae_id e) = None \<Longrightarrow> reg_step sh r (fst (register_agent e r))"
| "reg_step sh r (fst (remove_agent sh i r))"
| "reg_step sh r (add_child p c r)"
| "reg_step sh r (fst (update_name sh now i n r))"
| "reg_step sh r (fst (update_tools sh now ts i r))"
| "reg_step sh r (fst (set_state sh now s i r))"
| "reg_step sh r (fst (set_mode sh now m i r))"
| "reg_step sh r (fst (update_session_id sh now s i r))"
| "reg_step sh r (fst (update_workspace sh now w i r))"
| "reg_step sh r (fst (update_identity sh now x i r))"
| "reg_step sh r (fst (update_model sh now n i r))"
| "reg_step sh r (fst (update_model_and_provider sh now n p i r))"
| "reg_step sh r (fst (update_max_tokens sh now k i r))"
| "reg_step sh r (fst (update_temperature sh now v i r))"
| "reg_step sh r (fst (update_thinking sh now k i r))"
| "reg_step sh r (fst (update_skills sh now ns i r))"
| "reg_step sh r (fst (update_mcp_servers sh now ns i r))"
| "reg_step sh r (fst (update_system_prompt sh now n i r))"
| "reg_step sh r (fst (update_description sh now n i r))"
| "reg_step sh r (fst (update_group sh now g i r))"
| "reg_step sh r (fst (mark_onboarding_complete sh now i r))"

lemmas entry_updates =
  update_tools_def set_state_def set_mode_def update_session_id_def update_workspace_def update_identity_def
  update_model_def update_model_and_provider_def update_max_tokens_def update_temperature_def
  update_thinking_def update_skills_def update_mcp_servers_def update_system_prompt_def
  update_description_def update_group_def mark_onboarding_complete_def

lemma reg_step_ok: "reg_step show r r' \<Longrightarrow> registry_ok r \<Longrightarrow> registry_ok r'"
  by (induction rule: reg_step.induct)
     (auto simp: entry_updates registry_ok_register registry_ok_remove registry_ok_add_child registry_ok_rename
       intro!: registry_ok_touch)

lemma reg_steps_ok: "(reg_step show)\<^sup>*\<^sup>* r r' \<Longrightarrow> registry_ok r \<Longrightarrow> registry_ok r'"
  by (induction rule: rtranclp_induct) (auto dest: reg_step_ok)

text \<open>
  C19: After any sequence of registry operations in which new agents have new ids, the indexes are
  exact: an agent is found under a name exactly when it is registered under that name, no two
  registered agents share a name, and the tag index lists every agent as often as it has the tag.
\<close>

theorem registry_indexes_exact:
  assumes "(reg_step show)\<^sup>*\<^sup>* new_registry r"
  shows "(\<forall>n e. find_by_name n r = Some e \<longleftrightarrow> get_agent (ae_id e) r = Some e \<and> ae_name e = n)
     \<and> (\<forall>i j e f. get_agent i r = Some e \<and> get_agent j r = Some f \<and> ae_name e = ae_name f \<longrightarrow> i = j)
     \<and> (\<forall>t i. count_list (tag_ids t r) i = tag_occurs t i r)"
proof -
  have ok: "registry_ok r" using reg_steps_ok [OF assms registry_ok_new] .
  have "find_by_name n r = Some e \<longleftrightarrow> get_agent (ae_id e) r = Some e \<and> ae_name e = n" for n e
  proof
    assume l: "find_by_name n r = Some e"
    then obtain i where i: "name_index r n = Some i" "map_of (agents r) i = Some e"
      by (auto simp: find_by_name_def split: option.splits)
    then show "get_agent (ae_id e) r = Some e \<and> ae_name e = n"
      using registry_okD(4) [OF ok i(1)] registry_okD(2) [OF ok i(2)] by (auto simp: get_agent_def)
  next
    assume "get_agent (ae_id e) r = Some e \<and> ae_name e = n"
    then show "find_by_name n r = Some e"
      using registry_okD(3) [OF ok, of "ae_id e" e] by (auto simp: find_by_name_def get_agent_def)
  qed
  moreover have "i = j" if "get_agent i r = Some e" "get_agent j r = Some f" "ae_name e = ae_name f" for i j e f
    using registry_okD(3) [OF ok, of i e] registry_okD(3) [OF ok, of j f] that by (simp add: get_agent_def)
  ultimately show ?thesis using registry_okD(5) [OF ok] by blast
qed

section \<open>Overlapping registrations\<close>

text \<open>
  Two registrations of one name whose checks both run before either inserts both succeed, and
  the registry then holds two agents of that name, of which only the later is found by it; when
  the other is removed, the remaining one is not found any more.
\<close>

theorem overlapping_registrations:
  assumes "\<not> name_taken e r" and "\<not> name_taken f r" and "ae_name e = ae_name f" and "ae_id e \<noteq> ae_id f"
    and "r' = insert_entry f (insert_entry e r)"
  shows "get_agent (ae_id e) r' = Some e \<and> get_agent (ae_id f) r' = Some f
     \<and> find_by_name (ae_name e) r' = Some f
     \<and> find_by_name (ae_name e) (fst (remove_agent show (ae_id e) r')) = None
     \<and> get_agent (ae_id f) (fst (remove_agent show (ae_id e) r')) = Some f"
  using assms(3-5) by (simp add: get_agent_def find_by_name_def insert_entry_def remove_agent_def)

section \<open>Witnesses\<close>

definition demo_entry :: "nat \<Rightarrow> string \<Rightarrow> unit agent_entry" where
  "demo_entry i n = \<lparr> ae_id = i, ae_name = n, ae_manifest = default_manifest\<lparr> mf_name := n \<rparr>, ae_state = Agent_running,
     ae_mode = Full_mode, ae_created = 0, ae_last_active = 0, ae_parent = None, ae_children = [], ae_session = i,
     ae_tags = [''t''], ae_identity = default_identity, ae_onboarded = False, ae_onboarded_at = None \<rparr>"

lemma registry_indexes_exact_witness:
  "find_by_name ''b'' (fst (update_name nat_str 5 1 ''b'' (insert_entry (demo_entry 1 ''a'') new_registry))) \<noteq> None
   \<and> tag_occurs ''t'' 1 (fst (update_name nat_str 5 1 ''b'' (insert_entry (demo_entry 1 ''a'') new_registry))) = 1"
proof -
  let ?s = "insert_entry (demo_entry 1 ''a'') (new_registry :: unit registry)"
  let ?r = "fst (update_name nat_str 5 1 ''b'' ?s)"
  have "reg_step nat_str new_registry (fst (register_agent (demo_entry 1 ''a'') new_registry))"
    by (rule reg_step.intros(1)) (simp add: new_registry_def)
  moreover have "fst (register_agent (demo_entry 1 ''a'') new_registry) = ?s"
    unfolding register_agent_def by (simp add: name_taken_def new_registry_def)
  ultimately have "reg_step nat_str new_registry ?s" by simp
  moreover have "reg_step nat_str ?s ?r" by (rule reg_step.intros)
  ultimately have "(reg_step nat_str)\<^sup>*\<^sup>* new_registry ?r" by (meson rtranclp.rtrancl_refl rtranclp.rtrancl_into_rtrancl)
  note exact = registry_indexes_exact [OF this]
  obtain e where e: "get_agent 1 ?r = Some e" "ae_name e = ''b''" "ae_id e = 1" "ae_tags e = [''t'']"
    using that by (simp add: update_name_def insert_entry_def new_registry_def get_agent_def demo_entry_def)
  have "find_by_name ''b'' ?r = Some e" using conjunct1 [OF exact] e by simp
  moreover have "count_list (tag_ids ''t'' ?r) 1 = 1"
    by (simp add: update_name_def insert_entry_def new_registry_def demo_entry_def tag_ids_def push_tag_def)
  then have "tag_occurs ''t'' 1 ?r = 1" using conjunct2 [OF conjunct2 [OF exact]] by simp
  ultimately show ?thesis by simp
qed

lemma overlapping_registrations_witness:
  "find_by_name ''a'' (fst (remove_agent nat_str 1
     (insert_entry (demo_entry 2 ''a'') (insert_entry (demo_entry 1 ''a'') new_registry)))) = None"
  using overlapping_registrations [of "demo_entry 1 ''a''" new_registry "demo_entry 2 ''a''", OF _ _ _ _ refl, of nat_str]
  by (simp add: demo_entry_def name_taken_def new_registry_def)

end
