(* ===== verification/Agent_Scheduler.thy ===== *)
theory Agent_Scheduler
  imports Agent_Types
begin

text \<open>
  The resource scheduler (\<open>kernel/src/scheduler.rs\<close>) and the supervisor (\<open>kernel/src/supervisor.rs\<close>).
  Instants are nanoseconds of a monotonic clock; sums of tokens wrap at 64 bits as in a release
  build. A task handle is of the type \<open>'h\<close>: aborting one is returned as an effect. The shutdown
  channel of tokio is the flag it holds.
\<close>

section \<open>Usage and quotas\<close>

record usage_tracker =
  total_tokens :: nat
  tool_calls :: nat
  window_start :: nat

definition new_tracker :: "nat \<Rightarrow> usage_tracker" where
  "new_tracker now = \<lparr> total_tokens = 0, tool_calls = 0, window_start = now \<rparr>"

definition window_nanos :: nat where "window_nanos = 3600 * 1000000000"

definition reset_if_expired :: "nat \<Rightarrow> usage_tracker \<Rightarrow> usage_tracker" where
  "reset_if_expired now t =
     (if window_nanos \<le> now - window_start t
      then t\<lparr> total_tokens := 0, tool_calls := 0, window_start := now \<rparr> else t)"

record 'h agent_scheduler =
  quotas :: "nat \<rightharpoonup> resource_quota"
  usage :: "nat \<rightharpoonup> usage_tracker"
  sched_tasks :: "nat \<rightharpoonup> 'h"

definition new_agent_scheduler :: "'h agent_scheduler" where
  "new_agent_scheduler = \<lparr> quotas = Map.empty, usage = Map.empty, sched_tasks = Map.empty \<rparr>"

definition register_quota :: "nat \<Rightarrow> nat \<Rightarrow> resource_quota \<Rightarrow> 'h agent_scheduler \<Rightarrow> 'h agent_scheduler" where
  "register_quota now a q s = s\<lparr> quotas := (quotas s)(a \<mapsto> q), usage := (usage s)(a \<mapsto> new_tracker now) \<rparr>"

definition add64 :: "nat \<Rightarrow> nat \<Rightarrow> nat" where
  "add64 a b = (a + b) mod 2 ^ 64"

definition record_usage :: "nat \<Rightarrow> nat \<Rightarrow> nat \<times> nat \<Rightarrow> nat \<Rightarrow> 'h agent_scheduler \<Rightarrow> 'h agent_scheduler" where
  "record_usage now a tokens calls s =
     (case usage s a of
        None \<Rightarrow> s
      | Some t \<Rightarrow>
          let t = reset_if_expired now t;
              t = t\<lparr> total_tokens := add64 (total_tokens t) (add64 (fst tokens) (snd tokens)),
                     tool_calls := add64 (tool_calls t) calls \<rparr>
          in s\<lparr> usage := (usage s)(a \<mapsto> t) \<rparr>)"

definition check_quota :: "nat \<Rightarrow> nat \<Rightarrow> 'h agent_scheduler \<Rightarrow> 'h agent_scheduler \<times> (rh_error + unit)" where
  "check_quota now a s =
     (case quotas s a of
        None \<Rightarrow> (s, Inr ())
      | Some q \<Rightarrow>
          (case usage s a of
             None \<Rightarrow> (s, Inr ())
           | Some t \<Rightarrow>
               let t = reset_if_expired now t;
                   s = s\<lparr> usage := (usage s)(a \<mapsto> t) \<rparr>
               in if max_llm_tokens_per_hour q < total_tokens t
                  then (s, Inl (QuotaExceeded (''Token limit exceeded: '' @ nat_str (total_tokens t) @ '' / ''
                              @ nat_str (max_llm_tokens_per_hour q))))
                  else (s, Inr ())))"

definition abort_task :: "nat \<Rightarrow> 'h agent_scheduler \<Rightarrow> 'h agent_scheduler \<times> 'h list" where
  "abort_task a s =
     (case sched_tasks s a of
        None \<Rightarrow> (s, [])
      | Some h \<Rightarrow> (s\<lparr> sched_tasks := (sched_tasks s)(a := None) \<rparr>, [h]))"

definition unregister :: "nat \<Rightarrow> 'h agent_scheduler \<Rightarrow> 'h agent_scheduler \<times> 'h list" where
  "unregister a s0 =
     (let (s, aborted) = abort_task a s0
      in (s\<lparr> quotas := (quotas s)(a := None), usage := (usage s)(a := None) \<rparr>, aborted))"

definition get_usage :: "nat \<Rightarrow> 'h agent_scheduler \<Rightarrow> (nat \<times> nat) option" where
  "get_usage a s = map_option (\<lambda>t. (total_tokens t, tool_calls t)) (usage s a)"

section \<open>The supervisor\<close>

record supervisor =
  shutting_down :: bool
  restart_total :: "64 word"
  panic_total :: "64 word"
  agent_restarts :: "nat \<rightharpoonup> nat"

definition new_supervisor :: supervisor where
  "new_supervisor = \<lparr> shutting_down = False, restart_total = 0, panic_total = 0, agent_restarts = Map.empty \<rparr>"

definition begin_shutdown :: "supervisor \<Rightarrow> supervisor" where
  "begin_shutdown s = s\<lparr> shutting_down := True \<rparr>"

definition count_panic :: "supervisor \<Rightarrow> supervisor" where
  "count_panic s = s\<lparr> panic_total := panic_total s + 1 \<rparr>"

definition record_restart :: "supervisor \<Rightarrow> supervisor" where
  "record_restart s = s\<lparr> restart_total := restart_total s + 1 \<rparr>"

text \<open>\<open>Inl\<close> is \<open>Err(count)\<close>: the limit is exceeded.\<close>

definition record_agent_restart :: "nat \<Rightarrow> nat \<Rightarrow> supervisor \<Rightarrow> supervisor \<times> (nat + nat)" where
  "record_agent_restart a max_restarts s0 =
     (let n = (case agent_restarts s0 a of None \<Rightarrow> 0 | Some c \<Rightarrow> c);
          n = (n + 1) mod 2 ^ 32;
          s = record_restart (s0\<lparr> agent_restarts := (agent_restarts s0)(a \<mapsto> n) \<rparr>)
      in if 0 < max_restarts \<and> max_restarts < n then (s, Inl n) else (s, Inr n))"

definition agent_restart_count :: "nat \<Rightarrow> supervisor \<Rightarrow> nat" where
  "agent_restart_count a s = (case agent_restarts s a of None \<Rightarrow> 0 | Some c \<Rightarrow> c)"

definition carry_agent_restarts :: "nat \<Rightarrow> nat \<Rightarrow> supervisor \<Rightarrow> supervisor" where
  "carry_agent_restarts old_id new_id s =
     (case agent_restarts s old_id of
        None \<Rightarrow> s
      | Some c \<Rightarrow> s\<lparr> agent_restarts := (agent_restarts s)(old_id := None, new_id \<mapsto> c) \<rparr>)"

definition reset_agent_restarts :: "nat \<Rightarrow> supervisor \<Rightarrow> supervisor" where
  "reset_agent_restarts a s = s\<lparr> agent_restarts := (agent_restarts s)(a := None) \<rparr>"

definition supervisor_health :: "supervisor \<Rightarrow> bool \<times> 64 word \<times> 64 word" where
  "supervisor_health s = (shutting_down s, panic_total s, restart_total s)"

end
