(* ===== verification/Kernel_Agents.thy ===== *)
theory Kernel_Agents
  imports Agent_Registry Agent_Scheduler Triggers Cron Audit_Log
begin

text \<open>
  The life of an agent in the kernel (\<open>kernel/src/kernel.rs\<close>): spawning, killing, restarting, the
  settings that are saved, the shutdown and the restoration at boot, over the stored rows of
  \<open>memory/src/structured.rs\<close>. The kernel record holds the components these operations touch.

  The environment prints ids, parses a manifest's TOML, and holds the codecs of the trigger
  file; a spawn gets its fresh ids, clock readings and the failures of its I/O as arguments. A
  task handle is of the type \<open>'h\<close>; aborted handles are returned. A stored column that does not
  decode is \<open>None\<close>; rows are in the order the table is scanned in, with new rows at the end.
\<close>

section \<open>State\<close>

record 'j agent_row =
  row_id :: "nat option"
  row_name :: string
  row_manifest :: "'j agent_manifest option"
  row_state :: "agent_state option"
  row_created :: "int option"
  row_session :: "nat option"

record audit_call =
  ac_agent :: string
  ac_action :: audit_action
  ac_detail :: string
  ac_outcome :: string

record ('j, 'h, 'd, 'c) kernel =
  k_registry :: "'j registry"
  k_caps :: "nat capability_manager"
  k_sched :: "'h agent_scheduler"
  k_super :: supervisor
  k_triggers :: "'d trigger_engine"
  k_bus :: event_bus
  k_cron :: "'c cron_scheduler"
  k_rows :: "'j agent_row list"
  k_sessions :: "(nat \<times> nat) list"
  k_background :: "nat \<rightharpoonup> 'h"
  k_running :: "nat \<rightharpoonup> 'h"
  k_audit :: "audit_call list"

record ('j, 'd) kernel_env =
  ke_show :: "nat \<Rightarrow> string"
  ke_parse_id :: "string \<Rightarrow> nat option"
  ke_fmt :: ev_fmt
  ke_lower :: "string \<Rightarrow> string"
  ke_toml :: "string \<Rightarrow> string + 'j agent_manifest"
  ke_cap_debug :: "capability \<Rightarrow> string"
  ke_trig_enc :: "trigger list \<Rightarrow> 'd option"
  ke_exec_policy :: exec_policy
  ke_provider :: string
  ke_model :: string
  ke_workspaces :: string

record spawn_input =
  si_id :: nat
  si_session :: nat
  si_utc :: nat
  si_mono :: nat
  si_trigger_ids :: "nat list"
  si_event :: nat
  si_session_error :: "rh_error option"
  si_workspace_error :: "rh_error option"
  si_save_error :: "rh_error option"
  si_trigger_io :: "bool \<times> bool"

definition audit :: "(nat \<Rightarrow> string) \<Rightarrow> nat \<Rightarrow> audit_action \<Rightarrow> string \<Rightarrow> string
    \<Rightarrow> ('j, 'h, 'd, 'c) kernel \<Rightarrow> ('j, 'h, 'd, 'c) kernel" where
  "audit sh a act det out k =
     k\<lparr> k_audit := k_audit k @ [\<lparr> ac_agent = sh a, ac_action = act, ac_detail = det, ac_outcome = out \<rparr>] \<rparr>"

section \<open>The stored rows\<close>

definition row_of :: "'j agent_entry \<Rightarrow> 'j agent_row" where
  "row_of e = \<lparr> row_id = Some (ae_id e), row_name = ae_name e, row_manifest = Some (ae_manifest e),
     row_state = Some (ae_state e), row_created = Some (ae_created e), row_session = Some (ae_session e) \<rparr>"

text \<open>Insert, or on a conflict of ids update every column but the creation time.\<close>

fun save_row :: "'j agent_entry \<Rightarrow> 'j agent_row list \<Rightarrow> 'j agent_row list" where
  "save_row e [] = [row_of e]"
| "save_row e (r # rs) =
     (if row_id r = Some (ae_id e) then (row_of e)\<lparr> row_created := row_created r \<rparr> # rs
      else r # save_row e rs)"

definition delete_row :: "nat \<Rightarrow> 'j agent_row list \<Rightarrow> 'j agent_row list" where
  "delete_row a rs = filter (\<lambda>r. row_id r \<noteq> Some a) rs"

text \<open>\<open>fresh\<close> stands for \<open>SessionId::new\<close> where a row's session id does not decode.\<close>

definition entry_of_row :: "(nat \<Rightarrow> nat) \<Rightarrow> int \<Rightarrow> nat \<Rightarrow> 'j agent_manifest \<Rightarrow> agent_state \<Rightarrow> 'j agent_row
    \<Rightarrow> 'j agent_entry" where
  "entry_of_row fresh now i m s r = \<lparr> ae_id = i, ae_name = row_name r, ae_manifest = m, ae_state = s,
     ae_mode = Full_mode, ae_created = (case row_created r of Some t \<Rightarrow> t | None \<Rightarrow> now), ae_last_active = now,
     ae_parent = None, ae_children = [],
     ae_session = (case row_session r of Some x \<Rightarrow> x | None \<Rightarrow> fresh i), ae_tags = mf_tags m,
     ae_identity = default_identity, ae_onboarded = False, ae_onboarded_at = None \<rparr>"

fun load_rows :: "(string \<Rightarrow> string) \<Rightarrow> (nat \<Rightarrow> nat) \<Rightarrow> int \<Rightarrow> string set \<Rightarrow> 'j agent_row list \<Rightarrow> 'j agent_entry list" where
  "load_rows lower fresh now seen [] = []"
| "load_rows lower fresh now seen (r # rs) =
     (let name_lower = lower (row_name r) in
      if name_lower \<in> seen then load_rows lower fresh now seen rs
      else let seen = insert name_lower seen in
        (case row_id r of
           None \<Rightarrow> load_rows lower fresh now seen rs
         | Some i \<Rightarrow>
             (case row_manifest r of
                None \<Rightarrow> load_rows lower fresh now seen rs
              | Some m \<Rightarrow>
                  (case row_state r of
                     None \<Rightarrow> load_rows lower fresh now seen rs
                   | Some s \<Rightarrow> entry_of_row fresh now i m s r # load_rows lower fresh now seen rs))))"

definition load_all_agents :: "(string \<Rightarrow> string) \<Rightarrow> (nat \<Rightarrow> nat) \<Rightarrow> int \<Rightarrow> 'j agent_row list \<Rightarrow> 'j agent_entry list" where
  "load_all_agents lower fresh now rs = load_rows lower fresh now {} rs"

section \<open>Spawning\<close>

definition overlay_default_model :: "('j, 'd) kernel_env \<Rightarrow> 'j agent_manifest \<Rightarrow> 'j agent_manifest" where
  "overlay_default_model E m =
     (if mc_api_key_env (mf_model m) = None \<and> mc_base_url (mf_model m) = None
      then let m = (if ke_provider E \<noteq> [] then m\<lparr> mf_model := (mf_model m)\<lparr> mc_provider := ke_provider E \<rparr> \<rparr> else m)
           in (if ke_model E \<noteq> [] then m\<lparr> mf_model := (mf_model m)\<lparr> mc_model := ke_model E \<rparr> \<rparr> else m)
      else m)"

text \<open>\<open>PathBuf::join\<close>: an absolute second path replaces the first.\<close>

definition join_path :: "string \<Rightarrow> string \<Rightarrow> string" where
  "join_path base rel =
     (if starts_with rel ''/'' then rel
      else if base = [] \<or> ends_with base ''/'' then base @ rel
      else base @ ''/'' @ rel)"

definition workspace_dir :: "('j, 'd) kernel_env \<Rightarrow> nat \<Rightarrow> string \<Rightarrow> 'j agent_manifest \<Rightarrow> string" where
  "workspace_dir E a name m =
     (case mf_workspace m of
        Some w \<Rightarrow> w
      | None \<Rightarrow> join_path (ke_workspaces E) (name @ ''-'' @ take 8 (ke_show E a)))"

definition inherit_exec_policy :: "('j, 'd) kernel_env \<Rightarrow> 'j agent_manifest \<Rightarrow> 'j agent_manifest" where
  "inherit_exec_policy E m =
     (if mf_exec_policy m = None then m\<lparr> mf_exec_policy := Some (ke_exec_policy E) \<rparr> else m)"

definition show_parent :: "(nat \<Rightarrow> string) \<Rightarrow> nat option \<Rightarrow> string" where
  "show_parent sh p = (case p of None \<Rightarrow> ''None'' | Some i \<Rightarrow> ''Some(AgentId('' @ sh i @ ''))'')"

definition conditions_of :: "'j agent_manifest \<Rightarrow> string list" where
  "conditions_of m = (case mf_schedule m of Proactive cs \<Rightarrow> cs | _ \<Rightarrow> [])"

definition new_entry :: "spawn_input \<Rightarrow> nat option \<Rightarrow> 'j agent_manifest \<Rightarrow> 'j agent_entry" where
  "new_entry si parent m = \<lparr> ae_id = si_id si, ae_name = mf_name m, ae_manifest = m, ae_state = Agent_running,
     ae_mode = Full_mode, ae_created = int (si_utc si), ae_last_active = int (si_utc si), ae_parent = parent,
     ae_children = [], ae_session = si_session si, ae_tags = mf_tags m, ae_identity = default_identity,
     ae_onboarded = False, ae_onboarded_at = None \<rparr>"

definition activate :: "nat \<Rightarrow> nat \<Rightarrow> 'j agent_manifest \<Rightarrow> ('j, 'h, 'd, 'c) kernel \<Rightarrow> ('j, 'h, 'd, 'c) kernel" where
  "activate tick a m k = k\<lparr> k_caps := grant a (manifest_to_capabilities m) (k_caps k),
     k_sched := register_quota tick a (mf_resources m) (k_sched k) \<rparr>"

text \<open>The part of a spawn after the registration succeeded.\<close>

definition finish_spawn :: "('j, 'd) kernel_env \<Rightarrow> spawn_input \<Rightarrow> nat option \<Rightarrow> 'j agent_entry
    \<Rightarrow> ('j, 'h, 'd, 'c) kernel \<Rightarrow> ('j, 'h, 'd, 'c) kernel \<times> (rh_error + nat)" where
  "finish_spawn E si parent e k =
     (let k = (case parent of None \<Rightarrow> k
               | Some p \<Rightarrow> k\<lparr> k_registry := add_child p (ae_id e) (k_registry k) \<rparr>)
      in case si_save_error si of
           Some err \<Rightarrow> (k, Inl err)
         | None \<Rightarrow>
             let k = k\<lparr> k_rows := save_row e (k_rows k) \<rparr>;
                 k = audit (ke_show E) (ae_id e) AgentSpawn
                       (''name='' @ ae_name e @ '', parent='' @ show_parent (ke_show E) parent) ''ok'' k;
                 k = k\<lparr> k_triggers := spawn_triggers (ke_fmt E) (ke_trig_enc E) (si_trigger_io si) (si_utc si)
                       (si_event si) (ae_id e) (ae_name e)
                       (zip (conditions_of (ae_manifest e)) (si_trigger_ids si)) (k_triggers k) \<rparr>
             in (k, Inr (ae_id e)))"

definition prepare_manifest :: "('j, 'd) kernel_env \<Rightarrow> nat \<Rightarrow> 'j agent_manifest \<Rightarrow> string option \<Rightarrow> 'j agent_manifest" where
  "prepare_manifest E a m0 g =
     (let m = overlay_default_model E ((inherit_exec_policy E m0)\<lparr> mf_group := g \<rparr>)
      in m\<lparr> mf_workspace := Some (workspace_dir E a (mf_name m0) m) \<rparr>)"

text \<open>From the granting of the capabilities on.\<close>

definition admit_agent :: "('j, 'd) kernel_env \<Rightarrow> spawn_input \<Rightarrow> nat option \<Rightarrow> 'j agent_manifest
    \<Rightarrow> ('j, 'h, 'd, 'c) kernel \<Rightarrow> ('j, 'h, 'd, 'c) kernel \<times> (rh_error + nat)" where
  "admit_agent E si parent m k0 =
     (let k = activate (si_mono si) (si_id si) m k0;
          e = new_entry si parent m
      in case register_agent e (k_registry k) of
           (r, Inl err) \<Rightarrow> (k, Inl err)
         | (r, Inr u) \<Rightarrow> finish_spawn E si parent e (k\<lparr> k_registry := r \<rparr>))"

definition spawn_agent_with_parent :: "('j, 'd) kernel_env \<Rightarrow> spawn_input \<Rightarrow> 'j agent_manifest \<Rightarrow> nat option
    \<Rightarrow> ('j, 'h, 'd, 'c) kernel \<Rightarrow> ('j, 'h, 'd, 'c) kernel \<times> (rh_error + nat)" where
  "spawn_agent_with_parent E si m0 parent k =
     (case si_session_error si of
        Some err \<Rightarrow> (k, Inl err)
      | None \<Rightarrow>
          let k = k\<lparr> k_sessions := k_sessions k @ [(si_session si, si_id si)] \<rparr>
          in case normalize_agent_group (mf_group m0) of
               Inl err \<Rightarrow> (k, Inl err)
             | Inr g \<Rightarrow>
                 (case si_workspace_error si of
                    Some err \<Rightarrow> (k, Inl err)
                  | None \<Rightarrow> admit_agent E si parent (prepare_manifest E (si_id si) m0 g) k))"

definition spawn_agent :: "('j, 'd) kernel_env \<Rightarrow> spawn_input \<Rightarrow> 'j agent_manifest
    \<Rightarrow> ('j, 'h, 'd, 'c) kernel \<Rightarrow> ('j, 'h, 'd, 'c) kernel \<times> (rh_error + nat)" where
  "spawn_agent E si m k = spawn_agent_with_parent E si m None k"

section \<open>Killing and restarting\<close>

definition drop_handle :: "nat \<Rightarrow> (nat \<rightharpoonup> 'h) \<Rightarrow> (nat \<rightharpoonup> 'h) \<times> 'h list" where
  "drop_handle a hs = (case hs a of None \<Rightarrow> (hs, []) | Some h \<Rightarrow> (hs(a := None), [h]))"

text \<open>The steps shared by \<open>kill_agent\<close> and \<open>restart_agent\<close>, in their order.\<close>

definition stop_runtime :: "('j, 'd) kernel_env \<Rightarrow> bool \<times> bool \<Rightarrow> nat \<Rightarrow> ('j, 'h, 'd, 'c) kernel
    \<Rightarrow> ('j, 'h, 'd, 'c) kernel \<times> 'h list" where
  "stop_runtime E io a k =
     (let (bg, h1) = drop_handle a (k_background k);
          (sched, h2) = unregister a (k_sched k);
          (run, h3) = drop_handle a (k_running k)
      in (k\<lparr> k_background := bg, k_sched := sched, k_caps := revoke_all a (k_caps k),
             k_bus := unsubscribe_agent a (k_bus k),
             k_triggers := remove_agent_triggers (ke_trig_enc E) io a (k_triggers k), k_running := run \<rparr>,
          h1 @ h2 @ h3))"

text \<open>
  \<open>deleted\<close> says what \<open>memory.remove_agent\<close> achieved: whether the sessions went (best effort,
  their failure is ignored), and whether the agent's row went (its failure is only logged).
\<close>

definition kill_agent :: "('j, 'd) kernel_env \<Rightarrow> bool \<times> bool \<Rightarrow> bool \<times> bool \<Rightarrow> nat \<Rightarrow> ('j, 'h, 'd, 'c) kernel
    \<Rightarrow> ('j, 'h, 'd, 'c) kernel \<times> 'h list \<times> (rh_error + unit)" where
  "kill_agent E io deleted a k =
     (case remove_agent (ke_show E) a (k_registry k) of
        (r, Inl err) \<Rightarrow> (k, [], Inl err)
      | (r, Inr e) \<Rightarrow>
          let (k, aborted) = stop_runtime E io a (k\<lparr> k_registry := r \<rparr>);
              k = k\<lparr> k_sessions := (if fst deleted then filter (\<lambda>(s, b). b \<noteq> a) (k_sessions k) else k_sessions k),
                     k_rows := (if snd deleted then delete_row a (k_rows k) else k_rows k) \<rparr>;
              k = audit (ke_show E) a AgentKill (''name='' @ ae_name e) ''ok'' k
          in (k, aborted, Inr ()))"

definition max_restarts_of :: "'j agent_manifest \<Rightarrow> nat" where
  "max_restarts_of m = (case mf_autonomous m of Some a \<Rightarrow> auto_max_restarts a | None \<Rightarrow> 0)"

definition stop_for_restart :: "('j, 'd) kernel_env \<Rightarrow> bool \<times> bool \<Rightarrow> nat \<Rightarrow> string \<Rightarrow> ('j, 'h, 'd, 'c) kernel
    \<Rightarrow> ('j, 'h, 'd, 'c) kernel \<times> 'h list" where
  "stop_for_restart E io a name k =
     (let (k, aborted) = stop_runtime E io a k
      in (audit (ke_show E) a AgentKill (''name='' @ name @ '' reason=restart'') ''ok'' k, aborted))"

definition give_up_restart :: "('j, 'd) kernel_env \<Rightarrow> nat \<Rightarrow> string \<Rightarrow> nat \<Rightarrow> nat \<Rightarrow> ('j, 'h, 'd, 'c) kernel
    \<Rightarrow> ('j, 'h, 'd, 'c) kernel \<times> rh_error" where
  "give_up_restart E a name count max_restarts k =
     (audit (ke_show E) a AgentKill
        (''name='' @ name @ '' reason=max_restarts_exceeded count='' @ nat_str count @
         '' max='' @ nat_str max_restarts) ''denied'' k,
      Internal (''Agent '' @ quoted name @ '' exceeded its max restart limit ('' @ nat_str count @ '' > '' @
         nat_str max_restarts @ '') and was permanently stopped''))"

definition respawn :: "('j, 'd) kernel_env \<Rightarrow> spawn_input \<Rightarrow> ('c cron_scheduler \<Rightarrow> 'c cron_scheduler) \<Rightarrow> nat
    \<Rightarrow> 'j agent_manifest \<Rightarrow> ('j, 'h, 'd, 'c) kernel \<Rightarrow> ('j, 'h, 'd, 'c) kernel \<times> (rh_error + nat \<times> nat)" where
  "respawn E si persist_cron a m k =
     (case spawn_agent E si m k of
        (k, Inl err) \<Rightarrow> (k, Inl err)
      | (k, Inr new_id) \<Rightarrow>
          let k = k\<lparr> k_super := carry_agent_restarts a new_id (k_super k) \<rparr>;
              (c, moved) = reassign_agent a new_id (k_cron k)
          in (k\<lparr> k_cron := (if 0 < moved then persist_cron c else c) \<rparr>, Inr (a, new_id)))"

definition restart_agent :: "('j, 'd) kernel_env \<Rightarrow> bool \<times> bool \<Rightarrow> spawn_input \<Rightarrow> ('c cron_scheduler \<Rightarrow> 'c cron_scheduler)
    \<Rightarrow> nat \<Rightarrow> ('j, 'h, 'd, 'c) kernel \<Rightarrow> ('j, 'h, 'd, 'c) kernel \<times> 'h list \<times> (rh_error + nat \<times> nat)" where
  "restart_agent E io si persist_cron a k =
     (case remove_agent (ke_show E) a (k_registry k) of
        (r, Inl err) \<Rightarrow> (k, [], Inl err)
      | (r, Inr e) \<Rightarrow>
          let (k, aborted) = stop_for_restart E io a (ae_name e) (k\<lparr> k_registry := r \<rparr>);
              max_restarts = max_restarts_of (ae_manifest e)
          in case record_agent_restart a max_restarts (k_super k) of
               (s, Inl count) \<Rightarrow>
                 let (k, err) = give_up_restart E a (ae_name e) count max_restarts (k\<lparr> k_super := s \<rparr>)
                 in (k, aborted, Inl err)
             | (s, Inr count) \<Rightarrow>
                 let (k, res) = respawn E si persist_cron a (ae_manifest e) (k\<lparr> k_super := s \<rparr>)
                 in (k, aborted, res))"

section \<open>Settings that are saved\<close>

text \<open>After a successful update the entry is saved; a failed save is only logged.\<close>

definition save_agent :: "bool \<Rightarrow> nat \<Rightarrow> ('j, 'h, 'd, 'c) kernel \<Rightarrow> ('j, 'h, 'd, 'c) kernel" where
  "save_agent saved a k =
     (case get_agent a (k_registry k) of
        None \<Rightarrow> k
      | Some e \<Rightarrow> if saved then k\<lparr> k_rows := save_row e (k_rows k) \<rparr> else k)"

definition then_save :: "bool \<Rightarrow> nat \<Rightarrow> ('j registry \<Rightarrow> 'j registry \<times> (rh_error + unit))
    \<Rightarrow> ('j, 'h, 'd, 'c) kernel \<Rightarrow> ('j, 'h, 'd, 'c) kernel \<times> (rh_error + unit)" where
  "then_save saved a f k =
     (case f (k_registry k) of
        (r, Inl err) \<Rightarrow> (k, Inl err)
      | (r, Inr u) \<Rightarrow> (save_agent saved a (k\<lparr> k_registry := r \<rparr>), Inr ()))"

text \<open>\<open>catalog\<close> is the provider the model catalog knows for a model.\<close>

definition set_agent_model :: "('j, 'd) kernel_env \<Rightarrow> int \<Rightarrow> bool \<Rightarrow> (string \<Rightarrow> string option) \<Rightarrow> nat \<Rightarrow> string
    \<Rightarrow> ('j, 'h, 'd, 'c) kernel \<Rightarrow> ('j, 'h, 'd, 'c) kernel \<times> (rh_error + unit)" where
  "set_agent_model E now saved catalog a model =
     then_save saved a
       (case catalog model of
          Some provider \<Rightarrow> update_model_and_provider (ke_show E) now model provider a
        | None \<Rightarrow> update_model (ke_show E) now model a)"

definition set_agent_thinking :: "('j, 'd) kernel_env \<Rightarrow> int \<Rightarrow> bool \<Rightarrow> nat \<Rightarrow> bool
    \<Rightarrow> ('j, 'h, 'd, 'c) kernel \<Rightarrow> ('j, 'h, 'd, 'c) kernel \<times> (rh_error + unit)" where
  "set_agent_thinking E now saved a on =
     then_save saved a (update_thinking (ke_show E) now
       (if on then Some \<lparr> budget_tokens = 10000, stream_thinking = True \<rparr> else None) a)"

definition set_agent_skills :: "('j, 'd) kernel_env \<Rightarrow> int \<Rightarrow> bool \<Rightarrow> string list \<Rightarrow> nat \<Rightarrow> string list
    \<Rightarrow> ('j, 'h, 'd, 'c) kernel \<Rightarrow> ('j, 'h, 'd, 'c) kernel \<times> (rh_error + unit)" where
  "set_agent_skills E now saved known a skills k =
     (case find (\<lambda>n. n \<notin> set known) skills of
        Some n \<Rightarrow> (k, Inl (Internal (''Unknown skill: '' @ n)))
      | None \<Rightarrow> then_save saved a (update_skills (ke_show E) now skills a) k)"

definition extract_mcp_server :: "string \<Rightarrow> string option" where
  "extract_mcp_server tool_name =
     (if \<not> starts_with tool_name ''mcp_'' then None
      else let rest = drop 4 tool_name in map_option (\<lambda>pos. take pos rest) (find_sub ''_'' rest))"

definition normalize_name :: "(string \<Rightarrow> string) \<Rightarrow> string \<Rightarrow> string" where
  "normalize_name lower name = replace_all ''-'' ''_'' (lower name)"

text \<open>\<open>mcp_tools\<close> is \<open>None\<close> when its lock is poisoned, and then the names are not checked.\<close>

definition set_agent_mcp_servers :: "('j, 'd) kernel_env \<Rightarrow> int \<Rightarrow> bool \<Rightarrow> string list option \<Rightarrow> nat \<Rightarrow> string list
    \<Rightarrow> ('j, 'h, 'd, 'c) kernel \<Rightarrow> ('j, 'h, 'd, 'c) kernel \<times> (rh_error + unit)" where
  "set_agent_mcp_servers E now saved mcp_tools a servers k =
     (let unknown = (case mcp_tools of
            None \<Rightarrow> None
          | Some ts \<Rightarrow>
              let known_servers = List.map_filter extract_mcp_server ts
              in find (\<lambda>n. normalize_name (ke_lower E) n \<notin> set known_servers) servers)
      in case unknown of
           Some n \<Rightarrow> (k, Inl (Internal (''Unknown MCP server: '' @ n)))
         | None \<Rightarrow> then_save saved a (update_mcp_servers (ke_show E) now servers a) k)"

definition set_agent_tools :: "('j, 'd) kernel_env \<Rightarrow> int \<Rightarrow> bool \<Rightarrow> nat \<Rightarrow> string list
    \<Rightarrow> ('j, 'h, 'd, 'c) kernel \<Rightarrow> ('j, 'h, 'd, 'c) kernel \<times> (rh_error + unit)" where
  "set_agent_tools E now saved a tools k =
     (case update_tools (ke_show E) now tools a (k_registry k) of
        (r, Inl err) \<Rightarrow> (k, Inl err)
      | (r, Inr u) \<Rightarrow>
          let k = k\<lparr> k_registry := r \<rparr> in
          (case get_agent a r of
             None \<Rightarrow> (k, Inr ())
           | Some e \<Rightarrow>
               (save_agent saved a (k\<lparr> k_caps := grant a (manifest_to_capabilities (ae_manifest e)) (k_caps k) \<rparr>),
                Inr ())))"

section \<open>Shutdown and boot\<close>

definition suspend_one :: "('j, 'd) kernel_env \<Rightarrow> int \<Rightarrow> (nat \<Rightarrow> bool) \<Rightarrow> 'j agent_entry
    \<Rightarrow> ('j, 'h, 'd, 'c) kernel \<Rightarrow> ('j, 'h, 'd, 'c) kernel" where
  "suspend_one E now saved e k =
     save_agent (saved (ae_id e)) (ae_id e)
       (k\<lparr> k_registry := fst (set_state (ke_show E) now Agent_suspended (ae_id e) (k_registry k)) \<rparr>)"

definition suspend_agents :: "('j, 'd) kernel_env \<Rightarrow> int \<Rightarrow> (nat \<Rightarrow> bool)
    \<Rightarrow> ('j, 'h, 'd, 'c) kernel \<Rightarrow> ('j, 'h, 'd, 'c) kernel" where
  "suspend_agents E now saved k = fold (suspend_one E now saved) (list_agents (k_registry k)) k"

definition restore_one :: "('j, 'd) kernel_env \<Rightarrow> nat \<Rightarrow> 'j agent_entry
    \<Rightarrow> ('j, 'h, 'd, 'c) kernel \<Rightarrow> ('j, 'h, 'd, 'c) kernel" where
  "restore_one E tick e k =
     (let k = activate tick (ae_id e) (ae_manifest e) k;
          e = e\<lparr> ae_state := Agent_running, ae_manifest := inherit_exec_policy E (ae_manifest e) \<rparr>
      in k\<lparr> k_registry := fst (register_agent e (k_registry k)) \<rparr>)"

definition restore_agents :: "('j, 'd) kernel_env \<Rightarrow> (nat \<Rightarrow> nat) \<Rightarrow> nat \<Rightarrow> int
    \<Rightarrow> ('j, 'h, 'd, 'c) kernel \<Rightarrow> ('j, 'h, 'd, 'c) kernel" where
  "restore_agents E fresh tick now k =
     fold (restore_one E tick) (load_all_agents (ke_lower E) fresh now (k_rows k)) k"

text \<open>
  A boot: only the rows, the sessions and the two files survive; triggers and jobs are loaded
  from the files, and the agents restored from the rows.
\<close>

definition boot :: "('j, 'd) kernel_env \<Rightarrow> ('d \<Rightarrow> trigger list option) \<Rightarrow> bool
    \<Rightarrow> ('c cron_scheduler \<Rightarrow> 'c cron_scheduler) \<Rightarrow> (nat \<Rightarrow> nat) \<Rightarrow> nat \<Rightarrow> int
    \<Rightarrow> ('j, 'h, 'd, 'c) kernel \<Rightarrow> ('j, 'h, 'd, 'c) kernel" where
  "boot E dec readable load_cron fresh tick now k =
     restore_agents E fresh tick now
       \<lparr> k_registry = new_registry, k_caps = new_manager, k_sched = new_agent_scheduler,
         k_super = new_supervisor,
         k_triggers = triggers_with_persistence dec readable (trigger_disk (k_triggers k)),
         k_bus = new_bus,
         k_cron = load_cron (new_scheduler (max_total_jobs (k_cron k)) (cron_disk (k_cron k))),
         k_rows = k_rows k, k_sessions = k_sessions k, k_background = Map.empty, k_running = Map.empty,
         k_audit = k_audit k \<rparr>"

section \<open>The kernel handle\<close>

text \<open>What the tool \<open>agent_spawn\<close> calls.\<close>

definition handle_spawn_agent :: "('j, 'd) kernel_env \<Rightarrow> spawn_input \<Rightarrow> string \<Rightarrow> string option
    \<Rightarrow> ('j, 'h, 'd, 'c) kernel \<Rightarrow> ('j, 'h, 'd, 'c) kernel \<times> (string + string \<times> string)" where
  "handle_spawn_agent E si manifest_toml parent_id k =
     (case ke_toml E manifest_toml of
        Inl err \<Rightarrow> (k, Inl (''Invalid manifest: '' @ err))
      | Inr m \<Rightarrow>
          let parent = (case parent_id of None \<Rightarrow> None | Some pid \<Rightarrow> ke_parse_id E pid) in
          (case spawn_agent_with_parent E si m parent k of
             (k, Inl err) \<Rightarrow> (k, Inl (''Spawn failed: '' @ error_str err))
           | (k, Inr i) \<Rightarrow> (k, Inr (ke_show E i, mf_name m))))"

text \<open>What a WASM guest's spawn calls.\<close>

definition handle_spawn_checked :: "('j, 'd) kernel_env \<Rightarrow> spawn_input \<Rightarrow> string \<Rightarrow> string option \<Rightarrow> capability list
    \<Rightarrow> ('j, 'h, 'd, 'c) kernel \<Rightarrow> ('j, 'h, 'd, 'c) kernel \<times> (string + string \<times> string)" where
  "handle_spawn_checked E si manifest_toml parent_id parent_caps k =
     (case ke_toml E manifest_toml of
        Inl err \<Rightarrow> (k, Inl (''Invalid manifest: '' @ err))
      | Inr m \<Rightarrow>
          (case validate_capability_inheritance (ke_cap_debug E) parent_caps (manifest_to_capabilities m) of
             Inl err \<Rightarrow> (k, Inl err)
           | Inr u \<Rightarrow> handle_spawn_agent E si manifest_toml parent_id k))"

definition handle_kill_agent :: "('j, 'd) kernel_env \<Rightarrow> bool \<times> bool \<Rightarrow> bool \<times> bool \<Rightarrow> string \<Rightarrow> ('j, 'h, 'd, 'c) kernel
    \<Rightarrow> ('j, 'h, 'd, 'c) kernel \<times> 'h list \<times> (string + unit)" where
  "handle_kill_agent E io deleted target k =
     (case ke_parse_id E target of
        None \<Rightarrow> (k, [], Inl ''Invalid agent ID'')
      | Some a \<Rightarrow>
          (case kill_agent E io deleted a k of
             (k, aborted, Inl err) \<Rightarrow> (k, aborted, Inl (''Kill failed: '' @ error_str err))
           | (k, aborted, Inr u) \<Rightarrow> (k, aborted, Inr ())))"

text \<open>The target of \<open>send_to_agent\<close>: an id, or else a name.\<close>

definition resolve_agent :: "('j, 'd) kernel_env \<Rightarrow> string \<Rightarrow> ('j, 'h, 'd, 'c) kernel \<Rightarrow> string + nat" where
  "resolve_agent E target k =
     (case ke_parse_id E target of
        Some a \<Rightarrow> Inr a
      | None \<Rightarrow>
          (case find_by_name target (k_registry k) of
             Some e \<Rightarrow> Inr (ae_id e)
           | None \<Rightarrow> Inl (''Agent not found: '' @ target)))"

section \<open>The tools of an agent\<close>

text \<open>
  Tools by their names. \<open>skill_tools\<close> answers an allowlist (the empty one means all skills);
  \<open>mcp_tools\<close> is \<open>None\<close> when its lock is poisoned.
\<close>

definition candidate_tools :: "('j, 'd) kernel_env \<Rightarrow> string list \<Rightarrow> (string list \<Rightarrow> string list) \<Rightarrow> string list option
    \<Rightarrow> 'j agent_entry option \<Rightarrow> string list" where
  "candidate_tools E builtins skill_tools mcp_tools entry =
     (let skills = (case entry of Some e \<Rightarrow> mf_skills (ae_manifest e) | None \<Rightarrow> []);
          mcps = (case entry of Some e \<Rightarrow> mf_mcp_servers (ae_manifest e) | None \<Rightarrow> []);
          profile = (case entry of Some e \<Rightarrow> mf_profile (ae_manifest e) | None \<Rightarrow> None);
          tools = (case profile of
                     Some p \<Rightarrow>
                       (if p \<noteq> Full_profile \<and> p \<noteq> Custom
                        then filter (\<lambda>t. list_ex (\<lambda>x. x = ''*'' \<or> x = t) (profile_tools p)) builtins
                        else builtins)
                   | None \<Rightarrow> builtins)
      in tools @ skill_tools skills @
         (case mcp_tools of
            None \<Rightarrow> []
          | Some ts \<Rightarrow>
              if mcps = [] then ts
              else let normalized = map (normalize_name (ke_lower E)) mcps in
                filter (\<lambda>t. case extract_mcp_server t of Some s \<Rightarrow> s \<in> set normalized | None \<Rightarrow> False) ts))"

definition available_tools :: "('j, 'd) kernel_env \<Rightarrow> string list \<Rightarrow> (string list \<Rightarrow> string list) \<Rightarrow> string list option
    \<Rightarrow> nat \<Rightarrow> ('j, 'h, 'd, 'c) kernel \<Rightarrow> string list" where
  "available_tools E builtins skill_tools mcp_tools a k =
     (let tools = candidate_tools E builtins skill_tools mcp_tools (get_agent a (k_registry k));
          caps = list_capabilities (k_caps k) a
      in if CToolAll \<in> set caps then tools
         else filter (\<lambda>t. list_ex (\<lambda>c. case c of CToolInvoke n \<Rightarrow> n = t \<or> n = ''*'' | _ \<Rightarrow> False) caps) tools)"

section \<open>A message's gate\<close>

text \<open>\<open>send_message_with_handle\<close> up to the turn: the quota, then the agent; the module decides who runs.\<close>

datatype module_kind = Wasm_module | Python_module | Llm_module

definition message_gate :: "('j, 'd) kernel_env \<Rightarrow> nat \<Rightarrow> nat \<Rightarrow> ('j, 'h, 'd, 'c) kernel
    \<Rightarrow> ('j, 'h, 'd, 'c) kernel \<times> (rh_error + 'j agent_entry \<times> module_kind)" where
  "message_gate E tick a k =
     (case check_quota tick a (k_sched k) of
        (s, Inl err) \<Rightarrow> (k\<lparr> k_sched := s \<rparr>, Inl err)
      | (s, Inr u) \<Rightarrow>
          (k\<lparr> k_sched := s \<rparr>,
           case get_agent a (k_registry k) of
             None \<Rightarrow> Inl (AgentNotFound (ke_show E a))
           | Some e \<Rightarrow> Inr (e,
               if starts_with (mf_module (ae_manifest e)) ''wasm:'' then Wasm_module
               else if starts_with (mf_module (ae_manifest e)) ''python:'' then Python_module
               else Llm_module)))"

text \<open>What follows a turn that ended with token counts and a number of iterations.\<close>

definition message_done :: "('j, 'd) kernel_env \<Rightarrow> nat \<Rightarrow> int \<Rightarrow> nat \<Rightarrow> nat \<times> nat \<Rightarrow> nat
    \<Rightarrow> ('j, 'h, 'd, 'c) kernel \<Rightarrow> ('j, 'h, 'd, 'c) kernel" where
  "message_done E tick now a tokens iterations k =
     audit (ke_show E) a AgentMessage
       (''tokens_in='' @ nat_str (fst tokens) @ '', tokens_out='' @ nat_str (snd tokens)) ''ok''
       (k\<lparr> k_sched := record_usage tick a tokens (iterations - 1) (k_sched k),
           k_registry := fst (set_state (ke_show E) now Agent_running a (k_registry k)) \<rparr>)"

text \<open>What follows a failed turn; \<open>err\<close> is the printed error.\<close>

definition message_failed :: "('j, 'd) kernel_env \<Rightarrow> nat \<Rightarrow> string \<Rightarrow> ('j, 'h, 'd, 'c) kernel \<Rightarrow> ('j, 'h, 'd, 'c) kernel" where
  "message_failed E a err k =
     (let k = audit (ke_show E) a AgentMessage ''agent loop failed'' (''error: '' @ err) k
      in k\<lparr> k_super := count_panic (k_super k) \<rparr>)"

end
