(* ===== verification/Kernel_Invariant.thy ===== *)
theory Kernel_Invariant
  imports Registry_Theorems Kernel_Agents
begin

text \<open>
  The invariant of the kernel's agent tables: every registered agent holds exactly the
  capabilities and the quota of its manifest, the indexes of the registry are exact, and no two
  stored rows have the same id. It holds after every sequence of the kernel's operations,
  failures and boots included.
\<close>

section \<open>The invariant\<close>

definition powered :: "('j, 'h, 'd, 'c) kernel \<Rightarrow> nat \<Rightarrow> 'j agent_entry \<Rightarrow> bool" where
  "powered k i e \<longleftrightarrow>
     k_caps k i = Some (manifest_to_capabilities (ae_manifest e))
     \<and> quotas (k_sched k) i = Some (mf_resources (ae_manifest e)) \<and> usage (k_sched k) i \<noteq> None"

definition row_ids :: "'j agent_row list \<Rightarrow> nat list" where
  "row_ids rs = List.map_filter row_id rs"

definition kernel_ok :: "('j, 'h, 'd, 'c) kernel \<Rightarrow> bool" where
  "kernel_ok k \<longleftrightarrow> registry_ok (k_registry k) \<and> distinct (row_ids (k_rows k))
     \<and> (\<forall>i e. get_agent i (k_registry k) = Some e \<longrightarrow> powered k i e)"

lemma kernel_okI:
  assumes "registry_ok (k_registry k)" and "distinct (row_ids (k_rows k))"
    and "\<And>i e. get_agent i (k_registry k) = Some e \<Longrightarrow> powered k i e"
  shows "kernel_ok k"
  using assms unfolding kernel_ok_def by blast

lemma kernel_okD:
  assumes "kernel_ok k"
  shows "registry_ok (k_registry k)" and "distinct (row_ids (k_rows k))"
    and "get_agent i (k_registry k) = Some e \<Longrightarrow> powered k i e"
  using assms unfolding kernel_ok_def by blast+

lemma kernel_ok_cong:
  "kernel_ok k \<Longrightarrow> k_registry k' = k_registry k \<Longrightarrow> row_ids (k_rows k') = row_ids (k_rows k)
     \<Longrightarrow> k_caps k' = k_caps k \<Longrightarrow> k_sched k' = k_sched k \<Longrightarrow> kernel_ok k'"
  by (auto simp: kernel_ok_def powered_def)

section \<open>Rows\<close>

lemma row_ids_simps [simp]:
  "row_ids [] = []"
  "row_ids (r # rs) = (case row_id r of None \<Rightarrow> row_ids rs | Some i \<Rightarrow> i # row_ids rs)"
  by (simp_all add: row_ids_def split: option.split)

lemma row_id_of [simp]: "row_id (row_of e) = Some (ae_id e)"
  by (simp add: row_of_def)

lemma row_ids_save:
  "row_ids (save_row e rs) = (if ae_id e \<in> set (row_ids rs) then row_ids rs else row_ids rs @ [ae_id e])"
  by (induction rs) (auto split: option.splits)

lemma distinct_save: "distinct (row_ids rs) \<Longrightarrow> distinct (row_ids (save_row e rs))"
  by (simp add: row_ids_save)

lemma row_ids_delete: "row_ids (delete_row a rs) = filter (\<lambda>i. i \<noteq> a) (row_ids rs)"
  by (induction rs) (auto simp: delete_row_def split: option.splits)

lemma save_agent_sel [simp]:
  "k_registry (save_agent s a k) = k_registry k" "k_caps (save_agent s a k) = k_caps k"
  "k_sched (save_agent s a k) = k_sched k"
  by (simp_all add: save_agent_def split: option.split)

lemma kernel_ok_save:
  assumes "kernel_ok k"
  shows "kernel_ok (save_agent s a k)"
proof (rule kernel_okI)
  show "registry_ok (k_registry (save_agent s a k))" using kernel_okD(1) [OF assms] by simp
  show "distinct (row_ids (k_rows (save_agent s a k)))"
    using kernel_okD(2) [OF assms] by (simp add: save_agent_def distinct_save split: option.split)
  show "powered (save_agent s a k) i e" if "get_agent i (k_registry (save_agent s a k)) = Some e" for i e
    using kernel_okD(3) [OF assms] that by (simp add: powered_def)
qed

lemma audit_sel [simp]:
  "k_registry (audit sh a act det out k) = k_registry k" "k_rows (audit sh a act det out k) = k_rows k"
  "k_caps (audit sh a act det out k) = k_caps k" "k_sched (audit sh a act det out k) = k_sched k"
  "k_super (audit sh a act det out k) = k_super k" "k_cron (audit sh a act det out k) = k_cron k"
  "k_triggers (audit sh a act det out k) = k_triggers k" "k_sessions (audit sh a act det out k) = k_sessions k"
  by (simp_all add: audit_def)

section \<open>Updates of entries\<close>

definition same_powers :: "'j agent_manifest \<Rightarrow> 'j agent_manifest \<Rightarrow> bool" where
  "same_powers m m' \<longleftrightarrow> mf_capabilities m' = mf_capabilities m \<and> mf_profile m' = mf_profile m
     \<and> mf_resources m' = mf_resources m"

lemma same_powers_capabilities: "same_powers m m' \<Longrightarrow> manifest_to_capabilities m' = manifest_to_capabilities m"
  by (simp add: same_powers_def manifest_to_capabilities_def effective_capabilities_def)

text \<open>An update that keeps id, name, tags and powers of the entries it touches.\<close>

definition harmless :: "('j agent_entry \<Rightarrow> 'j agent_entry) \<Rightarrow> bool" where
  "harmless f \<longleftrightarrow> (\<forall>e. ae_id (f e) = ae_id e \<and> ae_name (f e) = ae_name e \<and> ae_tags (f e) = ae_tags e
     \<and> same_powers (ae_manifest e) (ae_manifest (f e)))"

lemma get_agent_touch:
  "get_agent j (fst (touch sh now f i r)) =
     (if j = i then map_option (\<lambda>e. (f e)\<lparr> ae_last_active := now \<rparr>) (get_agent i r) else get_agent j r)"
  by (simp add: touch_def get_agent_def split: option.split)

lemma kernel_ok_touch:
  assumes ok: "kernel_ok k" and f: "harmless f"
  shows "kernel_ok (k\<lparr> k_registry := fst (touch sh now f i (k_registry k)) \<rparr>)"
proof (rule kernel_okI)
  let ?k = "k\<lparr> k_registry := fst (touch sh now f i (k_registry k)) \<rparr>"
  show "registry_ok (k_registry ?k)"
    using registry_ok_touch [OF kernel_okD(1) [OF ok], of f] f by (simp add: harmless_def)
  show "distinct (row_ids (k_rows ?k))" using kernel_okD(2) [OF ok] by simp
  show "powered ?k j e" if "get_agent j (k_registry ?k) = Some e" for j e
  proof (cases "j = i")
    case True
    with that obtain d where d: "get_agent i (k_registry k) = Some d" "e = (f d)\<lparr> ae_last_active := now \<rparr>"
      by (auto simp: get_agent_touch)
    have "same_powers (ae_manifest d) (ae_manifest e)" using f d(2) by (simp add: harmless_def)
    then show ?thesis
      using kernel_okD(3) [OF ok d(1)] True same_powers_capabilities
      by (fastforce simp: powered_def same_powers_def)
  next
    case False
    with that have "get_agent j (k_registry k) = Some e" by (simp add: get_agent_touch)
    then show ?thesis using kernel_okD(3) [OF ok] by (simp add: powered_def)
  qed
qed

lemma touch_failed: "touch sh now f i r = (r', Inl err) \<Longrightarrow> r' = r"
  by (auto simp: touch_def split: option.splits)

lemma kernel_ok_then_save:
  assumes ok: "kernel_ok k" and f: "harmless f"
  shows "kernel_ok (fst (then_save s a (touch sh now f i) k))"
proof -
  obtain r x where t: "touch sh now f i (k_registry k) = (r, x)" by (cases "touch sh now f i (k_registry k)")
  then show ?thesis
    using ok kernel_ok_touch [OF ok f, of sh now i] by (cases x) (auto simp: then_save_def intro: kernel_ok_save)
qed

lemmas harmless_updates = harmless_def same_powers_def

lemma kernel_ok_settings:
  assumes ok: "kernel_ok k"
  shows "kernel_ok (fst (set_agent_model E now s catalog a model k))"
    and "kernel_ok (fst (set_agent_thinking E now s a on k))"
    and "kernel_ok (fst (set_agent_skills E now s known a ns k))"
    and "kernel_ok (fst (set_agent_mcp_servers E now s ts a ns k))"
  using ok
  by (auto simp: set_agent_model_def set_agent_thinking_def set_agent_skills_def set_agent_mcp_servers_def
      entry_updates harmless_updates Let_def intro!: kernel_ok_then_save split: option.splits)

lemma kernel_ok_state:
  "kernel_ok k \<Longrightarrow> kernel_ok (k\<lparr> k_registry := fst (set_state sh now s a (k_registry k)) \<rparr>)"
  by (auto simp: entry_updates harmless_updates intro: kernel_ok_touch)

lemma kernel_ok_mode:
  "kernel_ok k \<Longrightarrow> kernel_ok (k\<lparr> k_registry := fst (set_mode sh now m a (k_registry k)) \<rparr>)"
  by (auto simp: entry_updates harmless_updates intro: kernel_ok_touch)

lemma kernel_ok_tools:
  assumes ok: "kernel_ok k"
  shows "kernel_ok (fst (set_agent_tools E now s a tools k))"
proof (cases "get_agent a (k_registry k)")
  case None
  then show ?thesis using ok by (simp add: set_agent_tools_def entry_updates touch_def get_agent_def)
next
  case (Some e)
  let ?r = "fst (update_tools (ke_show E) now tools a (k_registry k))"
  obtain e' where e': "get_agent a ?r = Some e'" "mf_resources (ae_manifest e') = mf_resources (ae_manifest e)"
    using that Some by (simp add: entry_updates get_agent_touch)
  let ?k = "k\<lparr> k_registry := ?r, k_caps := grant a (manifest_to_capabilities (ae_manifest e')) (k_caps k) \<rparr>"
  have "kernel_ok ?k"
  proof (rule kernel_okI)
    show "registry_ok (k_registry ?k)"
      using kernel_okD(1) [OF ok] by (auto simp: entry_updates intro: registry_ok_touch)
    show "distinct (row_ids (k_rows ?k))" using kernel_okD(2) [OF ok] by simp
    show "powered ?k j d" if "get_agent j (k_registry ?k) = Some d" for j d
    proof (cases "j = a")
      case True
      then show ?thesis using that e' kernel_okD(3) [OF ok Some] by (simp add: powered_def grant_def)
    next
      case False
      then have "get_agent j (k_registry k) = Some d" using that by (simp add: entry_updates get_agent_touch)
      then show ?thesis using kernel_okD(3) [OF ok] False by (simp add: powered_def grant_def)
    qed
  qed
  moreover have "fst (set_agent_tools E now s a tools k) = save_agent s a ?k"
    using Some e'(1) by (simp add: set_agent_tools_def entry_updates touch_def get_agent_def)
  ultimately show ?thesis by (simp add: kernel_ok_save)
qed

end
