(* ===== verification/Kernel_Steps.thy ===== *)
theory Kernel_Steps
  imports Kernel_Invariant
begin

text \<open>
  The kernel's operations as steps: what a spawn can do, and that every step keeps the invariant
  of \<open>Kernel_Invariant\<close>.
\<close>

section \<open>Spawning\<close>

text \<open>The manifest a spawn stores differs from the given one in policy, group, model and directory only.\<close>

definition derived :: "'j agent_manifest \<Rightarrow> 'j agent_manifest \<Rightarrow> bool" where
  "derived m0 m \<longleftrightarrow> same_powers m0 m \<and> mf_name m = mf_name m0 \<and> mf_autonomous m = mf_autonomous m0
     \<and> mf_schedule m = mf_schedule m0 \<and> mf_tags m = mf_tags m0 \<and> mf_module m = mf_module m0
     \<and> mf_skills m = mf_skills m0 \<and> mf_mcp_servers m = mf_mcp_servers m0"

definition started :: "spawn_input \<Rightarrow> nat option \<Rightarrow> 'j agent_manifest \<Rightarrow> ('j, 'h, 'd, 'c) kernel
    \<Rightarrow> ('j, 'h, 'd, 'c) kernel" where
  "started si p m k = (activate (si_mono si) (si_id si) m
     (k\<lparr> k_sessions := k_sessions k @ [(si_session si, si_id si)] \<rparr>))
       \<lparr> k_registry := insert_entry (new_entry si p m) (k_registry k) \<rparr>"

text \<open>The parts of the kernel an early failure of a spawn leaves alone.\<close>

definition untouched :: "nat \<Rightarrow> ('j, 'h, 'd, 'c) kernel \<Rightarrow> ('j, 'h, 'd, 'c) kernel \<Rightarrow> bool" where
  "untouched i k k' \<longleftrightarrow> k_registry k' = k_registry k \<and> k_rows k' = k_rows k \<and> k_triggers k' = k_triggers k
     \<and> k_audit k' = k_audit k \<and> k_cron k' = k_cron k \<and> k_super k' = k_super k \<and> k_bus k' = k_bus k
     \<and> (\<forall>j. j \<noteq> i \<longrightarrow> k_caps k' j = k_caps k j \<and> quotas (k_sched k') j = quotas (k_sched k) j
           \<and> usage (k_sched k') j = usage (k_sched k) j)"

lemma new_entry_sel [simp]:
  "ae_id (new_entry si p m) = si_id si" "ae_name (new_entry si p m) = mf_name m"
  "ae_manifest (new_entry si p m) = m" "ae_mode (new_entry si p m) = Full_mode"
  "ae_parent (new_entry si p m) = p" "ae_children (new_entry si p m) = []"
  "ae_session (new_entry si p m) = si_session si" "ae_state (new_entry si p m) = Agent_running"
  by (simp_all add: new_entry_def)

lemma derived_policy: "derived m0 (inherit_exec_policy E m0)"
  by (simp add: inherit_exec_policy_def derived_def same_powers_def)

lemma derived_overlay: "derived m0 m \<Longrightarrow> derived m0 (overlay_default_model E m)"
  by (simp add: overlay_default_model_def derived_def same_powers_def Let_def)

lemma derived_prepared: "derived m0 (prepare_manifest E a m0 g)"
proof -
  let ?m = "(inherit_exec_policy E m0)\<lparr> mf_group := g \<rparr>"
  have "derived m0 ?m" using derived_policy [of m0 E] by (simp add: derived_def same_powers_def)
  then have "derived m0 (overlay_default_model E ?m)" by (rule derived_overlay)
  then show ?thesis by (simp add: prepare_manifest_def Let_def derived_def same_powers_def)
qed

lemma spawn_outcome:
  assumes "spawn_agent_with_parent E si m0 p k = (k', res)"
  shows "((\<exists>err. res = Inl err) \<and> untouched (si_id si) k k')
     \<or> (\<exists>m. derived m0 m \<and> \<not> name_taken (new_entry si p m) (k_registry k)
            \<and> finish_spawn E si p (new_entry si p m) (started si p m k) = (k', res))"
proof (cases "si_session_error si")
  case (Some err)
  then show ?thesis using assms by (auto simp: spawn_agent_with_parent_def untouched_def)
next
  case ses: None
  let ?k = "k\<lparr> k_sessions := k_sessions k @ [(si_session si, si_id si)] \<rparr>"
  show ?thesis
  proof (cases "normalize_agent_group (mf_group m0)")
    case (Inl err)
    then show ?thesis using assms ses by (auto simp: spawn_agent_with_parent_def untouched_def)
  next
    case (Inr g)
    show ?thesis
    proof (cases "si_workspace_error si")
      case (Some err)
      then show ?thesis using assms ses Inr by (auto simp: spawn_agent_with_parent_def untouched_def)
    next
      case None
      define m where "m = prepare_manifest E (si_id si) m0 g"
      have s: "admit_agent E si p m ?k = (k', res)"
        using assms ses Inr None by (simp add: spawn_agent_with_parent_def m_def)
      show ?thesis
      proof (cases "name_taken (new_entry si p m) (k_registry k)")
        case True
        then show ?thesis using s
          by (auto simp: admit_agent_def register_agent_def activate_def untouched_def grant_def register_quota_def)
      next
        case False
        then have "finish_spawn E si p (new_entry si p m) (started si p m k) = (k', res)"
          using s by (simp add: admit_agent_def register_agent_def activate_def started_def Let_def)
        then show ?thesis using derived_prepared False unfolding m_def by blast
      qed
    qed
  qed
qed

lemma started_sel [simp]:
  "k_registry (started si p m k) = insert_entry (new_entry si p m) (k_registry k)"
  "k_rows (started si p m k) = k_rows k"
  "k_caps (started si p m k) = grant (si_id si) (manifest_to_capabilities m) (k_caps k)"
  "k_sched (started si p m k) = register_quota (si_mono si) (si_id si) (mf_resources m) (k_sched k)"
  "k_super (started si p m k) = k_super k" "k_cron (started si p m k) = k_cron k"
  by (simp_all add: started_def activate_def)

lemma get_insert_entry:
  "get_agent i (insert_entry e r) = (if i = ae_id e then Some e else get_agent i r)"
  by (simp add: get_agent_def insert_entry_def)

lemma get_add_child:
  "get_agent i (add_child p c r) =
     (if i = p then map_option (\<lambda>e. e\<lparr> ae_children := ae_children e @ [c] \<rparr>) (get_agent p r) else get_agent i r)"
  by (simp add: get_agent_def add_child_def split: option.split)

lemma powered_fields:
  "powered k i e \<Longrightarrow> k_caps k' i = k_caps k i \<Longrightarrow> quotas (k_sched k') i = quotas (k_sched k) i
     \<Longrightarrow> usage (k_sched k') i = usage (k_sched k) i \<Longrightarrow> ae_manifest e' = ae_manifest e \<Longrightarrow> powered k' i e'"
  by (simp add: powered_def)

lemma kernel_ok_started:
  assumes ok: "kernel_ok k" and free: "\<not> name_taken (new_entry si p m) (k_registry k)"
    and fresh: "get_agent (si_id si) (k_registry k) = None"
  shows "kernel_ok (started si p m k)"
proof (rule kernel_okI)
  show "registry_ok (k_registry (started si p m k))"
    using registry_ok_insert [OF kernel_okD(1) [OF ok] free] fresh by (simp add: get_agent_def)
  show "distinct (row_ids (k_rows (started si p m k)))" using kernel_okD(2) [OF ok] by simp
  show "powered (started si p m k) i e" if "get_agent i (k_registry (started si p m k)) = Some e" for i e
  proof (cases "i = si_id si")
    case True
    then show ?thesis using that by (auto simp: get_insert_entry powered_def grant_def register_quota_def)
  next
    case False
    then have "powered k i e" using that kernel_okD(3) [OF ok] by (simp add: get_insert_entry)
    then show ?thesis using False by (simp add: powered_def grant_def register_quota_def)
  qed
qed

lemma kernel_ok_add_child:
  assumes ok: "kernel_ok k"
  shows "kernel_ok (k\<lparr> k_registry := add_child p c (k_registry k) \<rparr>)"
proof (rule kernel_okI)
  let ?k = "k\<lparr> k_registry := add_child p c (k_registry k) \<rparr>"
  show "registry_ok (k_registry ?k)" using registry_ok_add_child [OF kernel_okD(1) [OF ok]] by simp
  show "distinct (row_ids (k_rows ?k))" using kernel_okD(2) [OF ok] by simp
  show "powered ?k i e" if "get_agent i (k_registry ?k) = Some e" for i e
  proof -
    from that obtain d where "get_agent i (k_registry k) = Some d" "ae_manifest e = ae_manifest d"
      by (auto simp: get_add_child split: if_splits)
    then show ?thesis using kernel_okD(3) [OF ok] by (simp add: powered_def)
  qed
qed

lemma finish_spawn_ok:
  assumes ok: "kernel_ok k"
  shows "kernel_ok (fst (finish_spawn E si p e k))"
proof -
  let ?k = "case p of None \<Rightarrow> k | Some q \<Rightarrow> k\<lparr> k_registry := add_child q (ae_id e) (k_registry k) \<rparr>"
  have c: "kernel_ok ?k" using ok kernel_ok_add_child by (auto split: option.split)
  show ?thesis
  proof (cases "si_save_error si")
    case None
    have "kernel_ok (?k\<lparr> k_rows := save_row e (k_rows ?k) \<rparr>)"
      by (rule kernel_okI)
         (use kernel_okD [OF c] in \<open>simp_all add: distinct_save powered_def\<close>)
    then show ?thesis
      by (rule kernel_ok_cong) (simp_all add: finish_spawn_def Let_def None)
  qed (use c in \<open>simp add: finish_spawn_def Let_def\<close>)
qed

lemma kernel_ok_spawn:
  assumes ok: "kernel_ok k" and fresh: "get_agent (si_id si) (k_registry k) = None"
  shows "kernel_ok (fst (spawn_agent_with_parent E si m0 p k))"
proof -
  obtain k' res where s: "spawn_agent_with_parent E si m0 p k = (k', res)"
    by (cases "spawn_agent_with_parent E si m0 p k")
  from spawn_outcome [OF s] show ?thesis
  proof
    assume "(\<exists>err. res = Inl err) \<and> untouched (si_id si) k k'"
    then have u: "untouched (si_id si) k k'" by blast
    have "kernel_ok k'"
    proof (rule kernel_okI)
      show "registry_ok (k_registry k')" "distinct (row_ids (k_rows k'))"
        using u kernel_okD(1,2) [OF ok] by (simp_all add: untouched_def)
      show "powered k' i e" if "get_agent i (k_registry k') = Some e" for i e
      proof -
        have g: "get_agent i (k_registry k) = Some e" "i \<noteq> si_id si"
          using that u fresh by (auto simp: untouched_def)
        show ?thesis using kernel_okD(3) [OF ok g(1)] u g(2) by (simp add: powered_def untouched_def)
      qed
    qed
    then show ?thesis using s by simp
  next
    assume "\<exists>m. derived m0 m \<and> \<not> name_taken (new_entry si p m) (k_registry k)
            \<and> finish_spawn E si p (new_entry si p m) (started si p m k) = (k', res)"
    then obtain m where "\<not> name_taken (new_entry si p m) (k_registry k)"
      "finish_spawn E si p (new_entry si p m) (started si p m k) = (k', res)" by blast
    then show ?thesis
      using s finish_spawn_ok [OF kernel_ok_started [OF ok _ fresh], of p m E si p "new_entry si p m"] by simp
  qed
qed

section \<open>Stopping and restarting\<close>

lemma get_remove_agent:
  assumes "remove_agent sh a r = (r', Inr e)"
  shows "get_agent a r = Some e" and "get_agent i r' = (if i = a then None else get_agent i r)"
    and "r' = fst (remove_agent sh a r)"
  using assms by (auto simp: remove_agent_def get_agent_def split: option.splits)

lemma remove_agent_error: "remove_agent sh a r = (r', Inl err) \<Longrightarrow> get_agent a r = None"
  by (auto simp: remove_agent_def get_agent_def split: option.splits)

lemma unregister_sel:
  "quotas (fst (unregister a s)) = (quotas s)(a := None)" "usage (fst (unregister a s)) = (usage s)(a := None)"
  by (simp_all add: unregister_def abort_task_def split: option.split)

lemma stop_runtime_sel [simp]:
  "k_registry (fst (stop_runtime E io a k)) = k_registry k" "k_rows (fst (stop_runtime E io a k)) = k_rows k"
  "k_caps (fst (stop_runtime E io a k)) = revoke_all a (k_caps k)"
  "k_sched (fst (stop_runtime E io a k)) = fst (unregister a (k_sched k))"
  "k_super (fst (stop_runtime E io a k)) = k_super k" "k_cron (fst (stop_runtime E io a k)) = k_cron k"
  "k_sessions (fst (stop_runtime E io a k)) = k_sessions k"
  "k_triggers (fst (stop_runtime E io a k)) = remove_agent_triggers (ke_trig_enc E) io a (k_triggers k)"
  "k_bus (fst (stop_runtime E io a k)) = unsubscribe_agent a (k_bus k)"
  "k_background (fst (stop_runtime E io a k)) = (k_background k)(a := None)"
  "k_running (fst (stop_runtime E io a k)) = (k_running k)(a := None)"
  by (auto simp: stop_runtime_def drop_handle_def split: prod.split option.split)

lemma kernel_ok_stopped:
  assumes ok: "kernel_ok k" and rm: "remove_agent sh a (k_registry k) = (r, Inr e)"
  shows "kernel_ok (fst (stop_runtime E io a (k\<lparr> k_registry := r \<rparr>)))" (is "kernel_ok ?k")
proof (rule kernel_okI)
  show "registry_ok (k_registry ?k)"
    using registry_ok_remove [OF kernel_okD(1) [OF ok], of sh a] rm by simp
  show "distinct (row_ids (k_rows ?k))" using kernel_okD(2) [OF ok] by simp
  show "powered ?k i d" if "get_agent i (k_registry ?k) = Some d" for i d
  proof -
    have "get_agent i (k_registry k) = Some d" "i \<noteq> a"
      using that get_remove_agent(2) [OF rm, of i] by (auto split: if_splits)
    then show ?thesis
      using kernel_okD(3) [OF ok, of i d] by (simp add: powered_def revoke_all_def unregister_sel)
  qed
qed

lemma kernel_ok_kill:
  assumes "kernel_ok k"
  shows "kernel_ok (fst (kill_agent E io deleted a k))"
proof -
  obtain r x where rm: "remove_agent (ke_show E) a (k_registry k) = (r, x)"
    by (cases "remove_agent (ke_show E) a (k_registry k)")
  show ?thesis
  proof (cases x)
    case (Inl err)
    then show ?thesis using assms rm by (simp add: kill_agent_def)
  next
    case (Inr e)
    have rm: "remove_agent (ke_show E) a (k_registry k) = (r, Inr e)" using rm Inr by simp
    obtain k1 hs where k1: "stop_runtime E io a (k\<lparr> k_registry := r \<rparr>) = (k1, hs)" by fastforce
    let ?rows = "if snd deleted then delete_row a (k_rows k1) else k_rows k1"
    have ok: "kernel_ok k1" using kernel_ok_stopped [OF assms rm, of E io] k1 by simp
    have "kernel_ok (k1\<lparr> k_rows := ?rows \<rparr>)"
      by (rule kernel_okI) (use kernel_okD [OF ok] in \<open>simp_all add: row_ids_delete powered_def\<close>)
    then show ?thesis
      by (rule kernel_ok_cong) (simp_all add: kill_agent_def rm k1 Let_def)
  qed
qed

lemma spawn_agent_cron:
  "k_cron (fst (spawn_agent_with_parent E si m p k)) = k_cron k"
proof -
  obtain k' res where s: "spawn_agent_with_parent E si m p k = (k', res)"
    by (cases "spawn_agent_with_parent E si m p k")
  have "k_cron (fst (finish_spawn E si p e j)) = k_cron j" for e j
    by (simp add: finish_spawn_def Let_def split: option.split)
  note fin = this
  from spawn_outcome [OF s] have "k_cron k' = k_cron k"
  proof
    assume "\<exists>m'. derived m m' \<and> \<not> name_taken (new_entry si p m') (k_registry k)
            \<and> finish_spawn E si p (new_entry si p m') (started si p m' k) = (k', res)"
    then obtain m' where "finish_spawn E si p (new_entry si p m') (started si p m' k) = (k', res)" by blast
    then show ?thesis using fin [of "new_entry si p m'" "started si p m' k"] by simp
  qed (simp add: untouched_def)
  then show ?thesis using s by simp
qed

lemma respawn_sel:
  assumes "spawn_agent E si m k = (k', res)"
  shows "k_registry (fst (respawn E si pc a m k)) = k_registry k'" "k_rows (fst (respawn E si pc a m k)) = k_rows k'"
    and "k_caps (fst (respawn E si pc a m k)) = k_caps k'" "k_sched (fst (respawn E si pc a m k)) = k_sched k'"
    and "k_triggers (fst (respawn E si pc a m k)) = k_triggers k'"
    and "snd (respawn E si pc a m k) = map_sum id (\<lambda>i. (a, i)) res"
  using assms by (cases res; simp add: respawn_def Let_def split: prod.split)+

lemma give_up_sel [simp]:
  "k_registry (fst (give_up_restart E a n c m k)) = k_registry k" "k_rows (fst (give_up_restart E a n c m k)) = k_rows k"
  "k_caps (fst (give_up_restart E a n c m k)) = k_caps k" "k_sched (fst (give_up_restart E a n c m k)) = k_sched k"
  "k_super (fst (give_up_restart E a n c m k)) = k_super k"
  by (simp_all add: give_up_restart_def)

lemma stop_for_restart_sel [simp]:
  "k_registry (fst (stop_for_restart E io a n k)) = k_registry k" "k_rows (fst (stop_for_restart E io a n k)) = k_rows k"
  "k_caps (fst (stop_for_restart E io a n k)) = revoke_all a (k_caps k)"
  "k_sched (fst (stop_for_restart E io a n k)) = fst (unregister a (k_sched k))"
  "k_super (fst (stop_for_restart E io a n k)) = k_super k" "k_cron (fst (stop_for_restart E io a n k)) = k_cron k"
  "k_triggers (fst (stop_for_restart E io a n k)) = remove_agent_triggers (ke_trig_enc E) io a (k_triggers k)"
  by (simp_all add: stop_for_restart_def Let_def case_prod_beta)

text \<open>A restart in one equation: what was removed, and the kernel the new agent is spawned in.\<close>

lemma restart_outcome:
  assumes rm: "remove_agent (ke_show E) a (k_registry k) = (r, Inr e)"
    and k1: "k1 = fst (stop_for_restart E io a (ae_name e) (k\<lparr> k_registry := r \<rparr>))"
  shows "(\<exists>s c. record_agent_restart a (max_restarts_of (ae_manifest e)) (k_super k) = (s, Inl c)
            \<and> fst (restart_agent E io si pc a k)
              = fst (give_up_restart E a (ae_name e) c (max_restarts_of (ae_manifest e)) (k1\<lparr> k_super := s \<rparr>))
            \<and> (\<exists>err. snd (snd (restart_agent E io si pc a k)) = Inl err))
     \<or> (\<exists>s c. record_agent_restart a (max_restarts_of (ae_manifest e)) (k_super k) = (s, Inr c)
            \<and> fst (restart_agent E io si pc a k) = fst (respawn E si pc a (ae_manifest e) (k1\<lparr> k_super := s \<rparr>))
            \<and> snd (snd (restart_agent E io si pc a k)) = snd (respawn E si pc a (ae_manifest e) (k1\<lparr> k_super := s \<rparr>)))"
proof -
  obtain s y where s: "record_agent_restart a (max_restarts_of (ae_manifest e)) (k_super k) = (s, y)" by fastforce
  obtain hs where st: "stop_for_restart E io a (ae_name e) (k\<lparr> k_registry := r \<rparr>) = (k1, hs)"
    using k1 by (metis prod.collapse)
  have sup: "k_super k1 = k_super k" using k1 by simp
  show ?thesis
    by (cases y) (simp_all add: restart_agent_def rm st s sup Let_def case_prod_beta)
qed

lemma kernel_ok_restart:
  assumes ok: "kernel_ok k" and fresh: "get_agent (si_id si) (k_registry k) = None"
  shows "kernel_ok (fst (restart_agent E io si pc a k))"
proof -
  obtain r x where rm: "remove_agent (ke_show E) a (k_registry k) = (r, x)"
    by (cases "remove_agent (ke_show E) a (k_registry k)")
  show ?thesis
  proof (cases x)
    case (Inl err)
    then show ?thesis using ok rm by (simp add: restart_agent_def)
  next
    case (Inr e)
    have rm: "remove_agent (ke_show E) a (k_registry k) = (r, Inr e)" using rm Inr by simp
    define k1 where "k1 = fst (stop_for_restart E io a (ae_name e) (k\<lparr> k_registry := r \<rparr>))"
    have ok1: "kernel_ok (k1\<lparr> k_super := s \<rparr>)" for s
      by (rule kernel_ok_cong [OF kernel_ok_stopped [OF ok rm, of E io]]) (simp_all add: k1_def)
    have gone: "get_agent (si_id si) (k_registry (k1\<lparr> k_super := s \<rparr>)) = None" for s
      using fresh get_remove_agent(2) [OF rm, of "si_id si"] by (simp add: k1_def)
    from restart_outcome [OF rm k1_def, of si pc] show ?thesis
    proof (elim disjE exE conjE)
      fix s c err
      assume "fst (restart_agent E io si pc a k)
        = fst (give_up_restart E a (ae_name e) c (max_restarts_of (ae_manifest e)) (k1\<lparr> k_super := s \<rparr>))"
      then show ?thesis by (simp only:) (rule kernel_ok_cong [OF ok1 [of s]], simp_all)
    next
      fix s c
      assume f: "fst (restart_agent E io si pc a k) = fst (respawn E si pc a (ae_manifest e) (k1\<lparr> k_super := s \<rparr>))"
      obtain k3 z where sp: "spawn_agent E si (ae_manifest e) (k1\<lparr> k_super := s \<rparr>) = (k3, z)" by fastforce
      have "kernel_ok (fst (spawn_agent_with_parent E si (ae_manifest e) None (k1\<lparr> k_super := s \<rparr>)))"
        by (rule kernel_ok_spawn [OF ok1 gone])
      then have "kernel_ok k3" using sp by (simp add: spawn_agent_def)
      then show ?thesis unfolding f by (rule kernel_ok_cong) (simp_all add: respawn_sel [OF sp])
    qed
  qed
qed

section \<open>Boot\<close>

lemma load_rows_ids:
  "distinct (row_ids rs) \<Longrightarrow>
     distinct (map ae_id (load_rows lower fresh now seen rs))
     \<and> ae_id ` set (load_rows lower fresh now seen rs) \<subseteq> set (row_ids rs)"
proof (induction rs arbitrary: seen)
  case (Cons r rs)
  let ?seen = "insert (lower (row_name r)) seen"
  have d: "distinct (row_ids rs)" using Cons.prems by (simp split: option.splits)
  note IH = Cons.IH [OF d, of seen] Cons.IH [OF d, of ?seen]
  show ?case
    using Cons.prems IH
    by (auto simp: Let_def entry_of_row_def split: option.splits)
qed simp

lemma load_rows_names:
  "distinct (map (\<lambda>e. lower (ae_name e)) (load_rows lower fresh now seen rs))
   \<and> (\<forall>e \<in> set (load_rows lower fresh now seen rs). lower (ae_name e) \<notin> seen)"
proof (induction rs arbitrary: seen)
  case (Cons r rs)
  note IH = Cons.IH [of seen] Cons.IH [of "insert (lower (row_name r)) seen"]
  show ?case using IH by (auto simp: Let_def entry_of_row_def split: option.splits)
qed simp

lemma restore_one_sel:
  "k_rows (restore_one E tick e k) = k_rows k"
  "k_caps (restore_one E tick e k) = grant (ae_id e) (manifest_to_capabilities (ae_manifest e)) (k_caps k)"
  "k_sched (restore_one E tick e k) = register_quota tick (ae_id e) (mf_resources (ae_manifest e)) (k_sched k)"
  "k_registry (restore_one E tick e k) = fst (register_agent
     (e\<lparr> ae_state := Agent_running, ae_manifest := inherit_exec_policy E (ae_manifest e) \<rparr>) (k_registry k))"
  "k_cron (restore_one E tick e k) = k_cron k" "k_super (restore_one E tick e k) = k_super k"
  by (simp_all add: restore_one_def activate_def Let_def)

lemma get_register_agent:
  "get_agent i (fst (register_agent e r)) = (if i = ae_id e \<and> \<not> name_taken e r then Some e else get_agent i r)"
  by (auto simp: register_agent_def get_insert_entry)

lemma kernel_ok_restore_one:
  assumes ok: "kernel_ok k" and fresh: "get_agent (ae_id e) (k_registry k) = None"
  shows "kernel_ok (restore_one E tick e k)"
proof (rule kernel_okI)
  let ?e = "e\<lparr> ae_state := Agent_running, ae_manifest := inherit_exec_policy E (ae_manifest e) \<rparr>"
  have "registry_ok (fst (register_agent ?e (k_registry k)))"
    by (rule registry_ok_register [OF kernel_okD(1) [OF ok]]) (use fresh in \<open>simp add: get_agent_def\<close>)
  then show "registry_ok (k_registry (restore_one E tick e k))" by (simp only: restore_one_sel)
  show "distinct (row_ids (k_rows (restore_one E tick e k)))" using kernel_okD(2) [OF ok] by (simp only: restore_one_sel)
  show "powered (restore_one E tick e k) i d" if g: "get_agent i (k_registry (restore_one E tick e k)) = Some d" for i d
  proof (cases "i = ae_id e")
    case True
    with g fresh have "d = ?e" by (simp add: restore_one_sel get_register_agent split: if_splits)
    moreover have "same_powers (ae_manifest e) (inherit_exec_policy E (ae_manifest e))"
      using derived_policy [of "ae_manifest e" E] unfolding derived_def by blast
    ultimately show ?thesis
      using True same_powers_capabilities
      by (fastforce simp: powered_def restore_one_sel grant_def register_quota_def same_powers_def)
  next
    case False
    with g have "powered k i d" using kernel_okD(3) [OF ok] by (simp add: restore_one_sel get_register_agent)
    then show ?thesis using False by (simp add: powered_def restore_one_sel grant_def register_quota_def)
  qed
qed

lemma kernel_ok_restore:
  "kernel_ok k \<Longrightarrow> distinct (map ae_id es) \<Longrightarrow> (\<forall>e \<in> set es. get_agent (ae_id e) (k_registry k) = None)
     \<Longrightarrow> kernel_ok (fold (restore_one E tick) es k)"
proof (induction es arbitrary: k)
  case (Cons e es)
  have "kernel_ok (restore_one E tick e k)" using Cons.prems by (simp add: kernel_ok_restore_one)
  moreover have "\<forall>f \<in> set es. get_agent (ae_id f) (k_registry (restore_one E tick e k)) = None"
  proof
    fix f
    assume f: "f \<in> set es"
    then have "ae_id f \<in> ae_id ` set es" by (rule imageI)
    then have "ae_id f \<noteq> ae_id e" using Cons.prems(2) by auto
    then show "get_agent (ae_id f) (k_registry (restore_one E tick e k)) = None"
      using Cons.prems(3) f by (simp add: restore_one_sel get_register_agent)
  qed
  ultimately show ?case using Cons.IH [of "restore_one E tick e k"] Cons.prems by simp
qed simp

lemma kernel_ok_boot:
  assumes "kernel_ok k"
  shows "kernel_ok (boot E dec readable load_cron fresh tick now k)"
  unfolding boot_def restore_agents_def load_all_agents_def
proof (rule kernel_ok_restore, goal_cases)
  case 1
  then show ?case
    using kernel_okD(2) [OF assms] registry_ok_new by (auto intro!: kernel_okI simp: get_agent_def new_registry_def)
next
  case 2
  then show ?case using load_rows_ids [OF kernel_okD(2) [OF assms]] by simp
next
  case 3
  then show ?case by (simp add: get_agent_def new_registry_def)
qed

section \<open>Reachable kernels\<close>

lemma kernel_ok_suspend:
  assumes "kernel_ok k"
  shows "kernel_ok (suspend_agents E now saved k)"
proof -
  have "kernel_ok (fold (suspend_one E now saved) es k)" for es
    using assms
    by (induction es arbitrary: k) (simp_all add: suspend_one_def kernel_ok_save kernel_ok_state)
  then show ?thesis by (simp add: suspend_agents_def)
qed

lemma quota_checked:
  "quotas (fst (check_quota tick a s)) = quotas s"
  "(usage (fst (check_quota tick a s)) i = None) = (usage s i = None)"
  "quotas (record_usage tick a tok n s) = quotas s"
  "(usage (record_usage tick a tok n s) i = None) = (usage s i = None)"
  by (auto simp: check_quota_def record_usage_def Let_def split: option.splits)

lemma kernel_ok_sched:
  assumes ok: "kernel_ok k" and "quotas s = quotas (k_sched k)" and "\<And>i. (usage s i = None) = (usage (k_sched k) i = None)"
  shows "kernel_ok (k\<lparr> k_sched := s \<rparr>)"
  by (rule kernel_okI) (use kernel_okD [OF ok] assms(2,3) in \<open>simp_all add: powered_def\<close>)

lemma kernel_ok_messages:
  assumes ok: "kernel_ok k"
  shows "kernel_ok (fst (message_gate E tick a k))" and "kernel_ok (message_done E tick now a tok n k)"
    and "kernel_ok (message_failed E a err k)"
proof -
  have "fst (message_gate E tick a k) = k\<lparr> k_sched := fst (check_quota tick a (k_sched k)) \<rparr>"
    by (simp add: message_gate_def split: prod.split sum.split)
  then show "kernel_ok (fst (message_gate E tick a k))" by (simp add: kernel_ok_sched [OF ok] quota_checked)
  have "kernel_ok (k\<lparr> k_sched := record_usage tick a tok (n - 1) (k_sched k) \<rparr>)"
    by (simp add: kernel_ok_sched [OF ok] quota_checked)
  from kernel_ok_state [OF this, of "ke_show E" now Agent_running a]
  show "kernel_ok (message_done E tick now a tok n k)"
    by (rule kernel_ok_cong) (simp_all add: message_done_def)
  show "kernel_ok (message_failed E a err k)"
    by (rule kernel_ok_cong [OF ok]) (simp_all add: message_failed_def Let_def)
qed

inductive kernel_step :: "('j, 'd) kernel_env \<Rightarrow> ('j, 'h, 'd, 'c) kernel \<Rightarrow> ('j, 'h, 'd, 'c) kernel \<Rightarrow> bool" for E where
  "get_agent (si_id si) (k_registry k) = None \<Longrightarrow> kernel_step E k (fst (spawn_agent_with_parent E si m p k))"
| "kernel_step E k (fst (kill_agent E io deleted a k))"
| "get_agent (si_id si) (k_registry k) = None \<Longrightarrow> kernel_step E k (fst (restart_agent E io si pc a k))"
| "kernel_step E k (fst (set_agent_model E now s catalog a model k))"
| "kernel_step E k (fst (set_agent_thinking E now s a on k))"
| "kernel_step E k (fst (set_agent_skills E now s known a ns k))"
| "kernel_step E k (fst (set_agent_mcp_servers E now s ts a ns k))"
| "kernel_step E k (fst (set_agent_tools E now s a ns k))"
| "kernel_step E k (k\<lparr> k_registry := fst (set_mode (ke_show E) now md a (k_registry k)) \<rparr>)"
| "kernel_step E k (fst (message_gate E tick a k))"
| "kernel_step E k (message_done E tick now a tok n k)"
| "kernel_step E k (message_failed E a err k)"
| "kernel_step E k (suspend_agents E now saved k)"
| "kernel_step E k (boot E dec readable load_cron fresh tick now k)"

lemma kernel_step_ok: "kernel_step E k k' \<Longrightarrow> kernel_ok k \<Longrightarrow> kernel_ok k'"
  by (induction rule: kernel_step.induct)
     (simp_all add: kernel_ok_spawn kernel_ok_kill kernel_ok_restart kernel_ok_settings kernel_ok_tools
       kernel_ok_mode kernel_ok_messages kernel_ok_suspend kernel_ok_boot)

definition empty_kernel :: "nat \<Rightarrow> ('j, 'h, 'd, 'c) kernel" where
  "empty_kernel maxj = \<lparr> k_registry = new_registry, k_caps = new_manager, k_sched = new_agent_scheduler,
     k_super = new_supervisor, k_triggers = new_trigger_engine, k_bus = new_bus,
     k_cron = new_scheduler maxj None, k_rows = [], k_sessions = [], k_background = Map.empty,
     k_running = Map.empty, k_audit = [] \<rparr>"

lemma kernel_ok_empty: "kernel_ok (empty_kernel maxj)"
  by (rule kernel_okI) (simp_all add: empty_kernel_def registry_ok_new, simp add: get_agent_def new_registry_def)

lemma kernel_steps_ok: "(kernel_step E)\<^sup>*\<^sup>* k k' \<Longrightarrow> kernel_ok k \<Longrightarrow> kernel_ok k'"
  by (induction rule: rtranclp_induct) (auto dest: kernel_step_ok)

end
