(* ===== verification/Kernel_Theorems.thy ===== *)
theory Kernel_Theorems
  imports Kernel_Steps Trigger_Theorems
begin

text \<open>
  What the life cycle of agents guarantees: capabilities and tools follow the manifest, a killed
  agent is gone everywhere, restarts are limited, a failed spawn leaves the agents alone, and
  who may give a child which capabilities.
\<close>

section \<open>Powers follow the manifest\<close>

lemma no_tool_all: "CToolAll \<notin> set (manifest_to_capabilities m)"
  by (auto simp: manifest_to_capabilities_def Let_def)

lemma tool_capabilities: "CToolInvoke n \<in> set (manifest_to_capabilities m) \<longleftrightarrow> n \<in> set (cap_tools (effective_capabilities m))"
  by (auto simp: manifest_to_capabilities_def Let_def)

definition grants_tool :: "'j agent_manifest \<Rightarrow> string \<Rightarrow> bool" where
  "grants_tool m t \<longleftrightarrow> t \<in> set (cap_tools (effective_capabilities m)) \<or> ''*'' \<in> set (cap_tools (effective_capabilities m))"

lemma granted_tools:
  "list_ex (\<lambda>c. case c of CToolInvoke n \<Rightarrow> n = t \<or> n = ''*'' | _ \<Rightarrow> False) (manifest_to_capabilities m) = grants_tool m t"
proof -
  have "list_ex (\<lambda>c. case c of CToolInvoke n \<Rightarrow> n = t \<or> n = ''*'' | _ \<Rightarrow> False) cs
      = (CToolInvoke t \<in> set cs \<or> CToolInvoke ''*'' \<in> set cs)" for cs
    by (induction cs) (auto split: capability.splits)
  then show ?thesis by (simp add: grants_tool_def tool_capabilities)
qed

lemma available_tools_registered:
  assumes "k_caps k a = Some (manifest_to_capabilities (ae_manifest e))"
  shows "t \<in> set (available_tools E bi sk mcp a k) \<Longrightarrow> grants_tool (ae_manifest e) t"
    and "get_agent a (k_registry k) = Some e \<Longrightarrow> mf_profile (ae_manifest e) = None \<Longrightarrow> t \<in> set bi
           \<Longrightarrow> grants_tool (ae_manifest e) t \<Longrightarrow> t \<in> set (available_tools E bi sk mcp a k)"
proof -
  have l: "list_capabilities (k_caps k) a = manifest_to_capabilities (ae_manifest e)"
    using assms by (simp add: list_capabilities_def)
  show "t \<in> set (available_tools E bi sk mcp a k) \<Longrightarrow> grants_tool (ae_manifest e) t"
    by (simp add: available_tools_def l no_tool_all granted_tools)
  show "get_agent a (k_registry k) = Some e \<Longrightarrow> mf_profile (ae_manifest e) = None \<Longrightarrow> t \<in> set bi
      \<Longrightarrow> grants_tool (ae_manifest e) t \<Longrightarrow> t \<in> set (available_tools E bi sk mcp a k)"
    by (simp add: available_tools_def l no_tool_all granted_tools candidate_tools_def Let_def)
qed

text \<open>
  C9: In every reachable kernel a registered agent holds exactly the capabilities its manifest
  stands for and the quota it names; it is offered only tools its manifest grants, and, without
  a profile, every built-in tool it grants. This survives spawns, kills, restarts, changes of
  settings, shutdowns and boots.
\<close>

theorem powers_follow_manifest:
  assumes "(kernel_step E)\<^sup>*\<^sup>* (empty_kernel maxj) k" and "get_agent a (k_registry k) = Some e"
  shows "k_caps k a = Some (manifest_to_capabilities (ae_manifest e))
     \<and> quotas (k_sched k) a = Some (mf_resources (ae_manifest e))
     \<and> (\<forall>t \<in> set (available_tools E bi sk mcp a k). grants_tool (ae_manifest e) t)
     \<and> (mf_profile (ae_manifest e) = None \<longrightarrow>
          (\<forall>t \<in> set bi. grants_tool (ae_manifest e) t \<longrightarrow> t \<in> set (available_tools E bi sk mcp a k)))"
proof -
  have p: "powered k a e"
    using kernel_okD(3) [OF kernel_steps_ok [OF assms(1) kernel_ok_empty] assms(2)] .
  then have c: "k_caps k a = Some (manifest_to_capabilities (ae_manifest e))" by (simp add: powered_def)
  then show ?thesis
    using p available_tools_registered [OF c] assms(2) by (simp add: powered_def)
qed

section \<open>Killing\<close>

lemma restored_ids:
  "get_agent i (k_registry (fold (restore_one E tick) es k)) \<noteq> None \<Longrightarrow>
     i \<in> ae_id ` set es \<or> get_agent i (k_registry k) \<noteq> None"
proof (induction es arbitrary: k)
  case (Cons e es)
  from Cons.IH [of "restore_one E tick e k"] Cons.prems show ?case
    by (auto simp: restore_one_sel get_register_agent split: if_splits)
qed simp

lemma boot_ids:
  assumes "distinct (row_ids (k_rows k))" and "i \<notin> set (row_ids (k_rows k))"
  shows "get_agent i (k_registry (boot E dec rd lc fresh tick now k)) = None"
proof (rule ccontr)
  let ?es = "load_rows (ke_lower E) fresh now {} (k_rows k)"
  assume "get_agent i (k_registry (boot E dec rd lc fresh tick now k)) \<noteq> None"
  then have "i \<in> ae_id ` set ?es"
    using restored_ids [of i E tick ?es] unfolding boot_def restore_agents_def load_all_agents_def
    by (fastforce simp: get_agent_def new_registry_def)
  then show False using load_rows_ids [OF assms(1), of "ke_lower E" fresh now "{}"] assms(2) by blast
qed

lemma row_ids_mem: "i \<in> set (row_ids rs) \<longleftrightarrow> (\<exists>r \<in> set rs. row_id r = Some i)"
  by (simp add: row_ids_def set_map_filter)

lemma kill_outcome:
  assumes "kill_agent E io deleted a k = (k', hs, Inr ())"
  obtains r e k1 where "remove_agent (ke_show E) a (k_registry k) = (r, Inr e)"
    and "stop_runtime E io a (k\<lparr> k_registry := r \<rparr>) = (k1, hs)"
    and "k' = audit (ke_show E) a AgentKill (''name='' @ ae_name e) ''ok''
          (k1\<lparr> k_sessions := (if fst deleted then filter (\<lambda>(s, b). b \<noteq> a) (k_sessions k1) else k_sessions k1),
               k_rows := (if snd deleted then delete_row a (k_rows k1) else k_rows k1) \<rparr>)"
proof -
  obtain r x where rm: "remove_agent (ke_show E) a (k_registry k) = (r, x)"
    by (cases "remove_agent (ke_show E) a (k_registry k)")
  obtain k1 hs1 where st: "stop_runtime E io a (k\<lparr> k_registry := r \<rparr>) = (k1, hs1)" by fastforce
  show ?thesis
    using assms rm st that by (cases x) (auto simp: kill_agent_def Let_def)
qed

lemma no_triggers_left:
  "list_agent_triggers a (remove_agent_triggers enc io a e) = []"
  by (simp add: remove_agent_triggers_def list_agent_triggers_def persist_triggers_sel split: option.split)

lemma stop_runtime_handles:
  assumes "stop_runtime E io a k = (k1, hs)" and "k_running k a = Some h \<or> k_background k a = Some h"
  shows "h \<in> set hs"
proof -
  obtain sched h2 where u: "unregister a (k_sched k) = (sched, h2)" by fastforce
  show ?thesis using assms by (auto simp: stop_runtime_def drop_handle_def u split: option.splits)
qed

text \<open>
  C14: Whenever a kill reports success, whether or not the memory store could delete the agent's
  data, the running kernel gives the agent no power: it is not registered, no capability check
  of it succeeds, it is offered no tool and receives no message, it has no trigger, and its
  running and background tasks are aborted; its cron jobs stay. Its sessions are gone if their
  deletion worked and are all kept otherwise; if its row was deleted the next boot does not
  bring it back, and otherwise every row is kept. (Nothing is said of its parent's list of
  children, its restart count and its usage events, which a kill leaves.)
\<close>

theorem killed_agent_powerless:
  assumes "(kernel_step E)\<^sup>*\<^sup>* (empty_kernel maxj) k" and "kill_agent E io deleted a k = (k', hs, Inr ())"
  shows "get_agent a (k_registry k') = None
     \<and> check_capability (ke_show E) dbg (k_caps k') a c \<noteq> Granted
     \<and> available_tools E bi sk mcp a k' = []
     \<and> snd (message_gate E tick a k') = Inl (AgentNotFound (ke_show E a))
     \<and> list_agent_triggers a (k_triggers k') = []
     \<and> {h. k_running k a = Some h \<or> k_background k a = Some h} \<subseteq> set hs
     \<and> k_cron k' = k_cron k
     \<and> (if fst deleted then a \<notin> snd ` set (k_sessions k') else k_sessions k' = k_sessions k)
     \<and> (if snd deleted
        then a \<notin> set (row_ids (k_rows k')) \<and> get_agent a (k_registry (boot E dec rd lc fresh tick now k')) = None
        else k_rows k' = k_rows k)"
proof -
  obtain r e k1 where rm: "remove_agent (ke_show E) a (k_registry k) = (r, Inr e)"
    and st: "stop_runtime E io a (k\<lparr> k_registry := r \<rparr>) = (k1, hs)"
    and k': "k' = audit (ke_show E) a AgentKill (''name='' @ ae_name e) ''ok''
          (k1\<lparr> k_sessions := (if fst deleted then filter (\<lambda>(s, b). b \<noteq> a) (k_sessions k1) else k_sessions k1),
               k_rows := (if snd deleted then delete_row a (k_rows k1) else k_rows k1) \<rparr>)"
    using kill_outcome [OF assms(2)] by blast
  note k1 = stop_runtime_sel [of E io a "k\<lparr> k_registry := r \<rparr>", unfolded st fst_conv]
  have ok: "kernel_ok k" by (rule kernel_steps_ok [OF assms(1) kernel_ok_empty])
  have gone: "get_agent a (k_registry k') = None" using get_remove_agent(2) [OF rm, of a] by (simp add: k' k1)
  have caps: "k_caps k' a = None" by (simp add: k' k1 revoke_all_def)
  have "quotas (k_sched k') a = None" by (simp add: k' k1 unregister_sel)
  then have gate: "snd (message_gate E tick a k') = Inl (AgentNotFound (ke_show E a))"
    using gone by (simp add: message_gate_def check_quota_def)
  have rows: "if snd deleted
        then a \<notin> set (row_ids (k_rows k')) \<and> get_agent a (k_registry (boot E dec rd lc fresh tick now k')) = None
        else k_rows k' = k_rows k"
  proof (cases "snd deleted")
    case True
    then have "row_ids (k_rows k') = filter (\<lambda>i. i \<noteq> a) (row_ids (k_rows k))" by (simp add: k' k1 row_ids_delete)
    then have "a \<notin> set (row_ids (k_rows k'))" "distinct (row_ids (k_rows k'))" using kernel_okD(2) [OF ok] by simp_all
    then show ?thesis using True boot_ids by simp
  qed (simp add: k' k1)
  have "check_capability (ke_show E) dbg (k_caps k') a c \<noteq> Granted" using caps by (simp add: check_capability_def)
  moreover have "available_tools E bi sk mcp a k' = []"
    by (simp add: available_tools_def list_capabilities_def caps)
  moreover have "list_agent_triggers a (k_triggers k') = []" by (simp add: k' k1 no_triggers_left)
  moreover have "if fst deleted then a \<notin> snd ` set (k_sessions k') else k_sessions k' = k_sessions k"
    by (auto simp: k' k1 audit_def)
  moreover have "{h. k_running k a = Some h \<or> k_background k a = Some h} \<subseteq> set hs"
    using stop_runtime_handles [OF st] by auto
  moreover have "k_cron k' = k_cron k" by (simp add: k' k1)
  ultimately show ?thesis using gone gate rows by blast
qed

section \<open>Spawning\<close>

lemma finish_spawn_registry:
  assumes "finish_spawn E si p e k = (k', res)"
  shows "ae_id e \<noteq> the p \<or> p = None \<Longrightarrow> get_agent (ae_id e) (k_registry k') = get_agent (ae_id e) (k_registry k)"
    and "k_caps k' = k_caps k"
    and "res = Inl err \<Longrightarrow> si_save_error si = Some err \<and> k_rows k' = k_rows k"
    and "res = Inr i \<Longrightarrow> i = ae_id e \<and> k_rows k' = save_row e (k_rows k)"
    and "k_super k' = k_super k"
  using assms
  by (auto simp: finish_spawn_def Let_def get_add_child split: option.splits)

text \<open>
  C33: A spawn that fails leaves agents, rows, triggers, jobs, audit log and the powers of every
  other agent as they were, unless the failure is that of saving the row: then the agent stays
  registered and running although the caller is told that the spawn failed.
\<close>

theorem failed_spawn:
  assumes "spawn_agent_with_parent E si m p k = (k', Inl err)"
    and "get_agent (si_id si) (k_registry k) = None" and "p \<noteq> Some (si_id si)"
  shows "(si_save_error si = None \<longrightarrow> untouched (si_id si) k k')
     \<and> (get_agent (si_id si) (k_registry k') \<noteq> None \<longrightarrow> si_save_error si = Some err \<and> k_rows k' = k_rows k)
     \<and> (si_save_error si = Some err \<longrightarrow> untouched (si_id si) k k' \<or> get_agent (si_id si) (k_registry k') \<noteq> None)"
proof -
  from spawn_outcome [OF assms(1)] show ?thesis
  proof
    assume "(\<exists>err'. Inl err = Inl err') \<and> untouched (si_id si) k k'"
    then have u: "untouched (si_id si) k k'" by blast
    then have "get_agent (si_id si) (k_registry k') = None" using assms(2) by (simp add: untouched_def)
    then show ?thesis using u by simp
  next
    assume "\<exists>m'. derived m m' \<and> \<not> name_taken (new_entry si p m') (k_registry k)
            \<and> finish_spawn E si p (new_entry si p m') (started si p m' k) = (k', Inl err)"
    then obtain m' where f: "finish_spawn E si p (new_entry si p m') (started si p m' k) = (k', Inl err)" by blast
    have "p = None \<or> ae_id (new_entry si p m') \<noteq> the p" using assms(3) by (cases p) auto
    then have "get_agent (si_id si) (k_registry k') \<noteq> None"
      using finish_spawn_registry(1) [OF f] by (auto simp: get_insert_entry)
    then show ?thesis using finish_spawn_registry(3) [OF f] by simp
  qed
qed

lemma spawned_capabilities:
  assumes "spawn_agent_with_parent E si m p k = (k', Inr i)"
  shows "i = si_id si \<and> k_caps k' (si_id si) = Some (manifest_to_capabilities m)"
proof -
  from spawn_outcome [OF assms] obtain m' where d: "derived m m'"
    and f: "finish_spawn E si p (new_entry si p m') (started si p m' k) = (k', Inr i)"
    by blast
  have "manifest_to_capabilities m' = manifest_to_capabilities m"
    using d same_powers_capabilities unfolding derived_def by blast
  then show ?thesis using finish_spawn_registry(2,4) [OF f] by (simp add: grant_def)
qed

lemma handle_spawn_capabilities:
  assumes "handle_spawn_agent E si toml pid k = (k', Inr x)"
  obtains m where "ke_toml E toml = Inr m" and "list_capabilities (k_caps k') (si_id si) = manifest_to_capabilities m"
proof -
  obtain m where m: "ke_toml E toml = Inr m"
    using assms by (cases "ke_toml E toml") (simp_all add: handle_spawn_agent_def)
  define p where "p = (case pid of None \<Rightarrow> None | Some s \<Rightarrow> ke_parse_id E s)"
  obtain k1 y where s: "spawn_agent_with_parent E si m p k = (k1, y)" by fastforce
  show ?thesis
  proof (cases y)
    case (Inl err)
    then show ?thesis using assms s by (simp add: handle_spawn_agent_def m flip: p_def)
  next
    case (Inr i)
    then have "k' = k1" using assms s by (simp add: handle_spawn_agent_def m flip: p_def)
    then show ?thesis
      using that [OF m] spawned_capabilities [OF s [unfolded Inr]] by (simp add: list_capabilities_def)
  qed
qed

lemma inherited_matched:
  "validate_capability_inheritance dbg parent cs = Inr () \<Longrightarrow> c \<in> set cs \<Longrightarrow> \<exists>p \<in> set parent. capability_matches p c"
  by (induction cs) (auto simp: list_ex_iff split: if_splits)

text \<open>
  C37: Spawns through the checked path of WASM guests do not escalate: when no pattern in the
  parent's listed capabilities and the child's has more than one star, whatever the spawned child
  is granted is matched by one of the parent's listed capabilities.
\<close>

theorem checked_spawn_bounded:
  assumes "handle_spawn_checked E si toml pid parent_caps k = (k', Inr x)"
    and "\<forall>c \<in> set parent_caps \<union> set (list_capabilities (k_caps k') (si_id si)). cap_ok c"
    and "check_capability sh dbg (k_caps k') (si_id si) r = Granted"
  shows "\<exists>p \<in> set parent_caps. capability_matches p r"
proof -
  obtain m where m: "ke_toml E toml = Inr m"
    using assms(1) by (cases "ke_toml E toml") (simp_all add: handle_spawn_checked_def)
  have v: "validate_capability_inheritance (ke_cap_debug E) parent_caps (manifest_to_capabilities m) = Inr ()"
    and h: "handle_spawn_agent E si toml pid k = (k', Inr x)"
    using assms(1) m by (auto simp: handle_spawn_checked_def split: sum.splits)
  obtain c where c: "c \<in> set (list_capabilities (k_caps k') (si_id si))" "capability_matches c r"
    using assms(3) by (auto simp: check_granted)
  then obtain p where "p \<in> set parent_caps" "capability_matches p c"
    using handle_spawn_capabilities [OF h] m inherited_matched [OF v] by (metis Inr_inject)
  then show ?thesis using capability_matches_trans [of p c r] c assms(2) by blast
qed

text \<open>
  The path the tool \<open>agent_spawn\<close> takes does not look at the parent: whatever a manifest asks
  for, the child gets, the right to call every tool included, even from a parent whose only
  capability is to spawn.
\<close>

theorem agent_spawn_unchecked:
  assumes "handle_spawn_agent E si toml (Some pid) k = (k', Inr x)" and "ke_toml E toml = Inr m"
  shows "list_capabilities (k_caps k') (si_id si) = manifest_to_capabilities m
     \<and> (''*'' \<in> set (cap_tools (mf_capabilities m)) \<longrightarrow>
          check_capability sh dbg (k_caps k') (si_id si) (CToolInvoke t) = Granted)"
proof -
  have l: "list_capabilities (k_caps k') (si_id si) = manifest_to_capabilities m"
    using handle_spawn_capabilities [OF assms(1)] assms(2) by (metis Inr_inject)
  show ?thesis
  proof (intro conjI impI)
    assume star: "''*'' \<in> set (cap_tools (mf_capabilities m))"
    then have "effective_capabilities m = mf_capabilities m"
      by (auto simp: effective_capabilities_def Let_def split: option.split)
    then have "CToolInvoke ''*'' \<in> set (manifest_to_capabilities m)" using star by (simp add: tool_capabilities)
    then show "check_capability sh dbg (k_caps k') (si_id si) (CToolInvoke t) = Granted"
      using l by (cases "k_caps k' (si_id si)")
        (auto simp: check_capability_def list_capabilities_def list_ex_iff intro!: bexI [of _ "CToolInvoke ''*''"])
  qed (rule l)
qed

end
