(* ===== verification/Kernel_Restart.thy ===== *)
theory Kernel_Restart
  imports Kernel_Theorems
begin

text \<open>
  Restarts and boots: what a restarted agent keeps, how many restarts it gets, and what the rows
  bring back at the next boot.
\<close>

section \<open>Restarting\<close>

text \<open>A successful restart, taken apart.\<close>

lemma restart_succeeds:
  assumes "restart_agent E io si pc a k = (k', hs, Inr (x, b))"
  obtains r e s c k1 k2 where "remove_agent (ke_show E) a (k_registry k) = (r, Inr e)"
    and "record_agent_restart a (max_restarts_of (ae_manifest e)) (k_super k) = (s, Inr c)"
    and "k1 = (fst (stop_for_restart E io a (ae_name e) (k\<lparr> k_registry := r \<rparr>)))\<lparr> k_super := s \<rparr>"
    and "spawn_agent_with_parent E si (ae_manifest e) None k1 = (k2, Inr b)"
    and "k' = fst (respawn E si pc a (ae_manifest e) k1)" and "x = a" and "b = si_id si"
proof -
  obtain r y where rm: "remove_agent (ke_show E) a (k_registry k) = (r, y)"
    by (cases "remove_agent (ke_show E) a (k_registry k)")
  then obtain e where rm: "remove_agent (ke_show E) a (k_registry k) = (r, Inr e)"
    using assms by (cases y) (simp_all add: restart_agent_def)
  define k0 where "k0 = fst (stop_for_restart E io a (ae_name e) (k\<lparr> k_registry := r \<rparr>))"
  from restart_outcome [OF rm k0_def, of si pc] assms
  obtain s c where s: "record_agent_restart a (max_restarts_of (ae_manifest e)) (k_super k) = (s, Inr c)"
    and k': "k' = fst (respawn E si pc a (ae_manifest e) (k0\<lparr> k_super := s \<rparr>))"
    and res: "snd (respawn E si pc a (ae_manifest e) (k0\<lparr> k_super := s \<rparr>)) = Inr (x, b)"
    by auto
  obtain k2 z where sp: "spawn_agent E si (ae_manifest e) (k0\<lparr> k_super := s \<rparr>) = (k2, z)" by fastforce
  have "z = Inr b \<and> x = a" using res respawn_sel(6) [OF sp, of pc a] by (cases z) simp_all
  then show ?thesis
    using that [OF rm s refl] sp k' spawned_capabilities [of E si "ae_manifest e" None _ k2 b]
    by (simp add: spawn_agent_def k0_def)
qed

lemma spawned_entry:
  assumes "spawn_agent_with_parent E si m None k = (k', Inr b)"
  obtains m' where "derived m m'" and "k_registry k' = insert_entry (new_entry si None m') (k_registry k)"
    and "k_rows k' = save_row (new_entry si None m') (k_rows k)" and "k_super k' = k_super k"
    and "b = si_id si" and "k_cron k' = k_cron k"
proof -
  from spawn_outcome [OF assms] obtain m' where d: "derived m m'"
    and f: "finish_spawn E si None (new_entry si None m') (started si None m' k) = (k', Inr b)"
    by blast
  have "k_registry k' = insert_entry (new_entry si None m') (k_registry k)"
    using f by (auto simp: finish_spawn_def Let_def split: option.splits)
  moreover have "k_cron k' = k_cron k" using spawn_agent_cron [of E si m None k] assms by simp
  ultimately show ?thesis
    using that [OF d] finish_spawn_registry(4,5) [OF f] by simp
qed

text \<open>
  A restart gives the agent's capabilities and restart settings to a new entry, but nothing
  else of the old one survives in it: its mode is the unrestricted one even when the operator
  had set the agent to observe, its parent, its children and its identity are gone, and its
  triggers are removed with the old id.
\<close>

theorem restart_forgets_mode:
  assumes "restart_agent E io si pc a k = (k', hs, Inr (a, b))"
  shows "\<exists>e e'. get_agent a (k_registry k) = Some e \<and> get_agent b (k_registry k') = Some e'
     \<and> ae_name e' = mf_name (ae_manifest e) \<and> ae_mode e' = Full_mode \<and> ae_parent e' = None \<and> ae_children e' = []
     \<and> ae_identity e' = default_identity
     \<and> k_caps k' b = Some (manifest_to_capabilities (ae_manifest e))
     \<and> (a \<noteq> b \<longrightarrow> get_agent a (k_registry k') = None)"
proof -
  obtain r e s c k1 k2 where rm: "remove_agent (ke_show E) a (k_registry k) = (r, Inr e)"
    and k1: "k1 = (fst (stop_for_restart E io a (ae_name e) (k\<lparr> k_registry := r \<rparr>)))\<lparr> k_super := s \<rparr>"
    and sp: "spawn_agent_with_parent E si (ae_manifest e) None k1 = (k2, Inr b)"
    and k': "k' = fst (respawn E si pc a (ae_manifest e) k1)" and b: "b = si_id si"
    using restart_succeeds [OF assms] by metis
  obtain m' where d: "derived (ae_manifest e) m'"
    and reg: "k_registry k2 = insert_entry (new_entry si None m') (k_registry k1)"
    using spawned_entry [OF sp] by metis
  have sp': "spawn_agent E si (ae_manifest e) k1 = (k2, Inr b)" using sp by (simp add: spawn_agent_def)
  have "k_registry k' = insert_entry (new_entry si None m') r"
    using respawn_sel(1) [OF sp', of pc a] reg by (simp add: k' k1)
  then have g: "get_agent j (k_registry k') = (if j = b then Some (new_entry si None m') else get_agent j r)" for j
    by (simp add: get_insert_entry b)
  have "k_caps k' b = Some (manifest_to_capabilities (ae_manifest e))"
    using respawn_sel(3) [OF sp', of pc a] spawned_capabilities [OF sp] b k' by simp
  moreover have "get_agent a (k_registry k) = Some e" "get_agent a r = None"
    using get_remove_agent [OF rm] by simp_all
  ultimately show ?thesis using g d by (auto simp: derived_def new_entry_def)
qed

section \<open>The restart limit\<close>

text \<open>
  \<open>n\<close> successful restarts of an agent, its id followed through them, with any other changes of the
  kernel in between that leave its restart count and its manifest's limit alone (a boot, which
  forgets all counts, does not).
\<close>

definition undisturbed :: "nat \<Rightarrow> ('j, 'h, 'd, 'c) kernel \<Rightarrow> ('j, 'h, 'd, 'c) kernel \<Rightarrow> bool" where
  "undisturbed a k k' \<longleftrightarrow> agent_restart_count a (k_super k') = agent_restart_count a (k_super k)
     \<and> map_option (max_restarts_of \<circ> ae_manifest) (get_agent a (k_registry k'))
       = map_option (max_restarts_of \<circ> ae_manifest) (get_agent a (k_registry k))"

inductive restarted :: "('j, 'd) kernel_env \<Rightarrow> nat \<Rightarrow> ('j, 'h, 'd, 'c) kernel \<Rightarrow> nat \<Rightarrow> ('j, 'h, 'd, 'c) kernel \<Rightarrow> nat \<Rightarrow> bool"
  for E where
  "restarted E 0 k a k a"
| "restarted E n k a k' a' \<Longrightarrow> restart_agent E io si pc a' k' = (k'', hs, Inr (a', a''))
     \<Longrightarrow> restarted E (Suc n) k a k'' a''"
| "restarted E n k a k' a' \<Longrightarrow> undisturbed a' k' k'' \<Longrightarrow> restarted E n k a k'' a'"

definition limited :: "nat \<Rightarrow> nat \<Rightarrow> nat \<Rightarrow> ('j, 'h, 'd, 'c) kernel \<Rightarrow> bool" where
  "limited mx n a k \<longleftrightarrow> n \<le> mx \<and> agent_restart_count a (k_super k) = n
     \<and> (\<exists>e. get_agent a (k_registry k) = Some e \<and> max_restarts_of (ae_manifest e) = mx)"

lemma restart_counts:
  assumes "limited mx n a k" and "0 < mx" and "mx < 2 ^ 32 - 1"
    and "restart_agent E io si pc a k = (k', hs, Inr (a, b))"
  shows "limited mx (Suc n) b k'"
proof -
  obtain r e s c k1 k2 where rm: "remove_agent (ke_show E) a (k_registry k) = (r, Inr e)"
    and rec: "record_agent_restart a (max_restarts_of (ae_manifest e)) (k_super k) = (s, Inr c)"
    and k1: "k1 = (fst (stop_for_restart E io a (ae_name e) (k\<lparr> k_registry := r \<rparr>)))\<lparr> k_super := s \<rparr>"
    and sp: "spawn_agent_with_parent E si (ae_manifest e) None k1 = (k2, Inr b)"
    and k': "k' = fst (respawn E si pc a (ae_manifest e) k1)" and b: "b = si_id si"
    using restart_succeeds [OF assms(4)] by metis
  have e: "get_agent a (k_registry k) = Some e" by (rule get_remove_agent(1) [OF rm])
  have mx: "max_restarts_of (ae_manifest e) = mx" and n: "agent_restart_count a (k_super k) = n" "n \<le> mx"
    using assms(1) e by (auto simp: limited_def)
  have small: "(n + 1) mod 2 ^ 32 = n + 1" using n(2) assms(3) by simp
  have cnt: "agent_restarts s a = Some (n + 1) \<and> n + 1 \<le> mx"
    using rec n(1) assms(2) small
    by (auto simp: record_agent_restart_def agent_restart_count_def record_restart_def mx Let_def split: if_splits option.splits)
  obtain m' where d: "derived (ae_manifest e) m'" and sup: "k_super k2 = k_super k1"
    and reg: "k_registry k2 = insert_entry (new_entry si None m') (k_registry k1)"
    using spawned_entry [OF sp] by metis
  have sp': "spawn_agent E si (ae_manifest e) k1 = (k2, Inr b)" using sp by (simp add: spawn_agent_def)
  have "k_super k' = carry_agent_restarts a b s"
    using sp' sup by (simp add: k' respawn_def Let_def k1 case_prod_beta)
  then have "agent_restart_count b (k_super k') = n + 1"
    using cnt by (simp add: carry_agent_restarts_def agent_restart_count_def)
  moreover have "get_agent b (k_registry k') = Some (new_entry si None m')"
    using respawn_sel(1) [OF sp', of pc a] reg by (simp add: k' get_insert_entry b)
  moreover have "max_restarts_of m' = mx" using d mx by (simp add: derived_def max_restarts_of_def)
  ultimately show ?thesis using cnt by (simp add: limited_def)
qed

lemma restart_refused:
  assumes "limited mx mx a k" and "0 < mx" and "mx < 2 ^ 32 - 1"
  shows "(\<exists>err. snd (snd (restart_agent E io si pc a k)) = Inl err)
     \<and> get_agent a (k_registry (fst (restart_agent E io si pc a k))) = None
     \<and> k_rows (fst (restart_agent E io si pc a k)) = k_rows k"
proof -
  obtain e where e: "get_agent a (k_registry k) = Some e" and mx: "max_restarts_of (ae_manifest e) = mx"
    using assms(1) by (auto simp: limited_def)
  obtain r where rm: "remove_agent (ke_show E) a (k_registry k) = (r, Inr e)"
    using e by (simp add: remove_agent_def get_agent_def)
  have "(mx + 1) mod 2 ^ 32 = mx + 1" using assms(3) by simp
  then obtain s c where rec: "record_agent_restart a (max_restarts_of (ae_manifest e)) (k_super k) = (s, Inl c)"
    using assms by (simp add: record_agent_restart_def limited_def agent_restart_count_def mx Let_def)
  have "get_agent a r = None" using get_remove_agent(2) [OF rm, of a] by simp
  then show ?thesis using restart_outcome [OF rm refl, of io si pc] rec by auto
qed

text \<open>
  An autonomous agent with a positive restart limit \<open>mx\<close> that has not been restarted since the
  last boot is restarted at most \<open>mx\<close> times, although every restart gives it a new id, however
  the kernel changes in between, as long as its count and limit are left alone; the restart after
  the last allowed one fails and leaves it unregistered. (A boot resets the count, and a limit of
  0 means none.)
\<close>

theorem restart_limit_holds:
  assumes "restarted E n k a k' a'" and "limited mx 0 a k" and "0 < mx" and "mx < 2 ^ 32 - 1"
  shows "n \<le> mx \<and> agent_restart_count a' (k_super k') = n
     \<and> (n = mx \<longrightarrow> (\<exists>err. snd (snd (restart_agent E io si pc a' k')) = Inl err)
          \<and> get_agent a' (k_registry (fst (restart_agent E io si pc a' k'))) = None)"
proof -
  have l: "limited mx n a' k'"
    using assms(1,2)
  proof (induction rule: restarted.induct)
    case (2 n k a k' a' io si pc k'' hs a'')
    then show ?case using restart_counts [OF _ assms(3,4)] by blast
  next
    case (3 n k a k' a' k'')
    then show ?case by (auto simp: limited_def undisturbed_def)
  qed
  show ?thesis
  proof (intro conjI impI)
    show "n \<le> mx" "agent_restart_count a' (k_super k') = n" using l by (simp_all add: limited_def)
    assume "n = mx"
    with l have "limited mx mx a' k'" by simp
    note refused = restart_refused [OF this assms(3,4)]
    show "\<exists>err. snd (snd (restart_agent E io si pc a' k')) = Inl err" using refused by blast
    show "get_agent a' (k_registry (fst (restart_agent E io si pc a' k'))) = None" using refused by blast
  qed
qed

section \<open>What a boot restores\<close>

definition revived :: "('j, 'd) kernel_env \<Rightarrow> 'j agent_entry \<Rightarrow> 'j agent_entry" where
  "revived E e = e\<lparr> ae_state := Agent_running, ae_manifest := inherit_exec_policy E (ae_manifest e) \<rparr>"

lemma name_taken_restore:
  assumes "\<not> name_taken f (k_registry k)" and "ae_name f \<noteq> ae_name e"
  shows "\<not> name_taken f (k_registry (restore_one E tick e k))"
  using assms by (simp add: restore_one_sel name_taken_def register_agent_def insert_entry_def)

lemma restore_keeps:
  "i \<notin> ae_id ` set es \<Longrightarrow> get_agent i (k_registry (fold (restore_one E tick) es k)) = get_agent i (k_registry k)"
  by (induction es arbitrary: k) (simp_all add: restore_one_sel get_register_agent)

lemma restore_super: "k_super (fold (restore_one E tick) es k) = k_super k"
  by (induction es arbitrary: k) (simp_all add: restore_one_sel)

lemma restore_registers:
  "distinct (map ae_id es) \<Longrightarrow> distinct (map ae_name es) \<Longrightarrow> \<forall>e \<in> set es. \<not> name_taken e (k_registry k) \<Longrightarrow>
     e \<in> set es \<Longrightarrow>
     get_agent (ae_id e) (k_registry (fold (restore_one E tick) es k)) = Some (revived E e)"
proof (induction es arbitrary: k)
  case (Cons f es)
  have free: "\<forall>g \<in> set es. \<not> name_taken g (k_registry (restore_one E tick f k))"
  proof
    fix g assume g: "g \<in> set es"
    have "ae_name g \<in> ae_name ` set es" using g by (rule imageI)
    then have "ae_name g \<noteq> ae_name f" using Cons.prems(2) by auto
    then show "\<not> name_taken g (k_registry (restore_one E tick f k))"
      using Cons.prems(3) g by (simp add: name_taken_restore)
  qed
  show ?case
  proof (cases "e = f")
    case True
    have "\<not> name_taken (revived E f) (k_registry k)" using Cons.prems(3) by (simp add: name_taken_def revived_def)
    then have now: "get_agent (ae_id f) (k_registry (restore_one E tick f k)) = Some (revived E f)"
      by (simp add: restore_one_sel get_register_agent revived_def)
    have "ae_id f \<notin> ae_id ` set es" using Cons.prems(1) by simp
    then show ?thesis using now True by (simp add: restore_keeps)
  next
    case False
    then show ?thesis using Cons.IH [of "restore_one E tick f k"] Cons.prems free by simp
  qed
qed simp

lemma boot_registers:
  assumes "distinct (row_ids (k_rows k))"
    and "e \<in> set (load_rows (ke_lower E) fresh now {} (k_rows k))"
  shows "get_agent (ae_id e) (k_registry (boot E dec rd lc fresh tick now k)) = Some (revived E e)"
  unfolding boot_def restore_agents_def load_all_agents_def
proof (rule restore_registers, goal_cases)
  case 1
  then show ?case using load_rows_ids [OF assms(1)] by simp
next
  case 2
  have "distinct (map (ke_lower E) (map ae_name (load_rows (ke_lower E) fresh now {} (k_rows k))))"
    using load_rows_names [of "ke_lower E" fresh now "{}" "k_rows k"] by (simp add: comp_def)
  then show ?case by (auto simp: distinct_map intro: inj_on_imageI2)
qed (use assms(2) in \<open>simp_all add: name_taken_def new_registry_def\<close>)

lemma load_rows_append:
  "load_rows lower fresh now seen (xs @ ys) =
     load_rows lower fresh now seen xs @ load_rows lower fresh now (seen \<union> (\<lambda>r. lower (row_name r)) ` set xs) ys"
proof (induction xs arbitrary: seen)
  case (Cons x xs)
  have "insert (lower (row_name x)) seen \<union> (\<lambda>r. lower (row_name r)) ` set xs =
      seen \<union> (\<lambda>r. lower (row_name r)) ` set (x # xs)" by auto
  then show ?case
    using Cons.IH [of seen] Cons.IH [of "insert (lower (row_name x)) seen"]
    by (auto simp: Let_def insert_absorb split: option.split)
qed simp

text \<open>The first decodable row of a name is the one that is restored.\<close>

definition first_of_name :: "(string \<Rightarrow> string) \<Rightarrow> nat \<Rightarrow> string \<Rightarrow> 'j agent_row list \<Rightarrow> bool" where
  "first_of_name lower a n rs \<longleftrightarrow> (\<exists>pre r post. rs = pre @ r # post \<and> row_id r = Some a \<and> row_name r = n
     \<and> row_manifest r \<noteq> None \<and> row_state r \<noteq> None \<and> (\<forall>q \<in> set pre. lower (row_name q) \<noteq> lower n))"

lemma first_of_name_loaded:
  assumes "first_of_name lower a n rs"
  shows "\<exists>e \<in> set (load_rows lower fresh now {} rs). ae_id e = a \<and> ae_name e = n"
proof -
  obtain pre r post m s where "rs = pre @ r # post" "row_id r = Some a" and n: "row_name r = n"
    and
    "row_manifest r = Some m" "row_state r = Some s" "\<forall>q \<in> set pre. lower (row_name q) \<noteq> lower n"
    using assms by (auto simp: first_of_name_def)
  with n have "entry_of_row fresh now a m s r \<in> set (load_rows lower fresh now {} rs)"
    by (auto simp: load_rows_append Let_def)
  then show ?thesis by (rule rev_bexI) (simp add: entry_of_row_def n)
qed

lemma save_new_row: "ae_id e \<notin> set (row_ids rs) \<Longrightarrow> save_row e rs = rs @ [row_of e]"
  by (induction rs) (auto split: option.splits)

lemma reassigned_jobs:
  "(i, j) \<in> set (jobs (fst (reassign_agent a b c))) \<Longrightarrow> job_agent (meta_job j) = a \<Longrightarrow> a = b"
  by (auto simp: reassign_agent_def split: if_splits)

text \<open>
  A restart is undone by the next boot: the row of the old id is still stored, and of two rows
  with one name the first is restored. The old agent is back, the new one is not registered, and
  the jobs that were moved to it name nobody.
\<close>

theorem restart_undone_by_boot:
  assumes reach: "(kernel_step E)\<^sup>*\<^sup>* (empty_kernel maxj) k"
    and restart: "restart_agent E io si pc a k = (k', hs, Inr (a, b))"
    and fresh: "b \<notin> set (row_ids (k_rows k))"
    and old: "\<And>e. get_agent a (k_registry k) = Some e \<Longrightarrow>
        first_of_name (ke_lower E) a (mf_name (ae_manifest e)) (k_rows k)"
    and pc: "\<And>c. jobs (pc c) = jobs c"
  shows "get_agent a (k_registry (boot E dec rd lc fresh_session tick now k')) \<noteq> None
     \<and> get_agent b (k_registry (boot E dec rd lc fresh_session tick now k')) = None
     \<and> (\<forall>i j. (i, j) \<in> set (jobs (k_cron k')) \<longrightarrow> job_agent (meta_job j) \<noteq> a)"
proof -
  have ok: "kernel_ok k" by (rule kernel_steps_ok [OF reach kernel_ok_empty])
  obtain r e s c k1 k2 where rm: "remove_agent (ke_show E) a (k_registry k) = (r, Inr e)"
    and k1: "k1 = (fst (stop_for_restart E io a (ae_name e) (k\<lparr> k_registry := r \<rparr>)))\<lparr> k_super := s \<rparr>"
    and sp: "spawn_agent_with_parent E si (ae_manifest e) None k1 = (k2, Inr b)"
    and k': "k' = fst (respawn E si pc a (ae_manifest e) k1)" and b: "b = si_id si"
    using restart_succeeds [OF restart] by metis
  have e: "get_agent a (k_registry k) = Some e" by (rule get_remove_agent(1) [OF rm])
  obtain m' where d: "derived (ae_manifest e) m'"
    and rows: "k_rows k2 = save_row (new_entry si None m') (k_rows k1)"
    using spawned_entry [OF sp] by metis
  have sp': "spawn_agent E si (ae_manifest e) k1 = (k2, Inr b)" using sp by (simp add: spawn_agent_def)
  let ?new = "new_entry si None m'"
  have rows': "k_rows k' = k_rows k @ [row_of ?new]"
    using respawn_sel(2) [OF sp', of pc a] rows fresh save_new_row [of ?new "k_rows k"] by (simp add: k' k1 b)
  have ids: "distinct (row_ids (k_rows k @ [row_of ?new]))"
    using kernel_okD(2) [OF ok] fresh b by (simp add: row_ids_def)
  note first = old [OF e]
  have name: "ae_name ?new = mf_name (ae_manifest e)" using d by (simp add: derived_def)
  then have seen: "ke_lower E (ae_name ?new) \<in> (\<lambda>r. ke_lower E (row_name r)) ` set (k_rows k)"
    using first by (auto simp: first_of_name_def)
  then have loaded: "load_rows (ke_lower E) fresh_session now {} (k_rows k') = load_rows (ke_lower E) fresh_session now {} (k_rows k)"
    unfolding rows' load_rows_append by (simp add: row_of_def)
  obtain d where d: "d \<in> set (load_rows (ke_lower E) fresh_session now {} (k_rows k'))" "ae_id d = a"
    using first_of_name_loaded [OF first] loaded by metis
  have "get_agent a (k_registry (boot E dec rd lc fresh_session tick now k')) \<noteq> None"
    using boot_registers [of k', OF _ d(1)] ids d(2) by (simp add: rows')
  moreover have "get_agent b (k_registry (boot E dec rd lc fresh_session tick now k')) = None"
  proof (rule ccontr)
    assume "get_agent b (k_registry (boot E dec rd lc fresh_session tick now k')) \<noteq> None"
    then have "b \<in> ae_id ` set (load_rows (ke_lower E) fresh_session now {} (k_rows k'))"
      using restored_ids unfolding boot_def restore_agents_def load_all_agents_def
      by (fastforce simp: get_agent_def new_registry_def)
    then show False
      using load_rows_ids [OF kernel_okD(2) [OF ok], of "ke_lower E" fresh_session now "{}"] fresh loaded by auto
  qed
  moreover have "job_agent (meta_job j) \<noteq> a" if "(i, j) \<in> set (jobs (k_cron k'))" for i j
  proof -
    have "jobs (k_cron k') = jobs (fst (reassign_agent a b (k_cron k2)))"
      using sp' by (simp add: k' respawn_def Let_def case_prod_beta pc)
    moreover have "a \<noteq> b"
      using first fresh row_ids_mem by (fastforce simp: first_of_name_def)
    ultimately show ?thesis using reassigned_jobs that by metis
  qed
  ultimately show ?thesis by blast
qed

text \<open>
  An agent that exceeded its restart limit is not stopped permanently: the rows of its name
  stay, and the next boot registers the agent of the first of them as running, with no restart
  counted.
\<close>

theorem stopped_agent_returns:
  assumes reach: "(kernel_step E)\<^sup>*\<^sup>* (empty_kernel maxj) k"
    and stop: "limited mx mx a k" "0 < mx" "mx < 2 ^ 32 - 1"
    and row: "get_agent a (k_registry k) = Some e" "first_of_name (ke_lower E) b (ae_name e) (k_rows k)"
  shows "\<exists>f. get_agent b (k_registry (boot E dec rd lc fresh tick now (fst (restart_agent E io si pc a k)))) = Some f
     \<and> ae_name f = ae_name e \<and> ae_state f = Agent_running
     \<and> agent_restart_count b (k_super (boot E dec rd lc fresh tick now (fst (restart_agent E io si pc a k)))) = 0"
proof -
  let ?k = "fst (restart_agent E io si pc a k)"
  have ok: "kernel_ok k" by (rule kernel_steps_ok [OF reach kernel_ok_empty])
  have rows: "k_rows ?k = k_rows k" using restart_refused [OF stop] by blast
  obtain d where d: "d \<in> set (load_rows (ke_lower E) fresh now {} (k_rows ?k))" "ae_id d = b" "ae_name d = ae_name e"
    using first_of_name_loaded [OF row(2)] rows by metis
  have "distinct (row_ids (k_rows ?k))" using kernel_okD(2) [OF ok] rows by simp
  then have "get_agent b (k_registry (boot E dec rd lc fresh tick now ?k)) = Some (revived E d)"
    using boot_registers [OF _ d(1)] d(2) by simp
  moreover have "agent_restart_count b (k_super (boot E dec rd lc fresh tick now ?k)) = 0"
    by (simp add: boot_def restore_agents_def restore_super agent_restart_count_def new_supervisor_def)
  ultimately show ?thesis using d(3) by (simp add: revived_def)
qed

end
