(* ===== verification/Kernel_Shutdown.thy ===== *)
theory Kernel_Shutdown
  imports Kernel_Restart
begin

text \<open>
  A shutdown followed by a boot: which agents return and with what. And the quota of an agent
  over time.
\<close>

section \<open>Rows after a shutdown\<close>

definition same_core :: "'j agent_entry \<Rightarrow> 'j agent_entry \<Rightarrow> bool" where
  "same_core e f \<longleftrightarrow> ae_id f = ae_id e \<and> ae_name f = ae_name e \<and> ae_manifest f = ae_manifest e \<and> ae_session f = ae_session e"

definition row_like :: "'j agent_entry \<Rightarrow> 'j agent_row \<Rightarrow> bool" where
  "row_like e r \<longleftrightarrow> row_id r = Some (ae_id e) \<and> row_name r = ae_name e \<and> row_manifest r = Some (ae_manifest e)
     \<and> row_state r \<noteq> None \<and> row_session r = Some (ae_session e)"

lemma set_save_row:
  assumes "distinct (row_ids rs)"
  shows "\<exists>r. set (save_row e rs) = insert r {q \<in> set rs. row_id q \<noteq> Some (ae_id e)} \<and> row_like e r"
  using assms
proof (induction rs)
  case Nil
  have "row_like e (row_of e)" by (simp add: row_like_def row_of_def)
  then show ?case by auto
next
  case (Cons q rs)
  show ?case
  proof (cases "row_id q = Some (ae_id e)")
    case True
    then have "\<forall>p \<in> set rs. row_id p \<noteq> Some (ae_id e)" using Cons.prems row_ids_mem by fastforce
    moreover have "row_like e ((row_of e)\<lparr> row_created := row_created q \<rparr>)" by (simp add: row_like_def row_of_def)
    ultimately show ?thesis using True by (intro exI conjI) auto
  next
    case False
    have "distinct (row_ids rs)" using Cons.prems by (simp split: option.splits)
    then obtain r where "set (save_row e rs) = insert r {q \<in> set rs. row_id q \<noteq> Some (ae_id e)}" "row_like e r"
      using Cons.IH by blast
    then show ?thesis using False by (intro exI [of _ r]) auto
  qed
qed

abbreviation all_saved :: "nat \<Rightarrow> bool" where "all_saved \<equiv> \<lambda>i. True"

lemma suspend_one_result:
  assumes "get_agent (ae_id e) (k_registry k) = Some f" and "same_core e f" and "distinct (row_ids (k_rows k))"
  shows "\<exists>r. set (k_rows (suspend_one E now all_saved e k))
            = insert r {q \<in> set (k_rows k). row_id q \<noteq> Some (ae_id e)} \<and> row_like e r"
proof -
  let ?f = "f\<lparr> ae_state := Agent_suspended, ae_last_active := now \<rparr>"
  have "k_rows (suspend_one E now all_saved e k) = save_row ?f (k_rows k)"
    using assms(1) by (simp add: suspend_one_def save_agent_def set_state_def get_agent_touch)
  moreover obtain r where "set (save_row ?f (k_rows k)) = insert r {q \<in> set (k_rows k). row_id q \<noteq> Some (ae_id ?f)}"
    "row_like ?f r" using set_save_row [OF assms(3), of ?f] by blast
  ultimately show ?thesis using assms(2) by (intro exI [of _ r]) (simp add: same_core_def row_like_def)
qed

lemma suspend_one_core:
  assumes "\<exists>f. get_agent i (k_registry k) = Some f \<and> same_core g f"
  shows "\<exists>f. get_agent i (k_registry (suspend_one E now s e k)) = Some f \<and> same_core g f"
  using assms by (auto simp: suspend_one_def set_state_def get_agent_touch same_core_def)

lemma suspend_one_rows_ok:
  "distinct (row_ids (k_rows k)) \<Longrightarrow> distinct (row_ids (k_rows (suspend_one E now s e k)))"
  by (simp add: suspend_one_def save_agent_def distinct_save split: option.split)

lemma suspend_rows:
  "\<forall>e \<in> set es. \<exists>f. get_agent (ae_id e) (k_registry k) = Some f \<and> same_core e f \<Longrightarrow> distinct (row_ids (k_rows k))
     \<Longrightarrow> distinct (map ae_id es)
     \<Longrightarrow> (\<forall>e \<in> set es. \<exists>r \<in> set (k_rows (fold (suspend_one E now all_saved) es k)). row_like e r)
       \<and> (\<forall>q. row_id q \<notin> Some ` ae_id ` set es \<longrightarrow>
            q \<in> set (k_rows (fold (suspend_one E now all_saved) es k)) \<longleftrightarrow> q \<in> set (k_rows k))"
proof (induction es arbitrary: k)
  case (Cons e es)
  let ?k = "suspend_one E now all_saved e k"
  obtain f where f: "get_agent (ae_id e) (k_registry k) = Some f" "same_core e f" using Cons.prems(1) by auto
  obtain r where r: "set (k_rows ?k) = insert r {q \<in> set (k_rows k). row_id q \<noteq> Some (ae_id e)}" "row_like e r"
    using suspend_one_result [OF f Cons.prems(2)] by blast
  have IH: "(\<forall>e \<in> set es. \<exists>r \<in> set (k_rows (fold (suspend_one E now all_saved) es ?k)). row_like e r)
      \<and> (\<forall>q. row_id q \<notin> Some ` ae_id ` set es \<longrightarrow>
            q \<in> set (k_rows (fold (suspend_one E now all_saved) es ?k)) \<longleftrightarrow> q \<in> set (k_rows ?k))"
    by (rule Cons.IH) (use Cons.prems suspend_one_core [of _ k] suspend_one_rows_ok in auto)
  have out: "Some (ae_id e) \<notin> Some ` ae_id ` set es" using Cons.prems(3) by auto
  have "row_id r = Some (ae_id e)" using r(2) by (simp add: row_like_def)
  then have "r \<in> set (k_rows (fold (suspend_one E now all_saved) es ?k))"
    using conjunct2 [OF IH] out r(1) by simp
  then have "\<forall>d \<in> set (e # es). \<exists>r \<in> set (k_rows (fold (suspend_one E now all_saved) (e # es) k)). row_like d r"
    using conjunct1 [OF IH] r(2) by auto
  moreover have "q \<in> set (k_rows (fold (suspend_one E now all_saved) (e # es) k)) \<longleftrightarrow> q \<in> set (k_rows k)"
    if "row_id q \<notin> Some ` ae_id ` set (e # es)" for q
    using that conjunct2 [OF IH] r(1) \<open>row_id r = Some (ae_id e)\<close> by auto
  ultimately show ?case by blast
qed simp

section \<open>Loading complete rows\<close>

lemma all_rows_loaded:
  "distinct (map (\<lambda>r. lower (row_name r)) rs) \<Longrightarrow> \<forall>r \<in> set rs. lower (row_name r) \<notin> seen \<Longrightarrow>
     r \<in> set rs \<Longrightarrow> row_id r = Some i \<Longrightarrow> row_manifest r = Some m \<Longrightarrow> row_state r = Some s \<Longrightarrow>
     entry_of_row fresh now i m s r \<in> set (load_rows lower fresh now seen rs)"
proof (induction rs arbitrary: seen)
  case (Cons q rs)
  have new: "lower (row_name q) \<notin> seen" using Cons.prems(2) by simp
  have rest: "\<forall>p \<in> set rs. lower (row_name p) \<notin> insert (lower (row_name q)) seen"
  proof (intro ballI notI)
    fix p
    assume p: "p \<in> set rs" and "lower (row_name p) \<in> insert (lower (row_name q)) seen"
    then have "lower (row_name p) = lower (row_name q)" using Cons.prems(2) by simp
    then have "lower (row_name q) \<in> (\<lambda>r. lower (row_name r)) ` set rs"
      using imageI [OF p, of "\<lambda>r. lower (row_name r)"] by simp
    then show False using Cons.prems(1) by simp
  qed
  show ?case
  proof (cases "r = q")
    case True
    then show ?thesis using Cons.prems(4-6) new by (simp add: Let_def)
  next
    case False
    then have "entry_of_row fresh now i m s r \<in> set (load_rows lower fresh now (insert (lower (row_name q)) seen) rs)"
      using Cons.IH [OF _ rest] Cons.prems by auto
    then show ?thesis using new by (simp add: Let_def split: option.split)
  qed
qed simp

section \<open>Shutdown and boot\<close>

text \<open>Every row belongs to a registered agent, and names differ in more than case.\<close>

definition rows_current :: "(string \<Rightarrow> string) \<Rightarrow> ('j, 'h, 'd, 'c) kernel \<Rightarrow> bool" where
  "rows_current lower k \<longleftrightarrow>
     (\<forall>r \<in> set (k_rows k). \<exists>i. row_id r = Some i \<and> get_agent i (k_registry k) \<noteq> None)
     \<and> (\<forall>i j e f. get_agent i (k_registry k) = Some e \<and> get_agent j (k_registry k) = Some f
          \<and> lower (ae_name e) = lower (ae_name f) \<longrightarrow> i = j)"

lemma unique_row:
  "p \<in> set rs \<Longrightarrow> q \<in> set rs \<Longrightarrow> row_id p = Some j \<Longrightarrow> row_id q = Some j \<Longrightarrow> distinct (row_ids rs) \<Longrightarrow> p = q"
proof (induction rs)
  case (Cons r rs)
  have j: "j \<in> set (row_ids rs)" if "x \<in> set rs" "row_id x = Some j" for x
    using that row_ids_mem by fastforce
  show ?case
  proof (cases "row_id r = Some j")
    case True
    then have "j \<notin> set (row_ids rs)" using Cons.prems(5) by simp
    then show ?thesis using Cons.prems(1-4) j by (metis set_ConsD)
  next
    case False
    then have "p \<in> set rs" "q \<in> set rs" using Cons.prems(1-4) by auto
    moreover have "distinct (row_ids rs)" using Cons.prems(5) by (simp split: option.splits)
    ultimately show ?thesis using Cons.IH Cons.prems(3,4) by simp
  qed
qed simp

lemma listed_agents:
  assumes "registry_ok r"
  shows "e \<in> set (list_agents r) \<Longrightarrow> get_agent (ae_id e) r = Some e"
    and "get_agent i r = Some e \<Longrightarrow> e \<in> set (list_agents r) \<and> ae_id e = i"
    and "distinct (map ae_id (list_agents r))"
proof -
  have d: "distinct (map fst (agents r))" by (rule registry_okD(1) [OF assms])
  have key: "ae_id e = i" if "map_of (agents r) i = Some e" for i e
    using that registry_okD(2) [OF assms] by (simp add: get_agent_def)
  show "e \<in> set (list_agents r) \<Longrightarrow> get_agent (ae_id e) r = Some e"
  proof -
    assume "e \<in> set (list_agents r)"
    then obtain i where "(i, e) \<in> set (agents r)" by (auto simp: list_agents_def)
    then have "map_of (agents r) i = Some e" using d by (rule map_of_is_SomeI [rotated])
    then show ?thesis using key by (simp add: get_agent_def)
  qed
  show "get_agent i r = Some e \<Longrightarrow> e \<in> set (list_agents r) \<and> ae_id e = i"
    using map_of_SomeD [of "agents r" i e] key by (force simp: get_agent_def list_agents_def)
  have "ae_id (snd p) = fst p" if "p \<in> set (agents r)" for p
    using key [OF map_of_is_SomeI [OF d, of "fst p" "snd p"]] that by simp
  then have "map ae_id (list_agents r) = map fst (agents r)" by (simp add: list_agents_def)
  then show "distinct (map ae_id (list_agents r))" using d by simp
qed

lemma suspended_rows:
  assumes ok: "kernel_ok k" and cur: "rows_current lower k"
  shows "\<forall>r \<in> set (k_rows (suspend_agents E now all_saved k)). \<exists>e. get_agent (ae_id e) (k_registry k) = Some e \<and> row_like e r"
    and "get_agent i (k_registry k) = Some e \<Longrightarrow> \<exists>r \<in> set (k_rows (suspend_agents E now all_saved k)). row_like e r"
proof -
  let ?es = "list_agents (k_registry k)" and ?rows = "k_rows (suspend_agents E now all_saved k)"
  note reg = kernel_okD(1) [OF ok]
  note mem = listed_agents(1) [OF reg] and mem' = listed_agents(2) [OF reg] and dist = listed_agents(3) [OF reg]
  have all: "\<forall>e \<in> set ?es. \<exists>f. get_agent (ae_id e) (k_registry k) = Some f \<and> same_core e f"
    by (intro ballI exI conjI, rule mem) (simp_all add: same_core_def)
  note rows = suspend_rows [OF all kernel_okD(2) [OF ok] dist, of E now, folded suspend_agents_def]
  show some: "get_agent i (k_registry k) = Some e \<Longrightarrow> \<exists>r \<in> set ?rows. row_like e r" for i e
    by (rule bspec [OF conjunct1 [OF rows] conjunct1 [OF mem']])
  have ids: "distinct (row_ids ?rows)" using kernel_okD(2) [OF kernel_ok_suspend [OF ok]] .
  show "\<forall>r \<in> set ?rows. \<exists>e. get_agent (ae_id e) (k_registry k) = Some e \<and> row_like e r"
  proof
    fix r
    assume r: "r \<in> set ?rows"
    have "row_id r \<in> Some ` ae_id ` set ?es"
    proof (rule ccontr)
      assume out: "row_id r \<notin> Some ` ae_id ` set ?es"
      then have "r \<in> set (k_rows k)" using conjunct2 [OF rows] r by blast
      then obtain i where i: "row_id r = Some i" "get_agent i (k_registry k) \<noteq> None"
        using cur by (auto simp: rows_current_def)
      then obtain e where "get_agent i (k_registry k) = Some e" by blast
      from mem' [OF this] have "i \<in> ae_id ` set ?es" by blast
      then show False using out i(1) by blast
    qed
    then obtain e where e: "e \<in> set ?es" "row_id r = Some (ae_id e)" by blast
    then obtain q where q: "q \<in> set ?rows" "row_like e q" using conjunct1 [OF rows] by blast
    then have "row_id q = row_id r" using e(2) by (simp add: row_like_def)
    then have "r = q" using unique_row [OF r q(1) e(2) _ ids] e(2) by simp
    then show "\<exists>e. get_agent (ae_id e) (k_registry k) = Some e \<and> row_like e r" using q(2) mem [OF e(1)] by blast
  qed
qed

lemma distinct_row_names:
  assumes "distinct (row_ids rs)" and "\<forall>r \<in> set rs. row_id r \<noteq> None"
    and "\<And>p q. p \<in> set rs \<Longrightarrow> q \<in> set rs \<Longrightarrow> lower (row_name p) = lower (row_name q) \<Longrightarrow> row_id p = row_id q"
  shows "distinct (map (\<lambda>r. lower (row_name r)) rs)"
  using assms
proof (induction rs)
  case Nil
  show ?case by (simp only: list.map distinct.simps)
next
  case (Cons r rs)
  obtain i where i: "row_id r = Some i" using Cons.prems(2) by auto
  have "lower (row_name r) \<notin> (\<lambda>r. lower (row_name r)) ` set rs"
  proof
    assume "lower (row_name r) \<in> (\<lambda>r. lower (row_name r)) ` set rs"
    then obtain q where "q \<in> set rs" "lower (row_name r) = lower (row_name q)" by auto
    then have q: "q \<in> set rs" "row_id q = Some i" using Cons.prems(3) [of r q] i by simp_all
    then have "i \<in> set (row_ids rs)" using row_ids_mem by fastforce
    then show False using Cons.prems(1) i by simp
  qed
  moreover have "distinct (map (\<lambda>r. lower (row_name r)) rs)"
  proof (rule Cons.IH)
    show "distinct (row_ids rs)" using Cons.prems(1) by (simp split: option.splits)
    show "\<forall>r \<in> set rs. row_id r \<noteq> None" using Cons.prems(2) by simp
    show "row_id p = row_id q" if "p \<in> set rs" "q \<in> set rs" "lower (row_name p) = lower (row_name q)" for p q
      by (rule Cons.prems(3)) (use that in simp_all)
  qed
  ultimately show ?case by simp
qed

text \<open>
  C23: For a kernel all of whose rows belong to registered agents, and in which no two agents have
  names that differ in case only (so one in which no agent was restarted and no deletion of a row
  failed since the last boot), a shutdown whose saves all succeed, followed by a boot, brings back
  exactly the agents that were registered, with their ids, names, manifests, sessions and
  capabilities. The operator's mode is not kept: every agent returns unrestricted.
\<close>

theorem shutdown_boot_roundtrip:
  assumes reach: "(kernel_step E)\<^sup>*\<^sup>* (empty_kernel maxj) k" and cur: "rows_current (ke_lower E) k"
    and k': "k' = boot E dec rd lc fresh tick now' (suspend_agents E now all_saved k)"
  shows "(\<forall>i. get_agent i (k_registry k') = None \<longleftrightarrow> get_agent i (k_registry k) = None)
     \<and> (\<forall>i e. get_agent i (k_registry k) = Some e \<longrightarrow>
          (\<exists>f. get_agent i (k_registry k') = Some f \<and> ae_name f = ae_name e
             \<and> ae_manifest f = inherit_exec_policy E (ae_manifest e) \<and> ae_session f = ae_session e
             \<and> ae_state f = Agent_running \<and> ae_mode f = Full_mode \<and> k_caps k' i = k_caps k i))"
proof -
  have ok: "kernel_ok k" by (rule kernel_steps_ok [OF reach kernel_ok_empty])
  let ?s = "suspend_agents E now all_saved k"
  have oks: "kernel_ok ?s" by (rule kernel_ok_suspend [OF ok])
  have okb: "kernel_ok k'" unfolding k' by (rule kernel_ok_boot [OF oks])
  note rows = suspended_rows [where E = E and now = now, OF ok cur]
  have names: "distinct (map (\<lambda>r. ke_lower E (row_name r)) (k_rows ?s))"
  proof (rule distinct_row_names [OF kernel_okD(2) [OF oks]])
    show "\<forall>r \<in> set (k_rows ?s). row_id r \<noteq> None" using rows(1) by (fastforce simp: row_like_def)
    show "row_id p = row_id q"
      if "p \<in> set (k_rows ?s)" "q \<in> set (k_rows ?s)" "ke_lower E (row_name p) = ke_lower E (row_name q)" for p q
      using rows(1) that cur unfolding rows_current_def row_like_def by metis
  qed
  have returned: "\<exists>f. get_agent i (k_registry k') = Some f \<and> ae_name f = ae_name e
      \<and> ae_manifest f = inherit_exec_policy E (ae_manifest e) \<and> ae_session f = ae_session e
      \<and> ae_state f = Agent_running \<and> ae_mode f = Full_mode \<and> k_caps k' i = k_caps k i"
    if g: "get_agent i (k_registry k) = Some e" for i e
  proof -
    have id: "ae_id e = i" using g registry_okD(2) [OF kernel_okD(1) [OF ok]] by (simp add: get_agent_def)
    obtain r where r: "r \<in> set (k_rows ?s)" "row_like e r" using rows(2) [OF g] by blast
    then obtain s where s: "row_id r = Some i" "row_manifest r = Some (ae_manifest e)" "row_state r = Some s"
      by (auto simp: row_like_def id)
    let ?f = "entry_of_row fresh now' i (ae_manifest e) s r"
    have "?f \<in> set (load_rows (ke_lower E) fresh now' {} (k_rows ?s))"
      by (rule all_rows_loaded [OF names _ r(1) s]) simp
    from boot_registers [OF kernel_okD(2) [OF oks] this]
    have b: "get_agent i (k_registry k') = Some (revived E ?f)" by (simp add: k' entry_of_row_def)
    have "k_caps k' i = Some (manifest_to_capabilities (inherit_exec_policy E (ae_manifest e)))"
      using kernel_okD(3) [OF okb b] by (simp add: powered_def revived_def entry_of_row_def)
    also have "\<dots> = k_caps k i"
      using kernel_okD(3) [OF ok g] same_powers_capabilities derived_policy
      unfolding powered_def derived_def by metis
    finally show ?thesis using b r(2) by (simp add: revived_def entry_of_row_def row_like_def)
  qed
  have "get_agent i (k_registry k') = None" if n: "get_agent i (k_registry k) = None" for i
  proof -
    have "i \<notin> set (row_ids (k_rows ?s))"
      using rows(1) n unfolding row_ids_mem row_like_def by auto
    then show ?thesis unfolding k' by (rule boot_ids [OF kernel_okD(2) [OF oks]])
  qed
  moreover have "get_agent i (k_registry k') \<noteq> None" if "get_agent i (k_registry k) = Some e" for i e
    using returned [OF that] by (elim exE conjE) simp
  ultimately have "get_agent i (k_registry k') = None \<longleftrightarrow> get_agent i (k_registry k) = None" for i
    by (cases "get_agent i (k_registry k)") simp_all
  then show ?thesis using returned by (intro conjI allI impI) simp_all
qed

section \<open>Quotas\<close>

text \<open>
  The hourly window is not a rolling one: it starts with the first use after the previous one
  expired. An agent may use its whole limit in the last second of a window and the whole limit
  again one second later; every check in between passes.
\<close>

theorem quota_window_burst:
  assumes "quotas s a = Some q" and "usage s a = Some (new_tracker 0)"
    and "max_llm_tokens_per_hour q < 2 ^ 64" and "l = max_llm_tokens_per_hour q"
    and "s1 = record_usage (window_nanos - 1) a (l, 0) n s"
    and "s2 = record_usage window_nanos a (l, 0) n (fst (check_quota window_nanos a s1))"
  shows "snd (check_quota (window_nanos - 1) a s1) = Inr () \<and> snd (check_quota window_nanos a s2) = Inr ()
     \<and> get_usage a s2 = Some (l, n mod 2 ^ 64)"
proof -
  have l: "l mod 18446744073709551616 = l" using assms(3,4) by simp
  have u1: "usage s1 a = Some \<lparr> total_tokens = l, tool_calls = n mod 18446744073709551616, window_start = 0 \<rparr>"
    and q1: "quotas s1 a = Some q"
    using assms(1,2,5) l
    by (simp_all add: record_usage_def new_tracker_def reset_if_expired_def window_nanos_def add64_def Let_def)
  have c: "usage (fst (check_quota window_nanos a s1)) a = Some (new_tracker window_nanos)"
    using u1 q1 by (simp add: check_quota_def reset_if_expired_def window_nanos_def new_tracker_def Let_def)
  have q2: "quotas s2 a = Some q" using q1 assms(6) by (simp add: quota_checked)
  have u2: "usage s2 a = Some \<lparr> total_tokens = l, tool_calls = n mod 18446744073709551616, window_start = window_nanos \<rparr>"
    using c assms(6) l
    by (simp add: record_usage_def new_tracker_def reset_if_expired_def window_nanos_def add64_def Let_def)
  show ?thesis
    using u1 q1 u2 q2 assms(4)
    by (simp add: check_quota_def reset_if_expired_def window_nanos_def get_usage_def Let_def)
qed

end
