(* ===== verification/Kernel_Witnesses.thy ===== *)
theory Kernel_Witnesses
  imports Kernel_Shutdown Trigger_Theorems
begin

text \<open>
  Concrete kernels: an agent that is spawned, restarted, killed, and suspended and restored; and
  the properties of the other theories applied to them.
\<close>

type_synonym demo_kernel_state = "(unit, nat, trigger list, nat) kernel"

definition demo_kenv :: "(unit, trigger list) kernel_env" where
  "demo_kenv = \<lparr> ke_show = nat_str, ke_parse_id = (\<lambda>s. None), ke_fmt = demo_fmt, ke_lower = map ascii_lower,
     ke_toml = (\<lambda>t. Inr (default_manifest\<lparr> mf_name := t, mf_capabilities := (no_manifest_capabilities\<lparr> cap_tools := [''*''] \<rparr>) \<rparr>)),
     ke_cap_debug = (\<lambda>c. []), ke_trig_enc = Some, ke_exec_policy = default_exec_policy, ke_provider = [],
     ke_model = [], ke_workspaces = ''/w'' \<rparr>"

definition demo_manifest :: "unit agent_manifest" where
  "demo_manifest = default_manifest\<lparr> mf_name := ''a'',
     mf_capabilities := (no_manifest_capabilities\<lparr> cap_tools := [''*''] \<rparr>),
     mf_autonomous := Some (\<lparr> quiet_hours = None, auto_max_iterations = 50, auto_max_restarts = 1,
       heartbeat_interval_secs = 30, heartbeat_channel = None \<rparr>) \<rparr>"

definition demo_spawn :: "nat \<Rightarrow> spawn_input" where
  "demo_spawn i = \<lparr> si_id = i, si_session = i, si_utc = 0, si_mono = 0, si_trigger_ids = [], si_event = 0,
     si_session_error = None, si_workspace_error = None, si_save_error = None, si_trigger_io = (True, True) \<rparr>"

abbreviation no_failure :: "spawn_input \<Rightarrow> bool" where
  "no_failure si \<equiv> si_session_error si = None \<and> si_workspace_error si = None \<and> si_save_error si = None"

lemma prepared_sel: "mf_group (prepare_manifest E a m g) = g" "mf_name (prepare_manifest E a m g) = mf_name m"
    "mf_autonomous (prepare_manifest E a m g) = mf_autonomous m"
  by (simp_all add: prepare_manifest_def overlay_default_model_def inherit_exec_policy_def Let_def)

text \<open>A spawn with a free name and no failure.\<close>

lemma spawn_free:
  assumes "no_failure si" and "normalize_agent_group (mf_group m) = Inr g"
    and "name_index (k_registry k) (mf_name m) = None"
  shows "snd (spawn_agent_with_parent E si m None k) = Inr (si_id si)"
    and "k_registry (fst (spawn_agent_with_parent E si m None k))
           = insert_entry (new_entry si None (prepare_manifest E (si_id si) m g)) (k_registry k)"
    and "k_rows (fst (spawn_agent_with_parent E si m None k))
           = save_row (new_entry si None (prepare_manifest E (si_id si) m g)) (k_rows k)"
    and "k_super (fst (spawn_agent_with_parent E si m None k)) = k_super k"
  using assms
  by (simp_all add: spawn_agent_with_parent_def admit_agent_def register_agent_def name_taken_def prepared_sel
      activate_def finish_spawn_def Let_def)

lemma restart_free:
  assumes "no_failure si" and e: "get_agent a (k_registry k) = Some e" "ae_name e = mf_name (ae_manifest e)"
    and g: "normalize_agent_group (mf_group (ae_manifest e)) = Inr g"
    and rec: "record_agent_restart a (max_restarts_of (ae_manifest e)) (k_super k) = (s, Inr c)"
  shows "snd (snd (restart_agent E io si pc a k)) = Inr (a, si_id si)"
proof -
  obtain r where rm: "remove_agent (ke_show E) a (k_registry k) = (r, Inr e)" and "name_index r (ae_name e) = None"
    using e(1) by (simp add: remove_agent_def get_agent_def)
  let ?k = "(fst (stop_for_restart E io a (ae_name e) (k\<lparr> k_registry := r \<rparr>)))\<lparr> k_super := s \<rparr>"
  have "name_index (k_registry ?k) (mf_name (ae_manifest e)) = None" using e(2) \<open>name_index r (ae_name e) = None\<close> by simp
  from spawn_free(1) [OF assms(1) g this, of E]
  obtain k2 where sp: "spawn_agent E si (ae_manifest e) ?k = (k2, Inr (si_id si))"
    by (metis prod.collapse spawn_agent_def)
  show ?thesis
    using restart_outcome [OF rm refl, of io si pc] rec respawn_sel(6) [OF sp, of pc a] by auto
qed

definition demo_agents :: demo_kernel_state where
  "demo_agents = fst (spawn_agent_with_parent demo_kenv (demo_spawn 1) demo_manifest None (empty_kernel 5))"

abbreviation demo_first :: "unit agent_entry" where
  "demo_first \<equiv> new_entry (demo_spawn 1) None (prepare_manifest demo_kenv 1 demo_manifest None)"

lemma demo_no_failure: "no_failure (demo_spawn i)" "si_id (demo_spawn i) = i"
  by (simp_all add: demo_spawn_def)

lemma demo_group: "normalize_agent_group (mf_group demo_manifest) = Inr None"
    "normalize_agent_group None = Inr None" "mf_name demo_manifest = ''a''"
  by (simp_all add: demo_manifest_def default_manifest_def normalize_agent_group_def)

lemma demo_sel:
  "k_registry demo_agents = insert_entry demo_first new_registry" "k_rows demo_agents = [row_of demo_first]"
  "k_super demo_agents = new_supervisor"
  using spawn_free(2-4) [OF demo_no_failure(1) demo_group(1), of "empty_kernel 5 :: demo_kernel_state" demo_kenv 1]
  by (simp_all add: demo_agents_def empty_kernel_def new_registry_def demo_no_failure)

lemma demo_kernel_reached: "(kernel_step demo_kenv)\<^sup>*\<^sup>* (empty_kernel 5) demo_agents"
  unfolding demo_agents_def
  by (rule r_into_rtranclp) (rule kernel_step.intros(1), simp add: empty_kernel_def new_registry_def get_agent_def)

lemma demo_get: "get_agent i (k_registry demo_agents) = (if i = 1 then Some demo_first else None)"
  by (simp add: demo_sel get_insert_entry demo_no_failure) (simp add: new_registry_def get_agent_def)

definition demo_restart :: "demo_kernel_state \<times> nat list \<times> (rh_error + nat \<times> nat)" where
  "demo_restart = restart_agent demo_kenv (True, True) (demo_spawn 2) (\<lambda>c. c) 1 demo_agents"

lemma demo_max_restarts: "max_restarts_of (prepare_manifest demo_kenv i demo_manifest g) = 1"
  by (simp add: max_restarts_of_def prepared_sel demo_manifest_def)

lemma demo_restarted: "snd (snd demo_restart) = Inr (1, 2)"
proof -
  obtain s c where "record_agent_restart 1 1 (k_super demo_agents) = (s, Inr c)"
    by (simp add: demo_sel record_agent_restart_def new_supervisor_def Let_def)
  then show ?thesis
    using restart_free [OF demo_no_failure(1), of 1 demo_agents demo_first None s c demo_kenv "(True, True)" 2 "\<lambda>c. c"]
    by (simp add: demo_restart_def demo_get prepared_sel demo_group demo_max_restarts demo_no_failure)
qed

lemma powers_follow_manifest_witness:
  "k_caps demo_agents 1 = Some (manifest_to_capabilities (ae_manifest demo_first))"
  using powers_follow_manifest [OF demo_kernel_reached, of 1 demo_first] by (simp add: demo_get)

definition demo_kill :: "demo_kernel_state \<times> nat list \<times> (rh_error + unit)" where
  "demo_kill = kill_agent demo_kenv (True, True) (True, True) 1 demo_agents"

lemma demo_killed: "kill_agent demo_kenv (True, True) (True, True) 1 demo_agents = (fst demo_kill, fst (snd demo_kill), Inr ())"
proof -
  have "snd (snd demo_kill) = Inr ()"
    using demo_get [of 1] by (simp add: demo_kill_def kill_agent_def remove_agent_def get_agent_def Let_def split: prod.split)
  then show ?thesis by (metis prod.collapse demo_kill_def)
qed

lemma killed_agent_powerless_witness:
  "get_agent 1 (k_registry (fst demo_kill)) = None
     \<and> get_agent 1 (k_registry (boot demo_kenv Some True (\<lambda>c. c) id 0 0 (fst demo_kill))) = None"
  using killed_agent_powerless [OF demo_kernel_reached demo_killed] by simp

lemma failed_spawn_witness:
  "\<exists>k. spawn_agent_with_parent demo_kenv ((demo_spawn 1)\<lparr> si_save_error := Some (Internal ''full'') \<rparr>) demo_manifest
         None (empty_kernel 5 :: demo_kernel_state) = (k, Inl (Internal ''full''))
     \<and> (untouched 1 (empty_kernel 5) k \<or> get_agent 1 (k_registry k) \<noteq> None)"
proof -
  let ?si = "(demo_spawn 1)\<lparr> si_save_error := Some (Internal ''full'') \<rparr>"
  let ?r = "spawn_agent_with_parent demo_kenv ?si demo_manifest None (empty_kernel 5 :: demo_kernel_state)"
  have "snd ?r = Inl (Internal ''full'')"
    by (simp add: spawn_agent_with_parent_def admit_agent_def register_agent_def name_taken_def prepared_sel
        demo_no_failure demo_group activate_def finish_spawn_def empty_kernel_def new_registry_def Let_def)
  then have r: "?r = (fst ?r, Inl (Internal ''full''))" by (metis prod.collapse)
  from failed_spawn [OF r] show ?thesis
    using r by (intro exI [of _ "fst ?r"]) (simp add: demo_no_failure empty_kernel_def new_registry_def get_agent_def)
qed

definition demo_toml_spawn :: "demo_kernel_state \<times> (string + string \<times> string)" where
  "demo_toml_spawn = handle_spawn_agent demo_kenv (demo_spawn 2) ''b'' (Some ''1'') (empty_kernel 5)"

abbreviation demo_toml_manifest :: "unit agent_manifest" where
  "demo_toml_manifest \<equiv> default_manifest\<lparr> mf_name := ''b'', mf_capabilities := (no_manifest_capabilities\<lparr> cap_tools := [''*''] \<rparr>) \<rparr>"

lemma demo_toml: "ke_toml demo_kenv ''b'' = Inr demo_toml_manifest" "ke_parse_id demo_kenv = (\<lambda>s. None)"
  by (simp_all add: demo_kenv_def)

lemma demo_toml_spawned: "\<exists>x. snd demo_toml_spawn = Inr x"
proof -
  have "normalize_agent_group (mf_group demo_toml_manifest) = Inr None"
    by (simp add: default_manifest_def normalize_agent_group_def)
  from spawn_free(1) [OF demo_no_failure(1) this, of "empty_kernel 5 :: demo_kernel_state" demo_kenv 2]
  have "snd (spawn_agent_with_parent demo_kenv (demo_spawn 2) demo_toml_manifest None (empty_kernel 5 :: demo_kernel_state)) = Inr 2"
    by (simp add: empty_kernel_def new_registry_def demo_no_failure)
  then show ?thesis unfolding demo_toml_spawn_def handle_spawn_agent_def demo_toml
    by (auto split: prod.split)
qed

lemma demo_toml_capability:
  "CToolInvoke ''*'' \<in> set (manifest_to_capabilities demo_toml_manifest)"
  "manifest_to_capabilities demo_toml_manifest = [CToolInvoke ''*'']"
  by (simp_all add: manifest_to_capabilities_def effective_capabilities_def no_manifest_capabilities_def
      default_manifest_def default_quota_def Let_def)

lemma agent_spawn_unchecked_witness:
  "check_capability nat_str (\<lambda>c. []) (k_caps (fst demo_toml_spawn)) 2 (CToolInvoke ''shell_exec'') = Granted"
proof -
  obtain x where "snd demo_toml_spawn = Inr x" using demo_toml_spawned by blast
  then have x: "handle_spawn_agent demo_kenv (demo_spawn 2) ''b'' (Some ''1'') (empty_kernel 5) = (fst demo_toml_spawn, Inr x)"
    by (metis demo_toml_spawn_def prod.collapse)
  show ?thesis
    using agent_spawn_unchecked [OF x demo_toml(1), of nat_str "\<lambda>c. []" "''shell_exec''"] by (simp add: demo_no_failure)
qed

lemma checked_spawn_bounded_witness:
  "\<exists>k x. handle_spawn_checked demo_kenv (demo_spawn 2) ''b'' (Some ''1'') [CToolInvoke ''*'']
         (empty_kernel 5 :: demo_kernel_state) = (k, Inr x)
     \<and> (\<exists>p \<in> set [CToolInvoke ''*'']. capability_matches p (CToolInvoke ''shell_exec''))"
proof -
  obtain x where "snd demo_toml_spawn = Inr x" using demo_toml_spawned by blast
  then have "handle_spawn_agent demo_kenv (demo_spawn 2) ''b'' (Some ''1'') (empty_kernel 5) = (fst demo_toml_spawn, Inr x)"
    by (metis demo_toml_spawn_def prod.collapse)
  moreover have "validate_capability_inheritance (ke_cap_debug demo_kenv) [CToolInvoke ''*'']
      (manifest_to_capabilities demo_toml_manifest) = Inr ()"
    unfolding demo_toml_capability(2) by simp
  ultimately have c: "handle_spawn_checked demo_kenv (demo_spawn 2) ''b'' (Some ''1'') [CToolInvoke ''*''] (empty_kernel 5)
      = (fst demo_toml_spawn, Inr x)"
    by (simp add: handle_spawn_checked_def demo_toml)
  have h: "handle_spawn_agent demo_kenv (demo_spawn 2) ''b'' (Some ''1'') (empty_kernel 5) = (fst demo_toml_spawn, Inr x)"
    using c by (simp add: handle_spawn_checked_def demo_toml split: sum.splits)
  have s: "si_id (demo_spawn 2) = 2" by (simp add: demo_no_failure)
  have l: "list_capabilities (k_caps (fst demo_toml_spawn)) 2 = [CToolInvoke ''*'']"
    using handle_spawn_capabilities [OF h] demo_toml(1) demo_toml_capability(2) s by auto
  then have "check_capability nat_str (\<lambda>c. []) (k_caps (fst demo_toml_spawn)) (si_id (demo_spawn 2)) (CToolInvoke ''shell_exec'')
      = Granted" by (simp add: check_granted s)
  from checked_spawn_bounded [OF c _ this] have "\<exists>p \<in> set [CToolInvoke ''*'']. capability_matches p (CToolInvoke ''shell_exec'')"
    using l s by (auto simp: cap_ok_def)
  then show ?thesis using c by blast
qed

lemma demo_restart_result:
  "restart_agent demo_kenv (True, True) (demo_spawn 2) (\<lambda>c. c) 1 demo_agents
     = (fst demo_restart, fst (snd demo_restart), Inr (1, 2))"
  using demo_restarted by (metis prod.collapse demo_restart_def)

lemma restart_forgets_mode_witness:
  "\<exists>e. get_agent 2 (k_registry (fst demo_restart)) = Some e \<and> ae_mode e = Full_mode"
  using restart_forgets_mode [OF demo_restart_result] by blast

lemma demo_limited: "limited 1 0 1 demo_agents"
  using demo_get [of 1] demo_max_restarts [of 1 None]
  by (simp add: limited_def demo_sel(3) agent_restart_count_def new_supervisor_def)

lemma demo_once_restarted: "restarted demo_kenv (Suc 0) demo_agents 1 (fst demo_restart) 2"
  by (rule restarted.intros(2) [OF restarted.intros(1) demo_restart_result])

lemma restart_limit_holds_witness:
  "agent_restart_count 2 (k_super (fst demo_restart)) = 1
     \<and> get_agent 2 (k_registry (fst (restart_agent demo_kenv (True, True) (demo_spawn 3) (\<lambda>c. c) 2 (fst demo_restart)))) = None"
  using restart_limit_holds [OF demo_once_restarted demo_limited, where io = "(True, True)" and si = "demo_spawn 3"
      and pc = "\<lambda>c. c"] by simp

lemma row_first_of_name:
  assumes "rs = row_of e # rest"
  shows "first_of_name lower (ae_id e) (ae_name e) rs"
  unfolding first_of_name_def
  by (rule exI [of _ "[]"], rule exI [of _ "row_of e"], rule exI [of _ rest]) (simp add: assms row_of_def)

lemma demo_first_of_name: "first_of_name lower 1 ''a'' (k_rows demo_agents)"
  using row_first_of_name [OF demo_sel(2)] by (simp add: demo_no_failure prepared_sel demo_group)

lemma restart_undone_by_boot_witness:
  "get_agent 1 (k_registry (boot demo_kenv Some True (\<lambda>c. c) id 0 0 (fst demo_restart))) \<noteq> None
     \<and> get_agent 2 (k_registry (boot demo_kenv Some True (\<lambda>c. c) id 0 0 (fst demo_restart))) = None"
proof -
  have fresh: "2 \<notin> set (row_ids (k_rows demo_agents))"
    by (simp add: demo_sel row_of_def row_ids_def List.map_filter_simps demo_no_failure)
  have old: "first_of_name (ke_lower demo_kenv) 1 (mf_name (ae_manifest e)) (k_rows demo_agents)"
    if "get_agent 1 (k_registry demo_agents) = Some e" for e
    using that demo_first_of_name by (auto simp: demo_get prepared_sel demo_group)
  show ?thesis
    using restart_undone_by_boot [OF demo_kernel_reached demo_restart_result fresh old refl,
        where dec = Some and rd = True and lc = "\<lambda>c. c" and fresh_session = id and tick = 0 and now = 0]
    by simp
qed

lemma demo_restarted_reached: "(kernel_step demo_kenv)\<^sup>*\<^sup>* (empty_kernel 5) (fst demo_restart)"
proof -
  have "kernel_step demo_kenv demo_agents (fst demo_restart)"
    unfolding demo_restart_def by (rule kernel_step.intros(3)) (simp add: demo_get demo_no_failure)
  then show ?thesis using demo_kernel_reached by (rule rtranclp.rtrancl_into_rtrancl [rotated])
qed

lemma demo_restart_rows: "\<exists>rest. k_rows (fst demo_restart) = row_of demo_first # rest"
    and demo_restart_entry: "\<exists>e. get_agent 2 (k_registry (fst demo_restart)) = Some e \<and> ae_name e = ''a''"
proof -
  obtain r e s c k1 k2 where rm: "remove_agent (ke_show demo_kenv) 1 (k_registry demo_agents) = (r, Inr e)"
    and k1: "k1 = (fst (stop_for_restart demo_kenv (True, True) 1 (ae_name e) (demo_agents\<lparr> k_registry := r \<rparr>)))\<lparr> k_super := s \<rparr>"
    and sp: "spawn_agent_with_parent demo_kenv (demo_spawn 2) (ae_manifest e) None k1 = (k2, Inr 2)"
    and k': "fst demo_restart = fst (respawn demo_kenv (demo_spawn 2) (\<lambda>c. c) 1 (ae_manifest e) k1)"
    using restart_succeeds [OF demo_restart_result] by metis
  obtain m' where d: "derived (ae_manifest e) m'" and rows: "k_rows k2 = save_row (new_entry (demo_spawn 2) None m') (k_rows k1)"
    and reg: "k_registry k2 = insert_entry (new_entry (demo_spawn 2) None m') (k_registry k1)"
    using spawned_entry [OF sp] by metis
  have sp': "spawn_agent demo_kenv (demo_spawn 2) (ae_manifest e) k1 = (k2, Inr 2)" using sp by (simp add: spawn_agent_def)
  have "k_rows (fst demo_restart) = save_row (new_entry (demo_spawn 2) None m') [row_of demo_first]"
    using respawn_sel(2) [OF sp', of "\<lambda>c. c" 1] rows by (simp add: k' k1 demo_sel)
  then show "\<exists>rest. k_rows (fst demo_restart) = row_of demo_first # rest" by (simp add: row_of_def demo_no_failure)
  have "e = demo_first" using get_remove_agent(1) [OF rm] by (simp add: demo_get)
  then have "mf_name m' = ''a''" using d by (simp add: derived_def prepared_sel demo_group)
  moreover have "k_registry (fst demo_restart) = insert_entry (new_entry (demo_spawn 2) None m') (k_registry k1)"
    using respawn_sel(1) [OF sp', of "\<lambda>c. c" 1] reg by (simp add: k')
  ultimately show "\<exists>e. get_agent 2 (k_registry (fst demo_restart)) = Some e \<and> ae_name e = ''a''"
    by (simp add: get_insert_entry demo_no_failure)
qed

lemma stopped_agent_returns_witness:
  "\<exists>f. get_agent 1 (k_registry (boot demo_kenv Some True (\<lambda>c. c) id 0 0
          (fst (restart_agent demo_kenv (True, True) (demo_spawn 3) (\<lambda>c. c) 2 (fst demo_restart))))) = Some f
     \<and> ae_name f = ''a'' \<and> ae_state f = Agent_running"
proof -
  have "limited 1 (Suc 0) 2 (fst demo_restart)"
    by (rule restart_counts [OF demo_limited _ _ demo_restart_result]) simp_all
  then have l: "limited 1 1 2 (fst demo_restart)" by simp
  obtain e' where e: "get_agent 2 (k_registry (fst demo_restart)) = Some e'" and name: "ae_name e' = ''a''"
    using demo_restart_entry by blast
  obtain rest where "k_rows (fst demo_restart) = row_of demo_first # rest" using demo_restart_rows by blast
  from row_first_of_name [OF this] have f: "first_of_name (ke_lower demo_kenv) 1 (ae_name e') (k_rows (fst demo_restart))"
    by (simp add: demo_no_failure prepared_sel demo_group name)
  show ?thesis
    using stopped_agent_returns [OF demo_restarted_reached l _ _ e f, where dec = Some and rd = True and lc = "\<lambda>c. c"
        and fresh = id and tick = 0 and now = 0 and io = "(True, True)" and si = "demo_spawn 3" and pc = "\<lambda>c. c"]
    by (auto simp: name)
qed

lemma demo_rows_current: "rows_current (ke_lower demo_kenv) demo_agents"
  unfolding rows_current_def
proof (intro conjI allI impI)
  show "\<forall>r \<in> set (k_rows demo_agents). \<exists>i. row_id r = Some i \<and> get_agent i (k_registry demo_agents) \<noteq> None"
    by (simp add: demo_sel(2) row_of_def demo_get demo_no_failure)
  show "i = j" if "get_agent i (k_registry demo_agents) = Some e \<and> get_agent j (k_registry demo_agents) = Some f
      \<and> ke_lower demo_kenv (ae_name e) = ke_lower demo_kenv (ae_name f)" for i j e f
    using conjunct1 [OF that] conjunct1 [OF conjunct2 [OF that]] unfolding demo_get by (metis option.distinct(1))
qed

lemma shutdown_boot_roundtrip_witness:
  "\<exists>f. get_agent 1 (k_registry (boot demo_kenv Some True (\<lambda>c. c) id 0 0 (suspend_agents demo_kenv 0 all_saved demo_agents))) = Some f
     \<and> ae_name f = ''a''"
proof -
  let ?k = "boot demo_kenv Some True (\<lambda>c. c) id 0 0 (suspend_agents demo_kenv 0 all_saved demo_agents)"
  have e: "get_agent 1 (k_registry demo_agents) = Some demo_first" "ae_name demo_first = ''a''"
    by (simp_all add: demo_get prepared_sel demo_group)
  have "\<exists>f. get_agent 1 (k_registry ?k) = Some f \<and> ae_name f = ae_name demo_first"
    using conjunct2 [OF shutdown_boot_roundtrip [OF demo_kernel_reached demo_rows_current refl, where dec = Some
      and rd = True and lc = "\<lambda>c. c" and fresh = id and tick = 0 and now' = 0 and now = 0]] e(1) by blast
  then show ?thesis unfolding e(2) .
qed

lemma quota_window_burst_witness:
  "\<exists>s :: unit agent_scheduler. \<exists>q. quotas s 1 = Some q \<and> usage s 1 = Some (new_tracker 0)
     \<and> snd (check_quota (window_nanos - 1) 1 (record_usage (window_nanos - 1) 1 (max_llm_tokens_per_hour q, 0) 5 s)) = Inr ()"
proof -
  let ?s = "register_quota 0 1 default_quota (new_agent_scheduler :: unit agent_scheduler)"
  have q: "quotas ?s 1 = Some default_quota" "usage ?s 1 = Some (new_tracker 0)" by (simp_all add: register_quota_def)
  have "max_llm_tokens_per_hour default_quota < 2 ^ 64" by (simp add: default_quota_def)
  from quota_window_burst [OF q this refl refl refl, of 5] show ?thesis using q by blast
qed

end
