(* ===== verification/Reply_Directives.thy ===== *)
theory Reply_Directives
  imports Rh_Prelude
begin

text \<open>
  Reply directives in the text of an answer, \<open>runtime/src/reply_directives.rs\<close>: the accumulator
  that strips tags like \<open>[[silent]]\<close> from a stream of chunks, and the parse of a complete text.
\<close>

record directive_set =
  reply_to :: "string option"
  current_thread :: bool
  silent :: bool

definition no_directives :: directive_set where
  "no_directives = \<lparr> reply_to = None, current_thread = False, silent = False \<rparr>"

record directive_acc =
  dir_partial :: string
  dir_set :: directive_set

definition new_acc :: directive_acc where
  "new_acc = \<lparr> dir_partial = [], dir_set = no_directives \<rparr>"

definition max_partial_len :: nat where "max_partial_len = 30"

definition parse_tag :: "string \<Rightarrow> directive_set \<Rightarrow> directive_set" where
  "parse_tag content d =
     (let trimmed = trim content in
      if starts_with trimmed ''reply:''
      then (let i = trim (drop 6 trimmed) in if i \<noteq> [] then d\<lparr> reply_to := Some i \<rparr> else d)
      else if trimmed = ''@current'' then d\<lparr> current_thread := True \<rparr>
      else if trimmed = ''silent'' then d\<lparr> silent := True \<rparr>
      else d)"

text \<open>
  The scan over the characters of the input. Its result is the output, the rest that is held
  back, and the directives. The length of a tag is in bytes, but as many characters are skipped.
\<close>

function scan_directives :: "bool \<Rightarrow> string list \<Rightarrow> string \<Rightarrow> directive_set \<Rightarrow> string \<times> string \<times> directive_set" where
  "scan_directives final [] out d = (out, [], d)"
| "scan_directives final (c # cs) out d =
     (let remaining = concat (c # cs) in
      if c = ''['' \<and> starts_with remaining ''[['' then
        (let after_open = drop 2 remaining in
         case find_sub '']]'' after_open of
           Some e \<Rightarrow> scan_directives final (drop (2 + e + 2) (c # cs)) out (parse_tag (take e after_open) d)
         | None \<Rightarrow>
             if \<not> final \<and> length remaining < max_partial_len then (out, remaining, d)
             else scan_directives final cs (out @ c) d)
      else scan_directives final cs (out @ c) d)"
  by pat_completeness auto
termination
  by (relation "measure (\<lambda>(f, cs, _). length cs)") auto

definition consume :: "string \<Rightarrow> bool \<Rightarrow> directive_acc \<Rightarrow> string \<times> directive_acc" where
  "consume chunk final acc =
     (case scan_directives final (chars (dir_partial acc @ chunk)) [] (dir_set acc) of
        (out, p, d) \<Rightarrow>
          if final \<and> p \<noteq> [] then (out @ p, \<lparr> dir_partial = [], dir_set = d \<rparr>)
          else (out, \<lparr> dir_partial = p, dir_set = d \<rparr>))"

definition parse_directives :: "string \<Rightarrow> string \<times> directive_set" where
  "parse_directives text = (case consume text True new_acc of (cleaned, acc) \<Rightarrow> (trim cleaned, dir_set acc))"

section \<open>A reference parser\<close>

text \<open>
  What the code means to do: text outside tags is kept, a tag is everything from \<open>[[\<close> to the
  next \<open>]]\<close>, and an opening without an end is text.
\<close>

function split_tags :: "string \<Rightarrow> string \<times> string list" where
  "split_tags [] = ([], [])"
| "split_tags (c # s) =
     (case (if starts_with (c # s) ''[['' then find_sub '']]'' (drop 2 (c # s)) else None) of
        Some e \<Rightarrow> (case split_tags (drop (e + 4) (c # s)) of (v, ts) \<Rightarrow> (v, take e (drop 2 (c # s)) # ts))
      | None \<Rightarrow> (case split_tags s of (v, ts) \<Rightarrow> (c # v, ts)))"
  by pat_completeness auto
termination
  by (relation "measure length") auto

lemma scan_prefix: "scan_directives f cs (p @ out) d = apfst ((@) p) (scan_directives f cs out d)"
proof (induction f cs out d rule: scan_directives.induct)
  case (2 final c cs out d)
  then show ?case
    by (simp only: scan_directives.simps Let_def append_assoc) (auto split: option.split)
qed simp

lemma scan_char:
  "\<not> starts_with (concat (c # cs)) ''[['' \<or> c \<noteq> ''['' \<Longrightarrow>
     scan_directives f (c # cs) [] d = apfst ((@) c) (scan_directives f cs [] d)"
  using scan_prefix [of f cs c "[]" d] by (auto simp: Let_def)

lemma scan_open:
  "starts_with (concat (''['' # cs)) ''[['' \<Longrightarrow> find_sub '']]'' (drop 2 (concat (''['' # cs))) = None \<Longrightarrow>
     scan_directives True (''['' # cs) [] d = apfst ((@) ''['') (scan_directives True cs [] d)"
  using scan_prefix [of True cs "''[''" "[]" d] by (simp add: Let_def)

lemma scan_tag:
  "starts_with (concat (''['' # cs)) ''[['' \<Longrightarrow> find_sub '']]'' (drop 2 (concat (''['' # cs))) = Some e \<Longrightarrow>
     scan_directives f (''['' # cs) out d
       = scan_directives f (drop (2 + e + 2) (''['' # cs)) out (parse_tag (take e (drop 2 (concat (''['' # cs)))) d)"
  by (simp add: Let_def)

declare scan_directives.simps(2) [simp del]

lemma is_ascii_drop: "is_ascii s \<Longrightarrow> is_ascii (drop n s)"
  by (auto simp: is_ascii_def dest: in_set_dropD)

text \<open>For ASCII text the scan is the reference parser.\<close>

lemma scan_ascii:
  "is_ascii s \<Longrightarrow> scan_directives True (map (\<lambda>c. [c]) s) [] d
     = (case split_tags s of (v, ts) \<Rightarrow> (v, [], fold parse_tag ts d))"
proof (induction s arbitrary: d rule: split_tags.induct)
  case (2 c s)
  let ?e = "if starts_with (c # s) ''[['' then find_sub '']]'' (drop 2 (c # s)) else None"
  have con: "concat ([c] # map (\<lambda>c. [c]) s) = c # s" by (simp add: concat_singletons)
  show ?case
  proof (cases ?e)
    case None
    note IH = "2.IH"(1) [OF None]
    have asc: "is_ascii s" using "2.prems" by simp
    have "scan_directives True ([c] # map (\<lambda>c. [c]) s) [] d
        = apfst ((@) [c]) (scan_directives True (map (\<lambda>c. [c]) s) [] d)"
    proof (cases "starts_with (c # s) ''[['' \<and> [c] = ''[''")
      case True
      then have c: "c = CHR ''[''" and st: "starts_with (c # s) ''[[''" by (elim conjE, simp)+
      then have "find_sub '']]'' (drop 2 (c # s)) = None" using None by simp
      then show ?thesis using scan_open [of "map (\<lambda>c. [c]) s" d] con st unfolding c by simp
    next
      case False
      then show ?thesis using scan_char [of "[c]" "map (\<lambda>c. [c]) s" True d] con by auto
    qed
    then show ?thesis using None IH [OF asc, of d] by (auto simp: split: prod.splits)
  next
    case (Some e)
    then have st: "starts_with (c # s) ''[[''" by (simp split: if_splits)
    then have c: "c = CHR ''[''" by (simp add: starts_with_Cons)
    have f: "find_sub '']]'' (drop 2 (concat (''['' # map (\<lambda>c. [c]) s))) = Some e"
      using Some st con c by simp
    have "scan_directives True (map (\<lambda>c. [c]) (c # s)) [] d
        = scan_directives True (map (\<lambda>c. [c]) (drop (e + 4) (c # s))) [] (parse_tag (take e (drop 2 (c # s))) d)"
      using scan_tag [of "map (\<lambda>c. [c]) s" e True "[]" d] f st con c by (simp add: drop_map numeral_eq_Suc)
    also have "\<dots> = (case split_tags (drop (e + 4) (c # s)) of (v, ts) \<Rightarrow> (v, [], fold parse_tag ts (parse_tag (take e (drop 2 (c # s))) d)))"
      by (rule "2.IH"(2) [OF Some is_ascii_drop [OF "2.prems"]])
    finally show ?thesis using Some by (simp split: prod.splits)
  qed
qed simp

text \<open>
  For ASCII text the directive parser is the reference parser: exactly the text outside tags
  remains, and every tag takes effect in order, the last reply winning.
\<close>

theorem directives_match_reference:
  assumes "is_ascii text" and "split_tags text = (v, ts)"
  shows "parse_directives text = (trim v, fold parse_tag ts no_directives)"
  using scan_ascii [OF assms(1), of no_directives] assms(2) ascii_chars [OF assms(1)]
  by (simp add: parse_directives_def consume_def new_acc_def)

lemma directives_match_reference_witness:
  "parse_directives ''[[reply:7]] a [[x]][[silent]]b''
     = (''a b'', \<lparr> reply_to = Some ''7'', current_thread = False, silent = True \<rparr>)"
proof -
  have a: "is_ascii ''[[reply:7]] a [[x]][[silent]]b''" by (simp add: is_ascii_def)
  have "split_tags ''[[reply:7]] a [[x]][[silent]]b'' = ('' a b'', [''reply:7'', ''x'', ''silent''])" by code_simp
  from directives_match_reference [OF a this] have "parse_directives ''[[reply:7]] a [[x]][[silent]]b''
      = (trim '' a b'', fold parse_tag [''reply:7'', ''x'', ''silent''] no_directives)" .
  also have "\<dots> = (''a b'', \<lparr> reply_to = Some ''7'', current_thread = False, silent = True \<rparr>)" by code_simp
  finally show ?thesis .
qed

section \<open>Tags that are not ASCII\<close>

lemma scan_plain:
  "\<forall>i. \<not> starts_with (drop i (concat cs)) ''[['' \<Longrightarrow> scan_directives True cs [] d = (concat cs, [], d)"
proof (induction cs arbitrary: d)
  case (Cons c cs)
  have "\<forall>i. \<not> starts_with (drop i (concat cs)) ''[[''"
    using Cons.prems by (metis add.commute append_eq_conv_conj concat.simps(2) drop_drop)
  moreover have "\<not> starts_with (concat (c # cs)) ''[[''" using Cons.prems [rule_format, of 0] by simp
  ultimately show ?case using Cons.IH scan_char [of c cs True d] by simp
qed simp

text \<open>The first occurrence, where none ends earlier.\<close>

lemma find_sub_first:
  assumes "\<not> contains_sub (u @ butlast p) p" and "p \<noteq> []"
  shows "find_sub p (u @ p @ v) = Some (length u)"
proof -
  have "contains_sub (u @ p @ v) p" by (auto simp: contains_sub_iff)
  then obtain i where i: "find_sub p (u @ p @ v) = Some i" by (auto simp: contains_sub_def)
  have le: "i \<le> length u" by (rule find_sub_append_least [OF i])
  have "\<not> i < length u"
  proof
    assume lt: "i < length u"
    obtain w where w: "drop i (u @ p @ v) = p @ w" using find_sub_Some [OF i] by (auto simp: starts_with_iff)
    have p: "p = butlast p @ [last p]" using assms(2) by simp
    have "u @ p @ v = (u @ butlast p) @ (last p # v)" using p by (metis append.assoc append_Cons append_Nil)
    moreover have "i + length p \<le> length (u @ butlast p)" using lt assms(2) by (simp add: Suc_leI)
    moreover have "take (i + length p - length u) (butlast p) = take (i + length p - length u) p"
      by (rule take_butlast) (use lt assms(2) in \<open>cases p; simp\<close>)
    ultimately have "take (i + length p) (u @ p @ v) = take (i + length p) (u @ butlast p)" by simp
    moreover have "take (i + length p) (u @ p @ v) = take i u @ p"
      using w lt by (metis append_eq_conv_conj le take_add take_append diff_is_0_eq take0 append_Nil2)
    ultimately have "u @ butlast p = take i u @ p @ drop (i + length p) (u @ butlast p)"
      by (metis append.assoc append_take_drop_id)
    then show False using assms(1) by (auto simp: contains_sub_iff)
  qed
  with le i show ?thesis by simp
qed

lemma ascii_prefix_chars: "is_ascii a \<Longrightarrow> chars (a @ s) = map (\<lambda>c. [c]) a @ chars s"
  using chars_append [of a s] ascii_chars [of a] by simp

text \<open>
  A reply id with characters outside ASCII takes text of the answer with it: for every
  continuation byte in the tag one more character after the tag is dropped.
\<close>

theorem wide_tag_eats_text:
  assumes "utf8_ok i" and "\<not> contains_sub (''reply:'' @ i @ '']'') '']]''" and "\<forall>n. \<not> starts_with (drop n rest) ''[[''"
    and "utf8_ok rest"
  shows "fst (parse_directives (''[[reply:'' @ i @ '']]'' @ rest))
     = trim (concat (drop (length i - char_count i) (chars rest)))"
proof -
  define u where "u = ''reply:'' @ i"
  let ?t = "''[['' @ u @ '']]'' @ rest"
  have u: "chars (u @ s) = map (\<lambda>c. [c]) ''reply:'' @ chars i @ chars s" for s
    unfolding u_def append_assoc chars_append [OF assms(1), symmetric]
    by (rule ascii_prefix_chars) (simp add: is_ascii_def)
  have cs: "chars ?t = ''['' # ''['' # map (\<lambda>c. [c]) ''reply:'' @ chars i @ '']'' # '']'' # chars rest"
    using ascii_prefix_chars [of "''[[''" "u @ '']]'' @ rest"] ascii_prefix_chars [of "'']]''" rest]
    by (simp add: u is_ascii_def)
  let ?cs = "''['' # map (\<lambda>c. [c]) ''reply:'' @ chars i @ '']'' # '']'' # chars rest"
  have con: "concat (''['' # ?cs) = ?t" using concat_chars [of ?t] unfolding cs .
  have f: "find_sub '']]'' (drop 2 ?t) = Some (length u)"
    using find_sub_first [of u "'']]''" rest] assms(2) by (simp add: u_def)
  have "length (chars i) \<le> length i" using char_count_le [of i] by (simp add: char_count_def)
  then have "drop (2 + length u + 2) (''['' # ?cs) = drop (length i - char_count i) (chars rest)"
    by (simp add: u_def char_count_def drop_append numeral_eq_Suc Suc_diff_le)
  note skip = this
  have "scan_directives True (''['' # ?cs) [] no_directives
      = scan_directives True (drop (2 + length u + 2) (''['' # ?cs)) [] (parse_tag (take (length u) (drop 2 ?t)) no_directives)"
    using scan_tag [of ?cs "length u" True "[]" no_directives] f unfolding con by (simp add: starts_with_Cons)
  also have "take (length u) (drop 2 ?t) = u" by simp
  finally have "scan_directives True (chars ?t) [] no_directives
      = scan_directives True (drop (length i - char_count i) (chars rest)) [] (parse_tag u no_directives)"
    unfolding cs skip .
  also have "\<dots> = (concat (drop (length i - char_count i) (chars rest)), [], parse_tag u no_directives)"
  proof (rule scan_plain, rule allI)
    fix n
    have "\<exists>k. concat (drop (length i - char_count i) (chars rest)) = drop k rest"
      by (metis append_eq_conv_conj append_take_drop_id concat_append concat_chars)
    then show "\<not> starts_with (drop n (concat (drop (length i - char_count i) (chars rest)))) ''[[''"
      using assms(3) by (metis drop_drop)
  qed
  finally show ?thesis
    by (simp add: parse_directives_def consume_def new_acc_def u_def)
qed

lemma wide_tag_eats_text_witness:
  "fst (parse_directives (''[[reply:'' @ [CHR 0xD1, CHR 0x8E] @ '']]'' @ ''42 euros'')) = ''2 euros''"
proof -
  let ?i = "[CHR 0xD1, CHR 0x8E]"
  have 1: "utf8_ok ?i" and 2: "utf8_ok ''42 euros''" by code_simp+
  have 3: "\<not> contains_sub (''reply:'' @ ?i @ '']'') '']]''" by code_simp
  have 4: "\<not> starts_with (drop n ''42 euros'') ''[[''" for n
  proof
    assume "starts_with (drop n ''42 euros'') ''[[''"
    then have "CHR ''['' \<in> set (drop n ''42 euros'')" by (auto simp: starts_with_iff)
    then have "CHR ''['' \<in> set ''42 euros''" by (rule in_set_dropD)
    then show False by simp
  qed
  have "fst (parse_directives (''[[reply:'' @ ?i @ '']]'' @ ''42 euros''))
      = trim (concat (drop (length ?i - char_count ?i) (chars ''42 euros'')))"
    by (rule wide_tag_eats_text [OF 1 3 _ 2]) (simp add: 4)
  also have "\<dots> = ''2 euros''" by code_simp
  finally show ?thesis .
qed

end
