(* ===== verification/Context_Budget.thy ===== *)
theory Context_Budget
  imports Session_Repair
begin

text \<open>
  What keeps a request inside the context window: the budget for tool results and the context
  guard of \<open>runtime/src/context_budget.rs\<close>, and the recovery stages of
  \<open>runtime/src/context_overflow.rs\<close> over the token estimate of \<open>runtime/src/compactor.rs\<close>.
\<close>

section \<open>Products with a double\<close>

text \<open>
  \<open>(n as f64 * c) as usize\<close> for a positive constant \<open>c = m / 2 ^ e\<close>: the product rounded to 53
  significant bits, ties to even, and then truncated.
\<close>

fun bit_len :: "nat \<Rightarrow> nat" where
  "bit_len n = (if n = 0 then 0 else Suc (bit_len (n div 2)))"

declare bit_len.simps [simp del]

definition round_even :: "nat \<Rightarrow> nat \<Rightarrow> nat" where
  "round_even n s =
     (let q = n div 2 ^ s; r = n mod 2 ^ s in
      if 2 * r < 2 ^ s then q else if 2 ^ s < 2 * r then q + 1 else q + q mod 2)"

definition f64_round :: "nat \<Rightarrow> nat" where
  "f64_round n = (let s = bit_len n - 53 in round_even n s * 2 ^ s)"

definition f64_scale :: "nat \<Rightarrow> nat \<Rightarrow> nat \<Rightarrow> nat" where
  "f64_scale m e n = f64_round (m * f64_round n) div 2 ^ e"

text \<open>The doubles 0.30, 0.70 and 0.90.\<close>

definition f64_030 :: nat where "f64_030 = 5404319552844595"
definition f64_070 :: nat where "f64_070 = 6305039478318694"
definition f64_090 :: nat where "f64_090 = 8106479329266893"

section \<open>The budget\<close>

record context_budget =
  context_window_tokens :: nat

definition new_budget :: "nat \<Rightarrow> context_budget" where
  "new_budget w = \<lparr> context_window_tokens = w \<rparr>"

definition per_result_cap :: "context_budget \<Rightarrow> nat" where
  "per_result_cap b = f64_scale 2 0 (f64_scale f64_030 54 (context_window_tokens b))"

definition single_result_max :: "context_budget \<Rightarrow> nat" where
  "single_result_max b = f64_scale 2 0 (f64_scale 1 1 (context_window_tokens b))"

definition total_tool_headroom_chars :: "context_budget \<Rightarrow> nat" where
  "total_tool_headroom_chars b = f64_scale 2 0 (f64_scale 3 2 (context_window_tokens b))"

definition byte_index_at_char :: "string \<Rightarrow> nat \<Rightarrow> nat" where
  "byte_index_at_char text i = length (concat (take i (chars text)))"

definition find_last_newline_in_char_window :: "string \<Rightarrow> nat \<Rightarrow> nat \<Rightarrow> nat option" where
  "find_last_newline_in_char_window text start_char end_char =
     (if end_char \<le> start_char then None
      else let start = byte_index_at_char text start_char; stop = byte_index_at_char text end_char;
               w = drop start (take stop text)
           in map_option (\<lambda>i. start + (length w - 1 - i)) (find_sub [CHR 0x0A] (rev w)))"

definition break_point :: "string \<Rightarrow> nat \<Rightarrow> nat \<Rightarrow> nat \<Rightarrow> nat" where
  "break_point text start_char end_char fallback =
     (case find_last_newline_in_char_window text start_char end_char of
        Some p \<Rightarrow> p
      | None \<Rightarrow> byte_index_at_char text fallback)"

definition newlines :: string where "newlines = [CHR 0x0A, CHR 0x0A]"

definition truncated_note :: "nat \<Rightarrow> nat \<Rightarrow> nat \<Rightarrow> string" where
  "truncated_note n shown w = ''[TRUNCATED: result was '' @ nat_str n @ '' chars, showing first ''
     @ nat_str shown @ '' (budget: 30% of '' @ nat_str (w div 1000) @ ''K context window)]''"

definition truncate_tool_result_dynamic :: "string \<Rightarrow> context_budget \<Rightarrow> string" where
  "truncate_tool_result_dynamic content b =
     (let cap = per_result_cap b; total_chars = char_count content in
      if total_chars \<le> cap then content
      else let shown = take (break_point content (cap - 200) cap (cap - 100)) content
           in shown @ newlines @ truncated_note total_chars (char_count shown) (context_window_tokens b))"

section \<open>The context guard\<close>

text \<open>The arrow is the character U+2192.\<close>

definition compacted_note :: "nat \<Rightarrow> nat \<Rightarrow> string" where
  "compacted_note n shown = ''[COMPACTED: '' @ nat_str n @ '' '' @ [CHR 0xE2, CHR 0x86, CHR 0x92] @ '' ''
     @ nat_str shown @ '' chars by context guard]''"

definition truncate_to :: "string \<Rightarrow> nat \<Rightarrow> string" where
  "truncate_to content max_chars =
     (let total_chars = char_count content in
      if total_chars \<le> max_chars then content
      else let keep = max_chars - 80; shown = take (break_point content (keep - 100) keep keep) content
           in shown @ newlines @ compacted_note total_chars (char_count shown))"

text \<open>
  The tool results in their order. The code collects their places first and then walks over
  them; here a walk threads its state through the results where they stand.
\<close>

fun result_text :: "content_block \<Rightarrow> string" where
  "result_text (ToolResult i c e) = c"
| "result_text b = []"

definition results :: "message list \<Rightarrow> string list" where
  "results ms = map result_text (filter (\<lambda>b. block_result_id b \<noteq> None) (concat (map inner_blocks ms)))"

fun thread_blocks :: "('s \<Rightarrow> string \<Rightarrow> string \<times> 's) \<Rightarrow> 's \<Rightarrow> content_block list \<Rightarrow> content_block list \<times> 's" where
  "thread_blocks f s [] = ([], s)"
| "thread_blocks f s (ToolResult i c e # bs) =
     (case f s c of (c', s') \<Rightarrow> case thread_blocks f s' bs of (bs', s'') \<Rightarrow> (ToolResult i c' e # bs', s''))"
| "thread_blocks f s (b # bs) = (case thread_blocks f s bs of (bs', s') \<Rightarrow> (b # bs', s'))"

fun thread_content :: "('s \<Rightarrow> string \<Rightarrow> string \<times> 's) \<Rightarrow> 's \<Rightarrow> message_content \<Rightarrow> message_content \<times> 's" where
  "thread_content f s (Text t) = (Text t, s)"
| "thread_content f s (Blocks bs) = (case thread_blocks f s bs of (bs', s') \<Rightarrow> (Blocks bs', s'))"

fun thread_messages :: "('s \<Rightarrow> string \<Rightarrow> string \<times> 's) \<Rightarrow> 's \<Rightarrow> message list \<Rightarrow> message list \<times> 's" where
  "thread_messages f s [] = ([], s)"
| "thread_messages f s (m # ms) =
     (case thread_content f s (msg_content m) of (c, s') \<Rightarrow>
      case thread_messages f s' ms of (ms', s'') \<Rightarrow> (m\<lparr> msg_content := c \<rparr> # ms', s''))"

text \<open>The two passes; the state is the total length and the number of compacted results.\<close>

definition cap_single :: "nat \<Rightarrow> nat \<times> nat \<Rightarrow> string \<Rightarrow> string \<times> nat \<times> nat" where
  "cap_single single_max st c =
     (case st of (amount, compacted) \<Rightarrow>
      if single_max < char_count c
      then let c' = truncate_to c single_max in (c', amount - char_count c + char_count c', compacted + 1)
      else (c, amount, compacted))"

definition compact_target :: nat where "compact_target = 2000"

text \<open>The second pass also compares the length a result had before the first.\<close>

definition compact_oldest :: "nat \<Rightarrow> nat list \<times> nat \<times> nat \<Rightarrow> string \<Rightarrow> string \<times> nat list \<times> nat \<times> nat" where
  "compact_oldest headroom st c =
     (case st of (lens, amount, compacted) \<Rightarrow>
      if amount \<le> headroom \<or> hd lens \<le> compact_target then (c, tl lens, amount, compacted)
      else if compact_target < char_count c
      then let c' = truncate_to c compact_target
           in (c', tl lens, amount - char_count c + char_count c', compacted + 1)
      else (c, tl lens, amount, compacted))"

definition apply_context_guard :: "context_budget \<Rightarrow> message list \<Rightarrow> message list \<times> nat" where
  "apply_context_guard b ms =
     (let headroom = total_tool_headroom_chars b; single_max = single_result_max b;
          lens = map char_count (results ms); total_chars = sum_list lens
      in if total_chars \<le> headroom then (ms, 0)
         else case thread_messages (cap_single single_max) (total_chars, 0) ms of (ms, amount, compacted) \<Rightarrow>
              case thread_messages (compact_oldest headroom) (lens, amount, compacted) ms of
                (ms, lens, amount, compacted) \<Rightarrow> (ms, compacted))"

section \<open>Estimates and recovery\<close>

record tool_definition =
  td_name :: string
  td_description :: string
  td_schema :: json

text \<open>\<open>schema\<close> is \<open>serde_json::to_string\<close>.\<close>

definition tool_chars :: "(json \<Rightarrow> string option) \<Rightarrow> tool_definition \<Rightarrow> nat" where
  "tool_chars schema t = length (td_name t) + length (td_description t)
     + (case schema (td_schema t) of Some s \<Rightarrow> length s | None \<Rightarrow> 0)"

definition estimate_token_count :: "(json \<Rightarrow> string option) \<Rightarrow> message list \<Rightarrow> string option \<Rightarrow> tool_definition list option \<Rightarrow> nat" where
  "estimate_token_count schema ms system_prompt tools =
     ((case system_prompt of Some sp \<Rightarrow> length sp | None \<Rightarrow> 0)
      + sum_list (map (\<lambda>m. text_length (msg_content m) + 16) ms)
      + (case tools of Some ts \<Rightarrow> sum_list (map (tool_chars schema) ts) | None \<Rightarrow> 0)) div 4"

datatype recovery_stage =
    No_recovery
  | AutoCompaction nat
  | OverflowCompaction nat
  | ToolResultTruncation nat
  | FinalError

definition tool_truncation_limit :: nat where "tool_truncation_limit = 2000"

definition overflow_note :: "nat \<Rightarrow> nat \<Rightarrow> string" where
  "overflow_note prev kept = ''[OVERFLOW RECOVERY: truncated from '' @ nat_str prev @ '' to '' @ nat_str kept @ '' bytes]''"

definition too_long_result :: "content_block \<Rightarrow> bool" where
  "too_long_result b \<longleftrightarrow> tool_truncation_limit < length (result_text b)"

fun on_result :: "(string \<Rightarrow> string) \<Rightarrow> content_block \<Rightarrow> content_block" where
  "on_result f (ToolResult i c e) = ToolResult i (f c) e"
| "on_result f b = b"

definition shorten_result :: "content_block \<Rightarrow> content_block" where
  "shorten_result b =
     (if too_long_result b
      then on_result (\<lambda>c. let head = truncate_bytes c (tool_truncation_limit - 80)
             in head @ newlines @ overflow_note (length c) (length head)) b
      else b)"

fun shorten_content :: "message_content \<Rightarrow> message_content" where
  "shorten_content (Text s) = Text s"
| "shorten_content (Blocks bs) = Blocks (map shorten_result bs)"

definition truncate_results :: "message list \<Rightarrow> message list \<times> nat" where
  "truncate_results ms =
     (map (\<lambda>m. m\<lparr> msg_content := shorten_content (msg_content m) \<rparr>) ms,
      length (filter too_long_result (concat (map inner_blocks ms))))"

definition removed_note :: "nat \<Rightarrow> message" where
  "removed_note n = user_message (''[System: '' @ nat_str n @ '' earlier messages were removed due to context overflow. ''
     @ ''The conversation continues from here. Use /compact for smarter summarization.]'')"

text \<open>Stages three and four; \<open>est\<close> estimates the tokens of a message list.\<close>

definition recover_results :: "(message list \<Rightarrow> nat) \<Rightarrow> nat \<Rightarrow> message list \<Rightarrow> message list \<times> recovery_stage" where
  "recover_results est threshold_90 ms =
     (case truncate_results ms of (ms, truncated) \<Rightarrow>
        if 0 < truncated \<and> est ms \<le> threshold_90 then (ms, ToolResultTruncation truncated) else (ms, FinalError))"

definition recover_aggressive :: "(message list \<Rightarrow> nat) \<Rightarrow> nat \<Rightarrow> message list \<Rightarrow> message list \<times> recovery_stage" where
  "recover_aggressive est threshold_90 ms =
     (let keep = min 4 (length ms); remove = length ms - keep in
      if 0 < remove
      then let ms = removed_note remove # drop remove ms
           in if est ms \<le> threshold_90 then (ms, OverflowCompaction remove) else recover_results est threshold_90 ms
      else recover_results est threshold_90 ms)"

definition recover_from_overflow :: "(json \<Rightarrow> string option) \<Rightarrow> string \<Rightarrow> tool_definition list \<Rightarrow> nat \<Rightarrow> message list
    \<Rightarrow> message list \<times> recovery_stage" where
  "recover_from_overflow schema system_prompt tools w ms =
     (let est = (\<lambda>ms. estimate_token_count schema ms (Some system_prompt) (Some tools));
          threshold_70 = f64_scale f64_070 53 w; threshold_90 = f64_scale f64_090 53 w
      in if est ms \<le> threshold_70 then (ms, No_recovery)
         else if est ms \<le> threshold_90
         then let keep = min 10 (length ms); remove = length ms - keep in
           if 0 < remove
           then let ms = drop remove ms
                in if est ms \<le> threshold_70 then (ms, AutoCompaction remove) else recover_aggressive est threshold_90 ms
           else recover_aggressive est threshold_90 ms
         else recover_aggressive est threshold_90 ms)"

lemmas f64_eval = f64_scale_def f64_round_def round_even_def bit_len.simps f64_030_def f64_070_def f64_090_def Let_def

lemma f64_examples: "f64_scale f64_030 54 200000 = 60000" "f64_scale f64_070 53 1000 = 700" "f64_scale f64_090 53 1000 = 900"
  "f64_scale f64_030 54 10 = 3" "f64_scale f64_070 53 2000000 = 1400000"
  by (simp_all add: f64_eval)

end
