(* ===== verification/Context_Theorems.thy ===== *)
theory Context_Theorems
  imports Context_Budget
begin

text \<open>
  What the context guard and the recovery stages achieve: the sizes they guarantee, what they
  leave alone, and the pairs of tool uses and results the recovery takes apart.
\<close>

section \<open>Truncated results\<close>

lemma char_count_append: "utf8_ok s \<Longrightarrow> char_count (s @ t) = char_count s + char_count t"
  by (simp add: char_count_def chars_append)

lemma ascii_count_append: "is_ascii s \<Longrightarrow> char_count (s @ t) = length s + char_count t"
  using ascii_chars [of s] by (simp add: char_count_append ascii_char_count)

lemma char_count_take: "char_count (take i s) \<le> char_count s"
proof (induction s arbitrary: i rule: chars.induct)
  case (2 c cs)
  show ?case
  proof (cases i)
    case (Suc j)
    then have "drop (utf8_extra c) (take j cs) = take (j - utf8_extra c) (drop (utf8_extra c) cs)"
      by (simp add: drop_take)
    then show ?thesis using 2 [of "j - utf8_extra c"] Suc by (simp add: char_count_def)
  qed (simp add: char_count_def)
qed (simp add: char_count_def)

lemma take_byte_index: "take (byte_index_at_char s i) s = concat (take i (chars s))"
  by (metis append_eq_conv_conj append_take_drop_id byte_index_at_char_def concat_append concat_chars)

lemma byte_index_ok:
  assumes "utf8_ok s"
  shows "utf8_ok (take (byte_index_at_char s i) s)" and "char_count (take (byte_index_at_char s i) s) \<le> i"
proof -
  have "set (take i (chars s)) \<subseteq> set (chars s)" by (rule set_take_subset)
  from chars_concat_sub [OF assms this]
  show "utf8_ok (take (byte_index_at_char s i) s)" and "char_count (take (byte_index_at_char s i) s) \<le> i"
    by (simp_all add: take_byte_index char_count_def)
qed

text \<open>The break point is a character boundary at most \<open>keep\<close> characters from the start.\<close>

lemma break_point_ok:
  assumes "utf8_ok s" and "fallback \<le> keep"
  shows "utf8_ok (take (break_point s a keep fallback) s)"
    and "char_count (take (break_point s a keep fallback) s) \<le> keep"
proof -
  have "utf8_ok (take (break_point s a keep fallback) s) \<and> char_count (take (break_point s a keep fallback) s) \<le> keep"
  proof (cases "find_last_newline_in_char_window s a keep")
    case None
    then show ?thesis using byte_index_ok [OF assms(1), of fallback] assms(2) by (simp add: break_point_def)
  next
    case (Some p)
    let ?a = "byte_index_at_char s a" and ?b = "byte_index_at_char s keep"
    let ?w = "drop ?a (take ?b s)"
    obtain i where i: "find_sub [CHR 0x0A] (rev ?w) = Some i" and p: "p = ?a + (length ?w - 1 - i)"
      using Some by (auto simp: find_last_newline_in_char_window_def Let_def split: if_splits)
    have il: "i < length ?w" and nl: "rev ?w ! i = CHR 0x0A"
      using find_sub_Some [OF i] by (auto simp: starts_with_iff nth_via_drop)
    have pb: "p < ?b" "p < length s" using il p by auto
    have "?w ! (length ?w - 1 - i) = CHR 0x0A" using nl il by (simp add: rev_nth)
    moreover have "?w ! j = s ! (?a + j)" if "j < length ?w" for j using that by (subst nth_drop) auto
    moreover have "length ?w - 1 - i < length ?w" using il by linarith
    ultimately have "s ! p = CHR 0x0A" unfolding p by simp
    then have "is_char_boundary s p" using pb by (simp add: is_char_boundary_def is_cont_def)
    then have "utf8_ok (take p s)" using boundary_prefix_ok [OF assms(1)] by blast
    moreover have "char_count (take p s) \<le> char_count (take ?b s)"
      using char_count_take [of p "take ?b s"] pb by (simp add: min_def)
    moreover have "char_count (take ?b s) \<le> keep" by (rule byte_index_ok(2) [OF assms(1)])
    ultimately show ?thesis using Some by (simp add: break_point_def)
  qed
  then show "utf8_ok (take (break_point s a keep fallback) s)"
    and "char_count (take (break_point s a keep fallback) s) \<le> keep" by blast+
qed

lemma compacted_note_count: "char_count (compacted_note n k) = 39 + length (nat_str n) + length (nat_str k)"
proof -
  have a: "utf8_ok [CHR 0xE2, CHR 0x86, CHR 0x92]" and c: "char_count [CHR 0xE2, CHR 0x86, CHR 0x92] = 1" by code_simp+
  have l: "is_ascii ''[COMPACTED: ''" "is_ascii '' ''" "is_ascii '' chars by context guard]''" by (simp_all add: is_ascii_def)
  show ?thesis
    unfolding compacted_note_def
    by (simp only: ascii_count_append l is_ascii_nat_str char_count_append [OF a] c ascii_char_count [OF l(3)]) simp
qed

lemma truncate_to_count:
  assumes "utf8_ok c" and "length c < 10 ^ 19" and "80 \<le> m"
  shows "char_count (truncate_to c m) \<le> m" and "utf8_ok (truncate_to c m)"
proof -
  let ?s = "take (break_point c (m - 80 - 100) (m - 80) (m - 80)) c"
  note s = break_point_ok [OF assms(1) order_refl, of "m - 80 - 100" "m - 80"]
  have nl: "is_ascii newlines" by (simp add: newlines_def)
  have noted: "utf8_ok (compacted_note n k)" for n k
  proof -
    have ok: "utf8_ok s" if "is_ascii s" for s using ascii_chars [OF that] by blast
    have "utf8_ok [CHR 0xE2, CHR 0x86, CHR 0x92]" by code_simp
    moreover have "utf8_ok ''[COMPACTED: ''" "utf8_ok '' ''" "utf8_ok '' chars by context guard]''"
      by (rule ok, simp add: is_ascii_def)+
    ultimately show ?thesis
      unfolding compacted_note_def using ok [OF is_ascii_nat_str] by (intro utf8_ok_append)
  qed
  show "utf8_ok (truncate_to c m)"
    using assms(1) s(1) noted ascii_chars [OF nl] by (simp add: truncate_to_def Let_def utf8_ok_append)
  show "char_count (truncate_to c m) \<le> m"
  proof (cases "char_count c \<le> m")
    case False
    have "char_count c < 10 ^ 19" and "char_count ?s < 10 ^ 19"
      using char_count_le [of c] char_count_take [of _ c] assms(2) by (meson le_less_trans)+
    then have "length (nat_str (char_count c)) \<le> 19" and d: "length (nat_str (char_count ?s)) \<le> 19"
      using nat_str_length [of _ 18] by simp_all
    then have "char_count (newlines @ compacted_note (char_count c) (char_count ?s)) \<le> 79"
      unfolding ascii_count_append [OF nl] compacted_note_count by (simp add: newlines_def)
    then have "char_count (?s @ newlines @ compacted_note (char_count c) (char_count ?s)) \<le> (m - 80) + 79"
      unfolding char_count_append [OF s(1)] using s(2) by linarith
    then have "char_count (?s @ newlines @ compacted_note (char_count c) (char_count ?s)) \<le> m"
      using assms(3) by linarith
    then show ?thesis using False by (simp add: truncate_to_def Let_def)
  qed (simp add: truncate_to_def)
qed

section \<open>The passes of the guard\<close>

fun thread_list :: "('s \<Rightarrow> string \<Rightarrow> string \<times> 's) \<Rightarrow> 's \<Rightarrow> string list \<Rightarrow> string list \<times> 's" where
  "thread_list f s [] = ([], s)"
| "thread_list f s (c # cs) = (case f s c of (c', s') \<Rightarrow> case thread_list f s' cs of (cs', s'') \<Rightarrow> (c' # cs', s''))"

lemma thread_list_append:
  "thread_list f s (xs @ ys) = (case thread_list f s xs of (xs', s') \<Rightarrow> case thread_list f s' ys of (ys', s'') \<Rightarrow> (xs' @ ys', s''))"
  by (induction xs arbitrary: s) (auto split: prod.splits)

abbreviation block_results :: "content_block list \<Rightarrow> string list" where
  "block_results bs \<equiv> map result_text (filter (\<lambda>b. block_result_id b \<noteq> None) bs)"

text \<open>What a walk leaves alone: everything but the texts of the results.\<close>

abbreviation same_frame :: "content_block list \<Rightarrow> content_block list \<Rightarrow> bool" where
  "same_frame \<equiv> list_all2 (\<lambda>b b'. on_result (\<lambda>_. []) b = on_result (\<lambda>_. []) b')"

definition same_shape :: "message list \<Rightarrow> message list \<Rightarrow> bool" where
  "same_shape = list_all2 (\<lambda>m m'. msg_role m = msg_role m' \<and> same_frame (inner_blocks m) (inner_blocks m')
     \<and> (\<forall>s. msg_content m = Text s \<longleftrightarrow> msg_content m' = Text s))"

lemma thread_blocks_list:
  "block_results (fst (thread_blocks f s bs)) = fst (thread_list f s (block_results bs))
   \<and> snd (thread_blocks f s bs) = snd (thread_list f s (block_results bs))
   \<and> same_frame bs (fst (thread_blocks f s bs))"
  by (induction f s bs rule: thread_blocks.induct) (auto split: prod.splits)

lemma results_Cons: "results (m # ms) = block_results (inner_blocks m) @ results ms"
  by (simp add: results_def)

lemma thread_content_list:
  "thread_content f s (msg_content m) = (c, s') \<Longrightarrow>
     thread_list f s (block_results (inner_blocks m)) = (block_results (inner_blocks (m\<lparr> msg_content := c \<rparr>)), s')
     \<and> same_frame (inner_blocks m) (inner_blocks (m\<lparr> msg_content := c \<rparr>))
     \<and> (\<forall>t. msg_content m = Text t \<longleftrightarrow> c = Text t)"
proof (cases "msg_content m")
  case (Text t)
  assume "thread_content f s (msg_content m) = (c, s')"
  then have "c = Text t" "s' = s" using Text by simp_all
  then show ?thesis using Text by (simp add: inner_blocks_def)
next
  case (Blocks bs)
  then show "thread_content f s (msg_content m) = (c, s') \<Longrightarrow> ?thesis"
    using thread_blocks_list [of f s bs] by (auto simp: inner_blocks_def prod_eq_iff split: prod.splits)
qed

lemma thread_messages_list:
  "results (fst (thread_messages f s ms)) = fst (thread_list f s (results ms))
   \<and> snd (thread_messages f s ms) = snd (thread_list f s (results ms))
   \<and> same_shape ms (fst (thread_messages f s ms))"
proof (induction ms arbitrary: s)
  case (Cons m ms)
  obtain c s' where c: "thread_content f s (msg_content m) = (c, s')" by fastforce
  obtain ms' s'' where ms: "thread_messages f s' ms = (ms', s'')" by fastforce
  show ?case
    using thread_content_list [OF c] Cons.IH [of s']
    by (simp add: c ms results_Cons thread_list_append same_shape_def split: prod.splits)
qed (simp add: results_def same_shape_def)

lemma same_shape_trans: "same_shape a b \<Longrightarrow> same_shape b c \<Longrightarrow> same_shape a c"
  unfolding same_shape_def by (simp add: list_all2_conv_all_nth)

text \<open>The lengths: what the total counts, and what the passes do to it.\<close>

abbreviation sizes :: "string list \<Rightarrow> nat" where
  "sizes cs \<equiv> sum_list (map char_count cs)"

definition capped :: "nat \<Rightarrow> string \<Rightarrow> string" where
  "capped mx c = (if mx < char_count c then truncate_to c mx else c)"

lemma cap_pass:
  "thread_list (cap_single mx) (r + sizes cs, n) cs
     = (map (capped mx) cs, r + sizes (map (capped mx) cs), n + length (filter (\<lambda>c. mx < char_count c) cs))"
proof (induction cs arbitrary: r n)
  case (Cons c cs)
  show ?case
  proof (cases "mx < char_count c")
    case True
    have "r + sizes (c # cs) - char_count c + char_count (truncate_to c mx) = (r + char_count (truncate_to c mx)) + sizes cs"
      by simp
    then show ?thesis using True Cons.IH [of "r + char_count (truncate_to c mx)" "n + 1"]
      by (simp add: cap_single_def capped_def Let_def ac_simps)
  next
    case False
    then show ?thesis using Cons.IH [of "r + char_count c" n]
      by (simp add: cap_single_def capped_def ac_simps)
  qed
qed simp

definition result_ok :: "string \<Rightarrow> bool" where
  "result_ok c \<longleftrightarrow> utf8_ok c \<and> length c < 10 ^ 19"

lemma compact_pass:
  assumes "thread_list (compact_oldest h) (lens, r + sizes cs, n) cs = (cs', lens', tot, k)"
    and "list_all2 (\<lambda>c len. char_count c \<le> len) cs lens" and "\<forall>c \<in> set cs. char_count (truncate_to c compact_target) \<le> compact_target"
  shows "tot = r + sizes cs' \<and> list_all2 (\<lambda>c' c. char_count c' \<le> char_count c) cs' cs
     \<and> (tot \<le> h \<or> (\<forall>c' \<in> set cs'. char_count c' \<le> compact_target))
     \<and> (r + sizes cs \<le> h \<longrightarrow> cs' = cs \<and> k = n)"
  using assms
proof (induction cs arbitrary: lens r n cs' lens' tot k)
  case (Cons c cs)
  obtain len ls where lens: "lens = len # ls" "char_count c \<le> len" "list_all2 (\<lambda>c len. char_count c \<le> len) cs ls"
    using Cons.prems(2) by (auto simp: list_all2_Cons1)
  have small: "\<forall>c \<in> set cs. char_count (truncate_to c compact_target) \<le> compact_target" using Cons.prems(3) by simp
  let ?keep = "r + sizes (c # cs) \<le> h \<or> len \<le> compact_target \<or> char_count c \<le> compact_target"
  show ?case
  proof (cases ?keep)
    case True
    obtain ds where ds: "cs' = c # ds" "thread_list (compact_oldest h) (ls, (r + char_count c) + sizes cs, n) cs = (ds, lens', tot, k)"
    proof -
      have "compact_oldest h (lens, r + sizes (c # cs), n) c = (c, ls, (r + char_count c) + sizes cs, n)"
        using True lens(1) by (auto simp: compact_oldest_def add.assoc)
      then show ?thesis using Cons.prems(1) that by (auto split: prod.splits)
    qed
    from Cons.IH [OF ds(2) lens(3) small] show ?thesis using True lens(2) ds(1) by auto
  next
    case False
    let ?c = "truncate_to c compact_target"
    have le: "char_count ?c \<le> compact_target" using Cons.prems(3) by simp
    have "r + sizes (c # cs) - char_count c + char_count ?c = (r + char_count ?c) + sizes cs" by simp
    then obtain ds where ds: "cs' = ?c # ds" "thread_list (compact_oldest h) (ls, (r + char_count ?c) + sizes cs, n + 1) cs = (ds, lens', tot, k)"
    proof -
      have "compact_oldest h (lens, r + sizes (c # cs), n) c = (?c, ls, (r + char_count ?c) + sizes cs, n + 1)"
        using False lens(1) \<open>_ = (r + char_count ?c) + sizes cs\<close> by (simp add: compact_oldest_def Let_def)
      then show ?thesis using Cons.prems(1) that by (auto split: prod.splits)
    qed
    from Cons.IH [OF ds(2) lens(3) small] show ?thesis using False le ds(1) by auto
  qed
qed simp

section \<open>The guard\<close>

lemma capped_size:
  assumes "result_ok c" and "80 \<le> mx"
  shows "char_count (capped mx c) \<le> char_count c" and "result_ok c \<Longrightarrow> utf8_ok (capped mx c)"
    and "char_count (capped mx c) \<le> mx"
  using assms truncate_to_count [of c mx] by (auto simp: capped_def result_ok_def)

text \<open>A result that is longer than the cap is at most the cap long afterwards; the second pass needs the length in bytes.\<close>

lemma compact_again:
  assumes "result_ok c" and "80 \<le> mx" and "mx < 10 ^ 18"
  shows "char_count (truncate_to (capped mx c) compact_target) \<le> compact_target"
proof (cases "mx < char_count c")
  case False
  then show ?thesis using assms(1) truncate_to_count [of c compact_target]
    by (simp add: capped_def result_ok_def compact_target_def)
next
  case True
  let ?d = "capped mx c"
  have u: "utf8_ok ?d" and cc: "char_count ?d \<le> mx" using capped_size [OF assms(1,2)] assms(1) by simp_all
  have "length s \<le> 4 * char_count s" for s :: string
  proof (induction s rule: chars.induct)
    case (2 c cs)
    then show ?case using utf8_extra_le [of c] by (simp add: char_count_def)
  qed (simp add: char_count_def)
  from this [of ?d] have "length ?d < 10 ^ 19" using cc assms(3) by simp
  from truncate_to_count(1) [OF u this, of compact_target] show ?thesis by (simp add: compact_target_def)
qed

text \<open>
  C32: The context guard changes nothing but the texts of tool results, and nothing at all when
  they fit. Afterwards they fit, or each is at most 2000 characters long; no result grew.
\<close>

theorem guard_bounds_results:
  assumes "\<forall>c \<in> set (results ms). result_ok c" and "80 \<le> single_result_max b" and "single_result_max b < 10 ^ 18"
    and "apply_context_guard b ms = (ms', k)"
  shows "same_shape ms ms'
     \<and> (sizes (results ms) \<le> total_tool_headroom_chars b \<longrightarrow> ms' = ms \<and> k = 0)
     \<and> (sizes (results ms') \<le> total_tool_headroom_chars b
        \<or> (\<forall>c \<in> set (results ms'). char_count c \<le> 2000 \<and> char_count c \<le> single_result_max b))
     \<and> list_all2 (\<lambda>c' c. char_count c' \<le> char_count c) (results ms') (results ms)"
proof (cases "sizes (results ms) \<le> total_tool_headroom_chars b")
  case True
  moreover have "same_shape ms ms" unfolding same_shape_def
    by (rule list_all2_refl) (simp add: list_all2_refl)
  ultimately show ?thesis using assms(4) by (auto simp: apply_context_guard_def Let_def list_all2_refl)
next
  case False
  let ?h = "total_tool_headroom_chars b" and ?mx = "single_result_max b" and ?cs = "results ms"
  let ?lens = "map char_count ?cs"
  obtain ms1 a1 n1 where 1: "thread_messages (cap_single ?mx) (sizes ?cs, 0) ms = (ms1, a1, n1)" by (metis surj_pair)
  have p1: "results ms1 = map (capped ?mx) ?cs" "a1 = sizes (map (capped ?mx) ?cs)" "same_shape ms ms1"
    using thread_messages_list [of "cap_single ?mx" "(sizes ?cs, 0)" ms] cap_pass [of ?mx 0 ?cs 0] by (simp_all add: 1)
  obtain l2 a2 where 2: "thread_messages (compact_oldest ?h) (?lens, a1, n1) ms1 = (ms', l2, a2, k)"
    using assms(4) False 1 by (auto simp: apply_context_guard_def Let_def split: prod.splits)
  note walk = thread_messages_list [of "compact_oldest ?h" "(?lens, a1, n1)" ms1, unfolded 2 fst_conv snd_conv]
  have "thread_list (compact_oldest ?h) (?lens, a1, n1) (results ms1) = (results ms', l2, a2, k)"
    using walk by (metis prod.collapse)
  then have p2: "thread_list (compact_oldest ?h) (?lens, 0 + sizes (results ms1), n1) (results ms1) = (results ms', l2, a2, k)"
      "same_shape ms1 ms'"
    using walk p1(1,2) by simp_all
  have len: "list_all2 (\<lambda>c len. char_count c \<le> len) (results ms1) ?lens"
    using capped_size(1) [OF bspec [OF assms(1) nth_mem] assms(2)] by (simp add: p1(1) list_all2_conv_all_nth)
  have small: "\<forall>c \<in> set (results ms1). char_count (truncate_to c compact_target) \<le> compact_target"
    unfolding p1(1) using compact_again [OF _ assms(2,3)] assms(1) by auto
  note pass = compact_pass [OF p2(1) len small]
  have sum': "sizes (results ms') \<le> ?h \<or> (\<forall>c' \<in> set (results ms'). char_count c' \<le> 2000)"
    using pass by (auto simp: compact_target_def)
  have shrink: "list_all2 (\<lambda>c' c. char_count c' \<le> char_count c) (results ms') (results ms1)" using pass by blast
  have capped: "\<forall>c \<in> set (results ms1). char_count c \<le> ?mx"
    unfolding p1(1) using capped_size(3) [OF _ assms(2)] assms(1) by auto
  have "char_count c' \<le> ?mx" if "c' \<in> set (results ms')" for c'
  proof -
    from that obtain i where i: "i < length (results ms')" "results ms' ! i = c'" unfolding in_set_conv_nth by blast
    have l: "i < length (results ms1)" using i(1) list_all2_lengthD [OF shrink] by simp
    have "char_count c' \<le> char_count (results ms1 ! i)" using list_all2_nthD [OF shrink i(1)] i(2) by simp
    also have "\<dots> \<le> ?mx" by (rule bspec [OF capped nth_mem [OF l]])
    finally show ?thesis .
  qed
  moreover have "list_all2 (\<lambda>c' c. char_count c' \<le> char_count c) (results ms') ?cs"
    unfolding list_all2_conv_all_nth
  proof (intro conjI allI impI)
    have eq: "length (results ms1) = length ?cs" unfolding p1(1) by simp
    show "length (results ms') = length ?cs" using shrink eq by (simp add: list_all2_conv_all_nth)
    fix i assume i: "i < length (results ms')"
    then have "char_count (results ms' ! i) \<le> char_count (results ms1 ! i)" using shrink by (simp add: list_all2_conv_all_nth)
    also have "\<dots> \<le> char_count (?cs ! i)"
    proof -
      have "i < length ?cs" using i eq shrink by (simp add: list_all2_conv_all_nth)
      moreover from this have "char_count (capped ?mx (?cs ! i)) \<le> char_count (?cs ! i)"
        by (rule capped_size(1) [OF bspec [OF assms(1) nth_mem] assms(2)])
      ultimately show ?thesis by (simp add: p1(1))
    qed
    finally show "char_count (results ms' ! i) \<le> char_count (?cs ! i)" .
  qed
  moreover have "same_shape ms ms'"
    by (rule same_shape_trans [OF p1(3) p2(2)])
  ultimately show ?thesis using False sum' by blast
qed

section \<open>The recovery stages\<close>

lemma recover_results_outcome:
  assumes "recover_results est t ms = (ms', st)"
  shows "ms' = fst (truncate_results ms)
     \<and> (st = FinalError \<or> (est ms' \<le> t \<and> (\<exists>n. 0 < n \<and> st = ToolResultTruncation n)))"
  using assms by (auto simp: recover_results_def split: prod.splits if_splits)

lemma recover_aggressive_outcome:
  assumes "recover_aggressive est t ms = (ms', st)"
  shows "(st = OverflowCompaction (length ms - 4) \<and> 4 < length ms
          \<and> ms' = removed_note (length ms - 4) # drop (length ms - 4) ms \<and> est ms' \<le> t)
     \<or> (length ms' \<le> 5 \<and> (st = FinalError \<or> (est ms' \<le> t \<and> (\<exists>n. st = ToolResultTruncation n))))"
proof -
  have len: "length (fst (truncate_results us)) = length us" for us by (simp add: truncate_results_def)
  have k: "length ms - min 4 (length ms) = length ms - 4" by simp
  show ?thesis
  proof (cases "4 < length ms \<and> est (removed_note (length ms - 4) # drop (length ms - 4) ms) \<le> t")
    case True
    then show ?thesis using assms by (auto simp: recover_aggressive_def Let_def k)
  next
    case False
    then obtain us where us: "length us \<le> 5" "recover_results est t us = (ms', st)"
      using assms unfolding recover_aggressive_def Let_def k
      by (cases "4 < length ms")
        (fastforce intro: that [of "removed_note (length ms - 4) # drop (length ms - 4) ms"] that [of ms] split: if_splits)+
    from recover_results_outcome [OF us(2)] show ?thesis using us(1) len by auto
  qed
qed

text \<open>
  Overflow recovery by its outcome: nothing is touched below the first threshold; the first
  stage keeps the last ten messages and gets below it; the second keeps the last four behind a
  note and gets below the second threshold, as does the third, which also shortens tool results;
  only the final error may leave the request above it. When the first stage was tried in vain,
  the note of the second counts six messages, however many were removed.
\<close>

theorem recovery_outcomes:
  fixes schema sp tools
  defines "est \<equiv> \<lambda>ms. estimate_token_count schema ms (Some sp) (Some tools)"
  assumes "recover_from_overflow schema sp tools w ms = (ms', st)"
  shows "(case st of
       No_recovery \<Rightarrow> ms' = ms \<and> est ms \<le> f64_scale f64_070 53 w
     | AutoCompaction n \<Rightarrow> n + 10 = length ms \<and> ms' = drop n ms \<and> est ms' \<le> f64_scale f64_070 53 w
     | OverflowCompaction n \<Rightarrow> ms' = removed_note n # drop (length ms - 4) ms \<and> est ms' \<le> f64_scale f64_090 53 w
         \<and> (n + 4 = length ms \<or> (n = 6 \<and> est ms \<le> f64_scale f64_090 53 w \<and> f64_scale f64_070 53 w < est ms))
     | ToolResultTruncation n \<Rightarrow> length ms' \<le> 5 \<and> est ms' \<le> f64_scale f64_090 53 w
     | FinalError \<Rightarrow> length ms' \<le> 5)
     \<and> (est ms \<le> f64_scale f64_070 53 w \<longrightarrow> st = No_recovery)"
proof -
  let ?r = "length ms - min 10 (length ms)" and ?a = "recover_aggressive est (f64_scale f64_090 53 w)"
  consider (fits) "est ms \<le> f64_scale f64_070 53 w" "(ms', st) = (ms, No_recovery)"
    | (trim) "\<not> est ms \<le> f64_scale f64_070 53 w" "0 < ?r" "(ms', st) = (drop ?r ms, AutoCompaction ?r)"
        "est (drop ?r ms) \<le> f64_scale f64_070 53 w"
    | (both) "\<not> est ms \<le> f64_scale f64_070 53 w" "0 < ?r" "?a (drop ?r ms) = (ms', st)" "est ms \<le> f64_scale f64_090 53 w"
    | (direct) "\<not> est ms \<le> f64_scale f64_070 53 w" "?a ms = (ms', st)"
    using assms(2) unfolding recover_from_overflow_def Let_def est_def [symmetric]
    by (auto split: if_splits)
  then show ?thesis
  proof cases
    case trim
    then show ?thesis by auto
  next
    case both
    then have l: "length (drop ?r ms) = 10" and r: "?r = length ms - 10" "10 < length ms" by auto
    have d: "drop (10 - 4) (drop ?r ms) = drop (length ms - 4) ms" using r by simp
    from recover_aggressive_outcome [OF both(3), unfolded l d] show ?thesis
      using both(1,4) by (auto split: recovery_stage.split)
  next
    case direct
    from recover_aggressive_outcome [OF direct(2)] show ?thesis using direct(1) by (auto split: recovery_stage.split)
  qed simp
qed

lemma auto_compaction:
  assumes "recover_from_overflow schema sp tools w ms = (ms', AutoCompaction n)"
  shows "ms' = drop n ms" and "n + 10 = length ms"
proof -
  have "snd (recover_aggressive est t us) \<noteq> AutoCompaction n" for est t us
    using recover_aggressive_outcome [of est t us "fst (recover_aggressive est t us)" "snd (recover_aggressive est t us)"] by auto
  then have "recover_aggressive est t us \<noteq> (ms', AutoCompaction n)" for est t us by (metis snd_conv)
  then show "ms' = drop n ms" and "n + 10 = length ms"
    using assms by (auto simp: recover_from_overflow_def Let_def split: if_splits)
qed

text \<open>
  The recovery does not keep tool uses and results together: where the first message it
  keeps answers a tool use of a removed message, the request holds a result without its use.
  The repair of the session ran before and is not run again.
\<close>

theorem recovery_orphans_results:
  assumes "recover_from_overflow schema sp tools w ms = (ms', AutoCompaction n)"
    and "i \<in> set (message_results (ms ! n))" and "\<forall>m \<in> set (drop n ms). i \<notin> set (message_uses m)"
  shows "i \<in> set (concat (map message_results ms')) \<and> i \<notin> set (concat (map message_uses ms'))"
proof -
  note r = auto_compaction [OF assms(1)]
  then have "ms ! n \<in> set (drop n ms)" by (metis Cons_nth_drop_Suc less_add_same_cancel1 list.set_intros(1) zero_less_numeral)
  then show ?thesis using assms(2,3) r(1) by auto
qed

section \<open>Concrete uses\<close>

text \<open>A long answer of a tool, an old history that is too long, and one whose pair is cut.\<close>

definition demo_results :: "message list" where
  "demo_results = [\<lparr> msg_role = User, msg_content = Blocks [ToolResult ''a'' (replicate 200 CHR ''x'') False] \<rparr>]"

lemma ascii_replicate: "of_char c < (128 :: nat) \<Longrightarrow> is_ascii (replicate n c)"
  by (auto simp: is_ascii_def)

lemma demo_budget: "single_result_max (new_budget 100) = 100" "total_tool_headroom_chars (new_budget 100) = 150"
  by (simp_all add: single_result_max_def total_tool_headroom_chars_def new_budget_def f64_eval)

lemma guard_bounds_results_witness:
  "\<exists>ms' k. apply_context_guard (new_budget 100) demo_results = (ms', k) \<and> same_shape demo_results ms'
     \<and> (sizes (results ms') \<le> 150 \<or> (\<forall>c \<in> set (results ms'). char_count c \<le> 100))"
proof -
  have r: "results demo_results = [replicate 200 CHR ''x'']" by (simp add: results_def demo_results_def inner_blocks_def)
  have "result_ok (replicate 200 CHR ''x'')"
    using ascii_chars [OF ascii_replicate [of "CHR ''x''" 200]] by (simp add: result_ok_def)
  then have ok: "\<forall>c \<in> set (results demo_results). result_ok c" by (simp only: r list.set ball_simps)
  obtain ms' k where g: "apply_context_guard (new_budget 100) demo_results = (ms', k)" by fastforce
  have "80 \<le> single_result_max (new_budget 100)" "single_result_max (new_budget 100) < 10 ^ 18" by (simp_all add: demo_budget)
  from guard_bounds_results [OF ok this g] show ?thesis using g by (auto simp: demo_budget)
qed

definition demo_history :: "message list" where
  "demo_history = [\<lparr> msg_role = Assistant, msg_content = Blocks [ToolUse ''t'' ''f'' JNull] \<rparr>,
     \<lparr> msg_role = User, msg_content = Blocks [ToolResult ''t'' (replicate 100 CHR ''x'') False] \<rparr>]
     @ map (\<lambda>n. \<lparr> msg_role = (if even n then Assistant else User), msg_content = Text [] \<rparr>) [0..<9]"

lemma demo_recovery: "recover_from_overflow (\<lambda>_. None) [] [] 95 demo_history = (drop 1 demo_history, AutoCompaction 1)"
proof -
  have l: "length demo_history = 11" by (simp add: demo_history_def)
  have e: "estimate_token_count (\<lambda>_. None) demo_history (Some []) (Some []) = 69"
      "estimate_token_count (\<lambda>_. None) (drop 1 demo_history) (Some []) (Some []) = 65"
    by (simp_all add: estimate_token_count_def demo_history_def upt_rec)
  show ?thesis
    by (simp add: recover_from_overflow_def e(1) e(2) [simplified] l f64_eval)
qed

lemma recovery_outcomes_witness:
  "estimate_token_count (\<lambda>_. None) (drop 1 demo_history) (Some []) (Some []) \<le> f64_scale f64_070 53 95"
  using recovery_outcomes [OF demo_recovery] by simp

lemma recovery_orphans_results_witness:
  "''t'' \<in> set (concat (map message_results (drop 1 demo_history)))
     \<and> ''t'' \<notin> set (concat (map message_uses (drop 1 demo_history)))"
proof (rule recovery_orphans_results [OF demo_recovery])
  show "''t'' \<in> set (message_results (demo_history ! 1))"
    by (simp add: demo_history_def message_results_def result_ids_def inner_blocks_def List.map_filter_simps)
  show "\<forall>m \<in> set (drop 1 demo_history). ''t'' \<notin> set (message_uses m)"
    by (auto simp: demo_history_def message_uses_def use_ids_def inner_blocks_def List.map_filter_simps)
qed

end
