(* ===== verification/Llm_Errors.thy ===== *)
theory Llm_Errors
  imports Rust_Text
begin

text \<open>
  Errors of model providers: the error type of \<open>runtime/src/llm_driver.rs\<close> with its printed
  form, and the classifier of \<open>runtime/src/llm_errors.rs\<close>, which looks for patterns in the
  printed error. \<open>lower\<close> is \<open>str::to_lowercase\<close>.
\<close>

section \<open>Errors of a driver\<close>

datatype llm_error =
    Http string
  | Api nat string
  | RateLimited nat
  | Parse_failure string
  | MissingApiKey string
  | Model_overloaded nat

fun llm_error_str :: "llm_error \<Rightarrow> string" where
  "llm_error_str (Http m) = ''HTTP error: '' @ m"
| "llm_error_str (Api status m) = ''API error ('' @ nat_str status @ ''): '' @ m"
| "llm_error_str (RateLimited ms) = ''Rate limited, retry after '' @ nat_str ms @ ''ms''"
| "llm_error_str (Parse_failure m) = ''Parse error: '' @ m"
| "llm_error_str (MissingApiKey m) = ''Missing API key: '' @ m"
| "llm_error_str (Model_overloaded ms) = ''Model overloaded, retry after '' @ nat_str ms @ ''ms''"

section \<open>Classification\<close>

datatype llm_error_category =
    RateLimit | Overloaded | Timeout | Billing | Auth | ContextOverflow | Format_error | ModelNotFound

record classified_error =
  ce_category :: llm_error_category
  ce_retryable :: bool
  ce_billing :: bool
  ce_delay_ms :: "nat option"
  ce_sanitized :: string
  ce_raw :: string

definition context_overflow_patterns :: "string list" where
  "context_overflow_patterns =
    [''context_length_exceeded'', ''context length'', ''context_length'', ''maximum context'',
     ''context window'', ''token limit'', ''too many tokens'', ''max_tokens_exceeded'',
     ''max tokens exceeded'', ''prompt is too long'', ''input too long'', ''context.length'']"

definition billing_patterns :: "string list" where
  "billing_patterns =
    [''payment required'', ''insufficient credits'', ''credit balance'', ''billing'',
     ''insufficient balance'', ''usage limit'']"

definition auth_patterns :: "string list" where
  "auth_patterns =
    [''invalid api key'', ''invalid api_key'', ''invalid apikey'', ''incorrect api key'',
     ''invalid token'', ''unauthorized'', ''forbidden'', ''authentication'', ''permission denied'']"

definition rate_limit_patterns :: "string list" where
  "rate_limit_patterns =
    [''rate limit'', ''rate_limit'', ''too many requests'', ''exceeded quota'',
     ''exceeded your quota'', ''resource exhausted'', ''resource_exhausted'', ''quota exceeded'',
     ''tokens per minute'', ''requests per minute'', ''tpm limit'', ''rpm limit'']"

definition model_not_found_patterns :: "string list" where
  "model_not_found_patterns =
    [''model not found'', ''model_not_found'', ''unknown model'', ''does not exist'',
     ''not_found'', ''model unavailable'', ''model_unavailable'', ''no such model'',
     ''invalid model'', ''is not found'']"

definition format_patterns :: "string list" where
  "format_patterns =
    [''invalid request'', ''invalid_request'', ''malformed'', ''tool_use'', ''schema'',
     ''validation error'', ''validation_error'', ''invalid parameter'', ''invalid_parameter'',
     ''missing required'', ''bad request'', ''bad_request'']"

definition overloaded_patterns :: "string list" where
  "overloaded_patterns =
    [''overloaded'', ''overloaded_error'', ''service unavailable'', ''service_unavailable'',
     ''high demand'', ''capacity'', ''server_error'', ''internal server error'',
     ''internal_server_error'']"

definition timeout_patterns :: "string list" where
  "timeout_patterns =
    [''timeout'', ''timed out'', ''deadline exceeded'', ''etimedout'', ''econnreset'',
     ''econnrefused'', ''econnaborted'', ''epipe'', ''ehostunreach'', ''enetunreach'',
     ''connection reset'', ''connection refused'', ''network error'', ''fetch failed'']"


definition matches_any :: "string \<Rightarrow> string list \<Rightarrow> bool" where
  "matches_any haystack ps = list_ex (contains_sub haystack) ps"

fun category_text :: "llm_error_category \<Rightarrow> string" where
  "category_text RateLimit = ''The AI provider is rate-limiting requests. Retrying shortly...''"
| "category_text Overloaded = ''The AI provider is temporarily overloaded. Retrying...''"
| "category_text Timeout = ''The request timed out. Check your network connection.''"
| "category_text Billing = ''Billing issue with the AI provider. Check your API plan.''"
| "category_text Auth = ''Authentication failed. Check your API key configuration.''"
| "category_text ContextOverflow = ''The conversation is too long for the model's context window.''"
| "category_text Format_error = ''Invalid request format. This may be a bug '' @ em_dash @ '' please report it.''"
| "category_text ModelNotFound = ''The requested model was not found. Check the model name.''"

definition sanitize_for_user :: "llm_error_category \<Rightarrow> string" where
  "sanitize_for_user category =
     (let msg = category_text category in
      if 200 < length msg then truncate_bytes msg 197 @ ''...'' else msg)"

definition delay_prefixes :: "string list" where
  "delay_prefixes = [''retry after '', ''retry-after: '', ''try again in '']"

fun find_delay :: "string \<Rightarrow> string list \<Rightarrow> nat option" where
  "find_delay lw [] = None"
| "find_delay lw (p # ps) =
     (case find_sub p lw of
        None \<Rightarrow> find_delay lw ps
      | Some start \<Rightarrow>
          let after = drop (start + length p) lw; num_str = takeWhile is_digit after in
          (case parse_nat 64 num_str of
             None \<Rightarrow> find_delay lw ps
           | Some v \<Rightarrow>
               if v = 0 then find_delay lw ps
               else if starts_with (drop (length num_str) after) ''ms'' then Some v
               else Some (min (v * 1000) (2 ^ 64 - 1))))"

definition extract_retry_delay :: "(string \<Rightarrow> string) \<Rightarrow> string \<Rightarrow> nat option" where
  "extract_retry_delay lower message = find_delay (lower message) delay_prefixes"

definition is_transient :: "(string \<Rightarrow> string) \<Rightarrow> string \<Rightarrow> bool" where
  "is_transient lower message =
     (let lw = lower message
      in matches_any lw timeout_patterns \<or> matches_any lw overloaded_patterns \<or> matches_any lw rate_limit_patterns)"

definition is_html_error_page :: "(string \<Rightarrow> string) \<Rightarrow> string \<Rightarrow> bool" where
  "is_html_error_page lower body =
     (let lw = lower body
      in contains_sub lw ''<!doctype'' \<or> contains_sub lw ''<html''
         \<or> contains_sub lw ''cf-error-code'' \<or> contains_sub lw ''cf-error-type''
         \<or> list_ex (\<lambda>code. contains_sub lw (nat_str code) \<and> contains_sub lw ''cloudflare'') [521..<531])"

text \<open>The statuses that decide at once, and then the patterns in the order of priority.\<close>

definition status_category :: "string \<Rightarrow> nat option \<Rightarrow> llm_error_category option" where
  "status_category lw status =
     (if status = Some 429 then Some RateLimit
      else if status = Some 402 then Some Billing
      else if status = Some 401 then Some Auth
      else if status = Some 403 then Some (if matches_any lw rate_limit_patterns then RateLimit else Auth)
      else None)"

definition fallback_category :: "(string \<Rightarrow> string) \<Rightarrow> string \<Rightarrow> nat option \<Rightarrow> llm_error_category" where
  "fallback_category lower message status =
     (let lw = lower message in
      if is_html_error_page lower message then Overloaded
      else if (case status of Some code \<Rightarrow> 500 \<le> code \<and> code < 600 | None \<Rightarrow> False) then Overloaded
      else if (case status of Some code \<Rightarrow> 400 \<le> code \<and> code < 500 | None \<Rightarrow> False) then Format_error
      else if contains_sub lw ''connect'' \<or> contains_sub lw ''network'' \<or> contains_sub lw ''dns'' then Timeout
      else Format_error)"

definition pattern_category :: "(string \<Rightarrow> string) \<Rightarrow> string \<Rightarrow> nat option \<Rightarrow> llm_error_category" where
  "pattern_category lower message status =
     (let lw = lower message in
      if matches_any lw context_overflow_patterns then ContextOverflow
      else if matches_any lw billing_patterns \<or> status = Some 402 then Billing
      else if matches_any lw auth_patterns \<or> status = Some 401 \<or> status = Some 403 then Auth
      else if matches_any lw rate_limit_patterns \<or> status = Some 429 then RateLimit
      else if matches_any lw model_not_found_patterns \<or> (contains_sub lw ''model'' \<and> contains_sub lw ''not found'')
      then ModelNotFound
      else if matches_any lw format_patterns \<or> status = Some 400 then Format_error
      else if matches_any lw overloaded_patterns \<or> status = Some 500 \<or> status = Some 503 then Overloaded
      else if matches_any lw timeout_patterns then Timeout
      else fallback_category lower message status)"

definition retryable_category :: "llm_error_category \<Rightarrow> bool" where
  "retryable_category c \<longleftrightarrow> c = RateLimit \<or> c = Overloaded \<or> c = Timeout"

definition classify_error :: "(string \<Rightarrow> string) \<Rightarrow> string \<Rightarrow> nat option \<Rightarrow> classified_error" where
  "classify_error lower message status =
     (let category = (case status_category (lower message) status of
                        Some c \<Rightarrow> c
                      | None \<Rightarrow> pattern_category lower message status)
      in \<lparr> ce_category = category, ce_retryable = retryable_category category, ce_billing = (category = Billing),
           ce_delay_ms = extract_retry_delay lower message, ce_sanitized = sanitize_for_user category,
           ce_raw = message \<rparr>)"

section \<open>The status of an error\<close>

definition all_patterns :: "string list" where
  "all_patterns = context_overflow_patterns @ billing_patterns @ auth_patterns @ rate_limit_patterns
     @ model_not_found_patterns @ format_patterns @ overloaded_patterns @ timeout_patterns
     @ [''not found'', ''connect'', ''network'', ''dns'', ''cloudflare'', ''cf-error-code'', ''cf-error-type'', ''<!doctype'', ''<html'']"

lemma no_pattern_category:
  assumes "\<not> matches_any (lower message) all_patterns"
  shows "pattern_category lower message None = Format_error"
    and "500 \<le> n \<Longrightarrow> n < 600 \<Longrightarrow> pattern_category lower message (Some n) = Overloaded"
  using assms
  by (simp_all add: pattern_category_def fallback_category_def is_html_error_page_def matches_any_def all_patterns_def Let_def)

text \<open>
  The loop classifies an error by its printed text and throws the HTTP status away. A server
  error whose text names no known cause is a format error and not retried, although with its
  status the classifier calls it an overload that is to be retried.
\<close>

theorem status_is_lost:
  assumes "500 \<le> n" and "n < 600" and "\<not> matches_any (lower (llm_error_str (Api n m))) all_patterns"
  shows "ce_category (classify_error lower (llm_error_str (Api n m)) None) = Format_error
     \<and> \<not> ce_retryable (classify_error lower (llm_error_str (Api n m)) None)
     \<and> ce_category (classify_error lower (llm_error_str (Api n m)) (Some n)) = Overloaded
     \<and> ce_retryable (classify_error lower (llm_error_str (Api n m)) (Some n))"
  using assms(1,2) no_pattern_category [of lower "llm_error_str (Api n m)", OF assms(3)]
  by (simp add: classify_error_def status_category_def retryable_category_def Let_def del: llm_error_str.simps)

lemma status_is_lost_witness:
  "\<not> ce_retryable (classify_error (map ascii_lower) (llm_error_str (Api 502 ''bad gateway'')) None)"
proof -
  have "\<not> matches_any (map ascii_lower (llm_error_str (Api 502 ''bad gateway''))) all_patterns" by code_simp
  from status_is_lost [of 502 "map ascii_lower" "''bad gateway''", OF _ _ this] show ?thesis by simp
qed

end
