(* ===== verification/Llm_Call.thy ===== *)
theory Llm_Call
  imports Llm_Errors Circuit_Breaker Context_Budget Rh_Error
begin

text \<open>
  A call of a driver with retries, \<open>call_with_retry\<close> and \<open>stream_with_retry\<close> of
  \<open>runtime/src/agent_loop.rs\<close>, which differ in the driver operation only. Both are called with a
  provider and the shared circuit breaker, and without a response cache. The driver's answer to
  an attempt, the random jitter and the clock's reading are functions of the attempt.
\<close>

record tool_call =
  tc_id :: string
  tc_name :: string
  tc_input :: json

record completion_response =
  cr_content :: "content_block list"
  cr_stop :: stop_reason
  cr_tool_calls :: "tool_call list"
  cr_usage :: token_usage

definition response_text :: "completion_response \<Rightarrow> string" where
  "response_text r = concat (List.map_filter (\<lambda>b. case b of TextBlock t \<Rightarrow> Some t | _ \<Rightarrow> None) (cr_content r))"

definition max_retries :: nat where "max_retries = 3"

definition base_retry_delay_ms :: nat where "base_retry_delay_ms = 1000"

text \<open>\<open>jitter\<close> draws from \<open>0..=bound\<close>.\<close>

definition retry_delay_with_jitter :: "(nat \<Rightarrow> nat) \<Rightarrow> nat \<Rightarrow> nat \<Rightarrow> nat" where
  "retry_delay_with_jitter jitter retry_after_ms attempt =
     (let base = max retry_after_ms (base_retry_delay_ms * 2 ^ attempt)
      in (base + jitter (base div 2)) mod 2 ^ 64)"

record call_env =
  ce_complete :: "nat \<Rightarrow> llm_error + completion_response"
  ce_jitter :: "nat \<Rightarrow> nat \<Rightarrow> nat"
  ce_clock :: "nat \<Rightarrow> nat"
  ce_lower :: "string \<Rightarrow> string"

text \<open>The outcome of an attempt that failed: a delay and a note before the next one, or an error.\<close>

datatype retry_step = Retry_after nat string | Give_up bool string

definition after_error :: "call_env \<Rightarrow> nat \<Rightarrow> llm_error \<Rightarrow> retry_step" where
  "after_error E attempt err =
     (case err of
        RateLimited ms \<Rightarrow>
          if attempt = max_retries
          then Give_up False (''Rate limited after '' @ nat_str max_retries @ '' retries'')
          else Retry_after (retry_delay_with_jitter (ce_jitter E attempt) ms attempt) ''Rate limited''
      | Model_overloaded ms \<Rightarrow>
          if attempt = max_retries then Give_up False (sanitize_for_user Overloaded)
          else Retry_after (retry_delay_with_jitter (ce_jitter E attempt) ms attempt) ''Overloaded''
      | _ \<Rightarrow>
          let raw = llm_error_str err; c = classify_error (ce_lower E) raw None in
          if ce_retryable c \<and> attempt < max_retries
          then Retry_after (retry_delay_with_jitter (ce_jitter E attempt) 0 attempt) (ce_sanitized c)
          else Give_up (ce_billing c)
                 (if ce_category c = Format_error then ce_sanitized c @ '' '' @ em_dash @ '' raw: '' @ raw
                  else ce_sanitized c))"

text \<open>The loop over the attempts; the delays slept are collected.\<close>

function attempt_loop :: "call_env \<Rightarrow> string \<Rightarrow> nat \<Rightarrow> string option \<Rightarrow> provider_cooldown
    \<Rightarrow> provider_cooldown \<times> nat list \<times> (rh_error + completion_response)" where
  "attempt_loop E provider attempt last_error cd =
     (if max_retries < attempt
      then (cd, [], Inl (LlmDriver (case last_error of Some e \<Rightarrow> e | None \<Rightarrow> ''Unknown error'')))
      else case ce_complete E attempt of
             Inr resp \<Rightarrow> (record_success cd provider, [], Inr resp)
           | Inl err \<Rightarrow>
               (case after_error E attempt err of
                  Retry_after d note_text \<Rightarrow>
                    (case attempt_loop E provider (Suc attempt) (Some note_text) cd of
                       (cd', ds, res) \<Rightarrow> (cd', d # ds, res))
                | Give_up billing msg \<Rightarrow>
                    (record_failure cd provider billing (ce_clock E attempt), [], Inl (LlmDriver msg))))"
  by pat_completeness auto
termination
  by (relation "measure (\<lambda>(E, p, attempt, l, cd). Suc max_retries - attempt)") auto

declare attempt_loop.simps [simp del]

definition call_with_retry :: "call_env \<Rightarrow> string \<Rightarrow> nat \<Rightarrow> provider_cooldown
    \<Rightarrow> provider_cooldown \<times> nat list \<times> (rh_error + completion_response)" where
  "call_with_retry E provider now cd =
     (case cb_check cd provider now of
        Reject reason secs \<Rightarrow>
          (cd, [], Inl (LlmDriver (''Provider '' @ quoted provider @ '' is in cooldown ('' @ reason @
             ''). Retry in '' @ nat_str secs @ ''s.'')))
      | _ \<Rightarrow> attempt_loop E provider 0 None cd)"

section \<open>Properties\<close>

text \<open>Attempts up to \<open>a\<close> failed in a way that is retried.\<close>

definition retried :: "call_env \<Rightarrow> nat \<Rightarrow> bool" where
  "retried E a \<longleftrightarrow> (\<exists>err d n. ce_complete E a = Inl err \<and> after_error E a err = Retry_after d n)"

lemma last_attempt: "\<not> retried E max_retries"
  by (auto simp: retried_def after_error_def Let_def split: llm_error.splits if_splits)

lemma attempt_loop_outcome:
  "a \<le> max_retries \<Longrightarrow> attempt_loop E p a l cd = (cd', ds, res) \<Longrightarrow>
     \<exists>b. a \<le> b \<and> b \<le> max_retries \<and> (\<forall>c. a \<le> c \<and> c < b \<longrightarrow> retried E c) \<and> length ds = b - a
       \<and> ((\<exists>r. ce_complete E b = Inr r \<and> res = Inr r \<and> cd' = record_success cd p)
          \<or> (\<exists>err billing m. ce_complete E b = Inl err \<and> after_error E b err = Give_up billing m
               \<and> res = Inl (LlmDriver m) \<and> cd' = record_failure cd p billing (ce_clock E b)))"
proof (induction E p a l cd arbitrary: cd' ds res rule: attempt_loop.induct)
  case (1 E p a l cd)
  note eq = "1.prems"(2) [unfolded attempt_loop.simps [of E p a l cd]]
  have le: "\<not> max_retries < a" using "1.prems"(1) by simp
  show ?case
  proof (cases "ce_complete E a")
    case (Inr r)
    then show ?thesis using eq le by (intro exI [of _ a]) auto
  next
    case (Inl err)
    show ?thesis
    proof (cases "after_error E a err")
      case (Give_up billing m)
      then show ?thesis using eq le Inl by (intro exI [of _ a]) auto
    next
      case (Retry_after d n)
      then have "retried E a" using Inl by (auto simp: retried_def)
      then have "a \<noteq> max_retries" using last_attempt by metis
      then have a: "Suc a \<le> max_retries" using le by simp
      obtain ds' where ds: "ds = d # ds'" "attempt_loop E p (Suc a) (Some n) cd = (cd', ds', res)"
        using eq le Inl Retry_after by (auto split: prod.splits)
      from "1.IH" [OF le Inl Retry_after a ds(2)] obtain b where b: "Suc a \<le> b" "b \<le> max_retries"
        "\<forall>c. Suc a \<le> c \<and> c < b \<longrightarrow> retried E c" "length ds' = b - Suc a"
        "(\<exists>r. ce_complete E b = Inr r \<and> res = Inr r \<and> cd' = record_success cd p)
          \<or> (\<exists>err billing m. ce_complete E b = Inl err \<and> after_error E b err = Give_up billing m
               \<and> res = Inl (LlmDriver m) \<and> cd' = record_failure cd p billing (ce_clock E b))"
        by blast
      have "\<forall>c. a \<le> c \<and> c < b \<longrightarrow> retried E c"
        using b(3) \<open>retried E a\<close> by (metis le_antisym not_less_eq_eq)
      then show ?thesis using b ds(1) by (intro exI [of _ b]) auto
    qed
  qed
qed

text \<open>
  C28: A call makes at most four attempts and touches the circuit breaker at most once: a refused
  call leaves it alone, an answer resets the provider, and only the error that ends the call
  counts as a failure, however many attempts failed before.
\<close>

theorem call_outcome:
  assumes "call_with_retry E p now cd = (cd', ds, res)"
  shows "(\<exists>reason secs. cb_check cd p now = Reject reason secs \<and> cd' = cd \<and> ds = [] \<and> isl res)
     \<or> (\<exists>b \<le> 3. (\<forall>c < b. retried E c) \<and> length ds = b
          \<and> ((\<exists>r. ce_complete E b = Inr r \<and> res = Inr r \<and> cd' = record_success cd p)
             \<or> (\<exists>err billing m. ce_complete E b = Inl err \<and> after_error E b err = Give_up billing m
                  \<and> res = Inl (LlmDriver m) \<and> cd' = record_failure cd p billing (ce_clock E b))))"
proof (cases "\<exists>reason secs. cb_check cd p now = Reject reason secs")
  case True
  then show ?thesis using assms by (auto simp: call_with_retry_def)
next
  case False
  then have "attempt_loop E p 0 None cd = (cd', ds, res)"
    using assms by (auto simp: call_with_retry_def split: cooldown_verdict.splits)
  from attempt_loop_outcome [OF _ this] obtain b where "b \<le> max_retries" "\<forall>c. 0 \<le> c \<and> c < b \<longrightarrow> retried E c"
    "length ds = b - 0" "(\<exists>r. ce_complete E b = Inr r \<and> res = Inr r \<and> cd' = record_success cd p)
          \<or> (\<exists>err billing m. ce_complete E b = Inl err \<and> after_error E b err = Give_up billing m
               \<and> res = Inl (LlmDriver m) \<and> cd' = record_failure cd p billing (ce_clock E b))"
    by auto
  then show ?thesis by (intro disjI2 exI [of _ b]) (simp add: max_retries_def)
qed

definition demo_call_env :: call_env where
  "demo_call_env = \<lparr> ce_complete = (\<lambda>a. if a < 2 then Inl (RateLimited 5) else Inl (MissingApiKey ''K'')),
     ce_jitter = (\<lambda>a b. b), ce_clock = (\<lambda>a. a), ce_lower = map ascii_lower \<rparr>"

lemma call_outcome_witness:
  "\<exists>cd' ds res. call_with_retry demo_call_env ''p'' 0 shared_breaker = (cd', ds, res)
     \<and> (\<exists>b \<le> 3. (\<forall>c < b. retried demo_call_env c) \<and> length ds = b)"
proof -
  obtain cd' ds res where c: "call_with_retry demo_call_env ''p'' 0 shared_breaker = (cd', ds, res)" by (metis surj_pair)
  have "cb_check shared_breaker ''p'' 0 = AllowRequest" by (simp add: cb_check_def shared_breaker_def new_cooldown_def)
  then show ?thesis using call_outcome [OF c] c by auto
qed

end
