(* ===== verification/Agent_Loop.thy ===== *)
theory Agent_Loop
  imports Llm_Call Loop_Guard Session_Repair Reply_Directives Agent_Types Rust_Text
begin

text \<open>
  The agent loop, \<open>runtime/src/agent_loop.rs\<close>: \<open>run_agent_loop\<close>, and \<open>run_agent_loop_streaming\<close>, which
  makes the same steps and sends progress events besides. An iteration recovers from overflow,
  calls the model, and ends the turn, executes tool calls or continues a truncated answer.

  Models, tools, hooks, the store, clocks and fresh ids are functions of the iteration (and of
  the position of the call in its batch). Requests (with
  what the recovery did), sleeps, executed tools, saves and memories
  are logged in a trace. Hooks that only observe, phase callbacks and logging are left out.
\<close>

section \<open>Constants, environment, state\<close>

definition max_iterations_default :: nat where "max_iterations_default = 50"
definition tool_timeout_secs :: nat where "tool_timeout_secs = 120"
definition max_continuations :: nat where "max_continuations = 5"
definition max_history_messages :: nat where "max_history_messages = 20"
definition default_context_window :: nat where "default_context_window = 200000"

record tool_result =
  tr_id :: string
  tr_content :: string
  tr_is_error :: bool

datatype loop_event =
    Requested recovery_stage "message list"
  | Slept nat
  | Executed tool_call
  | Saved "message list"
  | Remembered string

text \<open>
  A tool execution is \<open>None\<close> when the timeout of 120 seconds ends it; \<open>le_hook\<close> is the reason of a
  blocking hook; \<open>le_save\<close> the error of the save in an iteration, if it fails.
\<close>

record loop_env =
  le_call :: "nat \<Rightarrow> call_env"
  le_now :: "nat \<Rightarrow> nat"
  le_exec :: "nat \<Rightarrow> nat \<Rightarrow> tool_call \<Rightarrow> tool_result option"
  le_hook :: "nat \<Rightarrow> nat \<Rightarrow> tool_call \<Rightarrow> string option"
  le_save :: "nat \<Rightarrow> string option"
  le_fresh :: "nat \<Rightarrow> nat \<Rightarrow> string"
  le_json :: "string \<Rightarrow> json option"
  le_schema :: "json \<Rightarrow> string option"
  le_guard :: guard_env
  le_alnum :: "string \<Rightarrow> bool"
  le_label_ok :: bool

text \<open>What a turn is called with: provider, system prompt, tools, user message, window, iterations.\<close>

record loop_params =
  lp_provider :: string
  lp_system :: string
  lp_tools :: "tool_definition list"
  lp_user :: string
  lp_window :: nat
  lp_max_iterations :: nat

record loop_state =
  ls_messages :: "message list"
  ls_history :: "message list"
  ls_label :: "string option"
  ls_usage :: token_usage
  ls_guard :: loop_guard
  ls_conts :: nat
  ls_breaker :: provider_cooldown
  ls_trace :: "loop_event list"

record loop_result =
  lr_response :: string
  lr_usage :: token_usage
  lr_iterations :: nat
  lr_silent :: bool
  lr_directives :: directive_set

datatype turn_step = Continue loop_state | Finish loop_state "rh_error + loop_result"

definition log_events :: "loop_event list \<Rightarrow> loop_state \<Rightarrow> loop_state" where
  "log_events es s = s\<lparr> ls_trace := ls_trace s @ es \<rparr>"

text \<open>A save that fails is a warning, except at the end of a turn.\<close>

definition save_session :: "loop_env \<Rightarrow> nat \<Rightarrow> loop_state \<Rightarrow> loop_state" where
  "save_session E k s = (if le_save E k = None then log_events [Saved (ls_history s)] s else s)"

definition add_history :: "message \<Rightarrow> loop_state \<Rightarrow> loop_state" where
  "add_history m s = s\<lparr> ls_history := ls_history s @ [m] \<rparr>"

definition add_message :: "message \<Rightarrow> loop_state \<Rightarrow> loop_state" where
  "add_message m s = s\<lparr> ls_messages := ls_messages s @ [m] \<rparr>"

definition saturating_add64 :: "64 word \<Rightarrow> 64 word \<Rightarrow> 64 word" where
  "saturating_add64 a b = (if unat a + unat b < 2 ^ 64 then a + b else - 1)"

definition add_usage :: "token_usage \<Rightarrow> token_usage \<Rightarrow> token_usage" where
  "add_usage u v = \<lparr> input_tokens = saturating_add64 (input_tokens u) (input_tokens v),
     output_tokens = saturating_add64 (output_tokens u) (output_tokens v) \<rparr>"

section \<open>Tool calls written as text\<close>

definition function_open :: string where "function_open = ''<function=''"
definition function_tag :: string where "function_tag = ''<function>''"
definition function_close :: string where "function_close = ''</function>''"

lemma tag_shortens:
  "find_sub function_open s = Some i \<Longrightarrow> length s - (i + length function_open) < length s"
  "find_sub function_tag s = Some i \<Longrightarrow> length s - (i + length function_tag) < length s"
  by (cases s; simp add: function_open_def function_tag_def)+

text \<open>The first pattern, \<open><function=NAME>JSON</function>\<close>; \<open>text\<close> is what is left from \<open>search_from\<close> on.\<close>

function text_calls_eq :: "(string \<Rightarrow> json option) \<Rightarrow> string list \<Rightarrow> string \<Rightarrow> (string \<times> json) list" where
  "text_calls_eq parse names text =
     (case find_sub function_open text of
        None \<Rightarrow> []
      | Some start \<Rightarrow>
          let after_prefix = drop (start + length function_open) text in
          (case find_sub ''>'' after_prefix of
             None \<Rightarrow> text_calls_eq parse names after_prefix
           | Some name_end \<Rightarrow>
               let tool_name = take name_end after_prefix; json_start = drop (name_end + 1) after_prefix in
               (case find_sub function_close json_start of
                  None \<Rightarrow> text_calls_eq parse names json_start
                | Some close_offset \<Rightarrow>
                    let json_body = trim (take close_offset json_start);
                        rest = drop (close_offset + length function_close) json_start in
                    if tool_name \<notin> set names then text_calls_eq parse names rest
                    else (case parse json_body of
                            None \<Rightarrow> text_calls_eq parse names rest
                          | Some input \<Rightarrow> (tool_name, input) # text_calls_eq parse names rest))))"
  by pat_completeness auto

termination
proof (relation "measure (\<lambda>(p, n, text). length text)")
qed (simp | frule tag_shortens(1), linarith)+

text \<open>The second, \<open><function>NAME{JSON}</function>\<close>; a call found before is not repeated.\<close>

function text_calls_tag :: "(string \<Rightarrow> json option) \<Rightarrow> string list \<Rightarrow> (string \<times> json) list \<Rightarrow> string \<Rightarrow> (string \<times> json) list" where
  "text_calls_tag parse names calls text =
     (case find_sub function_tag text of
        None \<Rightarrow> calls
      | Some start \<Rightarrow>
          let after_tag = drop (start + length function_tag) text in
          (case find_sub function_close after_tag of
             None \<Rightarrow> text_calls_tag parse names calls after_tag
           | Some close_offset \<Rightarrow>
               let inner = take close_offset after_tag; rest = drop (close_offset + length function_close) after_tag in
               (case find_sub ''{'' inner of
                  None \<Rightarrow> text_calls_tag parse names calls rest
                | Some brace_pos \<Rightarrow>
                    let tool_name = trim (take brace_pos inner); json_body = trim (drop brace_pos inner) in
                    if tool_name = [] \<or> tool_name \<notin> set names then text_calls_tag parse names calls rest
                    else (case parse json_body of
                            None \<Rightarrow> text_calls_tag parse names calls rest
                          | Some input \<Rightarrow>
                              if (tool_name, input) \<in> set calls then text_calls_tag parse names calls rest
                              else text_calls_tag parse names (calls @ [(tool_name, input)]) rest))))"
  by pat_completeness auto
termination
proof (relation "measure (\<lambda>(p, n, c, text). length text)")
qed (simp | frule tag_shortens(2), linarith)+

declare text_calls_eq.simps [simp del] text_calls_tag.simps [simp del]

definition recover_text_tool_calls :: "(string \<Rightarrow> json option) \<Rightarrow> (nat \<Rightarrow> string) \<Rightarrow> string \<Rightarrow> tool_definition list \<Rightarrow> tool_call list" where
  "recover_text_tool_calls parse fresh text tools =
     (let names = map td_name tools;
          calls = text_calls_tag parse names (text_calls_eq parse names text) text
      in map (\<lambda>(i, name, input). \<lparr> tc_id = ''recovered_'' @ fresh i, tc_name = name, tc_input = input \<rparr>)
           (enumerate 0 calls))"

definition promote_text_calls :: "loop_env \<Rightarrow> loop_params \<Rightarrow> nat \<Rightarrow> completion_response \<Rightarrow> completion_response" where
  "promote_text_calls E P k r =
     (if (cr_stop r = EndTurn \<or> cr_stop r = StopSequence) \<and> cr_tool_calls r = []
      then let recovered = recover_text_tool_calls (le_json E) (le_fresh E k) (response_text r) (lp_tools P) in
           if recovered = [] then r
           else r\<lparr> cr_tool_calls := recovered, cr_stop := StopToolUse,
                   cr_content := map (\<lambda>tc. ToolUse (tc_id tc) (tc_name tc) (tc_input tc)) recovered \<rparr>
      else r)"

section \<open>Executing tool calls\<close>

definition loop_note :: "verdict \<Rightarrow> string option \<Rightarrow> string list" where
  "loop_note v w = (case v of Warn m \<Rightarrow> [m] | _ \<Rightarrow> []) @ (case w of Some m \<Rightarrow> [m] | None \<Rightarrow> [])"

definition noted_content :: "string \<Rightarrow> string list \<Rightarrow> string" where
  "noted_content content notes =
     (if notes = [] then content else content @ newlines @ ''[LOOP GUARD] '' @ join '' '' notes)"

definition timed_out_result :: "tool_call \<Rightarrow> tool_result" where
  "timed_out_result tc = \<lparr> tr_id = tc_id tc,
     tr_content = ''Tool '' @ quoted (tc_name tc) @ '' timed out after '' @ nat_str tool_timeout_secs @ ''s.'',
     tr_is_error = True \<rparr>"

text \<open>The part after the checks: back-off, execution, outcome, truncation and notes.\<close>

definition execute_call :: "loop_env \<Rightarrow> loop_params \<Rightarrow> nat \<Rightarrow> nat \<Rightarrow> loop_guard \<Rightarrow> verdict \<Rightarrow> tool_call
    \<Rightarrow> loop_guard \<times> loop_event list \<times> content_block" where
  "execute_call E P k i g v tc =
     (case get_poll_backoff (le_guard E) g (tc_name tc) (tc_input tc) of (g, delay) \<Rightarrow>
      let result = (case le_exec E k i tc of Some r \<Rightarrow> r | None \<Rightarrow> timed_out_result tc) in
      case record_outcome (le_guard E) g (tc_name tc) (tc_input tc) (tr_content result) of (g, warning) \<Rightarrow>
      let content = truncate_tool_result_dynamic (tr_content result) (new_budget (lp_window P)) in
      (g, (case delay of Some d \<Rightarrow> [Slept d] | None \<Rightarrow> []) @ [Executed tc],
       ToolResult (tr_id result) (noted_content content (loop_note v warning)) (tr_is_error result)))"

definition run_call :: "loop_env \<Rightarrow> loop_params \<Rightarrow> nat \<Rightarrow> nat \<Rightarrow> loop_guard \<Rightarrow> tool_call
    \<Rightarrow> loop_guard \<times> loop_event list \<times> (string + content_block)" where
  "run_call E P k i g tc =
     (case guard_check (le_guard E) g (tc_name tc) (tc_input tc) of (g, v) \<Rightarrow>
      case v of
        CircuitBreak m \<Rightarrow> (g, [], Inl m)
      | Block m \<Rightarrow> (g, [], Inr (ToolResult (tc_id tc) m True))
      | _ \<Rightarrow>
          (case le_hook E k i tc of
             Some reason \<Rightarrow>
               (g, [], Inr (ToolResult (tc_id tc) (''Hook blocked tool '' @ quoted (tc_name tc) @ '': '' @ reason) True))
           | None \<Rightarrow> (case execute_call E P k i g v tc of (g, es, b) \<Rightarrow> (g, es, Inr b))))"

text \<open>The calls of a response in order; a circuit break ends the batch and drops the results so far.\<close>

fun run_tools :: "loop_env \<Rightarrow> loop_params \<Rightarrow> nat \<Rightarrow> nat \<Rightarrow> loop_guard \<Rightarrow> tool_call list
    \<Rightarrow> loop_guard \<times> loop_event list \<times> (string + content_block list)" where
  "run_tools E P k i g [] = (g, [], Inr [])"
| "run_tools E P k i g (tc # tcs) =
     (case run_call E P k i g tc of
        (g, es, Inl m) \<Rightarrow> (g, es, Inl m)
      | (g, es, Inr b) \<Rightarrow>
          (case run_tools E P k (Suc i) g tcs of
             (g, es', Inl m) \<Rightarrow> (g, es @ es', Inl m)
           | (g, es', Inr bs) \<Rightarrow> (g, es @ es', Inr (b # bs))))"

definition tool_use_step :: "loop_env \<Rightarrow> loop_params \<Rightarrow> nat \<Rightarrow> completion_response \<Rightarrow> loop_state \<Rightarrow> turn_step" where
  "tool_use_step E P k r s =
     (let m = \<lparr> msg_role = Assistant, msg_content = Blocks (cr_content r) \<rparr>;
          s = add_message m (add_history m (s\<lparr> ls_conts := 0 \<rparr>)) in
      case run_tools E P k 0 (ls_guard s) (cr_tool_calls r) of (g, es, res) \<Rightarrow>
      let s = log_events es (s\<lparr> ls_guard := g \<rparr>) in
      case res of
        Inl msg \<Rightarrow> Finish (save_session E k s) (Inl (Internal msg))
      | Inr blocks \<Rightarrow>
          let m = \<lparr> msg_role = User, msg_content = Blocks blocks \<rparr>
          in Continue (save_session E k (add_message m (add_history m s))))"

section \<open>The end of a turn\<close>

definition no_reply_text :: string where "no_reply_text = ''[no reply needed]''"
definition no_response_text :: string where "no_response_text = ''[no response]''"
definition please_respond_text :: string where "please_respond_text = ''Please provide your response.''"
definition please_continue_text :: string where "please_continue_text = ''Please continue.''"

definition task_completed_text :: string where
  "task_completed_text = ''[Task completed '' @ em_dash @ '' the agent executed tools but did not produce a text summary.]''"

definition empty_answer_text :: string where
  "empty_answer_text = ''[The model returned an empty response. This usually means the model is overloaded, ''
     @ ''the context is too large, or the API key lacks credits. Try again or check /status.]''"

definition partial_answer_text :: string where
  "partial_answer_text = ''[Partial response '' @ em_dash @ '' token limit reached with no text output.]''"

definition derive_session_label :: "(string \<Rightarrow> bool) \<Rightarrow> string \<Rightarrow> string option" where
  "derive_session_label alnum text =
     (let clean = concat (map (\<lambda>c. if alnum c \<or> c = '' '' \<or> c = ''-'' \<or> c = ''_''
            then map ascii_lower c else '' '') (chars text));
          candidate = join '' '' (take 6 (split_whitespace clean));
          truncated = trim_end (truncate_chars candidate 40)
      in if length truncated < 2 then None else Some truncated)"

definition auto_label :: "loop_env \<Rightarrow> loop_params \<Rightarrow> loop_state \<Rightarrow> loop_state" where
  "auto_label E P s =
     (case ls_label s of
        Some _ \<Rightarrow> s
      | None \<Rightarrow>
          (case derive_session_label (le_alnum E) (lp_user P) of
             None \<Rightarrow> s
           | Some l \<Rightarrow>
               if \<not> isl (new_session_label (le_alnum E) l) \<and> le_label_ok E then s\<lparr> ls_label := Some l \<rparr> else s))"

definition interaction_text :: "string \<Rightarrow> string \<Rightarrow> string" where
  "interaction_text user response = ''User asked: '' @ user @ [CHR 0x0A] @ ''I responded: '' @ response"

definition end_turn_step :: "loop_env \<Rightarrow> loop_params \<Rightarrow> nat \<Rightarrow> completion_response \<Rightarrow> loop_state \<Rightarrow> turn_step" where
  "end_turn_step E P k r s =
     (case parse_directives (response_text r) of (text, d) \<Rightarrow>
      if trim text = ''NO_REPLY'' \<or> silent d
      then let s = add_history (assistant_message no_reply_text) s in
           (case le_save E k of
              Some e \<Rightarrow> Finish s (Inl (Memory_error e))
            | None \<Rightarrow> Finish (save_session E k s)
                (Inr \<lparr> lr_response = [], lr_usage = ls_usage s, lr_iterations = k + 1, lr_silent = True,
                       lr_directives = d\<lparr> silent := True \<rparr> \<rparr>))
      else if trim text = [] \<and> k = 0 \<and> cr_tool_calls r = []
      then Continue (add_message (user_message please_respond_text) (add_message (assistant_message no_response_text) s))
      else
        let text = (if trim text = [] then if 0 < k then task_completed_text else empty_answer_text else text);
            s = add_history (assistant_message text) s;
            s = s\<lparr> ls_history := prune_heartbeat_turns (ls_history s) 10 \<rparr> in
        (case le_save E k of
           Some e \<Rightarrow> Finish s (Inl (Memory_error e))
         | None \<Rightarrow>
             let s = auto_label E P (save_session E k s);
                 s = log_events [Remembered (interaction_text (lp_user P) text)] s
             in Finish s (Inr \<lparr> lr_response = text, lr_usage = ls_usage s, lr_iterations = k + 1,
                                lr_silent = False, lr_directives = d \<rparr>)))"

definition max_tokens_step :: "loop_env \<Rightarrow> nat \<Rightarrow> completion_response \<Rightarrow> loop_state \<Rightarrow> turn_step" where
  "max_tokens_step E k r s =
     (let s = s\<lparr> ls_conts := ls_conts s + 1 \<rparr>; text = response_text r in
      if max_continuations \<le> ls_conts s
      then let text = (if trim text = [] then partial_answer_text else text)
           in Finish (save_session E k (add_history (assistant_message text) s))
                (Inr \<lparr> lr_response = text, lr_usage = ls_usage s, lr_iterations = k + 1, lr_silent = False,
                       lr_directives = no_directives \<rparr>)
      else Continue (add_message (user_message please_continue_text)
             (add_message (assistant_message text) (add_history (assistant_message text) s))))"

section \<open>The loop\<close>

text \<open>The messages of a request: overflow recovery, then the context guard.\<close>

definition request_messages :: "loop_env \<Rightarrow> loop_params \<Rightarrow> message list \<Rightarrow> message list \<times> recovery_stage" where
  "request_messages E P ms =
     (case recover_from_overflow (le_schema E) (lp_system P) (lp_tools P) (lp_window P) ms of (ms, stage) \<Rightarrow>
        (fst (apply_context_guard (new_budget (lp_window P)) ms), stage))"

definition handle_response :: "loop_env \<Rightarrow> loop_params \<Rightarrow> nat \<Rightarrow> completion_response \<Rightarrow> loop_state \<Rightarrow> turn_step" where
  "handle_response E P k r s =
     (let s = s\<lparr> ls_usage := add_usage (ls_usage s) (cr_usage r) \<rparr>; r = promote_text_calls E P k r in
      case cr_stop r of
        StopToolUse \<Rightarrow> tool_use_step E P k r s
      | MaxTokens \<Rightarrow> max_tokens_step E k r s
      | _ \<Rightarrow> end_turn_step E P k r s)"

definition iteration_step :: "loop_env \<Rightarrow> loop_params \<Rightarrow> nat \<Rightarrow> loop_state \<Rightarrow> turn_step" where
  "iteration_step E P k s =
     (case request_messages E P (ls_messages s) of (ms, stage) \<Rightarrow>
      let s = s\<lparr> ls_messages := ms \<rparr> in
      case call_with_retry (le_call E k) (lp_provider P) (le_now E k) (ls_breaker s) of (cd, delays, res) \<Rightarrow>
      let s = log_events (Requested stage ms # map Slept delays) (s\<lparr> ls_breaker := cd \<rparr>) in
      case res of
        Inl e \<Rightarrow> Finish s (Inl e)
      | Inr r \<Rightarrow> handle_response E P k r s)"

function run_loop :: "loop_env \<Rightarrow> loop_params \<Rightarrow> nat \<Rightarrow> loop_state \<Rightarrow> loop_state \<times> (rh_error + loop_result)" where
  "run_loop E P k s =
     (if lp_max_iterations P \<le> k
      then (save_session E k s, Inl (MaxIterationsExceeded (lp_max_iterations P)))
      else (case iteration_step E P k s of
              Continue s' \<Rightarrow> run_loop E P (Suc k) s'
            | Finish s' res \<Rightarrow> (s', res)))"
  by pat_completeness auto
termination
  by (relation "measure (\<lambda>(E, P, k, s). lp_max_iterations P - k)") auto

declare run_loop.simps [simp del]

text \<open>The set-up: repair, the safety valve that trims to 20 messages and repairs again, the guard.\<close>

definition prepare_messages :: "message list \<Rightarrow> message list" where
  "prepare_messages history =
     (let ms = validate_and_repair (filter (\<lambda>m. msg_role m \<noteq> System) history) in
      if max_history_messages < length ms
      then validate_and_repair (drop (length ms - max_history_messages) ms)
      else ms)"

definition loop_guard_for :: "nat \<Rightarrow> loop_guard_config" where
  "loop_guard_for max_iterations =
     (let cfg = default_guard_config in
      if global_circuit_breaker cfg < max_iterations
      then cfg\<lparr> global_circuit_breaker := (max_iterations * 3) mod 2 ^ 32 \<rparr> else cfg)"

definition start_loop :: "loop_params \<Rightarrow> provider_cooldown \<Rightarrow> message list \<Rightarrow> string option \<Rightarrow> loop_state" where
  "start_loop P cd history label =
     (let history = history @ [user_message (lp_user P)] in
      \<lparr> ls_messages = prepare_messages history, ls_history = history, ls_label = label,
        ls_usage = \<lparr> input_tokens = 0, output_tokens = 0 \<rparr>,
        ls_guard = new_guard (loop_guard_for (lp_max_iterations P)), ls_conts = 0,
        ls_breaker = cd, ls_trace = [] \<rparr>)"

definition run_agent_loop :: "loop_env \<Rightarrow> loop_params \<Rightarrow> provider_cooldown \<Rightarrow> message list \<Rightarrow> string option
    \<Rightarrow> loop_state \<times> (rh_error + loop_result)" where
  "run_agent_loop E P cd history label = run_loop E P 0 (start_loop P cd history label)"

section \<open>The system prompt\<close>

definition cap_str :: "string \<Rightarrow> nat \<Rightarrow> string" where
  "cap_str s max_chars = (if char_count s \<le> max_chars then s else take (byte_index_at_char s max_chars) s @ ''...'')"

definition memory_header :: string where
  "memory_header = ''## Memory'' @ [CHR 0x0A]
     @ ''- When the user asks about something from a previous conversation, use memory_recall first.'' @ [CHR 0x0A]
     @ ''- Store important preferences, decisions, and context with memory_store for future use.''"

definition build_memory_section :: "(string \<times> string) list \<Rightarrow> string" where
  "build_memory_section memories = memory_header @
     (if memories = [] then []
      else newlines @ ''Recalled memories:'' @ [CHR 0x0A] @ concat (map (\<lambda>(key, content).
             let capped = cap_str content 500 in
             if key = [] then ''- '' @ capped @ [CHR 0x0A] else ''- ['' @ key @ ''] '' @ capped @ [CHR 0x0A]) (take 5 memories)))"

text \<open>The clock as \<open>chrono\<close> formats it.\<close>

record prompt_clock =
  pc_date :: string
  pc_time :: string
  pc_datetime :: string
  pc_weekday :: string
  pc_year :: string

definition substitute_prompt_vars :: "prompt_clock \<Rightarrow> string \<Rightarrow> string \<Rightarrow> string \<Rightarrow> string" where
  "substitute_prompt_vars now prompt name aid =
     (if \<not> contains_sub ''{{'' prompt then prompt
      else fold (\<lambda>(pat, repl) s. replace_all pat repl s)
        [(''{{date}}'', pc_date now), (''{{time}}'', pc_time now), (''{{datetime}}'', pc_datetime now),
         (''{{weekday}}'', pc_weekday now), (''{{year}}'', pc_year now), (''{{agent_name}}'', name), (''{{agent_id}}'', aid)]
        prompt)"

definition loop_system_prompt :: "prompt_clock \<Rightarrow> string \<Rightarrow> string \<Rightarrow> string \<Rightarrow> string list \<Rightarrow> string" where
  "loop_system_prompt now prompt name aid memories =
     substitute_prompt_vars now prompt name aid @
     (if memories = [] then [] else newlines @ build_memory_section (map (\<lambda>m. ([], m)) memories))"

end
