(* ===== verification/Agent_Loop_Theorems.thy ===== *)
theory Agent_Loop_Theorems
  imports Agent_Loop Context_Theorems Loop_Guard_Theorems Repair_Correct
begin

text \<open>
  What a turn of the agent loop does: how many requests and executions it can make, the form of
  every request, the result of a batch of tool calls, the answer, and what is saved.
\<close>

section \<open>The trace\<close>

definition requests :: "loop_event list \<Rightarrow> (recovery_stage \<times> message list) list" where
  "requests es = List.map_filter (\<lambda>e. case e of Requested st ms \<Rightarrow> Some (st, ms) | _ \<Rightarrow> None) es"

definition executed :: "loop_event list \<Rightarrow> tool_call list" where
  "executed es = List.map_filter (\<lambda>e. case e of Executed tc \<Rightarrow> Some tc | _ \<Rightarrow> None) es"

definition saves :: "loop_event list \<Rightarrow> message list list" where
  "saves es = List.map_filter (\<lambda>e. case e of Saved ms \<Rightarrow> Some ms | _ \<Rightarrow> None) es"

lemma trace_simps [simp]:
  "requests [] = []" "executed [] = []" "saves [] = []"
  "requests (e # es) = (case e of Requested st ms \<Rightarrow> [(st, ms)] | _ \<Rightarrow> []) @ requests es"
  "executed (e # es) = (case e of Executed tc \<Rightarrow> [tc] | _ \<Rightarrow> []) @ executed es"
  "saves (e # es) = (case e of Saved ms \<Rightarrow> [ms] | _ \<Rightarrow> []) @ saves es"
  "requests (es @ fs) = requests es @ requests fs" "executed (es @ fs) = executed es @ executed fs"
  "saves (es @ fs) = saves es @ saves fs"
  by (simp_all add: requests_def executed_def saves_def List.map_filter_simps map_filter_append split: loop_event.split)

lemma slept_trace [simp]:
  "requests (map Slept ds) = []" "executed (map Slept ds) = []" "saves (map Slept ds) = []"
  by (induction ds) simp_all

lemma log_sel [simp]:
  "ls_trace (log_events es s) = ls_trace s @ es" "ls_messages (log_events es s) = ls_messages s"
  "ls_history (log_events es s) = ls_history s" "ls_guard (log_events es s) = ls_guard s"
  "ls_usage (log_events es s) = ls_usage s" "ls_conts (log_events es s) = ls_conts s"
  "ls_label (log_events es s) = ls_label s" "ls_breaker (log_events es s) = ls_breaker s"
  by (simp_all add: log_events_def)

lemma add_sel [simp]:
  "ls_trace (add_history m s) = ls_trace s" "ls_trace (add_message m s) = ls_trace s"
  "ls_guard (add_history m s) = ls_guard s" "ls_guard (add_message m s) = ls_guard s"
  "ls_usage (add_history m s) = ls_usage s" "ls_usage (add_message m s) = ls_usage s"
  "ls_conts (add_history m s) = ls_conts s" "ls_conts (add_message m s) = ls_conts s"
  "ls_messages (add_history m s) = ls_messages s" "ls_messages (add_message m s) = ls_messages s @ [m]"
  "ls_history (add_history m s) = ls_history s @ [m]" "ls_history (add_message m s) = ls_history s"
  by (simp_all add: add_history_def add_message_def)

lemma save_sel [simp]:
  "ls_messages (save_session E k s) = ls_messages s" "ls_history (save_session E k s) = ls_history s"
  "ls_guard (save_session E k s) = ls_guard s" "ls_usage (save_session E k s) = ls_usage s"
  "requests (ls_trace (save_session E k s)) = requests (ls_trace s)"
  "executed (ls_trace (save_session E k s)) = executed (ls_trace s)"
  by (simp_all add: save_session_def)

lemma label_sel [simp]:
  "ls_trace (auto_label E P s) = ls_trace s" "ls_messages (auto_label E P s) = ls_messages s"
  "ls_history (auto_label E P s) = ls_history s" "ls_guard (auto_label E P s) = ls_guard s"
  "ls_usage (auto_label E P s) = ls_usage s"
  by (simp_all add: auto_label_def split: option.split)

fun step_state :: "turn_step \<Rightarrow> loop_state" where
  "step_state (Continue s) = s"
| "step_state (Finish s r) = s"

section \<open>Batches of tool calls\<close>

lemma backoff_guard:
  assumes "get_poll_backoff e g t p = (g', d)"
  shows "config g' = config g" and "total_calls g' = total_calls g"
  using config_backoff [of e g t p] backoff_frame(1) [of e g t p] assms by simp_all

lemma outcome_guard:
  assumes "record_outcome e g t p r = (g', w)"
  shows "config g' = config g" and "total_calls g' = total_calls g"
  using config_outcome [of e g t p r] outcome_frame(1) [of e g t p r] assms by simp_all

lemma check_guard:
  assumes "guard_check e g t p = (g', v)"
  shows "config g' = config g" and "total_calls g' = total_calls g + 1"
    and "is_circuit_break v \<longleftrightarrow> global_circuit_breaker (config g) \<le> total_calls g"
  using config_check [of e g t p] total_check [of e g t p] check_breaker [of e g t p] assms by simp_all

lemma execute_call_facts:
  assumes "execute_call E P k i g v tc = (g', es, b)"
  shows "config g' = config g" and "total_calls g' = total_calls g" and "executed es = [tc]"
    and "requests es = []" and "saves es = []"
    and "\<exists>c e. b = ToolResult (tr_id (case le_exec E k i tc of Some r \<Rightarrow> r | None \<Rightarrow> timed_out_result tc)) c e"
proof -
  obtain g1 d where b: "get_poll_backoff (le_guard E) g (tc_name tc) (tc_input tc) = (g1, d)" by fastforce
  define r where "r = (case le_exec E k i tc of Some r \<Rightarrow> r | None \<Rightarrow> timed_out_result tc)"
  obtain g2 w where w: "record_outcome (le_guard E) g1 (tc_name tc) (tc_input tc) (tr_content r) = (g2, w)" by fastforce
  have eq: "g' = g2" "es = (case d of Some d \<Rightarrow> [Slept d] | None \<Rightarrow> []) @ [Executed tc]"
    "\<exists>c e. b = ToolResult (tr_id r) c e"
    using assms unfolding execute_call_def Let_def b r_def [symmetric] prod.case w by auto
  show "config g' = config g" "total_calls g' = total_calls g"
    using backoff_guard [OF b] outcome_guard [OF w] eq(1) by simp_all
  show "executed es = [tc]" "requests es = []" "saves es = []" by (cases d; simp add: eq(2))+
  show "\<exists>c e. b = ToolResult (tr_id (case le_exec E k i tc of Some r \<Rightarrow> r | None \<Rightarrow> timed_out_result tc)) c e"
    using eq(3) by (simp add: r_def)
qed

text \<open>A call is answered by itself, executed or not; only a circuit break leaves no result.\<close>

lemma run_call_facts:
  assumes "run_call E P k i g tc = (g', es, res)"
  shows "config g' = config g" and "total_calls g' = total_calls g + 1"
    and "executed es = [] \<or> executed es = [tc]" and "requests es = []" and "saves es = []"
    and "isl res \<longleftrightarrow> global_circuit_breaker (config g) \<le> total_calls g" and "isl res \<Longrightarrow> es = []"
    and "(\<And>r. le_exec E k i tc = Some r \<Longrightarrow> tr_id r = tc_id tc) \<Longrightarrow> res = Inr b \<Longrightarrow> block_result_id b = Some (tc_id tc) \<and> block_use_id b = None"
proof -
  obtain g1 v where c: "guard_check (le_guard E) g (tc_name tc) (tc_input tc) = (g1, v)" by fastforce
  note cg = check_guard [OF c]
  consider (break) m where "v = CircuitBreak m" "g' = g1" "es = []" "res = Inl m"
    | (refused) m where "\<not> is_circuit_break v" "g' = g1" "es = []" "res = Inr (ToolResult (tc_id tc) m True)"
    | (run) b where "\<not> is_circuit_break v" "execute_call E P k i g1 v tc = (g', es, b)" "res = Inr b"
    using assms c unfolding run_call_def
    by (cases v) (auto split: option.splits prod.splits)
  then have "config g' = config g \<and> total_calls g' = total_calls g + 1 \<and> (executed es = [] \<or> executed es = [tc])
    \<and> requests es = [] \<and> saves es = [] \<and> (isl res \<longleftrightarrow> global_circuit_breaker (config g) \<le> total_calls g) \<and> (isl res \<longrightarrow> es = [])
    \<and> ((\<forall>r. le_exec E k i tc = Some r \<longrightarrow> tr_id r = tc_id tc) \<longrightarrow> (\<forall>b. res = Inr b \<longrightarrow> block_result_id b = Some (tc_id tc) \<and> block_use_id b = None))"
  proof cases
    case break
    then show ?thesis using cg by simp
  next
    case refused
    then show ?thesis using cg by simp
  next
    case run
    obtain c e where b: "b = ToolResult (tr_id (case le_exec E k i tc of Some r \<Rightarrow> r | None \<Rightarrow> timed_out_result tc)) c e"
      using execute_call_facts(6) [OF run(2)] by blast
    show ?thesis using execute_call_facts(1-5) [OF run(2)] cg run(1,3) b
      by (auto simp: timed_out_result_def split: option.splits)
  qed
  then show "config g' = config g" "total_calls g' = total_calls g + 1"
    "executed es = [] \<or> executed es = [tc]" "requests es = []" "saves es = []"
    "isl res \<longleftrightarrow> global_circuit_breaker (config g) \<le> total_calls g" "isl res \<Longrightarrow> es = []"
    "(\<And>r. le_exec E k i tc = Some r \<Longrightarrow> tr_id r = tc_id tc) \<Longrightarrow> res = Inr b \<Longrightarrow> block_result_id b = Some (tc_id tc) \<and> block_use_id b = None"
    by blast+
qed

text \<open>What a batch adds to the executed calls, the guard has counted, up to its global limit.\<close>

lemma run_tools_facts:
  assumes "run_tools E P k i g tcs = (g', es, res)"
  shows "config g' = config g \<and> requests es = [] \<and> saves es = [] \<and> subseq (executed es) tcs
    \<and> length (executed es) + min (total_calls g) (global_circuit_breaker (config g))
        \<le> min (total_calls g') (global_circuit_breaker (config g))"
  using assms
proof (induction tcs arbitrary: i g g' es res)
  case (Cons tc tcs)
  obtain g1 e1 r1 where c: "run_call E P k i g tc = (g1, e1, r1)" by (metis surj_pair)
  note f = run_call_facts(1-7) [OF c]
  show ?case
  proof (cases r1)
    case (Inl m)
    then show ?thesis using f c Cons.prems by auto
  next
    case (Inr b)
    obtain g2 e2 r2 where t: "run_tools E P k (Suc i) g1 tcs = (g2, e2, r2)" by (metis surj_pair)
    have eq: "g' = g2" "es = e1 @ e2" using Cons.prems c t Inr by (auto split: sum.splits)
    have "total_calls g < global_circuit_breaker (config g)" using f(6) Inr by simp
    then show ?thesis using f(1-5) Cons.IH [OF t] eq by (auto simp: list_emb_append_mono)
  qed
qed simp

lemma run_tools_results:
  assumes "run_tools E P k i g tcs = (g', es, Inr bs)"
    and "\<And>j tc r. le_exec E k j tc = Some r \<Longrightarrow> tr_id r = tc_id tc"
  shows "map block_result_id bs = map (\<lambda>tc. Some (tc_id tc)) tcs \<and> list_all (\<lambda>b. block_use_id b = None) bs"
  using assms(1)
proof (induction tcs arbitrary: i g g' es bs)
  case (Cons tc tcs)
  obtain g1 e1 r1 where c: "run_call E P k i g tc = (g1, e1, r1)" by (metis surj_pair)
  obtain b where r1: "r1 = Inr b" using Cons.prems c by (cases r1) auto
  obtain g2 e2 bs' where t: "run_tools E P k (Suc i) g1 tcs = (g2, e2, Inr bs')" and bs: "bs = b # bs'"
    using Cons.prems c r1 by (auto split: prod.splits sum.splits)
  from run_call_facts(8) [OF c assms(2) r1] Cons.IH [OF t] show ?case by (simp add: bs)
qed simp

lemma results_of_ids:
  "map block_result_id bs = map (\<lambda>tc. Some (tc_id tc)) tcs \<Longrightarrow> result_ids bs = map tc_id tcs"
proof (induction bs arbitrary: tcs)
  case (Cons b bs)
  then show ?case by (cases tcs) auto
qed simp

lemma no_uses: "list_all (\<lambda>b. block_use_id b = None) bs \<Longrightarrow> use_ids bs = []"
  by (induction bs) auto

text \<open>The shape of a step that executes tools.\<close>

definition batch_state :: "completion_response \<Rightarrow> loop_guard \<Rightarrow> loop_event list \<Rightarrow> loop_state \<Rightarrow> loop_state" where
  "batch_state r g es s =
     (let m = \<lparr> msg_role = Assistant, msg_content = Blocks (cr_content r) \<rparr>
      in log_events es ((add_message m (add_history m (s\<lparr> ls_conts := 0 \<rparr>)))\<lparr> ls_guard := g \<rparr>))"

definition answered_state :: "content_block list \<Rightarrow> loop_state \<Rightarrow> loop_state" where
  "answered_state bs s =
     (let m = \<lparr> msg_role = User, msg_content = Blocks bs \<rparr> in add_message m (add_history m s))"

lemma batch_sel [simp]:
  "ls_trace (batch_state r g es s) = ls_trace s @ es" "ls_guard (batch_state r g es s) = g"
  "ls_history (batch_state r g es s) = ls_history s @ [\<lparr> msg_role = Assistant, msg_content = Blocks (cr_content r) \<rparr>]"
  "ls_messages (batch_state r g es s) = ls_messages s @ [\<lparr> msg_role = Assistant, msg_content = Blocks (cr_content r) \<rparr>]"
  "ls_trace (answered_state bs s) = ls_trace s" "ls_guard (answered_state bs s) = ls_guard s"
  "ls_history (answered_state bs s) = ls_history s @ [\<lparr> msg_role = User, msg_content = Blocks bs \<rparr>]"
  "ls_messages (answered_state bs s) = ls_messages s @ [\<lparr> msg_role = User, msg_content = Blocks bs \<rparr>]"
  by (simp_all add: batch_state_def answered_state_def Let_def add_history_def add_message_def log_events_def)

lemma tool_use_cases:
  assumes "run_tools E P k 0 (ls_guard s) (cr_tool_calls r) = (g, es, res)"
  shows "tool_use_step E P k r s =
    (case res of Inl msg \<Rightarrow> Finish (save_session E k (batch_state r g es s)) (Inl (Internal msg))
     | Inr bs \<Rightarrow> Continue (save_session E k (answered_state bs (batch_state r g es s))))"
  using assms by (simp add: tool_use_step_def Let_def batch_state_def answered_state_def split: sum.split)

section \<open>What a step leaves alone\<close>

lemma end_turn_frame:
  "requests (ls_trace (step_state (end_turn_step E P k r s))) = requests (ls_trace s)"
  "executed (ls_trace (step_state (end_turn_step E P k r s))) = executed (ls_trace s)"
  "ls_guard (step_state (end_turn_step E P k r s)) = ls_guard s"
  by (simp_all add: end_turn_step_def Let_def split: prod.split option.split)

lemma max_tokens_frame:
  "requests (ls_trace (step_state (max_tokens_step E k r s))) = requests (ls_trace s)"
  "executed (ls_trace (step_state (max_tokens_step E k r s))) = executed (ls_trace s)"
  "ls_guard (step_state (max_tokens_step E k r s)) = ls_guard s"
  by (simp_all add: max_tokens_step_def Let_def)

definition within_limit :: "nat \<Rightarrow> loop_state \<Rightarrow> bool" where
  "within_limit G s \<longleftrightarrow> global_circuit_breaker (config (ls_guard s)) = G
     \<and> length (executed (ls_trace s)) \<le> min (total_calls (ls_guard s)) G"

lemma tool_use_frame:
  "requests (ls_trace (step_state (tool_use_step E P k r s))) = requests (ls_trace s)"
  "within_limit G s \<Longrightarrow> within_limit G (step_state (tool_use_step E P k r s))"
proof -
  obtain g es res where t: "run_tools E P k 0 (ls_guard s) (cr_tool_calls r) = (g, es, res)" by (metis surj_pair)
  note f = run_tools_facts [OF t]
  show "requests (ls_trace (step_state (tool_use_step E P k r s))) = requests (ls_trace s)"
    using f by (cases res; simp add: tool_use_cases [OF t])
  show "within_limit G s \<Longrightarrow> within_limit G (step_state (tool_use_step E P k r s))"
    using f by (cases res; auto simp: within_limit_def tool_use_cases [OF t])
qed

lemma within_usage [simp]: "within_limit G (s\<lparr> ls_usage := u \<rparr>) = within_limit G s"
  by (simp add: within_limit_def)

lemma handle_frame:
  "requests (ls_trace (step_state (handle_response E P k r s))) = requests (ls_trace s)"
  "within_limit G s \<Longrightarrow> within_limit G (step_state (handle_response E P k r s))"
proof -
  show "requests (ls_trace (step_state (handle_response E P k r s))) = requests (ls_trace s)"
    by (simp add: handle_response_def Let_def end_turn_frame max_tokens_frame tool_use_frame split: stop_reason.split)
  have "within_limit G s \<Longrightarrow> within_limit G (step_state (end_turn_step E P k r s))"
    "within_limit G s \<Longrightarrow> within_limit G (step_state (max_tokens_step E k r s))" for r s
    by (simp_all add: within_limit_def end_turn_frame max_tokens_frame)
  then show "within_limit G s \<Longrightarrow> within_limit G (step_state (handle_response E P k r s))"
    using tool_use_frame(2) by (simp add: handle_response_def Let_def split: stop_reason.split)
qed

text \<open>An iteration is a request and, if the call succeeds, the handling of the response.\<close>

lemma iteration_cases:
  obtains (failed) s1 e ds where "iteration_step E P k s = Finish s1 (Inl e)"
      "ls_trace s1 = ls_trace s @ Requested (snd (request_messages E P (ls_messages s))) (fst (request_messages E P (ls_messages s))) # map Slept ds"
      "ls_history s1 = ls_history s" "ls_guard s1 = ls_guard s"
      "\<exists>cd ds'. call_with_retry (le_call E k) (lp_provider P) (le_now E k) (ls_breaker s) = (cd, ds', Inl e)"
  | (answered) s1 r ds where "iteration_step E P k s = handle_response E P k r s1"
      "ls_trace s1 = ls_trace s @ Requested (snd (request_messages E P (ls_messages s))) (fst (request_messages E P (ls_messages s))) # map Slept ds"
      "ls_history s1 = ls_history s" "ls_guard s1 = ls_guard s"
      "ls_messages s1 = fst (request_messages E P (ls_messages s))" "ls_usage s1 = ls_usage s"
      "\<exists>cd ds'. call_with_retry (le_call E k) (lp_provider P) (le_now E k) (ls_breaker s) = (cd, ds', Inr r)"
proof -
  obtain ms st where q: "request_messages E P (ls_messages s) = (ms, st)" by fastforce
  obtain cd ds res where c: "call_with_retry (le_call E k) (lp_provider P) (le_now E k) (ls_breaker s) = (cd, ds, res)"
    by (metis surj_pair)
  let ?s1 = "log_events (Requested st ms # map Slept ds) (s\<lparr> ls_messages := ms, ls_breaker := cd \<rparr>)"
  have i: "iteration_step E P k s = (case res of Inl e \<Rightarrow> Finish ?s1 (Inl e) | Inr r \<Rightarrow> handle_response E P k r ?s1)"
    by (simp add: iteration_step_def q c Let_def)
  show thesis
  proof (cases res)
    case (Inl e)
    show thesis by (rule failed [of ?s1 e ds]) (use i q c Inl in auto)
  next
    case (Inr r)
    show thesis by (rule answered [of r ?s1 ds]) (use i q c Inr in auto)
  qed
qed

lemma run_loop_rule:
  assumes "run_loop E P k s = (s', res)" and "I k s"
    and "\<And>k s s1. k < lp_max_iterations P \<Longrightarrow> I k s \<Longrightarrow> iteration_step E P k s = Continue s1 \<Longrightarrow> I (Suc k) s1"
    and "\<And>k s s1 r. k < lp_max_iterations P \<Longrightarrow> I k s \<Longrightarrow> iteration_step E P k s = Finish s1 r \<Longrightarrow> Q s1 r"
    and "\<And>k s. lp_max_iterations P \<le> k \<Longrightarrow> I k s \<Longrightarrow> Q (save_session E k s) (Inl (MaxIterationsExceeded (lp_max_iterations P)))"
  shows "Q s' res"
  using assms
proof (induction E P k s rule: run_loop.induct)
  case (1 E P k s)
  show ?case
  proof (cases "lp_max_iterations P \<le> k")
    case True
    then show ?thesis using "1.prems"(1) "1.prems"(5) [OF True "1.prems"(2)] by (auto simp: run_loop.simps [of E P k s])
  next
    case False
    show ?thesis
    proof (cases "iteration_step E P k s")
      case (Continue s1)
      have "run_loop E P (Suc k) s1 = (s', res)" using "1.prems"(1) False Continue by (simp add: run_loop.simps [of E P k s])
      moreover have "I (Suc k) s1" using "1.prems"(2,3) False Continue by simp
      ultimately show ?thesis using "1.IH" [OF False Continue] "1.prems"(3-5) by blast
    next
      case (Finish s1 r)
      then show ?thesis using "1.prems"(1) "1.prems"(4) [OF _ "1.prems"(2) Finish] False
        by (auto simp: run_loop.simps [of E P k s])
    qed
  qed
qed

section \<open>Bounds of a turn\<close>

text \<open>A request for every iteration; an answer says in which iteration it came.\<close>

definition within_requests :: "nat \<Rightarrow> loop_state \<Rightarrow> rh_error + loop_result \<Rightarrow> bool" where
  "within_requests n s res \<longleftrightarrow>
     length (requests (ls_trace s)) \<le> n \<and>
     (case res of Inr r \<Rightarrow> lr_iterations r = length (requests (ls_trace s))
      | Inl (MaxIterationsExceeded m) \<Rightarrow> m = n \<and> length (requests (ls_trace s)) = n
      | Inl e \<Rightarrow> True)"

lemma finish_iterations:
  assumes "handle_response E P k r s = Finish s1 res"
  shows "(\<exists>x. res = Inr x \<and> lr_iterations x = k + 1) \<or> (\<exists>e. res = Inl (Memory_error e)) \<or> (\<exists>e. res = Inl (Internal e))"
  using assms
  by (auto simp: handle_response_def Let_def end_turn_step_def max_tokens_step_def tool_use_step_def
      split: stop_reason.splits prod.splits option.splits sum.splits if_splits)

lemma call_error:
  assumes "call_with_retry E p now cd = (cd', ds, Inl e)"
  shows "\<exists>m. e = LlmDriver m"
proof (cases "\<exists>reason secs. cb_check cd p now = Reject reason secs")
  case True
  then show ?thesis using assms by (auto simp: call_with_retry_def)
next
  case False
  then have "attempt_loop E p 0 None cd = (cd', ds, Inl e)"
    using assms by (auto simp: call_with_retry_def split: cooldown_verdict.splits)
  from attempt_loop_outcome [OF _ this] show ?thesis by auto
qed

lemma call_answer:
  assumes "call_with_retry E p now cd = (cd', ds, Inr r)"
  shows "\<exists>a. ce_complete E a = Inr r"
proof (cases "\<exists>reason secs. cb_check cd p now = Reject reason secs")
  case True
  then show ?thesis using assms by (auto simp: call_with_retry_def)
next
  case False
  then have "attempt_loop E p 0 None cd = (cd', ds, Inr r)"
    using assms by (auto simp: call_with_retry_def split: cooldown_verdict.splits)
  from attempt_loop_outcome [OF _ this] show ?thesis by auto
qed

text \<open>
  C6: A turn always ends, after at most \<open>max_iterations\<close> requests to the model: an answer reports
  exactly the number of requests made, and the error that the limit is exceeded comes when
  exactly that many were made.
\<close>

theorem turn_bounded:
  "case run_agent_loop E P cd history label of (s, res) \<Rightarrow> within_requests (lp_max_iterations P) s res"
proof -
  obtain s res where r: "run_agent_loop E P cd history label = (s, res)" by fastforce
  have "within_requests (lp_max_iterations P) s res"
  proof (rule run_loop_rule [OF r [unfolded run_agent_loop_def],
        where I = "\<lambda>k s. length (requests (ls_trace s)) = k \<and> k \<le> lp_max_iterations P"])
    show "length (requests (ls_trace (start_loop P cd history label))) = 0 \<and> 0 \<le> lp_max_iterations P"
      by (simp add: start_loop_def Let_def)
  next
    fix k s s1
    assume k: "k < lp_max_iterations P" and I: "length (requests (ls_trace s)) = k \<and> k \<le> lp_max_iterations P"
      and c: "iteration_step E P k s = Continue s1"
    show "length (requests (ls_trace s1)) = Suc k \<and> Suc k \<le> lp_max_iterations P"
    proof (cases rule: iteration_cases [of E P k s])
      case (answered s2 r ds)
      then have "handle_response E P k r s2 = Continue s1" using c by simp
      then have "s1 = step_state (handle_response E P k r s2)" by simp
      then show ?thesis using answered(2) I k by (simp add: handle_frame(1))
    qed (use c in simp)
  next
    fix k s s1 res
    assume k: "k < lp_max_iterations P" and I: "length (requests (ls_trace s)) = k \<and> k \<le> lp_max_iterations P"
      and c: "iteration_step E P k s = Finish s1 res"
    show "within_requests (lp_max_iterations P) s1 res"
    proof (cases rule: iteration_cases [of E P k s])
      case (failed s2 e ds)
      moreover obtain m where "e = LlmDriver m" using failed(5) call_error by blast
      ultimately show ?thesis using c I k by (simp add: within_requests_def)
    next
      case (answered s2 r ds)
      then have h: "handle_response E P k r s2 = Finish s1 res" using c by simp
      then have "s1 = step_state (handle_response E P k r s2)" by simp
      then have "length (requests (ls_trace s1)) = Suc k" using answered(2) I by (simp add: handle_frame(1))
      then show ?thesis using finish_iterations [OF h] k by (auto simp: within_requests_def)
    qed
  next
    fix k and s :: loop_state
    assume "lp_max_iterations P \<le> k" "length (requests (ls_trace s)) = k \<and> k \<le> lp_max_iterations P"
    then show "within_requests (lp_max_iterations P) (save_session E k s) (Inl (MaxIterationsExceeded (lp_max_iterations P)))"
      by (simp add: within_requests_def)
  qed
  then show ?thesis by (simp add: r)
qed

text \<open>
  C17: However many tool calls the model asks for, a turn executes at most as many tools as the
  global limit of its loop guard: thirty, or three times the iterations of a longer turn.
\<close>

theorem executions_bounded:
  "length (executed (ls_trace (fst (run_agent_loop E P cd history label))))
     \<le> (if lp_max_iterations P \<le> 30 then 30 else lp_max_iterations P * 3 mod 2 ^ 32)"
proof -
  let ?G = "global_circuit_breaker (loop_guard_for (lp_max_iterations P))"
  obtain s res where r: "run_agent_loop E P cd history label = (s, res)" by fastforce
  have step: "within_limit ?G (step_state (iteration_step E P k s))" if "within_limit ?G s" for k s
  proof (cases rule: iteration_cases [of E P k s])
    case (failed s1 e ds)
    then show ?thesis using that by (simp add: within_limit_def)
  next
    case (answered s1 r ds)
    have "within_limit ?G s1" using that answered(2,4) by (simp add: within_limit_def)
    then show ?thesis using answered(1) handle_frame(2) by simp
  qed
  have "within_limit ?G s"
  proof (rule run_loop_rule [OF r [unfolded run_agent_loop_def], where I = "\<lambda>k s. within_limit ?G s"])
    show "within_limit ?G (start_loop P cd history label)"
      by (simp add: within_limit_def start_loop_def Let_def new_guard_def)
    show "within_limit ?G s1" if "within_limit ?G s" "iteration_step E P k s = Continue s1" for k s s1
      using step [OF that(1), of k] that(2) by simp
    show "within_limit ?G s1" if "within_limit ?G s" "iteration_step E P k s = Finish s1 r" for k s s1 r
      using step [OF that(1), of k] that(2) by simp
    show "within_limit ?G (save_session E k s)" if "within_limit ?G s" for k s
      using that by (simp add: within_limit_def)
  qed
  moreover have "?G = (if lp_max_iterations P \<le> 30 then 30 else lp_max_iterations P * 3 mod 2 ^ 32)"
    by (simp add: loop_guard_for_def Let_def default_guard_config_def)
  ultimately show ?thesis by (simp add: r within_limit_def)
qed

end
