(* ===== verification/Agent_Loop_Requests.thy ===== *)
theory Agent_Loop_Requests
  imports Agent_Loop_Theorems
begin

text \<open>
  The conversation of a turn: that every request pairs tool uses with results, what a batch
  answers, what is returned and what is stored, and the tool calls recovered from text.
\<close>

section \<open>Paired requests\<close>

definition paired_ids :: "message list \<Rightarrow> bool" where
  "paired_ids ms \<longleftrightarrow> set (asst_ids ms) \<subseteq> set (all_result_ids ms) \<and> set (all_result_ids ms) \<subseteq> set (all_use_ids ms)"

lemma same_frame_ids:
  "list_all2 (\<lambda>b b'. on_result (\<lambda>_. []) b = on_result (\<lambda>_. []) b') bs bs' \<Longrightarrow>
     use_ids bs = use_ids bs' \<and> result_ids bs = result_ids bs'"
proof (induction rule: list_all2_induct)
  case (Cons b bs b' bs')
  then show ?case by (cases b; cases b') simp_all
qed simp

lemma same_shape_ids:
  "same_shape ms ms' \<Longrightarrow> asst_ids ms = asst_ids ms' \<and> all_result_ids ms = all_result_ids ms' \<and> all_use_ids ms = all_use_ids ms'"
  unfolding same_shape_def
proof (induction rule: list_all2_induct)
  case (Cons m ms m' ms')
  then have "message_uses m = message_uses m'" "message_results m = message_results m'"
    using same_frame_ids by (simp_all add: message_uses_def message_results_def)
  then show ?case using Cons by simp
qed simp

lemma thread_shape: "thread_messages f s ms = (ms', s') \<Longrightarrow> same_shape ms ms'"
  using thread_messages_list [of f s ms] by simp

lemma guard_shape: "same_shape ms (fst (apply_context_guard b ms))"
proof -
  have "same_shape ms ms" unfolding same_shape_def by (rule list_all2_refl) (simp add: list_all2_refl)
  then show ?thesis
    by (auto simp: apply_context_guard_def Let_def split: prod.split dest!: thread_shape intro: same_shape_trans)
qed

lemma no_recovery_same:
  assumes "recover_from_overflow schema sp tools w ms = (ms', No_recovery)"
  shows "ms' = ms"
proof -
  have "snd (recover_aggressive est t us) \<noteq> No_recovery" for est t us
    using recover_aggressive_outcome [of est t us "fst (recover_aggressive est t us)" "snd (recover_aggressive est t us)"] by auto
  then have "recover_aggressive est t us \<noteq> (ms', No_recovery)" for est t us by (metis snd_conv)
  then show ?thesis using assms by (auto simp: recover_from_overflow_def Let_def split: if_splits)
qed

lemma request_paired:
  assumes "paired_ids ms" and "snd (request_messages E P ms) = No_recovery"
  shows "paired_ids (fst (request_messages E P ms))"
proof -
  obtain us st where q: "recover_from_overflow (le_schema E) (lp_system P) (lp_tools P) (lp_window P) ms = (us, st)" by fastforce
  then have "us = ms" using assms(2) no_recovery_same by (auto simp: request_messages_def)
  then show ?thesis using assms(1) same_shape_ids [OF guard_shape [of ms]] by (simp add: request_messages_def q paired_ids_def)
qed

lemma text_message_ids [simp]:
  "message_uses (user_message t) = []" "message_uses (assistant_message t) = []"
  "message_results (user_message t) = []" "message_results (assistant_message t) = []"
  by (simp_all add: message_uses_def message_results_def inner_blocks_def user_message_def assistant_message_def)

lemma block_message_ids [simp]:
  "message_uses \<lparr> msg_role = q, msg_content = Blocks bs \<rparr> = use_ids bs"
  "message_results \<lparr> msg_role = q, msg_content = Blocks bs \<rparr> = result_ids bs"
  by (simp_all add: message_uses_def message_results_def inner_blocks_def)

lemma prepared_paired: "paired_ids (prepare_messages history)"
proof -
  have "paired_ids (validate_and_repair ms)" for ms
    using repaired_facts [of ms] phases_2_facts [of ms] asst_subset_uses [of ms] by (auto simp: paired_ids_def)
  then show ?thesis by (simp add: prepare_messages_def Let_def)
qed

text \<open>What is asked of a driver and of the tools: calls and uses agree, and a result names its call.\<close>

definition response_ok :: "completion_response \<Rightarrow> bool" where
  "response_ok r \<longleftrightarrow> use_ids (cr_content r) = map tc_id (cr_tool_calls r) \<and> result_ids (cr_content r) = []"

lemma promoted_ok: "response_ok r \<Longrightarrow> response_ok (promote_text_calls E P k r)"
proof -
  have "use_ids (map (\<lambda>tc. ToolUse (tc_id tc) (tc_name tc) (tc_input tc)) tcs) = map tc_id tcs"
    "result_ids (map (\<lambda>tc. ToolUse (tc_id tc) (tc_name tc) (tc_input tc)) tcs) = []" for tcs :: "tool_call list"
    by (induction tcs) simp_all
  then show "response_ok r \<Longrightarrow> ?thesis" by (simp add: promote_text_calls_def Let_def response_ok_def)
qed

lemma handle_paired:
  assumes "handle_response E P k r s = Continue s1" and "response_ok r" and "paired_ids (ls_messages s)"
    and "\<And>j tc x. le_exec E k j tc = Some x \<Longrightarrow> tr_id x = tc_id tc"
  shows "paired_ids (ls_messages s1)"
proof -
  let ?s = "s\<lparr> ls_usage := add_usage (ls_usage s) (cr_usage r) \<rparr>" and ?r = "promote_text_calls E P k r"
  have p: "paired_ids (ls_messages ?s)" using assms(3) by simp
  consider "tool_use_step E P k ?r ?s = Continue s1" | "max_tokens_step E k ?r ?s = Continue s1"
    | "end_turn_step E P k ?r ?s = Continue s1"
    using assms(1) by (auto simp: handle_response_def Let_def split: stop_reason.splits)
  then show ?thesis
  proof cases
    case 1
    obtain g es res where t: "run_tools E P k 0 (ls_guard ?s) (cr_tool_calls ?r) = (g, es, res)" by (metis surj_pair)
    from 1 obtain bs where bs: "res = Inr bs" "s1 = save_session E k (answered_state bs (batch_state ?r g es ?s))"
      unfolding tool_use_cases [OF t] by (cases res) auto
    have "map block_result_id bs = map (\<lambda>tc. Some (tc_id tc)) (cr_tool_calls ?r) \<and> list_all (\<lambda>b. block_use_id b = None) bs"
      by (rule run_tools_results [OF t [unfolded bs(1)] assms(4)])
    then have "result_ids bs = map tc_id (cr_tool_calls ?r)" "use_ids bs = []"
      using results_of_ids no_uses by blast+
    then show ?thesis using promoted_ok [OF assms(2), of E P k] p by (auto simp: bs(2) paired_ids_def response_ok_def)
  next
    case 2
    then show ?thesis using p by (auto simp: max_tokens_step_def Let_def paired_ids_def split: if_splits)
  next
    case 3
    then show ?thesis using p
      by (auto simp: end_turn_step_def Let_def paired_ids_def split: if_splits prod.splits option.splits)
  qed
qed

text \<open>The requests of a turn before the first one that needed overflow recovery.\<close>

definition before_recovery :: "loop_state \<Rightarrow> (recovery_stage \<times> message list) list" where
  "before_recovery s = takeWhile (\<lambda>q. fst q = No_recovery) (requests (ls_trace s))"

definition never_recovered :: "loop_state \<Rightarrow> bool" where
  "never_recovered s \<longleftrightarrow> before_recovery s = requests (ls_trace s)"

lemma before_recovery_snoc:
  assumes "requests (ls_trace s1) = requests (ls_trace s) @ [q]"
  shows "before_recovery s1 = before_recovery s @ (if never_recovered s \<and> fst q = No_recovery then [q] else [])"
    "never_recovered s1 \<longleftrightarrow> never_recovered s \<and> fst q = No_recovery"
proof -
  have a: "never_recovered s \<longleftrightarrow> (\<forall>x \<in> set (requests (ls_trace s)). fst x = No_recovery)"
    unfolding never_recovered_def before_recovery_def by (rule takeWhile_eq_all_conv)
  show b: "before_recovery s1 = before_recovery s @ (if never_recovered s \<and> fst q = No_recovery then [q] else [])"
  proof (cases "never_recovered s")
    case True
    then have "before_recovery s1 = requests (ls_trace s) @ takeWhile (\<lambda>q. fst q = No_recovery) [q]"
      unfolding before_recovery_def assms by (subst takeWhile_append2) (auto simp: a)
    then show ?thesis using True by (simp add: never_recovered_def)
  next
    case False
    then obtain x where "x \<in> set (requests (ls_trace s))" "fst x \<noteq> No_recovery" by (auto simp: a)
    then have "before_recovery s1 = before_recovery s" unfolding before_recovery_def assms by (rule takeWhile_append1)
    then show ?thesis using False by simp
  qed
  have "length (before_recovery s) \<le> length (requests (ls_trace s))"
    unfolding before_recovery_def by (rule length_takeWhile_le)
  then show "never_recovered s1 \<longleftrightarrow> never_recovered s \<and> fst q = No_recovery"
    unfolding never_recovered_def [of s1] b assms by (auto simp: never_recovered_def)
qed

lemma iteration_requests:
  "requests (ls_trace (step_state (iteration_step E P k s))) = requests (ls_trace s)
     @ [(snd (request_messages E P (ls_messages s)), fst (request_messages E P (ls_messages s)))]"
  by (cases rule: iteration_cases [of E P k s]) (simp_all add: handle_frame(1))

text \<open>One iteration keeps the messages paired while no request was recovered, and asks a paired request.\<close>

lemma iteration_paired:
  assumes ex: "\<And>k j tc x. le_exec E k j tc = Some x \<Longrightarrow> tr_id x = tc_id tc"
    and ok: "\<And>k a r. ce_complete (le_call E k) a = Inr r \<Longrightarrow> response_ok r"
    and I: "never_recovered s \<longrightarrow> paired_ids (ls_messages s)" "list_all (\<lambda>q. paired_ids (snd q)) (before_recovery s)"
  shows "list_all (\<lambda>q. paired_ids (snd q)) (before_recovery (step_state (iteration_step E P k s)))"
    and "iteration_step E P k s = Continue s1 \<Longrightarrow> never_recovered s1 \<longrightarrow> paired_ids (ls_messages s1)"
proof -
  let ?q = "request_messages E P (ls_messages s)"
  note r = before_recovery_snoc [OF iteration_requests, of E P k s]
  have p: "paired_ids (fst ?q)" if "never_recovered s" "snd ?q = No_recovery" using request_paired I(1) that by blast
  then show "list_all (\<lambda>q. paired_ids (snd q)) (before_recovery (step_state (iteration_step E P k s)))"
    using I(2) by (simp add: r(1))
  assume c: "iteration_step E P k s = Continue s1"
  show "never_recovered s1 \<longrightarrow> paired_ids (ls_messages s1)"
  proof (cases rule: iteration_cases [of E P k s])
    case (answered s2 r2 ds)
    have o: "response_ok r2" using ok answered(7) call_answer by fastforce
    have "paired_ids (ls_messages s1)" if n: "never_recovered s1"
    proof (rule handle_paired [OF _ o _ ex])
      show "handle_response E P k r2 s2 = Continue s1" using c answered(1) by simp
      show "paired_ids (ls_messages s2)" using p r(2) n c answered(5) by simp
    qed
    then show ?thesis by blast
  qed (use c in simp)
qed


section \<open>A concrete turn\<close>

lemma single_iteration:
  assumes "lp_max_iterations P = 1"
  shows "requests (ls_trace (fst (run_loop E P 0 s))) = requests (ls_trace s)
     @ [(snd (request_messages E P (ls_messages s)), fst (request_messages E P (ls_messages s)))]"
  using iteration_requests [of E P 0 s] assms
  by (cases "iteration_step E P 0 s") (simp_all add: run_loop.simps)

text \<open>A model that asks for a tool, a tool that answers, a history whose tool use has no result.\<close>

definition demo_response :: completion_response where
  "demo_response = \<lparr> cr_content = [ToolUse ''t'' ''ls'' JNull], cr_stop = StopToolUse,
     cr_tool_calls = [\<lparr> tc_id = ''t'', tc_name = ''ls'', tc_input = JNull \<rparr>],
     cr_usage = \<lparr> input_tokens = 10, output_tokens = 5 \<rparr> \<rparr>"

definition demo_loop_env :: loop_env where
  "demo_loop_env = \<lparr>
     le_call = (\<lambda>k. \<lparr> ce_complete = (\<lambda>a. Inr demo_response), ce_jitter = (\<lambda>a b. 0), ce_clock = (\<lambda>a. 0), ce_lower = map ascii_lower \<rparr>),
     le_now = (\<lambda>k. 0),
     le_exec = (\<lambda>k j tc. Some \<lparr> tr_id = tc_id tc, tr_content = ''ok'', tr_is_error = False \<rparr>),
     le_hook = (\<lambda>k j tc. None), le_save = (\<lambda>k. None), le_fresh = (\<lambda>k j. nat_str k @ ''.'' @ nat_str j),
     le_json = (\<lambda>s. None), le_schema = (\<lambda>j. None),
     le_guard = \<lparr> sha256_hex = (\<lambda>s. s), json_text = (\<lambda>j. ''null''), lowercase = map ascii_lower \<rparr>,
     le_alnum = (\<lambda>c. False), le_label_ok = True \<rparr>"

definition demo_params :: loop_params where
  "demo_params = \<lparr> lp_provider = ''p'', lp_system = [], lp_tools = [], lp_user = ''go'', lp_window = 100000, lp_max_iterations = 1 \<rparr>"

definition cut_history :: "message list" where
  "cut_history = [\<lparr> msg_role = Assistant, msg_content = Blocks [ToolUse ''a'' ''ls'' JNull] \<rparr>]"

definition weight :: "message list \<Rightarrow> nat" where
  "weight ms = sum_list (map (\<lambda>m. text_length (msg_content m) + 16) ms)"

lemma demo_weight: "weight (prepare_messages (cut_history @ [user_message ''go''])) \<le> 200"
  by code_simp

lemma demo_no_recovery: "snd (request_messages demo_loop_env demo_params (prepare_messages (cut_history @ [user_message ''go'']))) = No_recovery"
proof -
  have "estimate_token_count (le_schema demo_loop_env) ms (Some []) (Some []) = weight ms div 4" for ms
    by (simp add: estimate_token_count_def weight_def)
  moreover have "f64_scale f64_070 53 100000 = 70000" by (simp add: f64_eval)
  moreover have "weight (prepare_messages (cut_history @ [user_message ''go''])) div 4 \<le> 70000" using demo_weight by linarith
  ultimately show ?thesis
    by (simp add: request_messages_def recover_from_overflow_def Let_def demo_params_def)
qed


end
