(* ===== verification/Agent_Loop_Outcomes.thy ===== *)
theory Agent_Loop_Outcomes
  imports Agent_Loop_Requests
begin

text \<open>
  What a turn returns and what it stores: the answer and the session, a batch that a circuit break
  ends, a call that fails, an answer in parts, and the tool calls recovered from text.
\<close>

section \<open>The answer\<close>

lemma length_remove_at: "i < length xs \<Longrightarrow> length (remove_at i xs) = length xs - 1"
  by (simp add: remove_at_def)

lemma remove_at_append: "i < length xs \<Longrightarrow> remove_at i (xs @ ys) = remove_at i xs @ ys"
  by (simp add: remove_at_def)

text \<open>Removing at increasing positions from the right stays within the part that has them.\<close>

lemma remove_ascending:
  "sorted is \<Longrightarrow> distinct is \<Longrightarrow> \<forall>i \<in> set is. i < length xs \<Longrightarrow>
     foldr remove_at is (xs @ ys) = foldr remove_at is xs @ ys \<and> length (foldr remove_at is xs) = length xs - length is"
proof (induction "is")
  case (Cons i "is")
  have "set (i # is) \<subseteq> {i..<length xs}" using Cons.prems(1,3) by auto
  then have "card (set (i # is)) \<le> card {i..<length xs}" by (intro card_mono) simp_all
  then have "length (i # is) \<le> length xs - i" using distinct_card [OF Cons.prems(2)] by simp
  then have "i < length xs - length is" by simp
  then show ?case using Cons by (simp add: remove_at_append length_remove_at)
qed simp

lemma prune_keeps_recent:
  assumes "n < length ms"
  obtains p where "prune_heartbeat_turns ms n = p @ drop (length ms - n) ms"
proof -
  let ?k = "length ms - n" and ?is = "remdups (sort (heartbeat_indices ms (length ms - n)))"
  have "\<forall>i \<in> set ?is. i < length (take ?k ms)"
    by (auto simp: heartbeat_indices_def split: if_splits)
  moreover have "sorted ?is" "distinct ?is" by simp_all
  ultimately have "foldr remove_at ?is (take ?k ms @ drop ?k ms) = foldr remove_at ?is (take ?k ms) @ drop ?k ms"
    using remove_ascending by blast
  then show thesis using that assms by (simp add: prune_heartbeat_turns_def)
qed

lemma prune_last: "ms \<noteq> [] \<Longrightarrow> 0 < n \<Longrightarrow> last (prune_heartbeat_turns ms n) = last ms"
proof (cases "n < length ms")
  case True
  moreover assume "ms \<noteq> []" "0 < n"
  moreover obtain p where "prune_heartbeat_turns ms n = p @ drop (length ms - n) ms"
    using prune_keeps_recent [OF True] by blast
  ultimately show ?thesis by (simp add: last_drop)
qed (simp add: prune_heartbeat_turns_def)

definition answer_ok :: "loop_state \<Rightarrow> loop_result \<Rightarrow> bool" where
  "answer_ok s r \<longleftrightarrow>
     (if lr_silent r then lr_response r = [] \<and> last (ls_history s) = assistant_message no_reply_text
      else trim (lr_response r) \<noteq> [] \<and> last (ls_history s) = assistant_message (lr_response r))"

lemma notice_not_blank: "trim task_completed_text \<noteq> []" "trim empty_answer_text \<noteq> []" "trim partial_answer_text \<noteq> []"
  by code_simp+

lemma end_turn_answer:
  assumes "end_turn_step E P k r s = Finish s' (Inr x)"
  shows "answer_ok s' x"
proof -
  have prune: "last (prune_heartbeat_turns (h @ [m]) 10) = m" for h and m :: message by (simp add: prune_last)
  show ?thesis using assms unfolding end_turn_step_def Let_def answer_ok_def
    by (auto simp: prune notice_not_blank split: prod.splits if_splits option.splits)
qed

lemma handle_answer:
  assumes "handle_response E P k r s = Finish s' (Inr x)"
  shows "answer_ok s' x"
proof -
  let ?s = "s\<lparr> ls_usage := add_usage (ls_usage s) (cr_usage r) \<rparr>" and ?r = "promote_text_calls E P k r"
  consider "tool_use_step E P k ?r ?s = Finish s' (Inr x)" | "max_tokens_step E k ?r ?s = Finish s' (Inr x)"
    | "end_turn_step E P k ?r ?s = Finish s' (Inr x)"
    using assms by (auto simp: handle_response_def Let_def split: stop_reason.splits)
  then show ?thesis
  proof cases
    case 1
    then show ?thesis by (auto simp: tool_use_step_def Let_def split: prod.splits sum.splits)
  next
    case 2
    then show ?thesis by (auto simp: max_tokens_step_def Let_def answer_ok_def notice_not_blank split: if_splits)
  next
    case 3
    then show ?thesis by (rule end_turn_answer)
  qed
qed

text \<open>What holds of every handling that ends with an answer holds of a turn that does.\<close>

lemma loop_finishes:
  assumes "run_agent_loop E P cd h label = (s, Inr x)"
    and "\<And>k r s1 s2. handle_response E P k r s1 = Finish s2 (Inr x) \<Longrightarrow> Q s2"
  shows "Q s"
proof -
  have "case (Inr x :: rh_error + loop_result) of Inr y \<Rightarrow> y = x \<longrightarrow> Q s | Inl e \<Rightarrow> True"
  proof (rule run_loop_rule [OF assms(1) [unfolded run_agent_loop_def], where I = "\<lambda>k s. True"
        and Q = "\<lambda>s r. case r of Inr y \<Rightarrow> y = x \<longrightarrow> Q s | Inl e \<Rightarrow> True"])
    fix k s s1 res
    assume c: "iteration_step E P k s = Finish s1 res"
    show "case res of Inr y \<Rightarrow> y = x \<longrightarrow> Q s1 | Inl e \<Rightarrow> True"
    proof (cases rule: iteration_cases [of E P k s])
      case (failed s2 e ds)
      then show ?thesis using c by simp
    next
      case (answered s2 r ds)
      have "handle_response E P k r s2 = Finish s1 res" using c answered(1) by simp
      then show ?thesis using assms(2) [of k r s2 s1] by (cases res) auto
    qed
  qed simp_all
  then show ?thesis by simp
qed

text \<open>
  C18: A turn that returns an answer either is silent, with an empty response and a marker in the
  session, or its response is not blank and is the last message of the session, even where the
  model's text was blank or old heartbeat turns were pruned.
\<close>

theorem answer_recorded:
  "case run_agent_loop E P cd history label of
     (s, Inr r) \<Rightarrow>
       (if lr_silent r then lr_response r = [] \<and> last (ls_history s) = assistant_message no_reply_text
        else trim (lr_response r) \<noteq> [] \<and> last (ls_history s) = assistant_message (lr_response r))
   | (s, Inl e) \<Rightarrow> True"
proof -
  obtain s res where r: "run_agent_loop E P cd history label = (s, res)" by fastforce
  show ?thesis
  proof (cases res)
    case (Inr x)
    have "answer_ok s x"
      by (rule loop_finishes [OF r [unfolded Inr], where Q = "\<lambda>s. answer_ok s x"]) (rule handle_answer)
    then show ?thesis by (simp add: r Inr answer_ok_def)
  qed (simp add: r)
qed

section \<open>A batch that is cut\<close>

text \<open>
  When the loop guard breaks a batch of tool calls, what the executed calls of the batch
  returned is lost: the session that is saved ends with the assistant message that asks for
  the tools, whatever ran. The next turn reports those calls to the model as interrupted.
\<close>

theorem break_forgets_results:
  assumes "tool_use_step E P k r s = Finish s' res"
  shows "ls_history s' = ls_history s @ [\<lparr> msg_role = Assistant, msg_content = Blocks (cr_content r) \<rparr>]
     \<and> (\<exists>msg g es. res = Inl (Internal msg) \<and> run_tools E P k 0 (ls_guard s) (cr_tool_calls r) = (g, es, Inl msg)
          \<and> executed (ls_trace s') = executed (ls_trace s) @ executed es)"
proof -
  obtain g es b where t: "run_tools E P k 0 (ls_guard s) (cr_tool_calls r) = (g, es, b)" by (metis surj_pair)
  show ?thesis using assms unfolding tool_use_cases [OF t] by (auto simp: t split: sum.splits)
qed

definition two_calls :: completion_response where
  "two_calls = \<lparr> cr_content = [ToolUse ''a'' ''ls'' JNull, ToolUse ''b'' ''ls'' (JBool True)], cr_stop = StopToolUse,
     cr_tool_calls = [\<lparr> tc_id = ''a'', tc_name = ''ls'', tc_input = JNull \<rparr>, \<lparr> tc_id = ''b'', tc_name = ''ls'', tc_input = JBool True \<rparr>],
     cr_usage = \<lparr> input_tokens = 10, output_tokens = 5 \<rparr> \<rparr>"

definition late_state :: loop_state where
  "late_state = (start_loop demo_params shared_breaker [] None)
     \<lparr> ls_guard := (new_guard default_guard_config)\<lparr> total_calls := 29 \<rparr> \<rparr>"

lemma late_allowed:
  "snd (guard_check (le_guard demo_loop_env) ((new_guard default_guard_config)\<lparr> total_calls := 29 \<rparr>) ''ls'' JNull) = Allow"
  by (simp add: check_unfold Let_def bump_table_def new_guard_def default_guard_config_def push_recent_def
      history_size_def detect_ping_pong_def detect_ping_pong2_def detect_ping_pong3_def)

lemma late_batch:
  "\<exists>g es m. run_tools demo_loop_env demo_params 0 0 (ls_guard late_state) (cr_tool_calls two_calls) = (g, es, Inl m)
     \<and> length (executed es) = 1"
proof -
  let ?g = "(new_guard default_guard_config)\<lparr> total_calls := 29 \<rparr>"
  let ?a = "\<lparr> tc_id = ''a'', tc_name = ''ls'', tc_input = JNull \<rparr>" and ?b = "\<lparr> tc_id = ''b'', tc_name = ''ls'', tc_input = JBool True \<rparr>"
  obtain g0 where g0: "guard_check (le_guard demo_loop_env) ?g ''ls'' JNull = (g0, Allow)"
    using late_allowed by (metis prod.collapse)
  obtain g1 es b where x: "execute_call demo_loop_env demo_params 0 0 g0 Allow ?a = (g1, es, b)" by (metis surj_pair)
  have c: "run_call demo_loop_env demo_params 0 0 ?g ?a = (g1, es, Inr b)"
    using g0 x by (simp add: run_call_def) (simp add: demo_loop_env_def)
  have lim: "config ?g = default_guard_config" "total_calls ?g = 29" by (simp_all add: new_guard_def)
  have "total_calls g1 = 30" "config g1 = default_guard_config" using run_call_facts(1,2) [OF c] lim by simp_all
  moreover obtain g2 es2 r2 where d: "run_call demo_loop_env demo_params 0 1 g1 ?b = (g2, es2, r2)" by (metis surj_pair)
  ultimately have "isl r2" using run_call_facts(6) [OF d] by (simp add: default_guard_config_def)
  then obtain m where m: "r2 = Inl m" by (cases r2) auto
  then have "es2 = []" using run_call_facts(7) [OF d] by simp
  then have "run_tools demo_loop_env demo_params 0 0 ?g [?a, ?b] = (g2, es, Inl m)" using c d m by simp
  then show ?thesis using execute_call_facts(3) [OF x] by (simp add: late_state_def two_calls_def)
qed

lemma break_forgets_results_witness:
  "\<exists>s' res. tool_use_step demo_loop_env demo_params 0 two_calls late_state = Finish s' res
     \<and> length (ls_history s') = 2 \<and> length (executed (ls_trace s')) = 1"
proof -
  obtain g es m where t: "run_tools demo_loop_env demo_params 0 0 (ls_guard late_state) (cr_tool_calls two_calls) = (g, es, Inl m)"
    and e: "length (executed es) = 1" using late_batch by blast
  obtain s' res where f: "tool_use_step demo_loop_env demo_params 0 two_calls late_state = Finish s' res"
    by (simp add: tool_use_cases [OF t])
  have "ls_history late_state = [user_message ''go'']" "ls_trace late_state = []"
    by (simp_all add: late_state_def start_loop_def Let_def demo_params_def)
  then show ?thesis using break_forgets_results [OF f] f t e by auto
qed

section \<open>A call that fails\<close>

lemma finish_not_driver: "handle_response E P k r s = Finish s1 (Inl (LlmDriver m)) \<Longrightarrow> False"
  using finish_iterations by fastforce

lemma requests_grow:
  assumes "run_loop E P k s = (s', res)"
  shows "length (requests (ls_trace s)) \<le> length (requests (ls_trace s'))"
proof (rule run_loop_rule [OF assms, where I = "\<lambda>k t. length (requests (ls_trace s)) \<le> length (requests (ls_trace t))"])
  show "length (requests (ls_trace s)) \<le> length (requests (ls_trace s1))"
    if "length (requests (ls_trace s)) \<le> length (requests (ls_trace t))" "iteration_step E P k t = Continue s1" for k t s1
    using iteration_requests [of E P k t] that by simp
  show "length (requests (ls_trace s)) \<le> length (requests (ls_trace s1))"
    if "length (requests (ls_trace s)) \<le> length (requests (ls_trace t))" "iteration_step E P k t = Finish s1 r" for k t s1 r
    using iteration_requests [of E P k t] that by simp
qed simp_all

text \<open>
  A turn whose first call of the model fails saves nothing: the user's message is only in the
  session in memory.
\<close>

theorem failed_call_saves_nothing:
  assumes "run_agent_loop E P cd history label = (s, Inl (LlmDriver m))"
    and "length (requests (ls_trace s)) = 1"
  shows "saves (ls_trace s) = [] \<and> ls_history s = history @ [user_message (lp_user P)]"
proof -
  let ?s0 = "start_loop P cd history label"
  have s0: "ls_trace ?s0 = []" "ls_history ?s0 = history @ [user_message (lp_user P)]"
    by (simp_all add: start_loop_def Let_def)
  have run: "run_loop E P 0 ?s0 = (s, Inl (LlmDriver m))" using assms(1) by (simp add: run_agent_loop_def)
  then have pos: "\<not> lp_max_iterations P \<le> 0" by (cases "lp_max_iterations P \<le> 0") (simp_all add: run_loop.simps [of E P 0])
  show ?thesis
  proof (cases rule: iteration_cases [of E P 0 ?s0])
    case (failed s1 e ds)
    then have "s = s1" using run pos by (simp add: run_loop.simps [of E P 0])
    then show ?thesis using failed(2,3) s0 by simp
  next
    case (answered s1 r ds)
    show ?thesis
    proof (cases "handle_response E P 0 r s1")
      case (Finish s2 res)
      then have "res = Inl (LlmDriver m)" using run pos answered(1) by (simp add: run_loop.simps [of E P 0])
      then show ?thesis using Finish finish_not_driver by blast
    next
      case (Continue s2)
      have r1: "run_loop E P (Suc 0) s2 = (s, Inl (LlmDriver m))"
        using run pos answered(1) Continue by (simp add: run_loop.simps [of E P 0])
      have len: "length (requests (ls_trace s2)) = 1"
        using iteration_requests [of E P 0 ?s0] answered(1) Continue s0(1) by simp
      show ?thesis
      proof (cases "lp_max_iterations P \<le> Suc 0")
        case True
        then show ?thesis using r1 by (simp add: run_loop.simps [of E P "Suc 0"])
      next
        case False
        have l2: "length (requests (ls_trace (step_state (iteration_step E P (Suc 0) s2)))) = 2"
          using iteration_requests [of E P "Suc 0" s2] len by simp
        have "2 \<le> length (requests (ls_trace s))"
        proof (cases "iteration_step E P (Suc 0) s2")
          case (Continue s3)
          then have "run_loop E P (Suc (Suc 0)) s3 = (s, Inl (LlmDriver m))"
            using r1 False by (simp add: run_loop.simps [of E P "Suc 0"])
          from requests_grow [OF this] show ?thesis using l2 Continue by simp
        next
          case (Finish s3 res)
          then have "s = s3" using r1 False by (simp add: run_loop.simps [of E P "Suc 0"])
          then show ?thesis using l2 Finish by simp
        qed
        then show ?thesis using assms(2) by simp
      qed
    qed
  qed
qed

definition broken_env :: loop_env where
  "broken_env = demo_loop_env\<lparr> le_call := (\<lambda>k. demo_call_env) \<rparr>"

lemma failed_call_saves_nothing_witness:
  "\<exists>s m. run_agent_loop broken_env demo_params shared_breaker [] None = (s, Inl (LlmDriver m)) \<and> saves (ls_trace s) = []"
proof -
  let ?s0 = "start_loop demo_params shared_breaker [] None"
  have cb: "cb_check shared_breaker p 0 = AllowRequest" for p by (simp add: cb_check_def shared_breaker_def new_cooldown_def)
  have call: "\<exists>cd ds m. call_with_retry demo_call_env p 0 shared_breaker = (cd, ds, Inl (LlmDriver m))" for p
  proof -
    obtain cd ds res where c: "call_with_retry demo_call_env p 0 shared_breaker = (cd, ds, res)" by (metis surj_pair)
    have "\<not> (\<exists>r. res = Inr r)" using call_answer [of demo_call_env p 0 shared_breaker cd ds] c by (auto simp: demo_call_env_def split: if_splits)
    then obtain e where "res = Inl e" by (cases res) auto
    then show ?thesis using call_error [of demo_call_env p 0 shared_breaker cd ds e] c by auto
  qed
  have env: "le_call broken_env 0 = demo_call_env" "le_now broken_env 0 = 0" by (simp_all add: broken_env_def demo_loop_env_def)
  have st: "ls_breaker ?s0 = shared_breaker" "ls_trace ?s0 = []" by (simp_all add: start_loop_def Let_def)
  obtain ms stage where q: "request_messages broken_env demo_params (ls_messages ?s0) = (ms, stage)" by fastforce
  obtain s m where i: "iteration_step broken_env demo_params 0 ?s0 = Finish s (Inl (LlmDriver m))"
    using call [of "lp_provider demo_params"] by (auto simp: iteration_step_def Let_def env st q)
  then have r: "run_agent_loop broken_env demo_params shared_breaker [] None = (s, Inl (LlmDriver m))"
    by (simp add: run_agent_loop_def run_loop.simps [of _ _ 0]) (simp add: demo_params_def)
  have "length (requests (ls_trace s)) = 1"
    using iteration_requests [of broken_env demo_params 0 ?s0] i st(2) by simp
  from failed_call_saves_nothing [OF r this] show ?thesis using r by blast
qed

section \<open>An answer in parts\<close>

text \<open>
  When the model stops at its token limit and the next answer ends the turn, the response is
  that next answer alone: the part before is in the session, but not in what the caller gets.
\<close>

theorem continued_answer_is_tail:
  assumes "max_tokens_step E k r s = Continue s1" and "end_turn_step E P (Suc k) r' s1 = Finish s2 (Inr x)"
    and "\<not> lr_silent x"
  shows "lr_response x = (let t = fst (parse_directives (response_text r')) in if trim t = [] then task_completed_text else t)
     \<and> ls_history s1 = ls_history s @ [assistant_message (response_text r)]"
proof
  show "lr_response x = (let t = fst (parse_directives (response_text r')) in if trim t = [] then task_completed_text else t)"
    using assms(2,3) unfolding end_turn_step_def Let_def by (auto split: prod.splits if_splits option.splits)
  show "ls_history s1 = ls_history s @ [assistant_message (response_text r)]"
    using assms(1) by (auto simp: max_tokens_step_def Let_def split: if_splits)
qed

definition part_response :: "stop_reason \<Rightarrow> string \<Rightarrow> completion_response" where
  "part_response stop t = \<lparr> cr_content = [TextBlock t], cr_stop = stop, cr_tool_calls = [],
     cr_usage = \<lparr> input_tokens = 1, output_tokens = 1 \<rparr> \<rparr>"

lemma demo_part: "parse_directives (response_text (part_response EndTurn '' world'')) = (''world'', no_directives)"
  "trim ''world'' = ''world''"
  by code_simp+

lemma continued_answer_is_tail_witness:
  "\<exists>s1 s2 x. max_tokens_step demo_loop_env 0 (part_response MaxTokens ''Hello'') (start_loop demo_params shared_breaker [] None) = Continue s1
     \<and> end_turn_step demo_loop_env demo_params (Suc 0) (part_response EndTurn '' world'') s1 = Finish s2 (Inr x)
     \<and> lr_response x = ''world''"
proof -
  let ?s0 = "start_loop demo_params shared_breaker [] None"
  have c: "ls_conts ?s0 = 0" by (simp add: start_loop_def Let_def)
  obtain s1 where s1: "max_tokens_step demo_loop_env 0 (part_response MaxTokens ''Hello'') ?s0 = Continue s1"
    by (simp add: max_tokens_step_def Let_def c max_continuations_def)
  have sv: "le_save demo_loop_env k = None" for k by (simp add: demo_loop_env_def)
  obtain s2 x where s2: "end_turn_step demo_loop_env demo_params (Suc 0) (part_response EndTurn '' world'') s1 = Finish s2 (Inr x)"
      "\<not> lr_silent x"
    by (simp add: end_turn_step_def demo_part Let_def sv no_directives_def)
  from continued_answer_is_tail [OF s1 s2] show ?thesis using s1 s2 by (auto simp: demo_part Let_def)
qed

section \<open>Calls recovered from text\<close>

lemma sublist_drop_trans: "sublist b (drop n t) \<Longrightarrow> sublist b t"
  by (meson sublist_drop sublist_order.order_trans)

lemma trim_sublist: "sublist (trim s) s"
proof -
  let ?d = "dropWhile is_whitespace (chars s)"
  let ?e = "rev (dropWhile is_whitespace (rev ?d))"
  have "rev ?d = takeWhile is_whitespace (rev ?d) @ dropWhile is_whitespace (rev ?d)" by simp
  then have d: "?d = ?e @ rev (takeWhile is_whitespace (rev ?d))" by (metis rev_append rev_rev_ident)
  have "chars s = takeWhile is_whitespace (chars s) @ ?d" by simp
  then have "concat (chars s) = concat (takeWhile is_whitespace (chars s)) @ concat ?e @ concat (rev (takeWhile is_whitespace (rev ?d)))"
    by (metis d concat_append)
  then show ?thesis unfolding trim_def by (metis concat_chars sublist_appendI)
qed

text \<open>What a recovered call is worth: a known tool, and an input that is a part of the text.\<close>

definition sound_call :: "(string \<Rightarrow> json option) \<Rightarrow> string list \<Rightarrow> string \<Rightarrow> string \<times> json \<Rightarrow> bool" where
  "sound_call parse names text c \<longleftrightarrow> fst c \<in> set names \<and> (\<exists>b. parse b = Some (snd c) \<and> sublist b text)"

lemma sound_drop: "sound_call parse names (drop n t) c \<Longrightarrow> sound_call parse names t c"
  by (auto simp: sound_call_def intro: sublist_drop_trans)

text \<open>One round of each scan: it ends, or goes on behind what it has seen, with a call or without.\<close>

definition found_call :: "(string \<Rightarrow> json option) \<Rightarrow> string list \<Rightarrow> string \<Rightarrow> string \<times> json \<Rightarrow> bool" where
  "found_call parse names t c \<longleftrightarrow> fst c \<in> set names \<and> (\<exists>b. parse (trim b) = Some (snd c) \<and> sublist b t)"

lemma found_sound: "found_call parse names t c \<Longrightarrow> sound_call parse names t c"
  using trim_sublist sublist_order.order_trans by (fastforce simp: found_call_def sound_call_def)

lemma sublist_take_drop: "sublist (take m (drop n t)) t"
  by (meson sublist_take sublist_drop sublist_order.order_trans)

lemma text_calls_eq_round:
  "text_calls_eq parse names t = [] \<or> (\<exists>n. length (drop n t) < length t \<and>
     (text_calls_eq parse names t = text_calls_eq parse names (drop n t)
      \<or> (\<exists>c. found_call parse names t c \<and> text_calls_eq parse names t = c # text_calls_eq parse names (drop n t))))"
proof (cases "find_sub function_open t")
  case None
  then show ?thesis by (simp add: text_calls_eq.simps [of parse names t])
next
  case (Some start)
  let ?a = "drop (start + length function_open) t"
  have less: "length (drop (k + (start + length function_open)) t) < length t" for k
    using tag_shortens(1) [OF Some] by simp
  note u = text_calls_eq.simps [of parse names t, unfolded Some option.case Let_def]
  show ?thesis
  proof (cases "find_sub ''>'' ?a")
    case None
    then show ?thesis using u less [of 0] by (intro disjI2 exI [of _ "start + length function_open"]) simp
  next
    case (Some e)
    let ?b = "drop (e + 1) ?a"
    show ?thesis
    proof (cases "find_sub function_close ?b")
      case None
      then show ?thesis using u Some less [of "e + 1"]
        by (intro disjI2 exI [of _ "e + 1 + (start + length function_open)"]) (simp add: drop_drop add.commute add.left_commute)
    next
      case (Some c)
      let ?n = "c + length function_close + (e + 1) + (start + length function_open)"
      let ?rest = "drop (c + length function_close) ?b"
      have rest: "?rest = drop ?n t" by (simp add: ac_simps)
      have "text_calls_eq parse names t = (if take e ?a \<notin> set names then text_calls_eq parse names ?rest
          else case parse (trim (take c ?b)) of None \<Rightarrow> text_calls_eq parse names ?rest
               | Some input \<Rightarrow> (take e ?a, input) # text_calls_eq parse names ?rest)"
        using u Some \<open>find_sub ''>'' ?a = Some e\<close> by (simp only: option.case)
      moreover have "sublist (take c ?b) t" using sublist_take_drop [of c "e + 1 + (start + length function_open)" t]
        by (simp add: ac_simps)
      moreover have "length (drop ?n t) < length t" using less [of "c + length function_close + (e + 1)"] by (simp add: ac_simps)
      ultimately show ?thesis unfolding rest
        by (intro disjI2 exI [of _ ?n]) (auto simp: found_call_def split: option.splits if_splits)
    qed
  qed
qed

lemma text_calls_eq_sound: "c \<in> set (text_calls_eq parse names t) \<Longrightarrow> sound_call parse names t c"
proof (induction "length t" arbitrary: t rule: less_induct)
  case less
  then obtain n where n: "length (drop n t) < length t" "text_calls_eq parse names t = text_calls_eq parse names (drop n t)
      \<or> (\<exists>c. found_call parse names t c \<and> text_calls_eq parse names t = c # text_calls_eq parse names (drop n t))"
    using text_calls_eq_round [of parse names t] by auto
  then have "found_call parse names t c \<or> c \<in> set (text_calls_eq parse names (drop n t))"
    using less.prems by auto
  then show ?case using less.hyps [OF n(1)] sound_drop found_sound by blast
qed

lemma text_calls_tag_round:
  "text_calls_tag parse names calls t = calls \<or> (\<exists>n. length (drop n t) < length t \<and>
     (text_calls_tag parse names calls t = text_calls_tag parse names calls (drop n t)
      \<or> (\<exists>c. found_call parse names t c \<and> text_calls_tag parse names calls t = text_calls_tag parse names (calls @ [c]) (drop n t))))"
proof (cases "find_sub function_tag t")
  case None
  then show ?thesis by (simp add: text_calls_tag.simps [of parse names calls t])
next
  case (Some start)
  let ?a = "drop (start + length function_tag) t"
  have less: "length (drop (k + (start + length function_tag)) t) < length t" for k
    using tag_shortens(2) [OF Some] by simp
  note u = text_calls_tag.simps [of parse names calls t, unfolded Some option.case Let_def]
  show ?thesis
  proof (cases "find_sub function_close ?a")
    case None
    then show ?thesis using u less [of 0] by (intro disjI2 exI [of _ "start + length function_tag"]) simp
  next
    case (Some c)
    let ?n = "c + length function_close + (start + length function_tag)"
    let ?rest = "drop (c + length function_close) ?a"
    have rest: "?rest = drop ?n t" by (simp add: ac_simps)
    have l: "length (drop ?n t) < length t" using less [of "c + length function_close"] by (simp add: ac_simps)
    show ?thesis
    proof (cases "find_sub ''{'' (take c ?a)")
      case None
      then show ?thesis using u Some l unfolding rest by (intro disjI2 exI [of _ ?n]) simp
    next
      case (Some b)
      let ?nm = "trim (take b (take c ?a))" and ?body = "drop b (take c ?a)"
      have "text_calls_tag parse names calls t = (if ?nm = [] \<or> ?nm \<notin> set names then text_calls_tag parse names calls ?rest
          else case parse (trim ?body) of None \<Rightarrow> text_calls_tag parse names calls ?rest
               | Some input \<Rightarrow> if (?nm, input) \<in> set calls then text_calls_tag parse names calls ?rest
                   else text_calls_tag parse names (calls @ [(?nm, input)]) ?rest)"
        using u Some \<open>find_sub function_close ?a = Some c\<close> by (simp only: option.case)
      moreover have "sublist ?body t" by (meson sublist_drop sublist_take sublist_order.order_trans)
      ultimately show ?thesis using l unfolding rest
        by (intro disjI2 exI [of _ ?n]) (auto simp: found_call_def split: option.splits if_splits)
    qed
  qed
qed

lemma text_calls_tag_sound:
  "c \<in> set (text_calls_tag parse names calls t) \<Longrightarrow> c \<in> set calls \<or> sound_call parse names t c"
proof (induction "length t" arbitrary: t calls rule: less_induct)
  case less
  show ?case
  proof (cases "text_calls_tag parse names calls t = calls")
    case False
    then obtain n cs where n: "length (drop n t) < length t" "text_calls_tag parse names calls t = text_calls_tag parse names cs (drop n t)"
        "cs = calls \<or> (\<exists>c. found_call parse names t c \<and> cs = calls @ [c])"
      using text_calls_tag_round [of parse names calls t] by blast
    then have "c \<in> set cs \<or> sound_call parse names (drop n t) c" using less.hyps [OF n(1)] less.prems by simp
    then have "c \<in> set cs \<or> sound_call parse names t c" using sound_drop by blast
    moreover have "c \<in> set calls \<or> sound_call parse names t c" if "c \<in> set cs"
      using that n(3) found_sound [of parse names t c] by (elim disjE exE conjE) (simp, force)
    ultimately show ?thesis by blast
  qed (use less.prems in simp)
qed

text \<open>
  A tool call recovered from the text of an answer is a call of a tool the agent has, and its
  input parses from a passage of that text.
\<close>

theorem recovered_calls_sound:
  assumes "tc \<in> set (recover_text_tool_calls parse fresh text tools)"
  shows "tc_name tc \<in> td_name ` set tools \<and> (\<exists>body. parse body = Some (tc_input tc) \<and> sublist body text)"
proof -
  let ?names = "map td_name tools"
  let ?calls = "text_calls_tag parse ?names (text_calls_eq parse ?names text) text"
  obtain x where "x \<in> set (enumerate 0 ?calls)"
      and tc: "tc = (\<lambda>(i, name, input). \<lparr> tc_id = ''recovered_'' @ fresh i, tc_name = name, tc_input = input \<rparr>) x"
    using assms by (auto simp: recover_text_tool_calls_def Let_def)
  then have "fst x < length ?calls" "?calls ! fst x = snd x" by (simp_all add: in_set_enumerate_eq)
  then have "snd x \<in> set ?calls" by (metis nth_mem)
  then have "sound_call parse ?names text (snd x)" using text_calls_tag_sound text_calls_eq_sound by blast
  then show ?thesis by (cases x) (simp add: tc sound_call_def)
qed

definition ls_tool :: tool_definition where
  "ls_tool = \<lparr> td_name = ''ls'', td_description = [], td_schema = JNull \<rparr>"

abbreviation demo_parse :: "string \<Rightarrow> json option" where
  "demo_parse b \<equiv> if b = ''{}'' then Some (JObj []) else None"

lemma demo_recovered: "recover_text_tool_calls demo_parse nat_str ''run <function=ls>{}</function>'' [ls_tool]
    = [\<lparr> tc_id = ''recovered_0'', tc_name = ''ls'', tc_input = JObj [] \<rparr>]"
proof -
  have ls_zero: "nat_str 0 = ''0''" by code_simp
  have "trim ''{}'' = ''{}''" by code_simp
  then have "text_calls_eq demo_parse [''ls''] ''run <function=ls>{}</function>'' = [(''ls'', JObj [])]"
    by (simp add: text_calls_eq.simps function_open_def function_close_def starts_with_def Let_def)
  moreover have "text_calls_tag demo_parse [''ls''] [(''ls'', JObj [])] ''run <function=ls>{}</function>'' = [(''ls'', JObj [])]"
    by (simp add: text_calls_tag.simps function_tag_def starts_with_def)
  ultimately show ?thesis using ls_zero by (simp add: recover_text_tool_calls_def ls_tool_def)
qed

lemma recovered_calls_sound_witness:
  "\<exists>body. demo_parse body = Some (JObj []) \<and> sublist body ''run <function=ls>{}</function>''"
  using recovered_calls_sound [of "\<lparr> tc_id = ''recovered_0'', tc_name = ''ls'', tc_input = JObj [] \<rparr>" demo_parse nat_str
      "''run <function=ls>{}</function>''" "[ls_tool]"]
  by (simp add: demo_recovered)

end
