(* ===== verification/Model_Catalog.thy ===== *)
theory Model_Catalog
  imports Agent_Types Rust_Text
begin

text \<open>
  The catalog of models and providers, \<open>runtime/src/model_catalog.rs\<close> and
  \<open>types/src/model_catalog.rs\<close>: its built-in tables, the lookup by id and by alias, prices, the
  check for keys, and the merge of the models a local provider reports. The alias map is only
  looked up; it is a list of pairs of which the last one counts, as when it is collected into a
  map. \<open>lower\<close> is \<open>str::to_lowercase\<close>; prices are exact decimal numbers.
\<close>

section \<open>Data\<close>

datatype model_tier = Frontier_tier | Smart_tier | Balanced_tier | Fast_tier | Local_tier
datatype auth_status = Configured | Missing | NotRequired

fun tier_str :: "model_tier \<Rightarrow> string" where
  "tier_str Frontier_tier = ''frontier''"
| "tier_str Smart_tier = ''smart''"
| "tier_str Balanced_tier = ''balanced''"
| "tier_str Fast_tier = ''fast''"
| "tier_str Local_tier = ''local''"

fun auth_status_str :: "auth_status \<Rightarrow> string" where
  "auth_status_str Configured = ''configured''"
| "auth_status_str Missing = ''missing''"
| "auth_status_str NotRequired = ''not_required''"

datatype model_entry = model_entry (me_id: string) (me_display: string) (me_provider: string) (me_tier: model_tier)
  (me_context: nat) (me_max_output: nat) (me_input_cost: rat) (me_output_cost: rat)
  (me_tools: bool) (me_vision: bool) (me_streaming: bool) (me_aliases: "string list")

record provider_info =
  pi_id :: string
  pi_display :: string
  pi_key_env :: string
  pi_base_url :: string
  pi_key_required :: bool
  pi_status :: auth_status
  pi_count :: nat

record catalog =
  mc_models :: "model_entry list"
  mc_aliases :: "(string \<times> string) list"
  mc_providers :: "provider_info list"

definition anthropic_base_url :: string where "anthropic_base_url = ''https://api.anthropic.com''"
definition kimi_code_base_url :: string where "kimi_code_base_url = ''https://api.kimi.com/coding''"
definition deepseek_base_url :: string where "deepseek_base_url = ''https://api.deepseek.com/v1''"
definition openrouter_base_url :: string where "openrouter_base_url = ''https://openrouter.ai/api/v1''"
definition minimax_base_url :: string where "minimax_base_url = ''https://api.minimax.io/v1''"
definition zhipu_base_url :: string where "zhipu_base_url = ''https://open.bigmodel.cn/api/paas/v4''"
definition ollama_base_url :: string where "ollama_base_url = ''http://localhost:11434/v1''"

definition provider_row :: "string \<Rightarrow> string \<Rightarrow> string \<Rightarrow> string \<Rightarrow> bool \<Rightarrow> auth_status \<Rightarrow> nat \<Rightarrow> provider_info" where
  "provider_row i d env url req st n = \<lparr> pi_id = i, pi_display = d, pi_key_env = env, pi_base_url = url,
     pi_key_required = req, pi_status = st, pi_count = n \<rparr>"

definition builtin_providers :: "provider_info list" where
  "builtin_providers =
    [provider_row ''anthropic'' ''Anthropic'' ''ANTHROPIC_API_KEY'' anthropic_base_url True Missing 0,
     provider_row ''kimi'' ''Kimi (Moonshot)'' ''KIMI_API_KEY'' kimi_code_base_url True Missing 0,
     provider_row ''deepseek'' ''DeepSeek'' ''DEEPSEEK_API_KEY'' deepseek_base_url True Missing 0,
     provider_row ''minimax'' ''MiniMax'' ''MINIMAX_API_KEY'' minimax_base_url True Missing 0,
     provider_row ''zhipu'' ''Zhipu AI (GLM)'' ''ZHIPU_API_KEY'' zhipu_base_url True Missing 0,
     provider_row ''openrouter'' ''OpenRouter'' ''OPENROUTER_API_KEY'' openrouter_base_url True Missing 0,
     provider_row ''ollama'' ''Ollama'' ''OLLAMA_API_KEY'' ollama_base_url False NotRequired 0,
     provider_row ''mock'' ''Demo Mode (mock)'' ''MOCK_API_KEY'' ''in-process'' False NotRequired 1]"

definition builtin_aliases :: "(string \<times> string) list" where
  "builtin_aliases =
    [(''sonnet'', ''claude-sonnet-4-6''), (''claude-sonnet'', ''claude-sonnet-4-6''),
      (''claude-sonnet-4-6'', ''claude-sonnet-4-6''), (''claude-sonnet-4-20250514'', ''claude-sonnet-4-6''),
      (''haiku'', ''claude-haiku-4-5-20251001''), (''claude-haiku'', ''claude-haiku-4-5-20251001''),
      (''claude-haiku-4-5'', ''claude-haiku-4-5-20251001''), (''opus'', ''claude-opus-4-7''),
      (''claude-opus'', ''claude-opus-4-7''), (''claude-opus-4-7'', ''claude-opus-4-7''),
      (''claude-opus-4-20250514'', ''claude-opus-4-7''), (''kimi'', ''kimi-for-coding''),
      (''k2'', ''kimi-for-coding''), (''k2-thinking'', ''kimi-for-coding''),
      (''kimi-k2-thinking'', ''kimi-for-coding''), (''kimi-code'', ''kimi-for-coding''),
      (''deepseek'', ''deepseek-v4-flash''), (''deepseek-v4'', ''deepseek-v4-flash''),
      (''deepseek-flash'', ''deepseek-v4-flash''), (''deepseek-pro'', ''deepseek-v4-pro''),
      (''deepseek-v3'', ''deepseek-chat''), (''deepseek-r1'', ''deepseek-reasoner''), (''glm'', ''glm-4-plus''),
      (''glm-4'', ''glm-4-plus''), (''glm-4.6'', ''glm-4-plus''), (''minimax'', ''MiniMax-M2.7'')]"

definition builtin_models :: "model_entry list" where
  "builtin_models =
    [model_entry ''claude-opus-4-7'' ''Claude Opus 4.7'' ''anthropic'' Frontier_tier 1000000 128000
       (5) (25) True True True [''opus'', ''claude-opus'', ''claude-opus-4-7'', ''claude-opus-4-20250514''],
     model_entry ''claude-sonnet-4-6'' ''Claude Sonnet 4.6'' ''anthropic'' Smart_tier 1000000 64000
       (3) (15) True True True [''sonnet'', ''claude-sonnet'', ''claude-sonnet-4-6'', ''claude-sonnet-4-20250514''],
     model_entry ''claude-haiku-4-5-20251001'' ''Claude Haiku 4.5'' ''anthropic'' Fast_tier 200000 64000
       (1) (5) True True True [''haiku'', ''claude-haiku'', ''claude-haiku-4-5''],
     model_entry ''kimi-for-coding'' ''Kimi Code (powered by K2.6)'' ''kimi'' Frontier_tier 262144 32768
       (19 / 20) (4) True True True [''kimi'', ''k2'', ''k2-thinking'', ''kimi-k2-thinking'', ''kimi-code''],
     model_entry ''deepseek-v4-flash'' ''DeepSeek V4 Flash (reasoning)'' ''deepseek'' Smart_tier 1000000 384000
       (7 / 50) (7 / 25) True False True [''deepseek'', ''deepseek-v4'', ''deepseek-flash''],
     model_entry ''deepseek-v4-pro'' ''DeepSeek V4 Pro (reasoning)'' ''deepseek'' Frontier_tier 1000000 384000
       (87 / 50) (87 / 25) True False True [''deepseek-pro''],
     model_entry ''deepseek-chat'' ''DeepSeek Chat (V4 Flash compatibility alias, deprecated 2026-07-24)'' ''deepseek'' Smart_tier 1000000 384000
       (7 / 50) (7 / 25) True False True [''deepseek-v3''],
     model_entry ''deepseek-reasoner'' ''DeepSeek Reasoner (V4 Flash thinking alias, deprecated 2026-07-24)'' ''deepseek'' Smart_tier 1000000 384000
       (7 / 50) (7 / 25) True False True [''deepseek-r1''],
     model_entry ''MiniMax-M2.7'' ''MiniMax M2.7'' ''minimax'' Frontier_tier 1000000 8192
       (1 / 2) (2) True False True [''minimax''],
     model_entry ''MiniMax-M1'' ''MiniMax M1'' ''minimax'' Smart_tier 1000000 8192
       (3 / 10) (11 / 10) True False True [],
     model_entry ''glm-4-plus'' ''GLM-4 Plus'' ''zhipu'' Frontier_tier 128000 4096
       (3 / 2) (5) True False True [''glm'', ''glm-4'', ''glm-4.6''],
     model_entry ''glm-4-flash'' ''GLM-4 Flash'' ''zhipu'' Fast_tier 128000 4096
       (1 / 10) (1 / 10) True False True [],
     model_entry ''anthropic/claude-sonnet-4.6'' ''Claude Sonnet 4.6 via OpenRouter'' ''openrouter'' Smart_tier 1000000 64000
       (3) (15) True True True [],
     model_entry ''openai/gpt-4o'' ''GPT-4o via OpenRouter'' ''openrouter'' Smart_tier 128000 16384
       (5 / 2) (10) True True True [],
     model_entry ''google/gemini-2.5-pro'' ''Gemini 2.5 Pro via OpenRouter'' ''openrouter'' Frontier_tier 2000000 8192
       (5 / 4) (5) True True True [],
     model_entry ''openrouter/auto'' ''OpenRouter Auto (best-effort)'' ''openrouter'' Smart_tier 128000 8192
       (1) (3) True False True [],
     model_entry ''llama3.2'' ''Llama 3.2 (Ollama)'' ''ollama'' Local_tier 131072 8192
       (0) (0) True False True [''llama''],
     model_entry ''qwen2.5-coder'' ''Qwen 2.5 Coder (Ollama)'' ''ollama'' Local_tier 32768 8192
       (0) (0) True False True [],
     model_entry ''mock-model'' ''Demo Mode (mock echo)'' ''mock'' Local_tier 1000000 1024
       (0) (0) False False False [''mock'', ''demo'']]"

definition count_models :: "string \<Rightarrow> model_entry list \<Rightarrow> nat" where
  "count_models p ms = length (filter (\<lambda>m. me_provider m = p) ms)"

definition new_catalog :: catalog where
  "new_catalog = \<lparr> mc_models = builtin_models, mc_aliases = builtin_aliases,
     mc_providers = map (\<lambda>p. p\<lparr> pi_count := count_models (pi_id p) builtin_models \<rparr>) builtin_providers \<rparr>"

section \<open>Operations\<close>

text \<open>\<open>key_set\<close> says which variables are set to more than white space.\<close>

definition detect_auth :: "(string \<Rightarrow> bool) \<Rightarrow> catalog \<Rightarrow> catalog" where
  "detect_auth key_set C = C\<lparr> mc_providers := map (\<lambda>p. p\<lparr> pi_status :=
     (if \<not> pi_key_required p then NotRequired else if key_set (pi_key_env p) then Configured else Missing) \<rparr>) (mc_providers C) \<rparr>"

definition alias_of :: "catalog \<Rightarrow> string \<Rightarrow> string option" where
  "alias_of C key = map_of (rev (mc_aliases C)) key"

definition find_model :: "(string \<Rightarrow> string) \<Rightarrow> catalog \<Rightarrow> string \<Rightarrow> model_entry option" where
  "find_model lower C x =
     (case find (\<lambda>m. lower (me_id m) = lower x) (mc_models C) of
        Some m \<Rightarrow> Some m
      | None \<Rightarrow>
          (case alias_of C (lower x) of
             Some canonical \<Rightarrow> find (\<lambda>m. me_id m = canonical) (mc_models C)
           | None \<Rightarrow> None))"

definition resolve_alias :: "(string \<Rightarrow> string) \<Rightarrow> catalog \<Rightarrow> string \<Rightarrow> string option" where
  "resolve_alias lower C x = alias_of C (lower x)"

definition get_provider :: "catalog \<Rightarrow> string \<Rightarrow> provider_info option" where
  "get_provider C p = find (\<lambda>q. pi_id q = p) (mc_providers C)"

definition models_by_provider :: "catalog \<Rightarrow> string \<Rightarrow> model_entry list" where
  "models_by_provider C p = filter (\<lambda>m. me_provider m = p) (mc_models C)"

definition available_models :: "catalog \<Rightarrow> model_entry list" where
  "available_models C =
     (let configured = map pi_id (filter (\<lambda>p. pi_status p \<noteq> Missing) (mc_providers C))
      in filter (\<lambda>m. me_provider m \<in> set configured) (mc_models C))"

definition pricing :: "(string \<Rightarrow> string) \<Rightarrow> catalog \<Rightarrow> string \<Rightarrow> (rat \<times> rat) option" where
  "pricing lower C x = map_option (\<lambda>m. (me_input_cost m, me_output_cost m)) (find_model lower C x)"

definition models_by_tier :: "catalog \<Rightarrow> model_tier \<Rightarrow> model_entry list" where
  "models_by_tier C t = filter (\<lambda>m. me_tier m = t) (mc_models C)"

definition discovered_entry :: "string \<Rightarrow> string \<Rightarrow> model_entry" where
  "discovered_entry p i = model_entry i (i @ '' ('' @ p @ '')'') p Local_tier 32768 4096 0 0 True False True []"

fun update_first :: "('a \<Rightarrow> bool) \<Rightarrow> ('a \<Rightarrow> 'a) \<Rightarrow> 'a list \<Rightarrow> 'a list" where
  "update_first P f [] = []"
| "update_first P f (x # xs) = (if P x then f x # xs else x # update_first P f xs)"

definition merge_discovered_models :: "(string \<Rightarrow> string) \<Rightarrow> string \<Rightarrow> string list \<Rightarrow> catalog \<Rightarrow> catalog" where
  "merge_discovered_models lower p ids C =
     (let existing = map (lower \<circ> me_id) (filter (\<lambda>m. me_provider m = p) (mc_models C));
          added = map (discovered_entry p) (filter (\<lambda>i. lower i \<notin> set existing) ids);
          models = mc_models C @ added
      in C\<lparr> mc_models := models,
            mc_providers := (if added = [] then mc_providers C
              else update_first (\<lambda>q. pi_id q = p) (\<lambda>q. q\<lparr> pi_count := count_models p models \<rparr>) (mc_providers C)) \<rparr>)"

section \<open>Properties\<close>

definition counts_ok :: "catalog \<Rightarrow> bool" where
  "counts_ok C \<longleftrightarrow> distinct (map pi_id (mc_providers C))
     \<and> list_all (\<lambda>p. pi_count p = count_models (pi_id p) (mc_models C)) (mc_providers C)"

lemma count_discovered: "count_models q (map (discovered_entry p) is) = (if q = p then length is else 0)"
  by (induction "is") (auto simp: count_models_def discovered_entry_def)

lemma count_append: "count_models q (ms @ ns) = count_models q ms + count_models q ns"
  by (simp add: count_models_def)

lemma update_first_ids: "(\<And>q. g (f q) = g q) \<Longrightarrow> map g (update_first P f ps) = map g ps"
  by (induction ps) auto

lemma update_counts:
  assumes "distinct (map pi_id ps)" "\<And>q. q \<in> set ps \<Longrightarrow> pi_id q \<noteq> p \<Longrightarrow> pi_count q = c (pi_id q)" "n = c p"
  shows "q \<in> set (update_first (\<lambda>q. pi_id q = p) (\<lambda>q. q\<lparr> pi_count := n \<rparr>) ps) \<Longrightarrow> pi_count q = c (pi_id q)"
  using assms
proof (induction ps)
  case (Cons a ps)
  show ?case
  proof (cases "pi_id a = p")
    case True
    then have "q = a\<lparr> pi_count := n \<rparr> \<or> q \<in> set ps" using Cons.prems(1) by simp
    moreover have "pi_id a \<notin> pi_id ` set ps" using Cons.prems(2) by simp
    then have "pi_id x \<noteq> p" if "x \<in> set ps" for x using True that by (metis imageI)
    ultimately show ?thesis using Cons.prems(3,4) True by fastforce
  next
    case False
    then have "q = a \<or> q \<in> set (update_first (\<lambda>q. pi_id q = p) (\<lambda>q. q\<lparr> pi_count := n \<rparr>) ps)"
      using Cons.prems(1) by simp
    then show ?thesis
    proof
      assume "q = a"
      then show ?thesis using Cons.prems(3) False by simp
    next
      assume "q \<in> set (update_first (\<lambda>q. pi_id q = p) (\<lambda>q. q\<lparr> pi_count := n \<rparr>) ps)"
      then show ?thesis by (rule Cons.IH) (use Cons.prems in simp_all)
    qed
  qed
qed simp

text \<open>
  The number of models of a provider is right in the built-in catalog and after every merge of
  discovered models; a merge repeated changes nothing.
\<close>

theorem merge_counts:
  assumes "counts_ok C"
  shows "counts_ok (merge_discovered_models lower p ids C)
    \<and> merge_discovered_models lower p ids (merge_discovered_models lower p ids C) = merge_discovered_models lower p ids C"
proof
  define new where "new = filter (\<lambda>i. lower i \<notin> set (map (lower \<circ> me_id) (filter (\<lambda>m. me_provider m = p) (mc_models C)))) ids"
  let ?models = "mc_models C @ map (discovered_entry p) new"
  let ?C = "merge_discovered_models lower p ids C"
  have models: "mc_models ?C = ?models"
    by (simp add: merge_discovered_models_def Let_def new_def)
  have providers: "mc_providers ?C = (if new = [] then mc_providers C
      else update_first (\<lambda>q. pi_id q = p) (\<lambda>q. q\<lparr> pi_count := count_models p ?models \<rparr>) (mc_providers C))"
    by (simp add: merge_discovered_models_def Let_def new_def)
  have count: "count_models q ?models = count_models q (mc_models C) + (if q = p then length new else 0)" for q
    by (simp add: count_append count_discovered)
  have ids: "map pi_id (mc_providers ?C) = map pi_id (mc_providers C)"
    unfolding providers by (simp add: update_first_ids)
  have "pi_count q = count_models (pi_id q) ?models" if "q \<in> set (mc_providers ?C)" for q
  proof (cases "new = []")
    case True
    then show ?thesis using that assms by (simp add: providers counts_ok_def list_all_iff)
  next
    case False
    show ?thesis
    proof (rule update_counts)
      show "distinct (map pi_id (mc_providers C))" using assms by (simp add: counts_ok_def)
      show "pi_count q = count_models (pi_id q) ?models" if "q \<in> set (mc_providers C)" "pi_id q \<noteq> p" for q
        using that assms by (simp add: count counts_ok_def list_all_iff)
      show "q \<in> set (update_first (\<lambda>q. pi_id q = p) (\<lambda>q. q\<lparr> pi_count := count_models p ?models \<rparr>) (mc_providers C))"
        using that False by (simp add: providers)
    qed simp
  qed
  then show "counts_ok ?C" using assms ids by (simp add: counts_ok_def list_all_iff models)
  have "lower i \<in> (lower \<circ> me_id) ` set (filter (\<lambda>m. me_provider m = p) (mc_models ?C))" if "i \<in> set ids" for i
  proof (cases "i \<in> set new")
    case True
    then have "discovered_entry p i \<in> set (filter (\<lambda>m. me_provider m = p) (mc_models ?C))"
      by (simp add: models discovered_entry_def)
    then have "(lower \<circ> me_id) (discovered_entry p i) \<in> (lower \<circ> me_id) ` set (filter (\<lambda>m. me_provider m = p) (mc_models ?C))"
      by (rule imageI)
    then show ?thesis by (simp add: discovered_entry_def)
  next
    case False
    then show ?thesis using that by (auto simp: new_def models)
  qed
  then have "filter (\<lambda>i. lower i \<notin> set (map (lower \<circ> me_id) (filter (\<lambda>m. me_provider m = p) (mc_models ?C)))) ids = []"
    unfolding filter_empty_conv set_map by blast
  then show "merge_discovered_models lower p ids ?C = ?C"
    unfolding merge_discovered_models_def [of lower p ids ?C] Let_def by simp
qed

text \<open>A model that is found by its id stays the one that is found.\<close>

lemma find_append: "find P xs = Some x \<Longrightarrow> find P (xs @ ys) = Some x"
  by (induction xs) auto

lemma find_append_None: "find P xs = None \<Longrightarrow> find P (xs @ ys) = find P ys"
  by (induction xs) (auto split: if_splits)

lemma merge_keeps_ids:
  "find (\<lambda>m. lower (me_id m) = lower x) (mc_models C) = Some e
    \<Longrightarrow> find_model lower (merge_discovered_models lower p ids C) x = Some e"
  by (simp add: find_model_def merge_discovered_models_def Let_def find_append)

lemma model_providers: "map me_provider builtin_models =
    [''anthropic'', ''anthropic'', ''anthropic'', ''kimi'', ''deepseek'', ''deepseek'', ''deepseek'', ''deepseek'',
     ''minimax'', ''minimax'', ''zhipu'', ''zhipu'', ''openrouter'', ''openrouter'', ''openrouter'', ''openrouter'', 
     ''ollama'', ''ollama'', ''mock'']"
  by (simp add: builtin_models_def)

lemma count_by_provider: "count_models q ms = count_list (map me_provider ms) q"
  by (induction ms) (auto simp: count_models_def)

lemma builtin_counts: "counts_ok new_catalog"
  unfolding counts_ok_def new_catalog_def builtin_providers_def
  by (simp add: provider_row_def count_by_provider model_providers)

text \<open>Lower case on the characters of the tables.\<close>

lemma lower_keeps: "\<not> ((65 :: nat) \<le> of_char c \<and> of_char c \<le> (90 :: nat)) \<Longrightarrow> ascii_lower c = c"
  by (auto simp: ascii_lower_def)

lemma lower_M: "ascii_lower CHR ''M'' = CHR ''m''"
  by code_simp

lemma merge_counts_witness: "counts_ok (merge_discovered_models (\<lambda>s. s) ''ollama'' [''phi4''] new_catalog)"
  using merge_counts [OF builtin_counts] by simp

lemma find_lower: "map_option me_id (find (\<lambda>m. lower (me_id m) = y) ms) = map_of (map (\<lambda>m. (lower (me_id m), me_id m)) ms) y"
  by (induction ms) auto

lemma find_id: "map_option me_id (find (\<lambda>m. me_id m = c) ms) = (if c \<in> set (map me_id ms) then Some c else None)"
  by (induction ms) auto

definition lowered_table :: "(string \<times> string) list" where
  "lowered_table =
    [(''claude-opus-4-7'', ''claude-opus-4-7''), (''claude-sonnet-4-6'', ''claude-sonnet-4-6''), (''claude-haiku-4-5-20251001'', ''claude-haiku-4-5-20251001''), (''kimi-for-coding'', ''kimi-for-coding''),
     (''deepseek-v4-flash'', ''deepseek-v4-flash''), (''deepseek-v4-pro'', ''deepseek-v4-pro''), (''deepseek-chat'',
     ''deepseek-chat''), (''deepseek-reasoner'', ''deepseek-reasoner''), (''minimax-m2.7'', ''MiniMax-M2.7''),
     (''minimax-m1'', ''MiniMax-M1''), (''glm-4-plus'', ''glm-4-plus''), (''glm-4-flash'', ''glm-4-flash''),
     (''anthropic/claude-sonnet-4.6'', ''anthropic/claude-sonnet-4.6''), (''openai/gpt-4o'', ''openai/gpt-4o''),
     (''google/gemini-2.5-pro'', ''google/gemini-2.5-pro''), (''openrouter/auto'', ''openrouter/auto''),
     (''llama3.2'', ''llama3.2''), (''qwen2.5-coder'', ''qwen2.5-coder''), (''mock-model'', ''mock-model'')]"

lemma lowered_ids: "map (\<lambda>m. (map ascii_lower (me_id m), me_id m)) builtin_models = lowered_table"
  by (simp add: builtin_models_def lowered_table_def lower_M lower_keeps)

text \<open>The lookup on the tables of names.\<close>

definition found_name :: "string \<Rightarrow> string option" where
  "found_name x =
     (case map_of lowered_table x of
        Some i \<Rightarrow> Some i
      | None \<Rightarrow>
          (case map_of (rev builtin_aliases) x of
             Some c \<Rightarrow> if c \<in> snd ` set lowered_table then Some c else None
           | None \<Rightarrow> None))"

lemma found_by_name:
  assumes "map ascii_lower x = x"
  shows "map_option me_id (find_model (map ascii_lower) new_catalog x) = found_name x"
proof -
  have ids: "snd ` set lowered_table = set (map me_id builtin_models)"
    unfolding lowered_ids [symmetric] by (simp add: image_image)
  show ?thesis
    unfolding found_name_def ids
    unfolding lowered_ids [symmetric] find_lower [symmetric] find_id [symmetric]
    by (auto simp: find_model_def new_catalog_def alias_of_def assms split: option.splits)
qed

lemma declared_aliases: "concat (map me_aliases builtin_models) =
    [''opus'', ''claude-opus'', ''claude-opus-4-7'', ''claude-opus-4-20250514'', ''sonnet'', ''claude-sonnet'',
     ''claude-sonnet-4-6'', ''claude-sonnet-4-20250514'', ''haiku'', ''claude-haiku'', ''claude-haiku-4-5'',
     ''kimi'', ''k2'', ''k2-thinking'', ''kimi-k2-thinking'', ''kimi-code'', ''deepseek'', ''deepseek-v4'',
     ''deepseek-flash'', ''deepseek-pro'', ''deepseek-v3'', ''deepseek-r1'', ''minimax'', ''glm'', ''glm-4'',
     ''glm-4.6'', ''llama'', ''mock'', ''demo'']"
  by (simp add: builtin_models_def)

lemma names_are_lower:
  "list_all (\<lambda>a. map ascii_lower a = a) (map fst builtin_aliases @ concat (map me_aliases builtin_models))"
  by (simp add: declared_aliases builtin_aliases_def lower_M lower_keeps)

text \<open>
  The built-in tables fit together: every alias of the alias map leads to the model it
  names, ids differ also without case, and every model belongs to a listed provider. Of the
  aliases that are written at the models those of the local and of the demo model lead
  nowhere, since only the map is consulted.
\<close>

theorem catalog_consistent:
  "map (\<lambda>(a, i). map_option me_id (find_model (map ascii_lower) new_catalog a)) builtin_aliases = map (Some \<circ> snd) builtin_aliases
   \<and> distinct (map (\<lambda>m. map ascii_lower (me_id m)) builtin_models)
   \<and> list_all (\<lambda>m. get_provider new_catalog (me_provider m) \<noteq> None) builtin_models
   \<and> filter (\<lambda>a. find_model (map ascii_lower) new_catalog a = None) (concat (map me_aliases builtin_models))
       = [''llama'', ''mock'', ''demo'']"
proof (intro conjI)
  have found: "map_option me_id (find_model (map ascii_lower) new_catalog a) = found_name a"
    if "a \<in> set (map fst builtin_aliases @ concat (map me_aliases builtin_models))" for a
    using names_are_lower that unfolding list_all_iff by (intro found_by_name) blast
  have "map (\<lambda>(a, i). found_name a) builtin_aliases = map (Some \<circ> snd) builtin_aliases" by code_simp
  moreover have "map_option me_id (find_model (map ascii_lower) new_catalog (fst p)) = found_name (fst p)"
    if "p \<in> set builtin_aliases" for p
    by (rule found) (use that in simp)
  ultimately show "map (\<lambda>(a, i). map_option me_id (find_model (map ascii_lower) new_catalog a)) builtin_aliases
      = map (Some \<circ> snd) builtin_aliases"
    by (simp add: case_prod_unfold cong: map_cong)
  have "distinct (map fst lowered_table)" by code_simp
  then show "distinct (map (\<lambda>m. map ascii_lower (me_id m)) builtin_models)"
    unfolding lowered_ids [symmetric] by (simp add: comp_def)
  show "list_all (\<lambda>m. get_provider new_catalog (me_provider m) \<noteq> None) builtin_models"
  proof -
    have ids: "map pi_id (mc_providers new_catalog) =
        [''anthropic'', ''kimi'', ''deepseek'', ''minimax'', ''zhipu'', ''openrouter'', ''ollama'', ''mock'']"
      by (simp add: new_catalog_def builtin_providers_def provider_row_def)
    have "get_provider new_catalog p \<noteq> None \<longleftrightarrow> p \<in> set (map pi_id (mc_providers new_catalog))" for p
      by (auto simp: get_provider_def find_None_iff image_iff)
    moreover have "list_all (\<lambda>p. p \<in> set [''anthropic'', ''kimi'', ''deepseek'', ''minimax'', ''zhipu'', ''openrouter'', ''ollama'', ''mock''])
        (map me_provider builtin_models)"
      unfolding model_providers by code_simp
    ultimately show ?thesis unfolding ids by (simp add: list.pred_map comp_def)
  qed
  have "find_model (map ascii_lower) new_catalog a = None \<longleftrightarrow> found_name a = None"
    if "a \<in> set (concat (map me_aliases builtin_models))" for a
    using found [of a] that by (metis Un_iff map_option_is_None set_append)
  then have "filter (\<lambda>a. find_model (map ascii_lower) new_catalog a = None) (concat (map me_aliases builtin_models))
      = filter (\<lambda>a. found_name a = None) (concat (map me_aliases builtin_models))"
    by (rule filter_cong [OF refl])
  also have "\<dots> = [''llama'', ''mock'', ''demo'']" unfolding declared_aliases by code_simp
  finally show "filter (\<lambda>a. find_model (map ascii_lower) new_catalog a = None) (concat (map me_aliases builtin_models))
      = [''llama'', ''mock'', ''demo'']" .
qed

text \<open>
  A discovered model hides an alias of its name: when a local provider reports a model
  called \<open>deepseek-r1\<close>, that name, an alias of a paid model before, has the price zero for
  every agent, whatever its provider.
\<close>

theorem discovery_hides_alias:
  "pricing (map ascii_lower) new_catalog ''deepseek-r1'' = Some (7 / 50, 7 / 25)
   \<and> pricing (map ascii_lower) (merge_discovered_models (map ascii_lower) ''ollama'' [''deepseek-r1''] new_catalog) ''deepseek-r1'' = Some (0, 0)"
proof
  let ?low = "map ascii_lower" and ?r = "''deepseek-r1''"
  have low: "?low ?r = ?r" by (simp add: lower_keeps)
  have "map_option me_id (find (\<lambda>m. ?low (me_id m) = ?r) builtin_models) = None"
    unfolding find_lower lowered_ids by code_simp
  then have none: "find (\<lambda>m. ?low (me_id m) = ?r) builtin_models = None" by simp
  have "find (\<lambda>m. me_id m = ''deepseek-reasoner'') builtin_models =
      Some (model_entry ''deepseek-reasoner'' ''DeepSeek Reasoner (V4 Flash thinking alias, deprecated 2026-07-24)'' ''deepseek'' Smart_tier 1000000 384000
        (7 / 50) (7 / 25) True False True [''deepseek-r1''])"
    by (simp add: builtin_models_def)
  moreover have "alias_of new_catalog ?r = Some ''deepseek-reasoner''"
    by (simp add: alias_of_def new_catalog_def builtin_aliases_def)
  ultimately show "pricing ?low new_catalog ?r = Some (7 / 50, 7 / 25)"
    using none low by (simp add: pricing_def find_model_def new_catalog_def)
  have "mc_models (merge_discovered_models ?low ''ollama'' [?r] new_catalog) = builtin_models @ [discovered_entry ''ollama'' ?r]"
  proof -
    have "?low ?r \<notin> set (map (?low \<circ> me_id) (filter (\<lambda>m. me_provider m = ''ollama'') builtin_models))"
      using none low by (auto simp: find_None_iff)
    then show ?thesis by (simp add: merge_discovered_models_def Let_def new_catalog_def)
  qed
  moreover have "find (\<lambda>m. ?low (me_id m) = ?r) (builtin_models @ [discovered_entry ''ollama'' ?r]) = Some (discovered_entry ''ollama'' ?r)"
    using none low by (simp add: find_append_None discovered_entry_def)
  ultimately show "pricing ?low (merge_discovered_models ?low ''ollama'' [?r] new_catalog) ?r = Some (0, 0)"
    using low by (simp add: pricing_def find_model_def discovered_entry_def)
qed

end
