(* ===== verification/Llm_Drivers.thy ===== *)
theory Llm_Drivers
  imports Model_Catalog Llm_Call
begin

text \<open>
  Which driver answers a request: \<open>runtime/src/drivers/mod.rs\<close> creates a driver from a provider's
  name, a key and a URL, \<open>kernel.rs\<close> chooses the driver at boot and for an agent, the driver of
  \<open>drivers/fallback.rs\<close> asks a chain of drivers, and that of \<open>drivers/mock.rs\<close> echoes. A driver is
  the data it is created from; the HTTP clients are parameters. \<open>env\<close> reads an environment
  variable.
\<close>

section \<open>Requests and drivers\<close>

record completion_request =
  rq_model :: string
  rq_messages :: "message list"
  rq_tools :: "tool_definition list"
  rq_max_tokens :: nat
  rq_temperature :: "32 word"
  rq_system :: "string option"
  rq_thinking :: "thinking_config option"
  rq_format :: response_format

record driver_config =
  dc_provider :: string
  dc_api_key :: "string option"
  dc_base_url :: "string option"

datatype llm_driver =
    Mock_driver
  | Null_driver
  | Anthropic_driver string string
  | Openai_driver string string
  | Fallback_driver "llm_driver list"

record provider_defaults =
  pd_base_url :: string
  pd_key_env :: string
  pd_required :: bool

definition provider_defaults :: "string \<Rightarrow> provider_defaults option" where
  "provider_defaults p =
     (let defaults = (\<lambda>url env req. Some \<lparr> pd_base_url = url, pd_key_env = env, pd_required = req \<rparr>) in
      if p = ''anthropic'' then defaults anthropic_base_url ''ANTHROPIC_API_KEY'' True
      else if p = ''kimi'' then defaults kimi_code_base_url ''KIMI_API_KEY'' True
      else if p = ''deepseek'' then defaults deepseek_base_url ''DEEPSEEK_API_KEY'' True
      else if p = ''minimax'' then defaults minimax_base_url ''MINIMAX_API_KEY'' True
      else if p = ''zhipu'' \<or> p = ''glm'' then defaults zhipu_base_url ''ZHIPU_API_KEY'' True
      else if p = ''openrouter'' then defaults openrouter_base_url ''OPENROUTER_API_KEY'' True
      else if p = ''ollama'' then defaults ollama_base_url ''OLLAMA_API_KEY'' False
      else None)"

definition env_nonempty :: "(string \<Rightarrow> string option) \<Rightarrow> string \<Rightarrow> string option" where
  "env_nonempty env v = (case env v of Some s \<Rightarrow> if s = [] then None else Some s | None \<Rightarrow> None)"

definition pick_api_key :: "(string \<Rightarrow> string option) \<Rightarrow> string option \<Rightarrow> string \<Rightarrow> string option" where
  "pick_api_key env explicit v =
     (case explicit of
        Some s \<Rightarrow> if s = [] then env_nonempty env v else Some s
      | None \<Rightarrow> env_nonempty env v)"

definition provider_key_url :: "string \<Rightarrow> string option" where
  "provider_key_url p =
     (if p = ''anthropic'' then Some ''https://console.anthropic.com/settings/keys''
      else if p = ''kimi'' then Some ''https://platform.moonshot.ai/console/code''
      else if p = ''deepseek'' then Some ''https://platform.deepseek.com/api_keys''
      else if p = ''minimax'' then Some ''https://www.minimax.io/platform''
      else if p = ''zhipu'' \<or> p = ''glm'' then Some ''https://open.bigmodel.cn/usercenter/apikeys''
      else if p = ''openrouter'' then Some ''https://openrouter.ai/keys''
      else None)"

definition missing_key :: "string \<Rightarrow> string \<Rightarrow> string" where
  "missing_key v p =
     (case provider_key_url p of
        Some url \<Rightarrow> ''Set '' @ v @ '' environment variable for provider '' @ [CHR 0x27] @ p @ [CHR 0x27] @ '' (get one at '' @ url @ '')''
      | None \<Rightarrow> ''Set '' @ v @ '' environment variable for provider '' @ [CHR 0x27] @ p @ [CHR 0x27])"

definition unknown_provider :: "string \<Rightarrow> string" where
  "unknown_provider p = ''Unknown provider '' @ [CHR 0x27] @ p @ [CHR 0x27]
     @ ''. Supported: anthropic, kimi, deepseek, minimax, zhipu ''
     @ ''(alias glm), openrouter, ollama, mock (Demo Mode ''
     @ [CHR 0xE2, CHR 0x80, CHR 0x94] @ '' in-process echo, no key needed). ''
     @ ''Or set base_url for a custom OpenAI-compatible endpoint.''"

definition or_default :: "'a option \<Rightarrow> 'a \<Rightarrow> 'a" where
  "or_default x d = (case x of Some v \<Rightarrow> v | None \<Rightarrow> d)"

definition create_driver :: "(string \<Rightarrow> string option) \<Rightarrow> driver_config \<Rightarrow> llm_error + llm_driver" where
  "create_driver env c =
     (let p = dc_provider c in
      if p = ''mock'' then Inr Mock_driver
      else if p = ''anthropic'' then
        (case pick_api_key env (dc_api_key c) ''ANTHROPIC_API_KEY'' of
           None \<Rightarrow> Inl (MissingApiKey ''Set ANTHROPIC_API_KEY environment variable (get one at https://console.anthropic.com/settings/keys)'')
         | Some key \<Rightarrow> Inr (Anthropic_driver key (or_default (dc_base_url c) anthropic_base_url)))
      else if p = ''kimi'' then
        (case pick_api_key env (dc_api_key c) ''KIMI_API_KEY'' of
           None \<Rightarrow> Inl (MissingApiKey ''Set KIMI_API_KEY environment variable (get one at https://platform.moonshot.ai/console/code)'')
         | Some key \<Rightarrow> Inr (Anthropic_driver key (or_default (dc_base_url c) kimi_code_base_url)))
      else
        (case provider_defaults p of
           Some d \<Rightarrow>
             let key = or_default (pick_api_key env (dc_api_key c) (pd_key_env d)) [] in
             if pd_required d \<and> key = [] then Inl (MissingApiKey (missing_key (pd_key_env d) p))
             else Inr (Openai_driver key (or_default (dc_base_url c) (pd_base_url d)))
         | None \<Rightarrow>
             (case dc_base_url c of
                Some url \<Rightarrow> Inr (Openai_driver (or_default (dc_api_key c) []) url)
              | None \<Rightarrow> Inl (Api 0 (unknown_provider p)))))"

definition probe_order :: "(string \<times> string \<times> string) list" where
  "probe_order =
    [(''anthropic'', ''ANTHROPIC_API_KEY'', ''claude-sonnet-4-6''),
     (''kimi'', ''KIMI_API_KEY'', ''kimi-for-coding''),
     (''deepseek'', ''DEEPSEEK_API_KEY'', ''deepseek-v4-flash''),
     (''zhipu'', ''ZHIPU_API_KEY'', ''glm-4-plus''),
     (''minimax'', ''MINIMAX_API_KEY'', ''MiniMax-M2.7''),
     (''openrouter'', ''OPENROUTER_API_KEY'', ''anthropic/claude-sonnet-4.6'')]"

definition detect_available_provider :: "(string \<Rightarrow> string option) \<Rightarrow> (string \<times> string \<times> string) option" where
  "detect_available_provider env = find (\<lambda>(p, v, m). env_nonempty env v \<noteq> None) probe_order"

definition known_providers :: "string list" where
  "known_providers = [''anthropic'', ''kimi'', ''deepseek'', ''minimax'', ''zhipu'', ''glm'', ''openrouter'', ''ollama'', ''mock'']"

definition is_known_provider :: "string \<Rightarrow> bool" where
  "is_known_provider p \<longleftrightarrow> p \<in> set known_providers"

section \<open>Answers\<close>

text \<open>A chain of drivers, each a function of the request.\<close>

fun bubbles_up :: "llm_error \<Rightarrow> bool" where
  "bubbles_up (RateLimited ms) = True"
| "bubbles_up (Model_overloaded ms) = True"
| "bubbles_up e = False"

definition no_drivers :: llm_error where
  "no_drivers = Api 0 ''No drivers configured in fallback chain''"

fun fallback_complete :: "('r \<Rightarrow> llm_error + 'a) list \<Rightarrow> 'r \<Rightarrow> llm_error option \<Rightarrow> llm_error + 'a" where
  "fallback_complete [] r last_error = Inl (or_default last_error no_drivers)"
| "fallback_complete (d # ds) r last_error =
     (case d r of
        Inr x \<Rightarrow> Inr x
      | Inl e \<Rightarrow> if bubbles_up e then Inl e else fallback_complete ds r (Some e))"

text \<open>A streaming driver sends events and ends; the result holds what reached the receiver.\<close>

fun fallback_stream :: "('r \<Rightarrow> 'e list \<times> (llm_error + 'a)) list \<Rightarrow> 'r \<Rightarrow> llm_error option \<Rightarrow> 'e list \<times> (llm_error + 'a)" where
  "fallback_stream [] r last_error = ([], Inl (or_default last_error no_drivers))"
| "fallback_stream (d # ds) r last_error =
     (case d r of
        (es, Inr x) \<Rightarrow> (es, Inr x)
      | (es, Inl e) \<Rightarrow>
          if bubbles_up e \<or> es \<noteq> [] then (es, Inl e)
          else (let (es', x) = fallback_stream ds r (Some e) in (es @ es', x)))"

definition mock_user_text :: "message list \<Rightarrow> string" where
  "mock_user_text ms =
     (case find (\<lambda>m. msg_role m = User) (rev ms) of
        None \<Rightarrow> []
      | Some m \<Rightarrow>
          (case msg_content m of
             Text t \<Rightarrow> t
           | Blocks bs \<Rightarrow> join '' '' (List.map_filter (\<lambda>b. case b of TextBlock t \<Rightarrow> Some t | _ \<Rightarrow> None) bs)))"

definition mock_length :: "message \<Rightarrow> nat" where
  "mock_length m =
     (case msg_content m of
        Text t \<Rightarrow> length t
      | Blocks bs \<Rightarrow> sum_list (map (\<lambda>b. case b of TextBlock t \<Rightarrow> length t | _ \<Rightarrow> 0) bs))"

definition mock_complete :: "completion_request \<Rightarrow> llm_error + completion_response" where
  "mock_complete r =
     (let t = mock_user_text (rq_messages r);
          reply = (if t = [] then ''[mock] (no user message)'' else ''[mock] '' @ t)
      in Inr \<lparr> cr_content = [TextBlock reply], cr_stop = EndTurn, cr_tool_calls = [],
              cr_usage = \<lparr> input_tokens = of_nat (sum_list (map mock_length (rq_messages r)) div 4) + 1,
                          output_tokens = of_nat (length reply div 4) + 1 \<rparr> \<rparr>)"

definition null_message :: string where
  "null_message = ''No LLM provider configured. Set ANTHROPIC_API_KEY, KIMI_API_KEY, ''
     @ ''DEEPSEEK_API_KEY, MINIMAX_API_KEY, ZHIPU_API_KEY, or OPENROUTER_API_KEY, ''
     @ ''or run `rustyhand init` to choose a provider. Alternatively, unset ''
     @ ''RUSTYHAND_DISABLE_DEMO_MODE to fall back to the in-process mock ''
     @ ''driver (Demo Mode).''"

text \<open>The clients of the two protocols get key, URL and request.\<close>

record clients =
  cl_anthropic :: "string \<Rightarrow> string \<Rightarrow> completion_request \<Rightarrow> llm_error + completion_response"
  cl_openai :: "string \<Rightarrow> string \<Rightarrow> completion_request \<Rightarrow> llm_error + completion_response"

fun driver_complete :: "clients \<Rightarrow> llm_driver \<Rightarrow> completion_request \<Rightarrow> llm_error + completion_response" where
  "driver_complete C Mock_driver r = mock_complete r"
| "driver_complete C Null_driver r = Inl (Api 0 null_message)"
| "driver_complete C (Anthropic_driver key url) r = cl_anthropic C key url r"
| "driver_complete C (Openai_driver key url) r = cl_openai C key url r"
| "driver_complete C (Fallback_driver ds) r = fallback_complete (map (driver_complete C) ds) r None"

section \<open>The kernel's choice\<close>

record default_model =
  dm_provider :: string
  dm_model :: string
  dm_key_env :: string
  dm_base_url :: "string option"

record fallback_provider =
  fp_provider :: string
  fp_model :: string
  fp_key_env :: string
  fp_base_url :: "string option"

text \<open>The chain behind a driver: entries of unknown providers and those that fail are left out.\<close>

definition chain_of :: "llm_driver \<Rightarrow> (llm_error + llm_driver) option list \<Rightarrow> llm_driver" where
  "chain_of primary fbs =
     (let ds = List.map_filter (\<lambda>x. case x of Some (Inr d) \<Rightarrow> Some d | _ \<Rightarrow> None) fbs
      in if ds = [] then primary else Fallback_driver (primary # ds))"

definition boot_fallback :: "(string \<Rightarrow> string option) \<Rightarrow> fallback_provider \<Rightarrow> (llm_error + llm_driver) option" where
  "boot_fallback env fb =
     (if \<not> is_known_provider (fp_provider fb) \<and> fp_base_url fb = None then None
      else Some (create_driver env \<lparr> dc_provider = fp_provider fb,
             dc_api_key = (if fp_key_env fb = [] then None else env (fp_key_env fb)), dc_base_url = fp_base_url fb \<rparr>))"

definition demo_disabled :: "(string \<Rightarrow> string option) \<Rightarrow> bool" where
  "demo_disabled env =
     (case env ''RUSTYHAND_DISABLE_DEMO_MODE'' of Some v \<Rightarrow> v \<noteq> [] \<and> v \<noteq> ''0'' \<and> v \<noteq> ''false'' | None \<Rightarrow> False)"

text \<open>The default driver at boot, with the default model as it is changed on the way.\<close>

definition boot_primary :: "(string \<Rightarrow> string option) \<Rightarrow> default_model \<Rightarrow> default_model \<times> (string + llm_driver)" where
  "boot_primary env dm =
     (case create_driver env \<lparr> dc_provider = dm_provider dm, dc_api_key = env (dm_key_env dm), dc_base_url = dm_base_url dm \<rparr> of
        Inr d \<Rightarrow> (dm, Inr d)
      | Inl e \<Rightarrow>
          (case detect_available_provider env of
             Some (p, v, m) \<Rightarrow>
               (dm\<lparr> dm_provider := p, dm_model := m, dm_key_env := v \<rparr>,
                case create_driver env \<lparr> dc_provider = p, dc_api_key = env v, dc_base_url = None \<rparr> of
                  Inr d \<Rightarrow> Inr d
                | Inl e2 \<Rightarrow> Inl (''Auto-detected provider '' @ [CHR 0x27] @ p @ [CHR 0x27] @ '' also failed: '' @ llm_error_str e2))
           | None \<Rightarrow>
               if demo_disabled env then (dm, Inr Null_driver)
               else (dm\<lparr> dm_provider := ''mock'', dm_model := ''mock-model'' \<rparr>, Inr Mock_driver)))"

definition boot_driver :: "(string \<Rightarrow> string option) \<Rightarrow> default_model \<Rightarrow> fallback_provider list
    \<Rightarrow> default_model \<times> (string + llm_driver)" where
  "boot_driver env dm fbs =
     (case boot_primary env dm of
        (dm, Inl e) \<Rightarrow> (dm, Inl e)
      | (dm, Inr d) \<Rightarrow> (dm, Inr (chain_of d (map (boot_fallback env) fbs))))"

definition pick_profile_env_var :: "auth_profile list option \<Rightarrow> string \<Rightarrow> (string \<Rightarrow> bool) \<Rightarrow> string" where
  "pick_profile_env_var profiles default_env is_set =
     (case profiles of
        None \<Rightarrow> default_env
      | Some ps \<Rightarrow>
          (case sort_key priority ps of
             [] \<Rightarrow> default_env
           | best # _ \<Rightarrow> if is_set (api_key_env best) then api_key_env best else default_env))"

definition agent_fallback :: "(string \<Rightarrow> string option) \<Rightarrow> fallback_model \<Rightarrow> (llm_error + llm_driver) option" where
  "agent_fallback env fb =
     (if \<not> is_known_provider (fm_provider fb) \<and> fm_base_url fb = None then None
      else Some (create_driver env \<lparr> dc_provider = fm_provider fb,
             dc_api_key = (case fm_api_key_env fb of Some v \<Rightarrow> env_nonempty env v | None \<Rightarrow> None),
             dc_base_url = fm_base_url fb \<rparr>))"

definition resolve_driver :: "(string \<Rightarrow> string option) \<Rightarrow> default_model \<Rightarrow> (string \<Rightarrow> auth_profile list option) \<Rightarrow> llm_driver
    \<Rightarrow> 'j agent_manifest \<Rightarrow> string + llm_driver" where
  "resolve_driver env dm profiles default_driver m =
     (let mc = mf_model m;
          key_env = pick_profile_env_var (profiles (mc_provider mc)) (or_default (mc_api_key_env mc) (dm_key_env dm))
            (\<lambda>v. env_nonempty env v \<noteq> None);
          primary =
            (if mc_provider mc = dm_provider dm \<and> mc_api_key_env mc = None \<and> mc_base_url mc = None then Inr default_driver
             else case create_driver env \<lparr> dc_provider = mc_provider mc, dc_api_key = env key_env, dc_base_url = mc_base_url mc \<rparr> of
                    Inr d \<Rightarrow> Inr d
                  | Inl e \<Rightarrow> Inl (''Agent LLM driver init failed: '' @ llm_error_str e))
      in case primary of
           Inl e \<Rightarrow> Inl e
         | Inr d \<Rightarrow> Inr (chain_of d (map (agent_fallback env) (mf_fallbacks m))))"

end
