(* ===== verification/Llm_Driver_Theorems.thy ===== *)
theory Llm_Driver_Theorems
  imports Llm_Drivers
begin

text \<open>
  What the choice of a driver guarantees: the kernel always boots with one, a chain asks its
  drivers in order and never mixes two streams, and which key goes to which URL.
\<close>

section \<open>Boot\<close>

lemma find_some: "find P xs = Some x \<Longrightarrow> x \<in> set xs \<and> P x"
  by (induction xs) (auto split: if_splits)

lemma nonempty_picked:
  assumes "env_nonempty env v \<noteq> None"
  obtains key where "env v = Some key" "key \<noteq> []" "pick_api_key env (env v) v = Some key"
  using assms by (auto simp: env_nonempty_def pick_api_key_def split: option.splits if_splits)

lemma create_with_key:
  assumes "provider_defaults p = Some pd" and "pick_api_key env x (pd_key_env pd) = Some key" and "key \<noteq> []"
  shows "\<exists>d. create_driver env \<lparr> dc_provider = p, dc_api_key = x, dc_base_url = u \<rparr> = Inr d"
proof -
  consider "p = ''anthropic''" | "p = ''kimi''" | "p \<notin> {''anthropic'', ''kimi''}" by blast
  then show ?thesis
  proof cases
    case 1
    then have "pd_key_env pd = ''ANTHROPIC_API_KEY''" using assms(1) by (auto simp: provider_defaults_def)
    then show ?thesis using 1 assms(2) by (simp add: create_driver_def)
  next
    case 2
    then have "pd_key_env pd = ''KIMI_API_KEY''" using assms(1) by (auto simp: provider_defaults_def)
    then show ?thesis using 2 assms(2) by (simp add: create_driver_def)
  next
    case 3
    have "p \<noteq> ''mock''" using assms(1) by (auto simp: provider_defaults_def)
    then show ?thesis using 3 assms by (simp add: create_driver_def or_default_def)
  qed
qed

lemma probes_have_defaults:
  "list_all (\<lambda>(p, v, m). map_option pd_key_env (provider_defaults p) = Some v) probe_order"
  by (simp add: probe_order_def provider_defaults_def)

lemma probe_creatable:
  assumes "(p, v, m) \<in> set probe_order" and "env_nonempty env v \<noteq> None"
  obtains d where "create_driver env \<lparr> dc_provider = p, dc_api_key = env v, dc_base_url = None \<rparr> = Inr d"
proof -
  obtain pd where pd: "provider_defaults p = Some pd" "pd_key_env pd = v"
    using probes_have_defaults assms(1) by (auto simp: list_all_iff)
  obtain key where "pick_api_key env (env v) v = Some key" "key \<noteq> []"
    using nonempty_picked [OF assms(2)] by metis
  then show thesis using create_with_key [OF pd(1), of env "env v"] pd(2) that by blast
qed

text \<open>
  C38: The kernel always gets a driver at boot, whatever the configuration and the environment: a
  provider that is detected by its key can be created with it.
\<close>

theorem boot_has_driver:
  "\<exists>d. snd (boot_driver env dm fbs) = Inr d"
proof -
  have "\<exists>dm' d. boot_primary env dm = (dm', Inr d)"
  proof (cases "create_driver env \<lparr> dc_provider = dm_provider dm, dc_api_key = env (dm_key_env dm), dc_base_url = dm_base_url dm \<rparr>")
    case (Inl e)
    show ?thesis
    proof (cases "detect_available_provider env")
      case None
      then show ?thesis using Inl by (simp add: boot_primary_def)
    next
      case (Some x)
      obtain p v m where x: "x = (p, v, m)" by (metis surj_pair)
      then have "(p, v, m) \<in> set probe_order" "env_nonempty env v \<noteq> None"
        using find_some [of _ probe_order "(p, v, m)"] Some by (auto simp: detect_available_provider_def)
      then obtain d where "create_driver env \<lparr> dc_provider = p, dc_api_key = env v, dc_base_url = None \<rparr> = Inr d"
        by (rule probe_creatable)
      then show ?thesis using Inl Some x by (simp add: boot_primary_def)
    qed
  qed (simp add: boot_primary_def)
  then show ?thesis by (auto simp: boot_driver_def)
qed

text \<open>The model that is proposed with a detected provider is a model of that provider in the catalog.\<close>

lemma probe_models_known:
  "list_all (\<lambda>(p, v, m). list_ex (\<lambda>e. me_id e = m \<and> me_provider e = p) builtin_models) probe_order"
  by (simp add: probe_order_def builtin_models_def)

section \<open>Chains\<close>

text \<open>
  A chain of drivers answers with the first driver that answers, as long as every driver
  before it failed with an error that a retry does not heal.
\<close>

theorem fallback_answers_first:
  "fallback_complete ds r le = Inr x \<longleftrightarrow>
     (\<exists>i < length ds. (ds ! i) r = Inr x \<and> list_all (\<lambda>d. case d r of Inl e \<Rightarrow> \<not> bubbles_up e | Inr y \<Rightarrow> False) (take i ds))"
proof (induction ds arbitrary: le)
  case (Cons d ds)
  show ?case
  proof (cases "d r")
    case (Inr y)
    then show ?thesis by (auto simp: Ex_less_Suc2)
  next
    case (Inl e)
    then show ?thesis using Cons.IH [of "Some e"] by (simp add: Ex_less_Suc2)
  qed
qed simp

lemma fallback_stream_shape:
  "\<exists>i. fst (fallback_stream ds r le) = concat (map (\<lambda>d. fst (d r)) (take (Suc i) ds))
     \<and> list_all (\<lambda>d. fst (d r) = []) (take i ds)"
proof (induction ds arbitrary: le)
  case (Cons d ds)
  obtain es res where d: "d r = (es, res)" by (metis surj_pair)
  show ?case
  proof (cases "\<exists>e. res = Inl e \<and> \<not> bubbles_up e \<and> es = []")
    case True
    then obtain e where e: "res = Inl e" "\<not> bubbles_up e" "es = []" by blast
    obtain i where i: "fst (fallback_stream ds r (Some e)) = concat (map (\<lambda>d. fst (d r)) (take (Suc i) ds))"
      "list_all (\<lambda>d. fst (d r) = []) (take i ds)" using Cons.IH [of "Some e"] by blast
    show ?thesis using d e i by (intro exI [of _ "Suc i"]) (simp add: case_prod_beta)
  next
    case False
    then have "fst (fallback_stream (d # ds) r le) = es" using d by (auto split: sum.splits)
    then show ?thesis using d by (intro exI [of _ 0]) simp
  qed
qed simp

text \<open>
  What a chain of streaming drivers sends to the receiver is the stream of one driver only,
  never a part of one followed by the output of another.
\<close>

theorem stream_has_one_voice:
  "fst (fallback_stream ds r le) = [] \<or> fst (fallback_stream ds r le) \<in> (\<lambda>d. fst (d r)) ` set ds"
proof -
  obtain i where i: "fst (fallback_stream ds r le) = concat (map (\<lambda>d. fst (d r)) (take (Suc i) ds))"
    "list_all (\<lambda>d. fst (d r) = []) (take i ds)" using fallback_stream_shape [of ds r le] by blast
  show ?thesis
  proof (cases "i < length ds")
    case True
    moreover have "concat (map (\<lambda>d. fst (d r)) (take i ds)) = []" using i(2) by (auto simp: list_all_iff)
    ultimately have "fst (fallback_stream ds r le) = fst ((ds ! i) r)" by (simp add: i(1) take_Suc_conv_app_nth)
    then show ?thesis using True by auto
  next
    case False
    then have "fst (fallback_stream ds r le) = []" using i by (auto simp: list_all_iff)
    then show ?thesis ..
  qed
qed

section \<open>The driver of an agent\<close>

lemma same_fallbacks: "agent_fallback env (f\<lparr> fm_model := x \<rparr>) = agent_fallback env f"
  by (simp add: agent_fallback_def)

text \<open>
  The models that a manifest names for its fallbacks have no effect: whatever they are, the
  agent gets the same chain of drivers, and every driver of it is asked for the primary model.
\<close>

theorem fallback_models_ignored:
  "resolve_driver env dm profiles d (m\<lparr> mf_fallbacks := map (\<lambda>f. f\<lparr> fm_model := g f \<rparr>) (mf_fallbacks m) \<rparr>)
     = resolve_driver env dm profiles d m"
  by (simp add: resolve_driver_def Let_def comp_def same_fallbacks cong: sum.case_cong if_cong)

text \<open>
  C24: An agent that uses another provider than the default one and names no variable for its key
  gets the key of the default provider, although its own provider's key is set: that key is
  sent to the other provider's URL.
\<close>

theorem default_key_goes_elsewhere:
  assumes "provider_defaults p = Some d" and "p \<notin> {''anthropic'', ''kimi''}"
    and "mc_provider (mf_model m) = p" and "dm_provider dm \<noteq> p" and "mc_api_key_env (mf_model m) = None"
    and "mf_fallbacks m = []" and "profiles p = None" and "env (dm_key_env dm) = Some key" and "key \<noteq> []"
  shows "resolve_driver env dm profiles default_driver m
    = Inr (Openai_driver key (or_default (mc_base_url (mf_model m)) (pd_base_url d)))"
proof -
  have "p \<noteq> ''mock''" using assms(1) by (auto simp: provider_defaults_def)
  then have "create_driver env \<lparr> dc_provider = p, dc_api_key = Some key, dc_base_url = mc_base_url (mf_model m) \<rparr>
      = Inr (Openai_driver key (or_default (mc_base_url (mf_model m)) (pd_base_url d)))"
    using assms(1,2,9) by (simp add: create_driver_def pick_api_key_def or_default_def)
  then show ?thesis
    using assms(3-8) by (simp add: resolve_driver_def Let_def pick_profile_env_var_def or_default_def chain_of_def List.map_filter_simps)
qed

text \<open>
  Of the profiles of a provider only the one of the best priority counts: when its variable
  is not set, the default variable is used, also when another profile's is set.
\<close>

theorem only_best_profile_counts:
  assumes "sort_key priority ps = best # others" and "\<not> is_set (api_key_env best)"
  shows "pick_profile_env_var (Some ps) default_env is_set = default_env"
  using assms by (simp add: pick_profile_env_var_def)

text \<open>A driver of a provider that needs a key has one.\<close>

lemma picked_nonempty: "pick_api_key env x v = Some k \<Longrightarrow> k \<noteq> []"
  by (auto simp: pick_api_key_def env_nonempty_def split: option.splits if_splits)

theorem created_driver_has_key:
  assumes "create_driver env c = Inr d" and "provider_defaults (dc_provider c) = Some pd" and "pd_required pd"
  shows "\<exists>key url. key \<noteq> [] \<and> (d = Anthropic_driver key url \<or> d = Openai_driver key url)"
proof -
  have "dc_provider c \<noteq> ''mock''" using assms(2) by (auto simp: provider_defaults_def)
  then show ?thesis
    using assms picked_nonempty [of env "dc_api_key c"]
    by (auto simp: create_driver_def Let_def or_default_def split: if_splits option.splits)
qed

section \<open>Witnesses\<close>

definition two_keys :: "string \<Rightarrow> string option" where
  "two_keys v = (if v = ''ANTHROPIC_API_KEY'' then Some ''A'' else if v = ''DEEPSEEK_API_KEY'' then Some ''D'' else None)"

definition anthropic_default :: default_model where
  "anthropic_default = \<lparr> dm_provider = ''anthropic'', dm_model = ''claude-sonnet-4-6'', dm_key_env = ''ANTHROPIC_API_KEY'', dm_base_url = None \<rparr>"

definition deepseek_manifest :: "unit agent_manifest" where
  "deepseek_manifest = (let m = default_manifest in
     m\<lparr> mf_model := (mf_model m)\<lparr> mc_provider := ''deepseek'', mc_api_key_env := None, mc_base_url := None \<rparr>, mf_fallbacks := [] \<rparr>)"

lemma default_key_goes_elsewhere_witness:
  "two_keys ''DEEPSEEK_API_KEY'' = Some ''D''
   \<and> resolve_driver two_keys anthropic_default (\<lambda>p. None) Mock_driver deepseek_manifest = Inr (Openai_driver ''A'' deepseek_base_url)"
proof -
  have "provider_defaults ''deepseek'' = Some \<lparr> pd_base_url = deepseek_base_url, pd_key_env = ''DEEPSEEK_API_KEY'', pd_required = True \<rparr>"
    by (simp add: provider_defaults_def)
  from default_key_goes_elsewhere [OF this, of deepseek_manifest anthropic_default "\<lambda>p. None" two_keys "''A''" Mock_driver]
  show ?thesis by (simp add: deepseek_manifest_def Let_def anthropic_default_def two_keys_def or_default_def)
qed

definition two_profiles :: "auth_profile list" where
  "two_profiles = [\<lparr> profile_name = ''second'', api_key_env = ''K2'', priority = 1 \<rparr>, \<lparr> profile_name = ''first'', api_key_env = ''K1'', priority = 0 \<rparr>]"

lemma only_best_profile_counts_witness:
  "pick_profile_env_var (Some two_profiles) ''DEFAULT'' (\<lambda>v. v = ''K2'') = ''DEFAULT''"
  by (rule only_best_profile_counts [of _ "\<lparr> profile_name = ''first'', api_key_env = ''K1'', priority = 0 \<rparr>"
      "[\<lparr> profile_name = ''second'', api_key_env = ''K2'', priority = 1 \<rparr>]"]) (simp_all add: two_profiles_def)

lemma created_driver_has_key_witness:
  "create_driver two_keys \<lparr> dc_provider = ''deepseek'', dc_api_key = None, dc_base_url = None \<rparr> = Inr (Openai_driver ''D'' deepseek_base_url)
   \<and> (\<exists>key url. key \<noteq> [] \<and> (Openai_driver ''D'' deepseek_base_url = Anthropic_driver key url
        \<or> Openai_driver ''D'' deepseek_base_url = Openai_driver key url))"
proof -
  let ?c = "\<lparr> dc_provider = ''deepseek'', dc_api_key = None, dc_base_url = None \<rparr>"
  have pd: "provider_defaults ''deepseek'' = Some \<lparr> pd_base_url = deepseek_base_url, pd_key_env = ''DEEPSEEK_API_KEY'', pd_required = True \<rparr>"
    by (simp add: provider_defaults_def)
  have c: "create_driver two_keys ?c = Inr (Openai_driver ''D'' deepseek_base_url)"
    by (simp add: create_driver_def pd pick_api_key_def env_nonempty_def two_keys_def or_default_def)
  show ?thesis using c created_driver_has_key [OF c] pd by simp
qed

end
