(* ===== verification/Canonical_Session.thy ===== *)
theory Canonical_Session
  imports Session_Repair Rust_Text
begin

text \<open>
  The canonical session of an agent and the search text of a session, \<open>memory/src/session.rs\<close>.
  A canonical session collects the messages of all channels; above a threshold its older
  messages become lines of a summary. The row of an agent is what \<open>load_canonical\<close> returns; the
  time of an update is its printed form.
\<close>

section \<open>The search text\<close>

definition content_max_bytes :: nat where "content_max_bytes = 64 * 1024"

definition line_break :: string where "line_break = [CHR 0x0A]"

definition searchable_text :: "message_content \<Rightarrow> string" where
  "searchable_text c =
     (case c of
        Text t \<Rightarrow> t
      | Blocks bs \<Rightarrow> join '' '' (List.map_filter (\<lambda>b. case b of TextBlock t \<Rightarrow> Some t | _ \<Rightarrow> None) bs))"

fun extract_content_loop :: "message list \<Rightarrow> string \<Rightarrow> string" where
  "extract_content_loop [] out = out"
| "extract_content_loop (m # ms) out =
     (let out = (if out = [] then out else out @ line_break) @ searchable_text (msg_content m) in
      if content_max_bytes \<le> length out then truncate_bytes out content_max_bytes
      else extract_content_loop ms out)"

definition extract_content_text :: "message list \<Rightarrow> string" where
  "extract_content_text ms = extract_content_loop ms []"

section \<open>Canonical sessions\<close>

definition default_canonical_window :: nat where "default_canonical_window = 50"
definition default_compaction_threshold :: nat where "default_compaction_threshold = 100"

record canonical_session =
  cs_messages :: "message list"
  cs_cursor :: nat
  cs_summary :: "string option"
  cs_updated :: string

text \<open>\<open>load_canonical\<close>: no row is an empty session of now.\<close>

definition load_canonical :: "string \<Rightarrow> canonical_session option \<Rightarrow> canonical_session" where
  "load_canonical now row =
     (case row of
        Some c \<Rightarrow> c
      | None \<Rightarrow> \<lparr> cs_messages = [], cs_cursor = 0, cs_summary = None, cs_updated = now \<rparr>)"

fun summary_role :: "role \<Rightarrow> string" where
  "summary_role User = ''User''"
| "summary_role Assistant = ''Assistant''"
| "summary_role System = ''System''"

definition summary_line :: "message \<Rightarrow> string option" where
  "summary_line m =
     (let text = text_content (msg_content m) in
      if text = [] then None
      else Some (summary_role (msg_role m) @ '': ''
             @ (if 200 < length text then truncate_bytes text 200 @ ''...'' else text)))"

definition clip_summary :: "string \<Rightarrow> string" where
  "clip_summary s = (if 4000 < length s then drop (floor_char_boundary s (length s - 4000)) s else s)"

definition summarise :: "string option \<Rightarrow> message list \<Rightarrow> string" where
  "summarise existing ms =
     clip_summary (join line_break ((case existing of Some e \<Rightarrow> [e] | None \<Rightarrow> []) @ List.map_filter summary_line ms))"

definition append_canonical :: "string \<Rightarrow> message list \<Rightarrow> nat option \<Rightarrow> canonical_session \<Rightarrow> canonical_session" where
  "append_canonical now new_messages compaction_threshold c =
     (let c = c\<lparr> cs_messages := cs_messages c @ new_messages \<rparr>;
          threshold = (case compaction_threshold of Some t \<Rightarrow> t | None \<Rightarrow> default_compaction_threshold);
          to_compact = length (cs_messages c) - default_canonical_window;
          c = (if threshold < length (cs_messages c) \<and> cs_cursor c < to_compact
               then c\<lparr> cs_summary := Some (summarise (cs_summary c) (drop (cs_cursor c) (take to_compact (cs_messages c)))),
                       cs_messages := drop to_compact (cs_messages c), cs_cursor := 0 \<rparr>
               else c)
      in c\<lparr> cs_updated := now \<rparr>)"

definition canonical_context :: "nat option \<Rightarrow> canonical_session \<Rightarrow> string option \<times> message list" where
  "canonical_context window_size c =
     (let window = (case window_size of Some w \<Rightarrow> w | None \<Rightarrow> default_canonical_window)
      in (cs_summary c, drop (length (cs_messages c) - window) (cs_messages c)))"

definition store_llm_summary :: "string \<Rightarrow> string \<Rightarrow> message list \<Rightarrow> canonical_session \<Rightarrow> canonical_session" where
  "store_llm_summary now summary kept c =
     c\<lparr> cs_summary := Some summary, cs_messages := kept, cs_cursor := 0, cs_updated := now \<rparr>"

section \<open>Properties\<close>

lemma truncated_ok: "utf8_ok s \<Longrightarrow> length (truncate_bytes s m) \<le> m \<and> utf8_ok (truncate_bytes s m)"
  using boundary_prefix_ok [of s "snap_down s m"] snap_down_boundary [of s m] snap_down_le [of s m]
  by (simp add: truncate_bytes_def)

text \<open>
  The search text of a session is at most 64 KB long, whatever the session, and cutting it
  never splits a character.
\<close>

theorem content_text_bounded:
  assumes "\<forall>m \<in> set ms. utf8_ok (searchable_text (msg_content m))"
  shows "length (extract_content_text ms) \<le> content_max_bytes \<and> utf8_ok (extract_content_text ms)"
proof -
  have nl: "utf8_ok line_break" by code_simp
  have "length (extract_content_loop ms out) \<le> content_max_bytes \<and> utf8_ok (extract_content_loop ms out)"
    if "length out \<le> content_max_bytes" "utf8_ok out" "\<forall>m \<in> set ms. utf8_ok (searchable_text (msg_content m))" for out
    using that
  proof (induction ms out rule: extract_content_loop.induct)
    case (2 m ms out)
    define t where "t = (if out = [] then out else out @ line_break) @ searchable_text (msg_content m)"
    have ok: "utf8_ok t" using 2(3,4) nl by (simp add: t_def utf8_ok_append)
    have step: "extract_content_loop (m # ms) out = (if content_max_bytes \<le> length t then truncate_bytes t content_max_bytes
        else extract_content_loop ms t)" by (simp add: Let_def t_def)
    show ?case
    proof (cases "content_max_bytes \<le> length t")
      case True
      then show ?thesis unfolding step using truncated_ok [OF ok] by simp
    next
      case False
      then show ?thesis unfolding step using 2(1) [OF t_def] 2(4) ok by simp
    qed
  qed simp
  from this [of "[]"] assms show ?thesis by (simp add: extract_content_text_def)
qed

lemma clip_summary_bound:
  assumes "utf8_ok s"
  shows "length (clip_summary s) \<le> 4003"
proof (cases "4000 < length s")
  case True
  obtain i where i: "is_char_boundary s i" "i \<le> length s - 4000" "length s - 4000 \<le> i + 3"
    using boundary_near [OF assms, of "length s - 4000"] by auto
  have "i \<le> snap_down s (length s - 4000)" by (rule snap_down_greatest [OF i(1,2)])
  then have "length s - snap_down s (length s - 4000) \<le> 4003" using i(3) by linarith
  then show ?thesis using True by (simp add: clip_summary_def floor_char_boundary_def)
qed (simp add: clip_summary_def)

text \<open>
  A canonical session never holds more than a hundred messages after an append, and nothing
  is dropped unseen: the messages are the new ones behind the old ones without a leading part,
  each message of which is a line of the summary, behind the lines of the summary before; the
  summary keeps its last 4000 bytes, from a character boundary.
\<close>

theorem append_canonical_summarises:
  assumes "cs_cursor c = 0" and "append_canonical now new None c = c'"
  shows "length (cs_messages c') \<le> 100 \<and> cs_cursor c' = 0
    \<and> (\<exists>old. cs_messages c @ new = old @ cs_messages c'
         \<and> cs_summary c' = (if old = [] then cs_summary c else Some (summarise (cs_summary c) old)))"
proof -
  define xs where "xs = cs_messages c @ new"
  define n where "n = length xs - 50"
  show ?thesis
  proof (cases "100 < length xs")
    case True
    then have "0 < n" "n < length xs" by (auto simp: n_def)
    moreover have "cs_messages c' = drop n xs" "cs_cursor c' = 0" "cs_summary c' = Some (summarise (cs_summary c) (take n xs))"
      using assms True calculation
      by (auto simp: append_canonical_def Let_def default_canonical_window_def default_compaction_threshold_def
          simp flip: xs_def n_def)
    moreover have "length (drop n xs) = 50" using True by (simp add: n_def)
    moreover have "take n xs \<noteq> []" using calculation(1,2) by auto
    ultimately show ?thesis unfolding xs_def [symmetric] by (intro conjI exI [of _ "take n xs"]) simp_all
  next
    case False
    then have "\<not> default_compaction_threshold < length xs" by (simp add: default_compaction_threshold_def)
    then have "c' = c\<lparr> cs_messages := xs, cs_updated := now \<rparr>"
      using assms(2) by (simp add: append_canonical_def Let_def flip: xs_def)
    then show ?thesis using False assms(1) by (simp flip: xs_def)
  qed
qed

definition full_canonical :: canonical_session where
  "full_canonical = \<lparr> cs_messages = replicate 100 (user_message ''x''), cs_cursor = 0, cs_summary = Some ''User: a'', cs_updated = ''t'' \<rparr>"

lemma content_text_bounded_witness:
  "length (extract_content_text [user_message ''hi'']) \<le> content_max_bytes \<and> utf8_ok (extract_content_text [user_message ''hi''])"
proof (rule content_text_bounded)
  have "utf8_ok ''hi''" by code_simp
  then show "\<forall>m \<in> set [user_message ''hi'']. utf8_ok (searchable_text (msg_content m))"
    by (simp add: searchable_text_def user_message_def)
qed

lemma append_canonical_summarises_witness:
  "length (cs_messages (append_canonical ''now'' [user_message ''y''] None full_canonical)) \<le> 100"
  using append_canonical_summarises [OF _ refl, of full_canonical "''now''" "[user_message ''y'']"]
  by (simp add: full_canonical_def)

end
