(* ===== verification/Usage_Metering.thy ===== *)
theory Usage_Metering
  imports Agent_Types Audit_Log
begin

text \<open>
  The usage events of \<open>memory/src/usage.rs\<close> and the metering engine \<open>kernel/src/metering.rs\<close>. An
  event is a row with the text of its time; the queries compare texts byte by byte, as SQLite
  does. Instants are nanoseconds since the epoch; how an instant is printed (the date, the time
  of day, the fraction) and how SQLite adds up costs are parameters. A failure of the database
  is an argument.
\<close>

section \<open>Texts of instants\<close>

text \<open>The binary collation of SQLite.\<close>

fun text_less :: "string \<Rightarrow> string \<Rightarrow> bool" where
  "text_less [] [] = False"
| "text_less [] (d # ds) = True"
| "text_less (c # cs) [] = False"
| "text_less (c # cs) (d # ds) = (of_char c < (of_char d :: nat) \<or> c = d \<and> text_less cs ds)"

record calendar =
  cal_date :: "nat \<Rightarrow> string"
  cal_clock :: "nat \<Rightarrow> string"
  cal_fraction :: "nat \<Rightarrow> string"

definition rfc3339 :: "calendar \<Rightarrow> nat \<Rightarrow> string" where
  "rfc3339 C t = cal_date C t @ ''T'' @ cal_clock C t @ cal_fraction C t @ ''+00:00''"

definition sql_datetime :: "calendar \<Rightarrow> nat \<Rightarrow> string" where
  "sql_datetime C t = cal_date C t @ '' '' @ cal_clock C t"

definition start_of_day :: "calendar \<Rightarrow> nat \<Rightarrow> string" where
  "start_of_day C now = cal_date C now @ '' 00:00:00''"

definition start_of_month :: "calendar \<Rightarrow> nat \<Rightarrow> string" where
  "start_of_month C now = take 8 (cal_date C now) @ ''01 00:00:00''"

definition hour_nanos :: nat where "hour_nanos = 3600 * 1000000000"
definition day_nanos :: nat where "day_nanos = 24 * hour_nanos"

section \<open>The usage store\<close>

record usage_event =
  ue_agent :: nat
  ue_time :: nat
  ue_model :: string
  ue_input :: nat
  ue_output :: nat
  ue_cost :: amount
  ue_calls :: nat

record usage_db =
  db_calendar :: calendar
  db_sum :: "amount list \<Rightarrow> amount"
  db_failure :: "rh_error option"

definition costs :: "usage_event list \<Rightarrow> (usage_event \<Rightarrow> bool) \<Rightarrow> usage_db \<Rightarrow> rh_error + amount" where
  "costs es P D = (case db_failure D of Some err \<Rightarrow> Inl err | None \<Rightarrow> Inr (db_sum D (map ue_cost (filter P es))))"

definition record_event :: "usage_db \<Rightarrow> usage_event \<Rightarrow> usage_event list \<Rightarrow> usage_event list \<times> (rh_error + unit)" where
  "record_event D e es = (case db_failure D of Some err \<Rightarrow> (es, Inl err) | None \<Rightarrow> (es @ [e], Inr ()))"

definition in_hour :: "calendar \<Rightarrow> nat \<Rightarrow> usage_event \<Rightarrow> bool" where
  "in_hour C now e = text_less (sql_datetime C (now - hour_nanos)) (sql_datetime C (ue_time e))"

definition in_day :: "calendar \<Rightarrow> nat \<Rightarrow> usage_event \<Rightarrow> bool" where
  "in_day C now e = text_less (start_of_day C now) (rfc3339 C (ue_time e))"

definition in_month :: "calendar \<Rightarrow> nat \<Rightarrow> usage_event \<Rightarrow> bool" where
  "in_month C now e = text_less (start_of_month C now) (rfc3339 C (ue_time e))"

definition query_hourly :: "usage_db \<Rightarrow> nat \<Rightarrow> nat \<Rightarrow> usage_event list \<Rightarrow> rh_error + amount" where
  "query_hourly D now a es = costs es (\<lambda>e. ue_agent e = a \<and> in_hour (db_calendar D) now e) D"

definition query_daily :: "usage_db \<Rightarrow> nat \<Rightarrow> nat \<Rightarrow> usage_event list \<Rightarrow> rh_error + amount" where
  "query_daily D now a es = costs es (\<lambda>e. ue_agent e = a \<and> in_day (db_calendar D) now e) D"

definition query_monthly :: "usage_db \<Rightarrow> nat \<Rightarrow> nat \<Rightarrow> usage_event list \<Rightarrow> rh_error + amount" where
  "query_monthly D now a es = costs es (\<lambda>e. ue_agent e = a \<and> in_month (db_calendar D) now e) D"

definition query_global_hourly :: "usage_db \<Rightarrow> nat \<Rightarrow> usage_event list \<Rightarrow> rh_error + amount" where
  "query_global_hourly D now es = costs es (in_hour (db_calendar D) now) D"

definition query_today_cost :: "usage_db \<Rightarrow> nat \<Rightarrow> usage_event list \<Rightarrow> rh_error + amount" where
  "query_today_cost D now es = costs es (in_day (db_calendar D) now) D"

definition query_global_monthly :: "usage_db \<Rightarrow> nat \<Rightarrow> usage_event list \<Rightarrow> rh_error + amount" where
  "query_global_monthly D now es = costs es (in_month (db_calendar D) now) D"

text \<open>Old events are deleted by comparing the stored text with a threshold in SQLite's form.\<close>

definition is_old :: "calendar \<Rightarrow> nat \<Rightarrow> nat \<Rightarrow> usage_event \<Rightarrow> bool" where
  "is_old C now days e = text_less (rfc3339 C (ue_time e)) (sql_datetime C (now - days * day_nanos))"

definition cleanup_old :: "usage_db \<Rightarrow> nat \<Rightarrow> nat \<Rightarrow> usage_event list \<Rightarrow> usage_event list \<times> (rh_error + nat)" where
  "cleanup_old D now days es =
     (case db_failure D of
        Some err \<Rightarrow> (es, Inl err)
      | None \<Rightarrow> (filter (\<lambda>e. \<not> is_old (db_calendar D) now days e) es,
                 Inr (length (filter (is_old (db_calendar D) now days) es))))"

record usage_summary =
  us_input :: nat
  us_output :: nat
  us_cost :: amount
  us_count :: nat
  us_calls :: nat

definition query_summary :: "usage_db \<Rightarrow> nat option \<Rightarrow> usage_event list \<Rightarrow> rh_error + usage_summary" where
  "query_summary D a es =
     (case db_failure D of
        Some err \<Rightarrow> Inl err
      | None \<Rightarrow>
          let es = filter (\<lambda>e. case a of Some i \<Rightarrow> ue_agent e = i | None \<Rightarrow> True) es
          in Inr \<lparr> us_input = sum_list (map ue_input es), us_output = sum_list (map ue_output es),
                   us_cost = db_sum D (map ue_cost es), us_count = length es, us_calls = sum_list (map ue_calls es) \<rparr>)"

section \<open>Quotas and budgets\<close>

definition positive :: "amount \<Rightarrow> bool" where
  "positive x \<longleftrightarrow> amount_ge x (Finite 0) \<and> \<not> amount_ge (Finite 0) x"

text \<open>One limit; \<open>fmt\<close> prints an amount with four decimals.\<close>

definition limit_check :: "(amount \<Rightarrow> string) \<Rightarrow> string \<Rightarrow> amount \<Rightarrow> rh_error + amount \<Rightarrow> rh_error + unit" where
  "limit_check fmt what limit cost =
     (if \<not> positive limit then Inr ()
      else case cost of
             Inl err \<Rightarrow> Inl err
           | Inr c \<Rightarrow>
               if amount_ge c limit
               then Inl (QuotaExceeded (what @ '': $'' @ fmt c @ '' / $'' @ fmt limit))
               else Inr ())"

fun all_checks :: "(rh_error + unit) list \<Rightarrow> rh_error + unit" where
  "all_checks [] = Inr ()"
| "all_checks (Inl err # cs) = Inl err"
| "all_checks (Inr u # cs) = all_checks cs"

definition check_cost_quota :: "(nat \<Rightarrow> string) \<Rightarrow> (amount \<Rightarrow> string) \<Rightarrow> usage_db \<Rightarrow> nat \<Rightarrow> nat \<Rightarrow> resource_quota
    \<Rightarrow> usage_event list \<Rightarrow> rh_error + unit" where
  "check_cost_quota sh fmt D now a q es = all_checks
     [limit_check fmt (''Agent '' @ sh a @ '' exceeded hourly cost quota'') (max_cost_per_hour_usd q) (query_hourly D now a es),
      limit_check fmt (''Agent '' @ sh a @ '' exceeded daily cost quota'') (max_cost_per_day_usd q) (query_daily D now a es),
      limit_check fmt (''Agent '' @ sh a @ '' exceeded monthly cost quota'') (max_cost_per_month_usd q) (query_monthly D now a es)]"

record budget_config =
  max_hourly_usd :: amount
  max_daily_usd :: amount
  max_monthly_usd :: amount
  alert_threshold :: amount

definition check_global_budget :: "(amount \<Rightarrow> string) \<Rightarrow> usage_db \<Rightarrow> nat \<Rightarrow> budget_config \<Rightarrow> usage_event list \<Rightarrow> rh_error + unit" where
  "check_global_budget fmt D now b es = all_checks
     [limit_check fmt ''Global hourly budget exceeded'' (max_hourly_usd b) (query_global_hourly D now es),
      limit_check fmt ''Global daily budget exceeded'' (max_daily_usd b) (query_today_cost D now es),
      limit_check fmt ''Global monthly budget exceeded'' (max_monthly_usd b) (query_global_monthly D now es)]"

text \<open>\<open>f64::clamp\<close> to the unit interval keeps a NaN.\<close>

definition clamp_unit :: "amount \<Rightarrow> amount" where
  "clamp_unit v =
     (if v = NaN then NaN
      else if amount_ge (Finite 0) v then (if v = Finite 0 then v else Finite 0)
      else if amount_ge v (Finite 1) then Finite 1 else v)"

definition update_budget_config :: "amount option \<Rightarrow> amount option \<Rightarrow> amount option \<Rightarrow> amount option \<Rightarrow> budget_config \<Rightarrow> budget_config" where
  "update_budget_config h d m t b =
     \<lparr> max_hourly_usd = (case h of Some v \<Rightarrow> v | None \<Rightarrow> max_hourly_usd b),
       max_daily_usd = (case d of Some v \<Rightarrow> v | None \<Rightarrow> max_daily_usd b),
       max_monthly_usd = (case m of Some v \<Rightarrow> v | None \<Rightarrow> max_monthly_usd b),
       alert_threshold = (case t of Some v \<Rightarrow> clamp_unit v | None \<Rightarrow> alert_threshold b) \<rparr>"

text \<open>The price table: US cents for a million input and output tokens.\<close>

definition estimate_cost_rates :: "(string \<Rightarrow> string) \<Rightarrow> string \<Rightarrow> nat \<times> nat" where
  "estimate_cost_rates lower model =
     (let has = (\<lambda>p m. contains_sub m p) in
      if has ''haiku'' model then (100, 500)
      else if has ''opus'' model then (500, 2500)
      else if has ''sonnet'' model then (300, 1500)
      else if has ''kimi-for-coding'' model \<or> has ''kimi-k2-thinking'' model \<or> has ''kimi-code'' model
           \<or> has ''k2-thinking'' model \<or> model = ''kimi'' \<or> model = ''k2'' then (95, 400)
      else if has ''deepseek-v4-pro'' model then (174, 348)
      else if has ''deepseek-v4-flash'' model then (14, 28)
      else if has ''deepseek-reasoner'' model \<or> has ''deepseek-r1'' model then (14, 28)
      else if has ''deepseek'' model then (14, 28)
      else if has ''minimax-m2'' model \<or> has ''minimax-m2'' (lower model) then (50, 200)
      else if has ''minimax-m1'' model \<or> has ''minimax-m1'' (lower model) then (30, 110)
      else if has ''minimax'' (lower model) then (100, 300)
      else if has ''glm-4-flash'' model then (10, 10)
      else if has ''glm'' model then (150, 500)
      else if starts_with model ''openai/'' \<or> starts_with model ''anthropic/'' then (300, 1500)
      else if starts_with model ''google/'' then (125, 500)
      else if model = ''openrouter/auto'' then (100, 300)
      else if has ''llama'' model \<or> has ''qwen2.5-coder'' model then (0, 0)
      else (100, 300))"

section \<open>Windows\<close>

text \<open>How dates and clocks are printed: fixed widths, and the order of texts is the order of time.\<close>

definition calendar_ok :: "calendar \<Rightarrow> nat set \<Rightarrow> bool" where
  "calendar_ok C T \<longleftrightarrow> (\<forall>t \<in> T. \<forall>u \<in> T.
     length (cal_date C t) = 10 \<and> length (cal_clock C t) = 8
     \<and> (text_less (cal_date C t) (cal_date C u) \<longleftrightarrow> t div day_nanos < u div day_nanos)
     \<and> (cal_date C t = cal_date C u \<longleftrightarrow> t div day_nanos = u div day_nanos)
     \<and> (text_less (cal_clock C t) (cal_clock C u)
          \<longleftrightarrow> t mod day_nanos div 1000000000 < u mod day_nanos div 1000000000))"

lemma text_less_append:
  "length a = length b \<Longrightarrow> text_less (a @ x) (b @ y) \<longleftrightarrow> text_less a b \<or> a = b \<and> text_less x y"
  by (induction a b rule: list_induct2) auto

lemma text_less_irrefl: "\<not> text_less a a"
  by (induction a) auto

lemma seconds_split: "t div 1000000000 = 86400 * (t div day_nanos) + t mod day_nanos div (1000000000 :: nat)"
proof -
  have d: "day_nanos = 1000000000 * 86400" by (simp add: day_nanos_def hour_nanos_def)
  have q: "t div day_nanos = t div 1000000000 div 86400" by (simp add: d div_mult2_eq)
  have "t mod day_nanos = 1000000000 * (t div 1000000000 mod 86400) + t mod 1000000000"
    unfolding d by (rule mod_mult2_eq)
  then have "t mod day_nanos div 1000000000 = t div 1000000000 mod 86400" by simp
  then show ?thesis by (simp add: q)
qed

lemma datetime_order:
  assumes "calendar_ok C T" "t \<in> T" "u \<in> T"
  shows "text_less (sql_datetime C t) (sql_datetime C u) \<longleftrightarrow> t div 1000000000 < u div 1000000000"
proof -
  let ?s = "\<lambda>t. t mod day_nanos div (1000000000 :: nat)"
  have len: "length (cal_date C t) = length (cal_date C u)" using assms by (simp add: calendar_ok_def)
  have small: "?s t < 86400" "?s u < 86400"
    by (simp_all add: day_nanos_def hour_nanos_def less_mult_imp_div_less)
  have "text_less (sql_datetime C t) (sql_datetime C u) \<longleftrightarrow>
      t div day_nanos < u div day_nanos \<or> t div day_nanos = u div day_nanos \<and> ?s t < ?s u"
    using assms by (simp add: sql_datetime_def text_less_append [OF len] calendar_ok_def)
  also have "\<dots> \<longleftrightarrow> t div 1000000000 < u div 1000000000"
    unfolding seconds_split [of t] seconds_split [of u] using small by auto
  finally show ?thesis .
qed

text \<open>
  C34: The spending windows are what they are called: the hourly window holds the events of the
  last hour, to the second, and the daily window those since midnight, the first second of the
  day included; how a stored text is written, with a \<open>T\<close> and a fraction, does not matter.
\<close>

theorem windows_exact:
  assumes "calendar_ok C {ue_time e, now, now - hour_nanos}"
  shows "(in_hour C now e \<longleftrightarrow> (now - hour_nanos) div 1000000000 < ue_time e div 1000000000)
    \<and> (in_day C now e \<longleftrightarrow> now div day_nanos \<le> ue_time e div day_nanos)"
proof
  show "in_hour C now e \<longleftrightarrow> (now - hour_nanos) div 1000000000 < ue_time e div 1000000000"
    unfolding in_hour_def by (rule datetime_order [OF assms]) simp_all
  have len: "length (cal_date C now) = length (cal_date C (ue_time e))" using assms by (simp add: calendar_ok_def)
  have "in_day C now e \<longleftrightarrow> text_less (cal_date C now) (cal_date C (ue_time e)) \<or> cal_date C now = cal_date C (ue_time e)"
    by (simp add: in_day_def start_of_day_def rfc3339_def text_less_append [OF len])
  also have "\<dots> \<longleftrightarrow> now div day_nanos \<le> ue_time e div day_nanos"
    using assms unfolding calendar_ok_def by (simp add: le_less)
  finally show "in_day C now e \<longleftrightarrow> now div day_nanos \<le> ue_time e div day_nanos" .
qed

text \<open>
  Cleaning up compares the stored text with a threshold in another format: the whole day of
  the threshold is kept, also the part of it that is older than the number of days asked for.
\<close>

theorem cleanup_keeps_boundary_day:
  assumes "calendar_ok C {ue_time e, now - days * day_nanos}"
  shows "is_old C now days e \<longleftrightarrow> ue_time e div day_nanos < (now - days * day_nanos) div day_nanos"
proof -
  have len: "length (cal_date C (ue_time e)) = length (cal_date C (now - days * day_nanos))"
    using assms by (simp add: calendar_ok_def)
  have "is_old C now days e \<longleftrightarrow> text_less (cal_date C (ue_time e)) (cal_date C (now - days * day_nanos))"
    by (simp add: is_old_def sql_datetime_def rfc3339_def text_less_append [OF len])
  then show ?thesis using assms by (simp add: calendar_ok_def)
qed

text \<open>A quota that is reached refuses, one that is not set never does.\<close>

lemma limit_refuses: "limit_check fmt what limit (Inr c) = Inr u \<longleftrightarrow> \<not> positive limit \<or> \<not> amount_ge c limit"
  by (simp add: limit_check_def)

lemma all_checks_ok: "all_checks cs = Inr u \<longleftrightarrow> (\<forall>c \<in> set cs. c = Inr ())"
  by (induction cs rule: all_checks.induct) auto

definition two_days :: calendar where
  "two_days = \<lparr> cal_date = (\<lambda>t. if t < day_nanos then ''1970-01-01'' else ''1970-01-02''),
     cal_clock = (\<lambda>t. if t mod day_nanos = 0 then ''00:00:00'' else if t mod day_nanos = hour_nanos then ''01:00:00'' else ''02:00:00''),
     cal_fraction = (\<lambda>t. []) \<rparr>"

definition usage_at :: "nat \<Rightarrow> usage_event" where
  "usage_at t = \<lparr> ue_agent = 1, ue_time = t, ue_model = ''m'', ue_input = 10, ue_output = 5, ue_cost = Finite 1, ue_calls = 0 \<rparr>"

lemma two_days_ok: "calendar_ok two_days {0, hour_nanos, 2 * hour_nanos}"
  by (simp add: calendar_ok_def two_days_def day_nanos_def hour_nanos_def)

lemma windows_exact_witness:
  "in_hour two_days (2 * hour_nanos) (usage_at (2 * hour_nanos)) \<and> in_day two_days (2 * hour_nanos) (usage_at (2 * hour_nanos))"
proof -
  have "calendar_ok two_days {ue_time (usage_at (2 * hour_nanos)), 2 * hour_nanos, 2 * hour_nanos - hour_nanos}"
    using two_days_ok by (simp add: calendar_ok_def usage_at_def)
  then show ?thesis
    using windows_exact [of two_days "usage_at (2 * hour_nanos)" "2 * hour_nanos"]
    by (simp add: usage_at_def hour_nanos_def)
qed

lemma cleanup_keeps_boundary_day_witness:
  "\<not> is_old two_days (day_nanos + hour_nanos) 1 (usage_at 0)"
proof -
  have "calendar_ok two_days {ue_time (usage_at 0), day_nanos + hour_nanos - 1 * day_nanos}"
    using two_days_ok by (simp add: calendar_ok_def usage_at_def)
  then show ?thesis
    using cleanup_keeps_boundary_day [of two_days "usage_at 0" "day_nanos + hour_nanos" 1]
    by (simp add: usage_at_def day_nanos_def hour_nanos_def)
qed

end
