(* ===== verification/Model_Routing.thy ===== *)
theory Model_Routing
  imports Llm_Drivers
begin

text \<open>
  The choice of a model by the complexity of a request, \<open>runtime/src/routing.rs\<close>. The score is
  an unsigned 32-bit number, as the additions of the code wrap in a release build; \<open>lower\<close> is
  \<open>str::to_lowercase\<close>.
\<close>

section \<open>Routing\<close>

datatype task_complexity = Simple | Medium | Complex

fun complexity_str :: "task_complexity \<Rightarrow> string" where
  "complexity_str Simple = ''simple''"
| "complexity_str Medium = ''medium''"
| "complexity_str Complex = ''complex''"

definition code_markers :: "string list" where
  "code_markers = [''```'', ''fn '', ''def '', ''class '', ''import '', ''function '', ''async '', ''await '', ''struct '', ''impl '', ''return '']"

definition code_score :: "(string \<Rightarrow> string) \<Rightarrow> message list \<Rightarrow> 32 word" where
  "code_score lower ms =
     (if ms = [] then 0
      else let t = lower (text_content (msg_content (last ms)))
           in of_nat (length (filter (\<lambda>marker. contains_sub t marker) code_markers)) * 30)"

definition depth_score :: "32 word \<Rightarrow> 32 word" where
  "depth_score n = (if 10 < n then (n - 10) * 15 else 0)"

definition system_score :: "string option \<Rightarrow> 32 word" where
  "system_score system =
     (case system of
        None \<Rightarrow> 0
      | Some s \<Rightarrow> let n = of_nat (length s) :: 32 word in if 500 < n then (n - 500) div 10 else 0)"

definition request_score :: "(string \<Rightarrow> string) \<Rightarrow> completion_request \<Rightarrow> 32 word" where
  "request_score lower r =
     of_nat (sum_list (map (\<lambda>m. text_length (msg_content m)) (rq_messages r)) div 4)
     + of_nat (length (rq_tools r)) * 20
     + code_score lower (rq_messages r)
     + depth_score (of_nat (length (rq_messages r)))
     + system_score (rq_system r)"

definition classify :: "model_routing_config \<Rightarrow> 32 word \<Rightarrow> task_complexity" where
  "classify c score =
     (if unat score < simple_threshold c then Simple
      else if complex_threshold c \<le> unat score then Complex
      else Medium)"

fun model_for_complexity :: "model_routing_config \<Rightarrow> task_complexity \<Rightarrow> string" where
  "model_for_complexity c Simple = simple_model c"
| "model_for_complexity c Medium = medium_model c"
| "model_for_complexity c Complex = complex_model c"

definition select_model :: "(string \<Rightarrow> string) \<Rightarrow> model_routing_config \<Rightarrow> completion_request \<Rightarrow> task_complexity \<times> string" where
  "select_model lower c r = (let k = classify c (request_score lower r) in (k, model_for_complexity c k))"

definition resolve_aliases :: "(string \<Rightarrow> string) \<Rightarrow> catalog \<Rightarrow> model_routing_config \<Rightarrow> model_routing_config" where
  "resolve_aliases lower C c =
     c\<lparr> simple_model := or_default (resolve_alias lower C (simple_model c)) (simple_model c),
        medium_model := or_default (resolve_alias lower C (medium_model c)) (medium_model c),
        complex_model := or_default (resolve_alias lower C (complex_model c)) (complex_model c) \<rparr>"

definition validate_models :: "(string \<Rightarrow> string) \<Rightarrow> catalog \<Rightarrow> model_routing_config \<Rightarrow> string list" where
  "validate_models lower C c =
     map (\<lambda>m. ''Model '' @ [CHR 0x27] @ m @ [CHR 0x27] @ '' not found in catalog'')
       (filter (\<lambda>m. find_model lower C m = None) [simple_model c, medium_model c, complex_model c])"

section \<open>Modes\<close>

text \<open>\<open>AgentMode::filter_tools\<close>.\<close>

definition read_only_tools :: "string list" where
  "read_only_tools = [''file_read'', ''file_list'', ''memory_recall'', ''web_fetch'', ''web_search'', ''agent_list'']"

fun filter_tools :: "agent_mode \<Rightarrow> tool_definition list \<Rightarrow> tool_definition list" where
  "filter_tools Observe ts = []"
| "filter_tools Assist ts = filter (\<lambda>t. td_name t \<in> set read_only_tools) ts"
| "filter_tools Full_mode ts = ts"

section \<open>Properties\<close>

lemma word_less_unat: "(10 :: 32 word) < of_nat n \<longleftrightarrow> 10 < n mod 2 ^ 32"
  by (simp add: word_less_nat_alt unat_of_nat)

text \<open>A probe of one message has no depth.\<close>

lemma no_depth: "length ms = 1 \<Longrightarrow> depth_score (of_nat (length ms)) = 0"
  by (simp add: depth_score_def)

text \<open>
  The model that is selected is one of the three of the configuration, and a larger score
  never selects a simpler tier.
\<close>

fun tier_rank :: "task_complexity \<Rightarrow> nat" where
  "tier_rank Simple = 0"
| "tier_rank Medium = 1"
| "tier_rank Complex = 2"

theorem routing_monotone:
  assumes "score \<le> score'"
  shows "tier_rank (classify c score) \<le> tier_rank (classify c score')
    \<and> model_for_complexity c (classify c score) \<in> {simple_model c, medium_model c, complex_model c}"
proof -
  have "unat score \<le> unat score'" using assms by (simp add: word_le_nat_alt)
  then show ?thesis by (auto simp: classify_def)
qed

definition default_routing :: model_routing_config where
  "default_routing = \<lparr> simple_model = ''claude-haiku-4-5-20251001'', medium_model = ''claude-sonnet-4-6'',
     complex_model = ''claude-sonnet-4-6'', simple_threshold = 100, complex_threshold = 500 \<rparr>"

lemma routing_monotone_witness: "tier_rank (classify default_routing 50) \<le> tier_rank (classify default_routing 700)"
  by (rule conjunct1 [OF routing_monotone]) simp

end
