(* ===== verification/Tool_Dispatch.thy ===== *)
theory Tool_Dispatch
  imports Kernel_Agents Shell_Tool Tool_Policy Apply_Patch Agent_Loop
begin

text \<open>
  The entry point of every tool call, \<open>execute_tool\<close> of \<open>runtime/src/tool_runner.rs\<close>: the list of
  allowed tools, the restrictions of subagents, the approval, the taint checks, the dispatch to
  a built-in tool, an MCP server or a skill, and the tools that forward to the kernel for agents
  and memory. MCP names are those of \<open>runtime/src/mcp.rs\<close>. The kernel handle, the bodies of the
  other tools, the MCP connections and the skills are parameters; the first component of a
  result logs what was run.
\<close>

section \<open>Parameters\<close>

record agent_info =
  ai_id :: string
  ai_name :: string
  ai_state :: string
  ai_provider :: string
  ai_model :: string

record kernel_handle =
  kh_requires :: "string \<Rightarrow> bool"
  kh_request :: "string \<Rightarrow> string \<Rightarrow> string \<Rightarrow> string + bool"
  kh_send :: "nat \<Rightarrow> string \<Rightarrow> string \<Rightarrow> string + string"
  kh_spawn :: "string \<Rightarrow> string option \<Rightarrow> string + (string \<times> string)"
  kh_list :: "agent_info list"
  kh_kill :: "string \<Rightarrow> string + unit"
  kh_store :: "string \<Rightarrow> json \<Rightarrow> string + unit"
  kh_recall :: "string \<Rightarrow> string + json option"

record tool_env =
  tv_kernel :: "kernel_handle option"
  tv_lower :: "string \<Rightarrow> string"
  tv_json :: "json \<Rightarrow> string"
  tv_pretty :: "json \<Rightarrow> string"
  tv_u64 :: "json \<Rightarrow> nat option"
  tv_trusted :: "string list"
  tv_parent :: "string \<Rightarrow> string option"
  tv_inherited :: "string \<rightharpoonup> string"
  tv_run :: "spawn \<Rightarrow> proc_outcome"
  tv_body :: "string \<Rightarrow> json \<Rightarrow> string + string"
  tv_mcp :: "(string \<times> (string \<Rightarrow> json \<Rightarrow> string + string)) list option"
  tv_skill :: "(string \<Rightarrow> (json \<Rightarrow> string + string) option) option"

datatype tool_effect = Ran_tool string | Ran_mcp string string | Ran_skill string

text \<open>\<open>input[key]\<close> and \<open>as_str\<close>.\<close>

definition json_field :: "json \<Rightarrow> string \<Rightarrow> json option" where
  "json_field j key = (case j of JObj fs \<Rightarrow> map_of fs key | _ \<Rightarrow> None)"

definition json_str :: "json \<Rightarrow> string \<Rightarrow> string option" where
  "json_str j key = (case json_field j key of Some (JStr s) \<Rightarrow> Some s | _ \<Rightarrow> None)"

section \<open>Tools for agents and memory\<close>

definition max_agent_call_depth :: nat where "max_agent_call_depth = 5"
definition memory_key_max_len :: nat where "memory_key_max_len = 256"
definition memory_value_max_bytes :: nat where "memory_value_max_bytes = 64 * 1024"

definition require_kernel :: "kernel_handle option \<Rightarrow> (kernel_handle \<Rightarrow> string + 'a) \<Rightarrow> string + 'a" where
  "require_kernel kh f =
     (case kh of
        Some k \<Rightarrow> f k
      | None \<Rightarrow> Inl ''Kernel handle not available. Inter-agent tools require a running kernel.'')"

definition need_str :: "json \<Rightarrow> string \<Rightarrow> (string \<Rightarrow> string + 'a) \<Rightarrow> string + 'a" where
  "need_str input key f =
     (case json_str input key of
        Some s \<Rightarrow> f s
      | None \<Rightarrow> Inl (''Missing '' @ [CHR 0x27] @ key @ [CHR 0x27] @ '' parameter''))"

definition tool_agent_send :: "kernel_handle option \<Rightarrow> nat \<Rightarrow> json \<Rightarrow> string + string" where
  "tool_agent_send kh depth input =
     require_kernel kh (\<lambda>k. need_str input ''agent_id'' (\<lambda>a. need_str input ''message'' (\<lambda>msg.
       if max_agent_call_depth \<le> depth
       then Inl (''Inter-agent call depth exceeded (max '' @ nat_str max_agent_call_depth
              @ ''). A->B->C chain is too deep. Use the task queue instead.'')
       else kh_send k (depth + 1) a msg)))"

definition tool_agent_spawn :: "kernel_handle option \<Rightarrow> string option \<Rightarrow> json \<Rightarrow> string + string" where
  "tool_agent_spawn kh parent input =
     require_kernel kh (\<lambda>k. need_str input ''manifest_toml'' (\<lambda>toml.
       case kh_spawn k toml parent of
         Inl e \<Rightarrow> Inl e
       | Inr (i, name) \<Rightarrow> Inr (''Agent spawned successfully.'' @ [CHR 0x0A] @ ''  ID: '' @ i @ [CHR 0x0A] @ ''  Name: '' @ name)))"

definition tool_agent_list :: "kernel_handle option \<Rightarrow> string + string" where
  "tool_agent_list kh =
     require_kernel kh (\<lambda>k.
       if kh_list k = [] then Inr ''No agents currently running.''
       else Inr (''Running agents ('' @ nat_str (length (kh_list k)) @ ''):'' @ [CHR 0x0A]
         @ concat (map (\<lambda>a. ''  - '' @ ai_name a @ '' (id: '' @ ai_id a @ '', state: '' @ ai_state a @ '', model: ''
              @ ai_provider a @ '':'' @ ai_model a @ '')'' @ [CHR 0x0A]) (kh_list k))))"

definition tool_agent_kill :: "kernel_handle option \<Rightarrow> json \<Rightarrow> string + string" where
  "tool_agent_kill kh input =
     require_kernel kh (\<lambda>k. need_str input ''agent_id'' (\<lambda>a.
       case kh_kill k a of Inl e \<Rightarrow> Inl e | Inr u \<Rightarrow> Inr (''Agent '' @ a @ '' killed successfully.'')))"

definition tool_memory_store :: "(json \<Rightarrow> string) \<Rightarrow> kernel_handle option \<Rightarrow> json \<Rightarrow> string + string" where
  "tool_memory_store to_str kh input =
     require_kernel kh (\<lambda>k. need_str input ''key'' (\<lambda>key.
       case json_field input ''value'' of
         None \<Rightarrow> Inl (''Missing '' @ [CHR 0x27] @ ''value'' @ [CHR 0x27] @ '' parameter'')
       | Some v \<Rightarrow>
           if memory_key_max_len < length key
           then Inl (''Key too long ('' @ nat_str (length key) @ '' chars, max '' @ nat_str memory_key_max_len @ '')'')
           else if memory_value_max_bytes < length (to_str v)
           then Inl (''Value too large ('' @ nat_str (length (to_str v)) @ '' bytes, max '' @ nat_str memory_value_max_bytes @ '')'')
           else case kh_store k key v of
                  Inl e \<Rightarrow> Inl e
                | Inr u \<Rightarrow> Inr (''Stored value under key '' @ [CHR 0x27] @ key @ [CHR 0x27] @ ''.'')))"

definition tool_memory_recall :: "(json \<Rightarrow> string) \<Rightarrow> kernel_handle option \<Rightarrow> json \<Rightarrow> string + string" where
  "tool_memory_recall pretty kh input =
     require_kernel kh (\<lambda>k. need_str input ''key'' (\<lambda>key.
       case kh_recall k key of
         Inl e \<Rightarrow> Inl e
       | Inr (Some v) \<Rightarrow> Inr (pretty v)
       | Inr None \<Rightarrow> Inr (''No value found for key '' @ [CHR 0x27] @ key @ [CHR 0x27] @ ''.'')))"

section \<open>Names of MCP tools\<close>

definition format_mcp_tool_name :: "(string \<Rightarrow> string) \<Rightarrow> string \<Rightarrow> string \<Rightarrow> string" where
  "format_mcp_tool_name lower server tool = ''mcp_'' @ normalize_name lower server @ ''_'' @ normalize_name lower tool"

definition is_mcp_tool :: "string \<Rightarrow> bool" where
  "is_mcp_tool name \<longleftrightarrow> starts_with name ''mcp_''"

definition strip_mcp_prefix :: "(string \<Rightarrow> string) \<Rightarrow> string \<Rightarrow> string \<Rightarrow> string option" where
  "strip_mcp_prefix lower server name = strip_prefix (''mcp_'' @ normalize_name lower server @ ''_'') name"

section \<open>Dispatch\<close>

definition builtin_tools :: "string list" where
  "builtin_tools =
    [''file_read'', ''file_write'', ''file_list'', ''file_stat'', ''file_delete'', ''file_move'', ''file_copy'', ''file_mkdir'',
     ''apply_patch'', ''web_search'', ''skill_install'', ''doc_ingest'', ''doc_search'', ''self_history'', ''self_evaluate'',
     ''self_metrics'', ''self_update'', ''agent_find'', ''task_post'', ''task_claim'', ''task_complete'', ''task_list'',
     ''event_publish'', ''schedule_create'', ''schedule_list'', ''schedule_delete'', ''knowledge_add_entity'',
     ''knowledge_add_relation'', ''knowledge_query'', ''knowledge_delete_entity'', ''knowledge_delete_relation'',
     ''image_analyze'', ''media_describe'', ''media_transcribe'', ''image_generate'', ''text_to_speech'', ''speech_to_text'',
     ''docker_exec'', ''location_get'', ''cron_create'', ''cron_list'', ''cron_cancel'', ''process_start'', ''process_poll'',
     ''process_write'', ''process_kill'', ''process_list'', ''a2a_discover'', ''a2a_send'', ''browser_snapshot'',
     ''browser_click'', ''browser_type'', ''browser_screenshot'', ''browser_read_page'', ''browser_close'', ''browser_wait'',
     ''browser_execute_script'', ''browser_scroll'', ''browser_download'', ''canvas_present'', ''config_get'', ''config_set'',
     ''config_replace'']"

text \<open>A call: the id, the caller, its allowed tools and variables, workspace, policy and depth.\<close>

record call_context =
  cx_allowed :: "string list option"
  cx_caller :: "string option"
  cx_env_vars :: "string list option"
  cx_workspace :: "string option"
  cx_policy :: "exec_policy option"
  cx_depth :: nat

text \<open>The arm of the tools that are not built in. The outcome is a text, \<open>Inl\<close> an error.\<close>

definition run_other :: "tool_env \<Rightarrow> string \<Rightarrow> json \<Rightarrow> tool_effect list \<times> (string + string)" where
  "run_other V name input =
     (if is_mcp_tool name then
        (case tv_mcp V of
           None \<Rightarrow> ([], Inl (''MCP not available for tool: '' @ name))
         | Some conns \<Rightarrow>
             (case extract_mcp_server name of
                None \<Rightarrow> ([], Inl (''Invalid MCP tool name: '' @ name))
              | Some server \<Rightarrow>
                  (case find (\<lambda>(c, f). c = server) conns of
                     None \<Rightarrow> ([], Inl (''MCP server '' @ [CHR 0x27] @ server @ [CHR 0x27] @ '' not connected''))
                   | Some (c, call) \<Rightarrow>
                       let raw = (case strip_mcp_prefix (tv_lower V) c name of Some r \<Rightarrow> r | None \<Rightarrow> name)
                       in ([Ran_mcp c raw],
                           case call raw input of Inr t \<Rightarrow> Inr t | Inl e \<Rightarrow> Inl (''MCP tool call failed: '' @ e)))))
      else
        (case tv_skill V of
           None \<Rightarrow> ([], Inl (''Unknown tool: '' @ name))
         | Some provider \<Rightarrow>
             (case provider name of
                None \<Rightarrow> ([], Inl (''Unknown tool: '' @ name))
              | Some run \<Rightarrow> ([Ran_skill name], run input))))"

text \<open>A refusal in the middle of the dispatch is returned as it is, without the prefix of an error.\<close>

datatype dispatch_outcome = Refused string | Done "string + string"

definition dispatch :: "tool_env \<Rightarrow> call_context \<Rightarrow> string \<Rightarrow> json \<Rightarrow> tool_effect list \<times> dispatch_outcome" where
  "dispatch V X name input =
     (if name = ''web_fetch'' \<or> name = ''browser_navigate'' then
        (case check_taint_net_fetch (tv_lower V) (case json_str input ''url'' of Some u \<Rightarrow> u | None \<Rightarrow> []) (tv_trusted V) of
           Some violation \<Rightarrow> ([], Refused (''Taint violation: '' @ violation))
         | None \<Rightarrow> ([Ran_tool name], Done (tv_body V name input)))
      else if name = ''shell_exec'' then
        (case shell_exec_gate (cx_policy X) (json_str input ''command'') of
           Inl content \<Rightarrow> ([], Refused content)
         | Inr u \<Rightarrow> ([Ran_tool name],
             Done (tool_shell_exec (tv_parent V) (tv_inherited V) (tv_run V) (json_str input ''command'')
               (case json_field input ''timeout_seconds'' of Some j \<Rightarrow> tv_u64 V j | None \<Rightarrow> None)
               (case cx_env_vars X of Some vs \<Rightarrow> vs | None \<Rightarrow> []) (cx_workspace X) (cx_policy X))))
      else if name = ''agent_send'' then ([Ran_tool name], Done (tool_agent_send (tv_kernel V) (cx_depth X) input))
      else if name = ''agent_spawn'' then ([Ran_tool name], Done (tool_agent_spawn (tv_kernel V) (cx_caller X) input))
      else if name = ''agent_list'' then ([Ran_tool name], Done (tool_agent_list (tv_kernel V)))
      else if name = ''agent_kill'' then ([Ran_tool name], Done (tool_agent_kill (tv_kernel V) input))
      else if name = ''memory_store'' then ([Ran_tool name], Done (tool_memory_store (tv_json V) (tv_kernel V) input))
      else if name = ''memory_recall'' then ([Ran_tool name], Done (tool_memory_recall (tv_pretty V) (tv_kernel V) input))
      else if name \<in> set builtin_tools then ([Ran_tool name], Done (tv_body V name input))
      else (case run_other V name input of (es, r) \<Rightarrow> (es, Done r)))"

section \<open>The gates\<close>

definition not_allowed_text :: "string \<Rightarrow> string" where
  "not_allowed_text name = ''Permission denied: agent does not have capability to use tool '' @ [CHR 0x27] @ name @ [CHR 0x27]
     @ ''. Grant it with PATCH /api/agents/{id}/config and a JSON body like ''
     @ ''{'' @ [CHR 0x22] @ ''tools'' @ [CHR 0x22] @ '':['' @ [CHR 0x22] @ name @ [CHR 0x22] @ '']} (or {''
     @ [CHR 0x22] @ ''tools'' @ [CHR 0x22] @ '':['' @ [CHR 0x22] @ ''*'' @ [CHR 0x22] @ '']} for all tools) ''
     @ em_dash @ '' takes effect on the next message, no respawn needed.''"

definition too_deep_text :: "string \<Rightarrow> nat \<Rightarrow> string" where
  "too_deep_text name depth = ''Permission denied: tool '' @ [CHR 0x27] @ name @ [CHR 0x27]
     @ '' is not available at subagent depth '' @ nat_str depth"

definition not_approved_text :: "string \<Rightarrow> string" where
  "not_approved_text name = ''Execution denied: '' @ [CHR 0x27] @ name @ [CHR 0x27]
     @ '' requires human approval and was denied or timed out. The operation was not performed.''"

definition approval_summary :: "tool_env \<Rightarrow> string \<Rightarrow> json \<Rightarrow> string" where
  "approval_summary V name input = name @ '': '' @ truncate_bytes (tv_json V input) 200"

definition refusal :: "tool_env \<Rightarrow> call_context \<Rightarrow> string \<Rightarrow> json \<Rightarrow> string option" where
  "refusal V X name input =
     (if (case cx_allowed X of Some ts \<Rightarrow> name \<notin> set ts | None \<Rightarrow> False) then Some (not_allowed_text name)
      else if 0 < cx_depth X \<and> filter_tools_by_depth [name] (cx_depth X) max_agent_call_depth = [] then Some (too_deep_text name (cx_depth X))
      else case tv_kernel V of
             None \<Rightarrow> None
           | Some kh \<Rightarrow>
               if kh_requires kh name then
                 (case kh_request kh (case cx_caller X of Some a \<Rightarrow> a | None \<Rightarrow> ''unknown'') name (approval_summary V name input) of
                    Inr ok \<Rightarrow> if ok then None else Some (not_approved_text name)
                  | Inl e \<Rightarrow> Some (''Approval system error: '' @ e))
               else None)"

definition execute_tool :: "tool_env \<Rightarrow> call_context \<Rightarrow> tool_call \<Rightarrow> tool_effect list \<times> tool_result" where
  "execute_tool V X tc =
     (let result = (\<lambda>content err. \<lparr> tr_id = tc_id tc, tr_content = content, tr_is_error = err \<rparr>) in
      case refusal V X (tc_name tc) (tc_input tc) of
        Some content \<Rightarrow> ([], result content True)
      | None \<Rightarrow>
          (case dispatch V X (tc_name tc) (tc_input tc) of
             (es, Refused content) \<Rightarrow> (es, result content True)
           | (es, Done (Inr content)) \<Rightarrow> (es, result content False)
           | (es, Done (Inl err)) \<Rightarrow> (es, result (''Error: '' @ err) True)))"

end
