(* ===== verification/Kernel_Turn.thy ===== *)
theory Kernel_Turn
  imports Kernel_Agents Agent_Loop_Outcomes Canonical_Session Usage_Metering Model_Routing Tool_Dispatch
begin

text \<open>
  A message to an agent from the kernel's side, \<open>send_message_with_handle\<close> and
  \<open>execute_llm_agent\<close> of \<open>kernel/src/kernel.rs\<close>: the quota of tokens, the agent, the quotas of
  cost and the global budget, the session, the tools of the agent's mode, the model and the
  driver, the agent loop over them, and what is stored afterwards: the session as the loop saved
  it, the canonical session, the usage and the audit. The system prompt, recalled memories,
  links, the module of an agent that is not a model's, and all failures are parameters.
\<close>

section \<open>State and parameters\<close>

datatype kernel_error = Rusty rh_error | Boot_failed string

fun kernel_error_str :: "kernel_error \<Rightarrow> string" where
  "kernel_error_str (Rusty e) = error_str e"
| "kernel_error_str (Boot_failed s) = ''Boot failed: '' @ s"

datatype usage_footer = Footer_off | Footer_tokens | Footer_cost | Footer_full

record ('j, 'h, 'd, 'c) world =
  wd_kernel :: "('j, 'h, 'd, 'c) kernel"
  wd_usage :: "usage_event list"
  wd_sessions :: "nat \<rightharpoonup> message list \<times> string option"
  wd_canonical :: "nat \<rightharpoonup> canonical_session"
  wd_breaker :: provider_cooldown
  wd_budget :: budget_config

record turn_result =
  tu_response :: string
  tu_usage :: token_usage
  tu_iterations :: nat
  tu_cost :: "amount option"
  tu_silent :: bool

record 'j turn_io =
  ti_tick :: nat
  ti_done_tick :: nat
  ti_now :: int
  ti_usage_now :: nat
  ti_stamp :: string
  ti_check_db :: usage_db
  ti_record_db :: usage_db
  ti_load_error :: "rh_error option"
  ti_append_ok :: bool
  ti_workspace_ok :: bool
  ti_workspace :: "string \<Rightarrow> nat \<Rightarrow> string"
  ti_builtins :: "string list"
  ti_skill_tools :: "string list \<Rightarrow> string list"
  ti_mcp_tools :: "string list option"
  ti_define :: "string \<Rightarrow> tool_definition"
  ti_prompt :: "'j agent_manifest \<Rightarrow> string list \<Rightarrow> string option \<Rightarrow> string"
  ti_links :: "string \<Rightarrow> string option"
  ti_clock :: prompt_clock
  ti_memories :: "string list"
  ti_stable :: bool
  ti_catalog :: catalog
  ti_lower :: "string \<Rightarrow> string"
  ti_env :: "string \<Rightarrow> string option"
  ti_default_model :: default_model
  ti_profiles :: "string \<Rightarrow> auth_profile list option"
  ti_default_driver :: llm_driver
  ti_loop :: "llm_driver \<Rightarrow> 'j agent_manifest \<Rightarrow> loop_env"
  ti_tool_env :: "nat \<Rightarrow> nat \<Rightarrow> tool_env"
  ti_timed_out :: "nat \<Rightarrow> nat \<Rightarrow> bool"
  ti_allowed_env :: "string list"
  ti_depth :: nat
  ti_price :: "rat \<times> rat \<Rightarrow> token_usage \<Rightarrow> amount"
  ti_fmt :: "amount \<Rightarrow> string"
  ti_footer :: usage_footer
  ti_module :: "module_kind \<Rightarrow> string \<Rightarrow> kernel_error + turn_result"

section \<open>Before the loop\<close>

text \<open>An agent without a workspace gets one; the registry is told.\<close>

definition backfill_workspace :: "('j, 'd) kernel_env \<Rightarrow> 'j turn_io \<Rightarrow> nat \<Rightarrow> 'j agent_manifest \<Rightarrow> ('j, 'h, 'd, 'c) kernel
    \<Rightarrow> 'j agent_manifest \<times> ('j, 'h, 'd, 'c) kernel" where
  "backfill_workspace E T a m k =
     (if mf_workspace m = None \<and> ti_workspace_ok T
      then let w = Some (ti_workspace T (mf_name m) a)
           in (m\<lparr> mf_workspace := w \<rparr>, k\<lparr> k_registry := fst (update_workspace (ke_show E) (ti_now T) w a (k_registry k)) \<rparr>)
      else (m, k))"

definition with_model :: "string \<Rightarrow> 'j agent_manifest \<Rightarrow> 'j agent_manifest" where
  "with_model x m = m\<lparr> mf_model := (mf_model m)\<lparr> mc_model := x \<rparr> \<rparr>"

definition probe_request :: "'j agent_manifest \<Rightarrow> tool_definition list \<Rightarrow> string \<Rightarrow> completion_request" where
  "probe_request m tools msg =
     \<lparr> rq_model = mc_model (mf_model m), rq_messages = [user_message msg], rq_tools = tools,
       rq_max_tokens = mc_max_tokens (mf_model m), rq_temperature = mc_temperature (mf_model m),
       rq_system = Some (mc_system_prompt (mf_model m)), rq_thinking = None, rq_format = Text_format \<rparr>"

definition choose_model :: "'j turn_io \<Rightarrow> 'j agent_manifest \<Rightarrow> tool_definition list \<Rightarrow> string \<Rightarrow> 'j agent_manifest" where
  "choose_model T m tools msg =
     (if ti_stable T then (case mf_pinned_model m of Some p \<Rightarrow> with_model p m | None \<Rightarrow> m)
      else case mf_routing m of
             None \<Rightarrow> m
           | Some c \<Rightarrow>
               with_model (snd (select_model (ti_lower T) (resolve_aliases (ti_lower T) (ti_catalog T) c) (probe_request m tools msg))) m)"

definition turn_context :: "('j, 'd) kernel_env \<Rightarrow> 'j turn_io \<Rightarrow> nat \<Rightarrow> 'j agent_manifest \<Rightarrow> tool_definition list \<Rightarrow> call_context" where
  "turn_context E T a m tools =
     \<lparr> cx_allowed = Some (map td_name tools), cx_caller = Some (ke_show E a),
       cx_env_vars = (if ti_allowed_env T = [] then None else Some (ti_allowed_env T)),
       cx_workspace = mf_workspace m,
       cx_policy = (case mf_exec_policy m of Some p \<Rightarrow> Some p | None \<Rightarrow> Some (ke_exec_policy E)),
       cx_depth = ti_depth T \<rparr>"

text \<open>The loop's environment with the tools behind their gates.\<close>

definition turn_env :: "'j turn_io \<Rightarrow> call_context \<Rightarrow> loop_env \<Rightarrow> loop_env" where
  "turn_env T X L = L\<lparr> le_exec := (\<lambda>k i tc. if ti_timed_out T k i then None else Some (snd (execute_tool (ti_tool_env T k i) X tc))) \<rparr>"

definition turn_params :: "('j, 'd) kernel_env \<Rightarrow> 'j turn_io \<Rightarrow> nat \<Rightarrow> 'j agent_manifest \<Rightarrow> tool_definition list \<Rightarrow> string \<Rightarrow> loop_params" where
  "turn_params E T a m tools msg =
     \<lparr> lp_provider = mc_provider (mf_model m),
       lp_system = loop_system_prompt (ti_clock T) (mc_system_prompt (mf_model m)) (mf_name m) (ke_show E a) (ti_memories T),
       lp_tools = tools,
       lp_user = (case ti_links T msg of Some l \<Rightarrow> msg @ l | None \<Rightarrow> msg),
       lp_window = (case find_model (ti_lower T) (ti_catalog T) (mc_model (mf_model m)) of
          Some e \<Rightarrow> me_context e | None \<Rightarrow> default_context_window),
       lp_max_iterations = (case mf_autonomous m of Some c \<Rightarrow> auto_max_iterations c | None \<Rightarrow> max_iterations_default) \<rparr>"

section \<open>After the loop\<close>

definition last_saved :: "loop_event list \<Rightarrow> message list option" where
  "last_saved es = (if saves es = [] then None else Some (last (saves es)))"

text \<open>What the store holds when the loop has ended: the label is saved with a completed turn only.\<close>

definition stored_session :: "message list \<Rightarrow> string option \<Rightarrow> (message list \<times> string option) option \<Rightarrow> loop_state
    \<Rightarrow> rh_error + loop_result \<Rightarrow> (message list \<times> string option) option" where
  "stored_session hist label before s res =
     (case last_saved (ls_trace s) of
        None \<Rightarrow> before
      | Some h \<Rightarrow> Some (h, case res of Inr r \<Rightarrow> ls_label s | Inl e \<Rightarrow> label))"

definition new_messages :: "nat \<Rightarrow> message list \<Rightarrow> message list option" where
  "new_messages messages_before hist =
     (if messages_before < length hist then Some (drop messages_before hist) else None)"

definition estimate_cost_with_catalog :: "(rat \<times> rat \<Rightarrow> token_usage \<Rightarrow> amount) \<Rightarrow> (string \<Rightarrow> string) \<Rightarrow> catalog \<Rightarrow> string \<Rightarrow> token_usage \<Rightarrow> amount" where
  "estimate_cost_with_catalog price lower C model u = price (or_default (pricing lower C model) (1, 3)) u"

definition shown_cost :: "usage_footer \<Rightarrow> amount \<Rightarrow> amount option" where
  "shown_cost f cost =
     (case f of Footer_off \<Rightarrow> None | Footer_tokens \<Rightarrow> None
      | Footer_cost \<Rightarrow> if positive cost then Some cost else None
      | Footer_full \<Rightarrow> if positive cost then Some cost else None)"

definition record_turn :: "'j turn_io \<Rightarrow> nat \<Rightarrow> string \<Rightarrow> loop_result \<Rightarrow> amount \<Rightarrow> usage_event list \<Rightarrow> usage_event list" where
  "record_turn T a model r cost us =
     fst (record_event (ti_record_db T)
       \<lparr> ue_agent = a, ue_time = ti_usage_now T, ue_model = model, ue_input = unat (input_tokens (lr_usage r)),
         ue_output = unat (output_tokens (lr_usage r)), ue_cost = cost, ue_calls = lr_iterations r - 1 \<rparr> us)"

definition append_turn :: "'j turn_io \<Rightarrow> nat \<Rightarrow> nat \<Rightarrow> message list \<Rightarrow> (nat \<rightharpoonup> canonical_session) \<Rightarrow> (nat \<rightharpoonup> canonical_session)" where
  "append_turn T a before hist cs =
     (case new_messages before hist of
        Some ms \<Rightarrow> if ti_append_ok T
          then cs(a \<mapsto> append_canonical (ti_stamp T) ms None (load_canonical (ti_stamp T) (cs a))) else cs
      | None \<Rightarrow> cs)"

section \<open>The turn\<close>

text \<open>The spending limits, in the order of the code.\<close>

definition spending_gate :: "('j, 'd) kernel_env \<Rightarrow> 'j turn_io \<Rightarrow> nat \<Rightarrow> 'j agent_manifest \<Rightarrow> ('j, 'h, 'd, 'c) world \<Rightarrow> rh_error + unit" where
  "spending_gate E T a m w =
     (case check_cost_quota (ke_show E) (ti_fmt T) (ti_check_db T) (ti_usage_now T) a (mf_resources m) (wd_usage w) of
        Inl e \<Rightarrow> Inl e
      | Inr u \<Rightarrow> check_global_budget (ti_fmt T) (ti_check_db T) (ti_usage_now T) (wd_budget w) (wd_usage w))"

definition agent_tools :: "('j, 'd) kernel_env \<Rightarrow> 'j turn_io \<Rightarrow> nat \<Rightarrow> 'j agent_entry \<Rightarrow> ('j, 'h, 'd, 'c) kernel \<Rightarrow> tool_definition list" where
  "agent_tools E T a e k = filter_tools (ae_mode e)
     (map (ti_define T) (available_tools E (ti_builtins T) (ti_skill_tools T) (ti_mcp_tools T) a k))"

definition run_turn :: "('j, 'd) kernel_env \<Rightarrow> 'j turn_io \<Rightarrow> nat \<Rightarrow> 'j agent_manifest \<Rightarrow> llm_driver \<Rightarrow> tool_definition list \<Rightarrow> string
    \<Rightarrow> provider_cooldown \<Rightarrow> message list \<Rightarrow> string option \<Rightarrow> loop_state \<times> (rh_error + loop_result)" where
  "run_turn E T a m d tools msg cd hist label =
     run_agent_loop (turn_env T (turn_context E T a m tools) (ti_loop T d m)) (turn_params E T a m tools msg) cd hist label"

definition after_turn :: "'j turn_io \<Rightarrow> nat \<Rightarrow> 'j agent_entry \<Rightarrow> 'j agent_manifest \<Rightarrow> message list \<Rightarrow> string option
    \<Rightarrow> loop_state \<times> (rh_error + loop_result) \<Rightarrow> ('j, 'h, 'd, 'c) world \<Rightarrow> ('j, 'h, 'd, 'c) world \<times> (kernel_error + turn_result)" where
  "after_turn T a e m hist label out w =
     (case out of (s, res) \<Rightarrow>
      let w = w\<lparr> wd_breaker := ls_breaker s,
            wd_sessions := (wd_sessions w)(ae_session e := stored_session hist label (wd_sessions w (ae_session e)) s res) \<rparr>
      in case res of
           Inl err \<Rightarrow> (w, Inl (Rusty err))
         | Inr r \<Rightarrow>
             let model = mc_model (mf_model m);
                 cost = estimate_cost_with_catalog (ti_price T) (ti_lower T) (ti_catalog T) model (lr_usage r)
             in (w\<lparr> wd_canonical := append_turn T a (length hist) (ls_history s) (wd_canonical w),
                    wd_usage := record_turn T a model r cost (wd_usage w) \<rparr>,
                 Inr \<lparr> tu_response = lr_response r, tu_usage = lr_usage r, tu_iterations = lr_iterations r,
                       tu_cost = shown_cost (ti_footer T) cost, tu_silent = lr_silent r \<rparr>))"

definition execute_llm_agent :: "('j, 'd) kernel_env \<Rightarrow> 'j turn_io \<Rightarrow> nat \<Rightarrow> 'j agent_entry \<Rightarrow> string \<Rightarrow> ('j, 'h, 'd, 'c) world
    \<Rightarrow> ('j, 'h, 'd, 'c) world \<times> (kernel_error + turn_result)" where
  "execute_llm_agent E T a e msg w =
     (case spending_gate E T a (ae_manifest e) w of
        Inl err \<Rightarrow> (w, Inl (Rusty err))
      | Inr u \<Rightarrow>
          (case ti_load_error T of
             Some err \<Rightarrow> (w, Inl (Rusty err))
           | None \<Rightarrow>
               (case (case wd_sessions w (ae_session e) of Some s \<Rightarrow> s | None \<Rightarrow> ([], None)) of (hist, label) \<Rightarrow>
                let tools = agent_tools E T a e (wd_kernel w) in
                case backfill_workspace E T a (ae_manifest e) (wd_kernel w) of (m, k) \<Rightarrow>
                let w = w\<lparr> wd_kernel := k \<rparr>;
                    summary = (case wd_canonical w a of Some c \<Rightarrow> cs_summary c | None \<Rightarrow> None);
                    m = m\<lparr> mf_model := (mf_model m)\<lparr> mc_system_prompt := ti_prompt T m (map td_name tools) summary \<rparr> \<rparr>;
                    m = choose_model T m tools msg
                in case resolve_driver (ti_env T) (ti_default_model T) (ti_profiles T) (ti_default_driver T) m of
                     Inl err \<Rightarrow> (w, Inl (Boot_failed err))
                   | Inr d \<Rightarrow> after_turn T a e m hist label (run_turn E T a m d tools msg (wd_breaker w) hist label) w)))"

definition send_message :: "('j, 'd) kernel_env \<Rightarrow> 'j turn_io \<Rightarrow> nat \<Rightarrow> string \<Rightarrow> ('j, 'h, 'd, 'c) world
    \<Rightarrow> ('j, 'h, 'd, 'c) world \<times> (kernel_error + turn_result)" where
  "send_message E T a msg w =
     (case message_gate E (ti_tick T) a (wd_kernel w) of
        (k, Inl err) \<Rightarrow> (w\<lparr> wd_kernel := k \<rparr>, Inl (Rusty err))
      | (k, Inr (e, kind)) \<Rightarrow>
          (case (if kind = Llm_module then execute_llm_agent E T a e msg (w\<lparr> wd_kernel := k \<rparr>)
                 else (w\<lparr> wd_kernel := k \<rparr>, ti_module T kind msg)) of
             (w, Inr r) \<Rightarrow>
               (w\<lparr> wd_kernel := message_done E (ti_done_tick T) (ti_now T) a
                     (unat (input_tokens (tu_usage r)), unat (output_tokens (tu_usage r))) (tu_iterations r) (wd_kernel w) \<rparr>, Inr r)
           | (w, Inl err) \<Rightarrow> (w\<lparr> wd_kernel := message_failed E a (kernel_error_str err) (wd_kernel w) \<rparr>, Inl err)))"

end
