(* ===== verification/Tool_Dispatch_Theorems.thy ===== *)
theory Tool_Dispatch_Theorems
  imports Tool_Dispatch
begin

text \<open>
  What the gates in front of a tool guarantee, how deep agents can call each other, and which
  server a call of an MCP tool reaches.
\<close>

section \<open>The gates\<close>

lemma execute_effects:
  "fst (execute_tool V X tc) =
     (if refusal V X (tc_name tc) (tc_input tc) = None then fst (dispatch V X (tc_name tc) (tc_input tc)) else [])"
  by (auto simp: execute_tool_def Let_def split: option.splits prod.splits dispatch_outcome.splits sum.splits)

text \<open>
  C2: A tool call has an effect only if the tool is on the caller's list, is not withheld from
  subagents of the caller's depth, and was approved where an approval is required.
\<close>

theorem effects_need_permission:
  "fst (execute_tool V X tc) = [] \<or>
     ((case cx_allowed X of Some ts \<Rightarrow> tc_name tc \<in> set ts | None \<Rightarrow> True)
      \<and> (cx_depth X = 0 \<or> filter_tools_by_depth [tc_name tc] (cx_depth X) max_agent_call_depth = [tc_name tc])
      \<and> (case tv_kernel V of
           Some kh \<Rightarrow> if kh_requires kh (tc_name tc)
             then kh_request kh (case cx_caller X of Some a \<Rightarrow> a | None \<Rightarrow> ''unknown'') (tc_name tc)
                    (approval_summary V (tc_name tc) (tc_input tc)) = Inr True
             else True
         | None \<Rightarrow> True))"
proof -
  have one: "filter P [x] = [] \<or> filter P [x] = [x]" for P and x :: string by simp
  then have depth: "cx_depth X = 0 \<or> filter_tools_by_depth [tc_name tc] (cx_depth X) max_agent_call_depth \<noteq> []
      \<Longrightarrow> cx_depth X = 0 \<or> filter_tools_by_depth [tc_name tc] (cx_depth X) max_agent_call_depth = [tc_name tc]"
    unfolding filter_tools_by_depth_def Let_def by (auto split: if_splits)
  show ?thesis
  proof (cases "refusal V X (tc_name tc) (tc_input tc)")
    case None
    then have "cx_depth X = 0 \<or> filter_tools_by_depth [tc_name tc] (cx_depth X) max_agent_call_depth \<noteq> []"
      by (auto simp: refusal_def split: if_splits)
    moreover have "case cx_allowed X of Some ts \<Rightarrow> tc_name tc \<in> set ts | None \<Rightarrow> True"
      using None by (auto simp: refusal_def split: if_splits option.splits)
    moreover have "case tv_kernel V of
           Some kh \<Rightarrow> if kh_requires kh (tc_name tc)
             then kh_request kh (case cx_caller X of Some a \<Rightarrow> a | None \<Rightarrow> ''unknown'') (tc_name tc)
                    (approval_summary V (tc_name tc) (tc_input tc)) = Inr True
             else True
         | None \<Rightarrow> True"
      using None by (auto simp: refusal_def split: if_splits option.splits sum.splits)
    ultimately show ?thesis using depth by blast
  qed (simp add: execute_effects)
qed

text \<open>An agent in the observing mode is given no tools, so none of its calls has an effect.\<close>

lemma no_tools_no_effects: "cx_allowed X = Some [] \<Longrightarrow> fst (execute_tool V X tc) = []"
  by (simp add: execute_effects refusal_def)

text \<open>
  Agents that send messages to agents never nest deeper than five: the answer of \<open>agent_send\<close>
  does not depend on what the kernel would do with a message of a greater depth.
\<close>

theorem nesting_bounded:
  "tool_agent_send (Some (kh\<lparr> kh_send := (\<lambda>d a m. if d \<le> 5 then kh_send kh d a m else other d a m) \<rparr>)) depth input
     = tool_agent_send (Some kh) depth input"
  by (simp add: tool_agent_send_def require_kernel_def need_str_def max_agent_call_depth_def split: option.splits)

section \<open>MCP tools\<close>

lemma replaced_gone: "a \<noteq> b \<Longrightarrow> a \<notin> set (replace_all [a] [b] xs)"
  by (induction "[a]" "[b]" xs rule: replace_all.induct) (auto simp: starts_with_Cons)

lemma normalized_no_dash: "CHR ''-'' \<notin> set (normalize_name lower s)"
  by (simp add: normalize_name_def replaced_gone)

lemma extracted_server:
  assumes "extract_mcp_server (''mcp_'' @ n @ ''_'' @ t) = Some c"
  shows "CHR ''_'' \<notin> set c \<and> (\<exists>u. n = c @ u)"
proof -
  let ?rest = "n @ ''_'' @ t"
  obtain pos where pos: "find_sub ''_'' ?rest = Some pos" "c = take pos ?rest"
    using assms by (auto simp: extract_mcp_server_def starts_with_def Let_def)
  have "pos \<le> length n"
    by (rule find_sub_leftmost [OF pos(1)]) (simp_all add: starts_with_Cons)
  then have c: "c = take pos n" using pos(2) by simp
  have "\<not> starts_with (drop j ?rest) ''_''" if "j < pos" for j
    using find_sub_leftmost [OF pos(1), of j] that \<open>pos \<le> length n\<close> by auto
  moreover have "starts_with (drop j ?rest) ''_'' \<longleftrightarrow> n ! j = CHR ''_''" if "j < pos" for j
  proof -
    have "drop j ?rest = n ! j # drop (Suc j) n @ ''_'' @ t"
      using that \<open>pos \<le> length n\<close> by (simp add: Cons_nth_drop_Suc [symmetric])
    then show ?thesis by (simp add: starts_with_Cons)
  qed
  ultimately have "n ! j \<noteq> CHR ''_''" if "j < pos" for j using that by blast
  then have "CHR ''_'' \<notin> set c"
    using \<open>pos \<le> length n\<close> by (auto simp: c in_set_conv_nth)
  moreover have "n = c @ drop pos n" by (simp add: c)
  ultimately show ?thesis by blast
qed

lemma other_target:
  assumes "Ran_mcp c raw \<in> set (fst (run_other V name input))"
  shows "extract_mcp_server name = Some c \<and> raw = (case strip_mcp_prefix (tv_lower V) c name of Some r \<Rightarrow> r | None \<Rightarrow> name)"
proof -
  have found: "c = s" if "find (\<lambda>(c, f). c = s) conns = Some (c, f)" for conns :: "(string \<times> 'x) list" and s f
    using that by (induction conns) (auto split: if_splits)
  show ?thesis
    using assms by (auto simp: run_other_def Let_def dest!: found split: if_splits option.splits)
qed

lemma mcp_not_builtin:
  "\<not> list_ex (\<lambda>t. starts_with t ''mcp_'') ([''web_fetch'', ''browser_navigate'', ''shell_exec'', ''agent_send'', ''agent_spawn'',
      ''agent_list'', ''agent_kill'', ''memory_store'', ''memory_recall''] @ builtin_tools)"
  by (simp add: builtin_tools_def starts_with_Cons)

lemma dispatch_mcp:
  assumes "starts_with name ''mcp_''"
  shows "fst (dispatch V X name input) = fst (run_other V name input)"
proof -
  have "name \<notin> set ([''web_fetch'', ''browser_navigate'', ''shell_exec'', ''agent_send'', ''agent_spawn'',
      ''agent_list'', ''agent_kill'', ''memory_store'', ''memory_recall''] @ builtin_tools)"
    using mcp_not_builtin assms unfolding list_ex_iff by blast
  then show ?thesis by (simp add: dispatch_def split: prod.splits)
qed

text \<open>
  C22: The tools of an MCP server whose name contains a hyphen or an underscore can never be
  called: the name of the server in the name of the tool is read up to the first underscore, so
  such a call is not sent to the server, and reaches another one if that is called like the part.
\<close>

theorem mcp_call_misses_server:
  assumes "CHR ''-'' \<in> set server \<or> CHR ''_'' \<in> set server"
    and "tc_name tc = format_mcp_tool_name (tv_lower V) server tool"
  shows "Ran_mcp server raw \<notin> set (fst (execute_tool V X tc))"
proof
  assume "Ran_mcp server raw \<in> set (fst (execute_tool V X tc))"
  then have "Ran_mcp server raw \<in> set (fst (dispatch V X (tc_name tc) (tc_input tc)))"
    by (simp add: execute_effects split: if_splits)
  moreover have "starts_with (tc_name tc) ''mcp_''"
    by (simp add: assms(2) format_mcp_tool_name_def starts_with_Cons)
  ultimately have "Ran_mcp server raw \<in> set (fst (run_other V (tc_name tc) (tc_input tc)))" by (simp add: dispatch_mcp)
  then have "extract_mcp_server (tc_name tc) = Some server" by (rule conjunct1 [OF other_target])
  then obtain u where "CHR ''_'' \<notin> set server" "normalize_name (tv_lower V) server = server @ u"
    using extracted_server unfolding assms(2) format_mcp_tool_name_def by blast
  then show False using assms(1) normalized_no_dash [of "tv_lower V" server] by simp
qed

text \<open>
  The name under which a tool is called at its server is the normalised one, in lower case and
  with underscores for hyphens, whatever the server calls the tool.
\<close>

theorem mcp_raw_name:
  "strip_mcp_prefix lower server (format_mcp_tool_name lower server tool) = Some (normalize_name lower tool)"
proof -
  have "format_mcp_tool_name lower server tool = (''mcp_'' @ normalize_name lower server @ ''_'') @ normalize_name lower tool"
    by (simp add: format_mcp_tool_name_def)
  then show ?thesis
    unfolding strip_mcp_prefix_def strip_prefix_def by (simp only: starts_with_iff drop_append) (auto simp: starts_with_iff)
qed

section \<open>Witnesses\<close>

definition two_servers :: tool_env where
  "two_servers = \<lparr> tv_kernel = None, tv_lower = (\<lambda>s. s), tv_json = (\<lambda>j. []), tv_pretty = (\<lambda>j. []), tv_u64 = (\<lambda>j. None),
     tv_trusted = [], tv_parent = (\<lambda>v. None), tv_inherited = (\<lambda>v. None), tv_run = (\<lambda>s. Wait_elapsed), tv_body = (\<lambda>n i. Inr []),
     tv_mcp = Some [(''git-hub'', \<lambda>t i. Inr ''done''), (''git'', \<lambda>t i. Inr ''wrong'')], tv_skill = None \<rparr>"

definition plain_context :: call_context where
  "plain_context = \<lparr> cx_allowed = None, cx_caller = None, cx_env_vars = None, cx_workspace = None, cx_policy = None, cx_depth = 0 \<rparr>"

definition push_call :: tool_call where
  "push_call = \<lparr> tc_id = ''c1'', tc_name = ''mcp_git_hub_push'', tc_input = JNull \<rparr>"

lemma push_name: "tc_name push_call = format_mcp_tool_name (tv_lower two_servers) ''git-hub'' ''push''"
  by (simp add: push_call_def format_mcp_tool_name_def normalize_name_def two_servers_def starts_with_Cons)

lemma mcp_call_misses_server_witness:
  "Ran_mcp ''git-hub'' ''push'' \<notin> set (fst (execute_tool two_servers plain_context push_call))
   \<and> fst (execute_tool two_servers plain_context push_call) = [Ran_mcp ''git'' ''hub_push'']"
proof
  show "Ran_mcp ''git-hub'' ''push'' \<notin> set (fst (execute_tool two_servers plain_context push_call))"
    by (rule mcp_call_misses_server [OF _ push_name]) simp
  have "fst (run_other two_servers ''mcp_git_hub_push'' JNull) = [Ran_mcp ''git'' ''hub_push'']"
    by (simp add: run_other_def is_mcp_tool_def two_servers_def extract_mcp_server_def starts_with_Cons Let_def
        strip_mcp_prefix_def strip_prefix_def normalize_name_def)
  moreover have "starts_with ''mcp_git_hub_push'' ''mcp_''" by (simp add: starts_with_Cons)
  ultimately show "fst (execute_tool two_servers plain_context push_call) = [Ran_mcp ''git'' ''hub_push'']"
    using dispatch_mcp [of "''mcp_git_hub_push''" two_servers plain_context JNull]
    by (simp add: execute_effects push_call_def refusal_def plain_context_def two_servers_def)
qed

end
