(* ===== verification/Kernel_Turn_Theorems.thy ===== *)
theory Kernel_Turn_Theorems
  imports Kernel_Turn Tool_Dispatch_Theorems
begin

text \<open>
  What a message to an agent leaves behind: the limits before a turn, the tools its mode permits,
  the stored session and the usage after a turn that answers, and what a failed turn and a pruned
  session lose.
\<close>

section \<open>Before a turn\<close>

text \<open>The six limits with what was spent in their windows.\<close>

definition spent :: "usage_db \<Rightarrow> (usage_event \<Rightarrow> bool) \<Rightarrow> usage_event list \<Rightarrow> amount" where
  "spent D P us = db_sum D (map ue_cost (filter P us))"

definition spending_limits :: "usage_db \<Rightarrow> nat \<Rightarrow> nat \<Rightarrow> resource_quota \<Rightarrow> budget_config \<Rightarrow> usage_event list \<Rightarrow> (amount \<times> amount) list" where
  "spending_limits D now a q b us =
     (let C = db_calendar D; mine = (\<lambda>P e. ue_agent e = a \<and> P C now e) in
      [(max_cost_per_hour_usd q, spent D (mine in_hour) us),
       (max_cost_per_day_usd q, spent D (mine in_day) us),
       (max_cost_per_month_usd q, spent D (mine in_month) us),
       (max_hourly_usd b, spent D (in_hour C now) us),
       (max_daily_usd b, spent D (in_day C now) us),
       (max_monthly_usd b, spent D (in_month C now) us)])"

definition healthy :: "usage_db \<Rightarrow> usage_db" where
  "healthy D = D\<lparr> db_failure := None \<rparr>"

lemma limit_ok: "limit_check fmt what limit (Inr c) = Inr () \<longleftrightarrow> \<not> (positive limit \<and> amount_ge c limit)"
  by (simp add: limit_check_def)

lemma costs_healthy: "costs us P (healthy D) = Inr (spent (healthy D) P us)"
  by (simp add: costs_def healthy_def spent_def)

text \<open>
  C8: As long as the usage can be read, a turn passes the spending gate exactly when no limit that
  is set, of the agent or global, is reached by what was spent in its window.
\<close>

theorem spending_gate_exact:
  "spending_gate E (T\<lparr> ti_check_db := healthy D \<rparr>) a m w = Inr () \<longleftrightarrow>
     list_all (\<lambda>(limit, s). \<not> (positive limit \<and> amount_ge s limit))
       (spending_limits (healthy D) (ti_usage_now T) a (mf_resources m) (wd_budget w) (wd_usage w))"
proof -
  have split: "(case x of Inl e \<Rightarrow> Inl e | Inr u \<Rightarrow> y) = Inr () \<longleftrightarrow> x = Inr () \<and> y = Inr ()"
    for x y :: "rh_error + unit" by (cases x) simp_all
  show ?thesis
    unfolding spending_gate_def split check_cost_quota_def check_global_budget_def all_checks_ok
    by (simp add: query_hourly_def query_daily_def query_monthly_def query_global_hourly_def query_today_cost_def
        query_global_monthly_def costs_healthy limit_ok spending_limits_def Let_def)
qed

text \<open>
  C10: What a mode permits: a call in a turn of an observing agent has no effect, in a turn of an
  assisting agent only read-only tools have one, and otherwise only the tools that the agent's
  capabilities make available.
\<close>

theorem mode_limits_effects:
  "fst (execute_tool V (turn_context E T a m (agent_tools E T a e k)) tc) = [] \<or>
     (case ae_mode e of
        Observe \<Rightarrow> False
      | Assist \<Rightarrow> tc_name tc \<in> set read_only_tools
      | Full_mode \<Rightarrow> tc_name tc \<in> (\<lambda>n. td_name (ti_define T n)) `
          set (available_tools E (ti_builtins T) (ti_skill_tools T) (ti_mcp_tools T) a k))"
proof -
  have "fst (execute_tool V (turn_context E T a m (agent_tools E T a e k)) tc) = []
      \<or> tc_name tc \<in> td_name ` set (agent_tools E T a e k)"
    by (auto simp: execute_effects refusal_def turn_context_def)
  then show ?thesis by (cases "ae_mode e") (auto simp: agent_tools_def)
qed

text \<open>
  The depth of the conversation never counts for the choice of a model: the request that is
  scored holds the new message only.
\<close>

theorem routing_ignores_depth:
  "request_score lower (probe_request m tools msg) =
     of_nat (length msg div 4) + of_nat (length tools) * 20 + code_score lower [user_message msg]
     + system_score (Some (mc_system_prompt (mf_model m)))"
  by (simp add: request_score_def probe_request_def depth_score_def user_message_def)

section \<open>A turn that answers\<close>

definition reliable :: "'j turn_io \<Rightarrow> 'j turn_io" where
  "reliable T = T\<lparr> ti_loop := (\<lambda>d m. (ti_loop T d m)\<lparr> le_save := (\<lambda>k. None) \<rparr>) \<rparr>"

lemma handle_saves:
  assumes "handle_response E P k r s = Finish s' (Inr x)" and "le_save E k = None"
  shows "last_saved (ls_trace s') = Some (ls_history s')"
proof -
  let ?s = "s\<lparr> ls_usage := add_usage (ls_usage s) (cr_usage r) \<rparr>" and ?r = "promote_text_calls E P k r"
  consider "tool_use_step E P k ?r ?s = Finish s' (Inr x)" | "max_tokens_step E k ?r ?s = Finish s' (Inr x)"
    | "end_turn_step E P k ?r ?s = Finish s' (Inr x)"
    using assms by (auto simp: handle_response_def Let_def split: stop_reason.splits)
  then show ?thesis
  proof cases
    case 1
    then show ?thesis by (auto simp: tool_use_step_def Let_def split: prod.splits sum.splits)
  next
    case 2
    then show ?thesis using assms(2)
      by (auto simp: max_tokens_step_def Let_def last_saved_def save_session_def split: if_splits)
  next
    case 3
    then show ?thesis using assms(2) unfolding end_turn_step_def Let_def
      by (auto simp: last_saved_def save_session_def split: prod.splits if_splits)
  qed
qed

lemma turn_saves:
  assumes "run_turn E (reliable T) a m d tools msg cd h label = (s, Inr x)"
  shows "answer_ok s x \<and> last_saved (ls_trace s) = Some (ls_history s)"
proof
  let ?L = "turn_env (reliable T) (turn_context E (reliable T) a m tools) (ti_loop (reliable T) d m)"
    and ?P = "turn_params E (reliable T) a m tools msg"
  have run: "run_agent_loop ?L ?P cd h label = (s, Inr x)" using assms by (simp add: run_turn_def)
  show "answer_ok s x" by (rule loop_finishes [OF run, where Q = "\<lambda>s. answer_ok s x"]) (rule handle_answer)
  have "le_save ?L k = None" for k by (simp add: turn_env_def reliable_def)
  then show "last_saved (ls_trace s) = Some (ls_history s)"
    using loop_finishes [OF run, where Q = "\<lambda>s. last_saved (ls_trace s) = Some (ls_history s)"] handle_saves by blast
qed

text \<open>
  C3: An answer that is given is stored: when the store works, a turn that answers leaves a
  session whose last message is the answer (or the marker of a silent answer), and one new
  usage event of the agent.
\<close>

theorem answered_turn_is_stored:
  "case execute_llm_agent E (reliable T\<lparr> ti_record_db := healthy D \<rparr>) a e msg w of
     (w', Inl err) \<Rightarrow> wd_usage w' = wd_usage w \<and> wd_canonical w' = wd_canonical w
   | (w', Inr r) \<Rightarrow>
       (\<exists>h l u. wd_sessions w' (ae_session e) = Some (h, l)
          \<and> last h = assistant_message (if tu_silent r then no_reply_text else tu_response r)
          \<and> wd_usage w' = wd_usage w @ [u] \<and> ue_agent u = a \<and> ue_input u = unat (input_tokens (tu_usage r)))"
proof -
  let ?T = "reliable T\<lparr> ti_record_db := healthy D \<rparr>"
  have T: "?T = reliable (T\<lparr> ti_record_db := healthy D \<rparr>)" by (simp add: reliable_def)
  obtain w' res where x: "execute_llm_agent E ?T a e msg w = (w', res)" by fastforce
  obtain h0 l0 where hl: "(case wd_sessions w (ae_session e) of Some s \<Rightarrow> s | None \<Rightarrow> ([], None)) = (h0, l0)" by fastforce
  let ?tools = "agent_tools E ?T a e (wd_kernel w)"
  obtain m0 k where bf: "backfill_workspace E ?T a (ae_manifest e) (wd_kernel w) = (m0, k)" by fastforce
  define m where "m = choose_model ?T
    (m0\<lparr> mf_model := (mf_model m0)\<lparr> mc_system_prompt := ti_prompt ?T m0 (map td_name ?tools)
         (case wd_canonical w a of Some c \<Rightarrow> cs_summary c | None \<Rightarrow> None) \<rparr> \<rparr>) ?tools msg"
  show ?thesis
  proof (cases "spending_gate E ?T a (ae_manifest e) w = Inr () \<and> ti_load_error ?T = None
      \<and> (\<exists>d. resolve_driver (ti_env ?T) (ti_default_model ?T) (ti_profiles ?T) (ti_default_driver ?T) m = Inr d)")
    case True
    then obtain d where d: "spending_gate E ?T a (ae_manifest e) w = Inr ()" "ti_load_error ?T = None"
      "resolve_driver (ti_env ?T) (ti_default_model ?T) (ti_profiles ?T) (ti_default_driver ?T) m = Inr d" by blast
    let ?out = "run_turn E ?T a m d ?tools msg (wd_breaker w) h0 l0"
    have after: "(w', res) = after_turn ?T a e m h0 l0 ?out (w\<lparr> wd_kernel := k \<rparr>)"
      using d unfolding x [symmetric] execute_llm_agent_def by (simp add: hl bf Let_def m_def)
    obtain s r where out: "?out = (s, r)" by fastforce
    show ?thesis
    proof (cases r)
      case (Inl err)
      then show ?thesis using after by (simp add: x after_turn_def out Let_def)
    next
      case (Inr y)
      then have saved: "answer_ok s y" "last_saved (ls_trace s) = Some (ls_history s)"
        using turn_saves [of E "T\<lparr> ti_record_db := healthy D \<rparr>"] out unfolding T by blast+
      obtain u where u: "record_turn ?T a (mc_model (mf_model m)) y c (wd_usage w) = wd_usage w @ [u c]" "ue_agent (u c) = a"
        "ue_input (u c) = unat (input_tokens (lr_usage y))" for c
        by (rule that [of "\<lambda>c. \<lparr> ue_agent = a, ue_time = ti_usage_now T, ue_model = mc_model (mf_model m),
            ue_input = unat (input_tokens (lr_usage y)), ue_output = unat (output_tokens (lr_usage y)), ue_cost = c,
            ue_calls = lr_iterations y - 1 \<rparr>"]) (simp_all add: record_turn_def record_event_def healthy_def reliable_def)
      let ?c = "estimate_cost_with_catalog (ti_price ?T) (ti_lower ?T) (ti_catalog ?T) (mc_model (mf_model m)) (lr_usage y)"
      obtain r where r: "res = Inr r" "tu_response r = lr_response y" "tu_silent r = lr_silent y" "tu_usage r = lr_usage y"
        and us: "wd_usage w' = record_turn ?T a (mc_model (mf_model m)) y ?c (wd_usage w)"
        and ses: "wd_sessions w' (ae_session e) = Some (ls_history s, ls_label s)"
        using after Inr saved(2) by (simp add: after_turn_def out Let_def stored_session_def)
      have "last (ls_history s) = assistant_message (if tu_silent r then no_reply_text else tu_response r)"
        using saved(1) r by (auto simp: answer_ok_def split: if_splits)
      then show ?thesis using r us ses u [of ?c] by (auto simp: x)
    qed
  next
    case False
    then have "wd_usage w' = wd_usage w \<and> wd_canonical w' = wd_canonical w \<and> (\<exists>err. res = Inl err)"
      using x unfolding execute_llm_agent_def
      by (auto simp: hl bf Let_def m_def split: sum.splits option.splits)
    then show ?thesis by (auto simp: x)
  qed
qed

section \<open>What is lost\<close>

text \<open>
  C27: A turn that fails is not counted: whatever requests it made, neither the usage events nor the
  token counts of the scheduler change after the gate, so a turn that ends with too many
  iterations or a circuit break escapes the quota and the budget.
\<close>

theorem failed_turn_unmetered:
  "case send_message E T a msg w of
     (w', Inl err) \<Rightarrow> wd_usage w' = wd_usage w \<and> wd_canonical w' = wd_canonical w
       \<and> k_sched (wd_kernel w') = k_sched (fst (message_gate E (ti_tick T) a (wd_kernel w)))
   | (w', Inr r) \<Rightarrow> True"
proof -
  have kept_sched: "k_sched (snd (backfill_workspace E T a m k)) = k_sched k" for m k
    by (simp add: backfill_workspace_def Let_def)
  have exec: "wd_usage w1 = wd_usage w0 \<and> wd_canonical w1 = wd_canonical w0 \<and> k_sched (wd_kernel w1) = k_sched (wd_kernel w0)"
    if "execute_llm_agent E T a e msg w0 = (w1, Inl err)" for e and w0 w1 :: "('a, 'b, 'c, 'd) world" and err
    using that kept_sched [of "ae_manifest e" "wd_kernel w0"] unfolding execute_llm_agent_def after_turn_def
    by (auto simp: Let_def split: sum.splits option.splits prod.splits)
  obtain k g where gate: "message_gate E (ti_tick T) a (wd_kernel w) = (k, g)" by fastforce
  show ?thesis
  proof (cases g)
    case (Inl err)
    then show ?thesis by (simp add: send_message_def gate)
  next
    case (Inr p)
    obtain e kind where p: "p = (e, kind)" by fastforce
    define out where "out = (if kind = Llm_module then execute_llm_agent E T a e msg (w\<lparr> wd_kernel := k \<rparr>)
      else (w\<lparr> wd_kernel := k \<rparr>, ti_module T kind msg))"
    obtain w1 res where o: "out = (w1, res)" by fastforce
    have send: "send_message E T a msg w = (case out of
         (w, Inr r) \<Rightarrow> (w\<lparr> wd_kernel := message_done E (ti_done_tick T) (ti_now T) a
            (unat (input_tokens (tu_usage r)), unat (output_tokens (tu_usage r))) (tu_iterations r) (wd_kernel w) \<rparr>, Inr r)
       | (w, Inl err) \<Rightarrow> (w\<lparr> wd_kernel := message_failed E a (kernel_error_str err) (wd_kernel w) \<rparr>, Inl err))"
      by (simp add: send_message_def gate Inr p out_def)
    have kept: "wd_usage w1 = wd_usage w \<and> wd_canonical w1 = wd_canonical w \<and> k_sched (wd_kernel w1) = k_sched k" if "res = Inl err" for err
      using o that exec [of e "w\<lparr> wd_kernel := k \<rparr>" w1 err] by (auto simp: out_def split: if_splits)
    show ?thesis
    proof (cases res)
      case (Inl err)
      then show ?thesis using kept [OF Inl] by (simp add: send o gate message_failed_def audit_def Let_def)
    qed (simp add: send o)
  qed
qed

lemma length_removals: "length (foldr remove_at is xs) \<le> length xs"
proof (induction "is")
  case (Cons i "is")
  have "length (remove_at i (foldr remove_at is xs)) \<le> length (foldr remove_at is xs)" by (simp add: remove_at_def)
  then show ?case using Cons by simp
qed simp

text \<open>
  The canonical session misses messages of a turn when the turn pruned its session: the new
  messages are counted from the length the session had before, so as many of them are left out
  as old messages were removed.
\<close>

theorem pruned_turn_not_shared:
  assumes "length new \<le> 10"
  shows "new_messages (length old) (prune_heartbeat_turns (old @ new) 10)
    = (let removed = length (old @ new) - length (prune_heartbeat_turns (old @ new) 10)
       in if removed < length new then Some (drop removed new) else None)"
proof (cases "10 < length (old @ new)")
  case True
  let ?h = "prune_heartbeat_turns (old @ new) 10" and ?n = "length (old @ new)"
  obtain p where p: "?h = p @ drop (?n - 10) (old @ new)" using prune_keeps_recent [OF True] by blast
  have "drop (?n - 10) (old @ new) = drop (?n - 10) old @ new" using assms by simp
  then obtain q where q: "?h = q @ new" using p by (metis append.assoc)
  have "length ?h \<le> ?n"
    using length_removals [of _ "old @ new"] by (simp add: prune_heartbeat_turns_def Let_def)
  then have "length q \<le> length old" unfolding q by simp
  then show ?thesis unfolding q by (auto simp: new_messages_def Let_def)
next
  case False
  then have "prune_heartbeat_turns (old @ new) 10 = old @ new" by (simp add: prune_heartbeat_turns_def)
  then show ?thesis by (auto simp: new_messages_def Let_def)
qed

definition old_turns :: "message list" where
  "old_turns = [user_message ''ping'', assistant_message ''NO_REPLY'', user_message ''a'', assistant_message ''b'', user_message ''c'',
     assistant_message ''d'', user_message ''e'', assistant_message ''f'', user_message ''g'', assistant_message ''h'']"

definition new_turn :: "message list" where
  "new_turn = [user_message ''question'', assistant_message ''answer'']"

lemma pruned_turn_not_shared_witness:
  "new_messages (length old_turns) (prune_heartbeat_turns (old_turns @ new_turn) 10) = None"
proof -
  have "length (prune_heartbeat_turns (old_turns @ new_turn) 10) = 10" by code_simp
  moreover have "length new_turn = 2" "length old_turns = 10" by (simp_all add: new_turn_def old_turns_def)
  ultimately show ?thesis using pruned_turn_not_shared [of new_turn old_turns] by simp
qed

end
