(* ===== verification/Spec2Isabelle.thy ===== *)
theory Spec2Isabelle
  imports Repair_Theorems Loop_Guard_Theorems Circuit_Breaker_Theorems Audit_Theorems Tool_Policy Capability Approval_Theorems Patch_Theorems Workflow_Properties Trigger_Theorems Cron_Run Shell_Theorems Registry_Theorems Kernel_Witnesses Reply_Directives Context_Theorems Agent_Loop_Outcomes Llm_Driver_Theorems Kernel_Turn_Theorems
begin

text \<open>
  A verification library for RustyHand, an operating system for LLM agents written in Rust. The
  program is a set of crates under \<open>src/crates\<close>: \<open>types\<close> (shared data), \<open>memory\<close> (the SQLite store),
  \<open>runtime\<close> (the agent loop, its tools and their guards, drivers of model providers), \<open>kernel\<close>
  (agents, capabilities, scheduling, workflows, triggers, approvals, cron), \<open>channels\<close>, \<open>wire\<close>,
  \<open>api\<close>, \<open>cli\<close>, \<open>skills\<close> and \<open>extensions\<close>. A message enters through a channel, the API or the
  CLI; the kernel checks the quota of the agent and hands the turn to the runtime, which repairs
  the session, calls a provider behind a circuit breaker, executes the tool calls the model asks
  for under policy, capabilities, approvals, taint checks and the loop guard, and writes an audit
  log that is chained by hashes. The kernel starts turns of its own for cron jobs, triggers and
  workflows. This library models the parts that decide: what is allowed, repaired, counted,
  ordered, stored and restored.

  Reading conventions. A Rust struct is a record, an enum a datatype, a fallible function
  returns a sum whose \<open>Inl\<close> is the error. A Rust string is the list of its UTF-8 bytes
  (HOL's \<open>string\<close>); literals are ASCII. Machine integers whose wrap-around can be reached are words
  or carry their \<open>mod 2 ^ w\<close>; counters that cannot overflow in practice are \<open>nat\<close> or \<open>int\<close>. A map
  that is iterated is a table (an association list, so that the order of a hash map is an
  arbitrary but fixed parameter of every statement); a map that is only looked up is a function.
  Clocks, fresh ids, hashes, Unicode tables, regular expressions, JSON and TOML codecs, models,
  processes and the failures of I/O are arguments of the definitions that use them, never
  constants with an invented meaning; what a theorem needs of them is one of its hypotheses.
  Operations under a lock are atomic steps; where the code releases a lock between a check and
  an update the halves are steps of their own. Logging is left out.

  Theories, from the bottom up.

  \<^item> \<open>Rh_Prelude\<close> holds the lemmas and small functions all parts share (byte strings, tables,
    splitting, decimal printing), \<open>Rust_Text\<close> the UTF-8-safe cutting of \<open>types/src/text.rs\<close>,
    \<open>Rh_Error\<close> the error type of \<open>types/src/error.rs\<close>.

  \<^item> \<open>Message\<close>, \<open>Session_Repair\<close>, \<open>Repair_Correct\<close>, \<open>Repair_Theorems\<close>: the message types and
    \<open>runtime/src/session_repair.rs\<close>. Every phase of \<open>validate_and_repair\<close> is a function; the
    theorems state the invariants a provider demands of the result, that nothing but the
    documented is lost, and idempotence.

  \<^item> \<open>Hash_Encoding\<close>, \<open>Loop_Guard\<close>, \<open>Loop_Guard_Theorems\<close>: \<open>runtime/src/loop_guard.rs\<close> with its
    counters per call and outcome, the ping-pong detector and the global breaker.

  \<^item> \<open>Circuit_Breaker\<close>, \<open>Circuit_Breaker_Theorems\<close>: \<open>runtime/src/auth_cooldown.rs\<close>; when a provider
    is probed, how the cooldown grows, what a snapshot keeps.

  \<^item> \<open>Audit_Log\<close>, \<open>Audit_Theorems\<close>: \<open>runtime/src/audit.rs\<close>; the chain of hashes, its encoding,
    its file, tamper evidence and what a reopening restores.

  \<^item> \<open>Glob\<close>, \<open>Tool_Policy\<close>, \<open>Capability\<close>: the deny-wins rules of tools and the capability lattice.

  \<^item> \<open>Approval\<close>, \<open>Approval_Theorems\<close>: the approval manager as a transition system of requesting
    tasks, operators and timers.

  \<^item> \<open>Apply_Patch\<close>, \<open>Patch_Theorems\<close>: the patch tool's parser, its hunks and its application.

  \<^item> \<open>Exec_Sandbox\<close>, \<open>Shell_Tool\<close>, \<open>Shell_Theorems\<close>: the shell tool, the allowlist of commands, the
    environment of a child process, and taint tracking.

  \<^item> \<open>Workflow\<close>, \<open>Workflow_Theorems\<close>, \<open>Workflow_Properties\<close>: the workflow engine and the run of a
    workflow, with loops, fan-out, conditions, retries and the limits on stored runs.

  \<^item> \<open>Events\<close>, \<open>Triggers\<close>, \<open>Trigger_Theorems\<close>: events, the event bus, triggers and their file.

  \<^item> \<open>Cron_Job\<close>, \<open>Cron\<close>, \<open>Cron_Theorems\<close>, \<open>Cron_Run\<close>: the job types with their validation, the
    scheduler with its file, the tick that claims due jobs and the execution of a job.

  \<^item> \<open>Agent_Types\<close>, \<open>Agent_Registry\<close>, \<open>Registry_Theorems\<close>, \<open>Agent_Scheduler\<close>: the manifest and
    entry of an agent, the registry with its two indexes, usage, quotas and the supervisor.

  \<^item> \<open>Kernel_Agents\<close>, \<open>Kernel_Invariant\<close>, \<open>Kernel_Steps\<close>, \<open>Kernel_Theorems\<close>, \<open>Kernel_Restart\<close>,
    \<open>Kernel_Shutdown\<close>, \<open>Kernel_Witnesses\<close>: the life of an agent in the kernel, over the stored
    rows: spawn, kill, restart, saved settings, shutdown and boot. \<open>kernel_step\<close> is the step
    relation, \<open>kernel_ok\<close> its invariant.

  \<^item> \<open>Context_Budget\<close>, \<open>Context_Theorems\<close>: \<open>runtime/src/context_budget.rs\<close> and
    \<open>context_overflow.rs\<close>: what keeps a request in the context window, and what the stages of the
    recovery remove. \<open>Reply_Directives\<close>: \<open>runtime/src/reply_directives.rs\<close>.

  \<^item> \<open>Llm_Errors\<close>, \<open>Llm_Call\<close>: the errors of providers (\<open>llm_driver.rs\<close>, \<open>llm_errors.rs\<close>) and one
    call with its retries and the circuit breaker.

  \<^item> \<open>Agent_Loop\<close>, \<open>Agent_Loop_Theorems\<close>, \<open>Agent_Loop_Requests\<close>, \<open>Agent_Loop_Outcomes\<close>: one turn,
    \<open>runtime/src/agent_loop.rs\<close>: the bounds on its requests and tool executions, the pairing of
    tool uses and results in what it sends, the answer, and what it stores.

  \<^item> \<open>Model_Catalog\<close>, \<open>Llm_Drivers\<close>, \<open>Llm_Driver_Theorems\<close>, \<open>Model_Routing\<close>: the catalog
    (\<open>model_catalog.rs\<close>), the choice of a driver with its key and URL, chains of fallbacks
    (\<open>drivers/mod.rs\<close>, \<open>fallback.rs\<close>, \<open>mock.rs\<close>), and routing by complexity (\<open>routing.rs\<close>).

  \<^item> \<open>Tool_Dispatch\<close>, \<open>Tool_Dispatch_Theorems\<close>: \<open>execute_tool\<close> of \<open>runtime/src/tool_runner.rs\<close>: the
    gates in front of every tool, and which tool or server a name reaches.

  \<^item> \<open>Canonical_Session\<close> (\<open>memory/src/session.rs\<close>), \<open>Usage_Metering\<close> (\<open>memory/src/usage.rs\<close>,
    \<open>kernel/src/metering.rs\<close>), \<open>Kernel_Turn\<close>, \<open>Kernel_Turn_Theorems\<close>: a message to an agent from the
    kernel's side, from its spending gate over the agent loop to the stored session and the
    usage event; \<open>world\<close> is the state of the kernel with these stores.

  Groups of lemmas. Each component has an invariant or a reference definition, lemmas that every
  operation keeps it, and its properties, numbered C1 to C40, each followed by or paired with a
  witness that applies it to concrete values; several theorems are kept without a number. Locales
  state the interfaces that are shared: they are interpreted on the model's own operations.

  Bounds and fuel. Most loops are structural recursions or have a measure, so no fuel is chosen.
  Workflow loops and the agent loop carry the bound the code has (\<open>max_iterations\<close>), the retries of
  a call the attempts the code allows, and the poll loop that waits for a killed process is
  bounded by its deadline.

  Where the model is coarser than the code. The counters of the loop guard are \<open>nat\<close> (\<open>u32\<close> in the
  code) and so are the products of its thresholds: they differ only for configurations near 2^32.
  \<open>register_agent\<close> is one step in the sequences of operations although check and insertion take
  the lock separately; the halves are also given alone and a theorem shows their race. An
  execution of a workflow is one step; a caller's timeout that drops it midway is an operation of
  its own, which leaves the run \<open>Running\<close>. What tools do to the kernel and to the usage store
  during a turn (an agent that sends to or spawns another) is logged as an effect of
  \<open>execute_tool\<close> but not applied to the \<open>world\<close> of \<open>execute_llm_agent\<close>: the usage events of nested
  turns are not among those counted there. A run of kernel steps is a sequence: concurrent
  requests to one agent are not interleaved.

  Not modelled: the HTTP and WebSocket routes, the terminal interface and command line, the
  channel adapters, the HTTP clients of the model providers and their JSON forms, MCP and A2A
  connections, the browser, Docker, WASM and Python runtimes, web and media tools (external
  processes, services and libraries), the text of the system prompt, the summarising compactor,
  memory recall, SQL (the agents table, the usage events and the stored sessions are modelled as
  data; the other tables are not), the peer network, skills and extensions, and the desktop
  shell. The manifest of the library lists every part with its status and reason.
\<close>

end
